(* ===== verification/Prelude.thy ===== *)
theory Prelude
  imports Complex_Main "HOL-Library.AList" "HOL-Library.Multiset" "HOL-Library.Word"
    "HOL-Library.Product_Lexorder" "HOL-Library.List_Lexorder" "HOL-Library.Char_ord"
begin

text \<open>
  Shared vocabulary of the development: the Python exceptions the modelled code raises,
  Python's insertion-ordered dictionaries as association lists, clock values, and the generic
  list lemmas used by several components.

  A Python \<open>dict\<close> keeps the position of a key when its value is replaced and appends a new
  key at the end, which is what \<^term>\<open>AList.update\<close> does; \<open>d.pop(k, None)\<close> is
  \<^term>\<open>AList.delete\<close> and \<open>d.get(k)\<close> is \<^term>\<open>map_of\<close>. Python floats that carry
  clock readings and delays are read as rationals; float rounding is not modelled, float
  \emph{range} errors (\<open>OverflowError\<close>) are.
\<close>

section \<open>Errors, clocks, dictionaries\<close>

datatype py_error =
    ValueError
  | TypeError
  | KeyError
  | OverflowError
  | IntegrityError
  | FileNotFoundError
  | OSError
  | ChunkValidationError
  | AttributeError

type_synonym time = rat
type_synonym bytes = "8 word list"
type_synonym ('k, 'v) dict = "('k \<times> 'v) list"

abbreviation dget :: "('k, 'v) dict \<Rightarrow> 'k \<Rightarrow> 'v option" where
  "dget d k \<equiv> map_of d k"

abbreviation dput :: "'k \<Rightarrow> 'v \<Rightarrow> ('k, 'v) dict \<Rightarrow> ('k, 'v) dict" where
  "dput \<equiv> AList.update"

abbreviation dpop :: "'k \<Rightarrow> ('k, 'v) dict \<Rightarrow> ('k, 'v) dict" where
  "dpop \<equiv> AList.delete"

abbreviation dvalues :: "('k, 'v) dict \<Rightarrow> 'v list" where
  "dvalues d \<equiv> map snd d"

abbreviation dict_ok :: "('k, 'v) dict \<Rightarrow> bool" where
  "dict_ok d \<equiv> distinct (map fst d)"

text \<open>An operation on a state that may raise, leaving the state as it is then.\<close>

type_synonym ('a, 's) run = "py_error \<times> 's + 'a \<times> 's"

definition bind_run :: "('a, 's) run \<Rightarrow> ('a \<Rightarrow> 's \<Rightarrow> ('b, 's) run) \<Rightarrow> ('b, 's) run" where
  "bind_run r k = (case r of Inl e \<Rightarrow> Inl e | Inr (x, s) \<Rightarrow> k x s)"

lemma bind_run_simps [simp]: "bind_run (Inr (x, s)) k = k x s" "bind_run (Inl e) k = Inl e"
  by (simp_all add: bind_run_def)

definition dget_or :: "('k, 'v) dict \<Rightarrow> 'k \<Rightarrow> 'v \<Rightarrow> 'v" where
  "dget_or d k v = (case map_of d k of None \<Rightarrow> v | Some x \<Rightarrow> x)"

declare map_of_eq_Some_iff [simp del] Some_eq_map_of_iff [simp del]

named_theorems dict_laws \<open>lookup after an update or a removal\<close>
named_theorems inv_intros \<open>an operation keeps its component's invariant\<close>

lemma dget_dput [dict_laws]: "dget (dput k v d) k' = (if k' = k then Some v else dget d k')"
  by (simp add: update_conv')

lemma dget_dpop [dict_laws]: "dget (dpop k d) k' = (if k' = k then None else dget d k')"
  by (simp add: delete_conv')

lemma dget_or_dput [dict_laws]:
  "dget_or (dput k v d) k' w = (if k' = k then v else dget_or d k' w)"
  by (simp add: dget_or_def dict_laws)

lemma dget_or_dpop [dict_laws]:
  "dget_or (dpop k d) k' w = (if k' = k then w else dget_or d k' w)"
  by (simp add: dget_or_def dict_laws)

lemma dict_ok_dput [simp, intro]: "dict_ok d \<Longrightarrow> dict_ok (dput k v d)"
  by (rule distinct_update)

lemma dict_ok_dpop [simp, intro]: "dict_ok d \<Longrightarrow> dict_ok (dpop k d)"
  by (rule distinct_delete)

lemma dput_absent: "dget d k = None \<Longrightarrow> dput k v d = d @ [(k, v)]"
  by (induction d) (auto split: if_splits)

lemma dpop_filter: "dpop k d = filter (\<lambda>p. fst p \<noteq> k) d"
  by (induction d) auto

lemma dict_memD: "dict_ok d \<Longrightarrow> (k, v) \<in> set d \<longleftrightarrow> dget d k = Some v"
  by (metis map_of_eq_Some_iff)

lemma dict_ok_filter [simp, intro]: "dict_ok d \<Longrightarrow> dict_ok (filter P d)"
  by (rule distinct_map_filter)

lemma keys_map_values [simp]: "map fst (map (\<lambda>(k, v). (k, f v)) d) = map fst d"
  by (induction d) auto

lemma keys_map_values_comp [simp]: "map (fst \<circ> (\<lambda>(k, v). (k, f v))) d = map fst d"
  by (induction d) auto

lemma dget_map_values: "dget (map (\<lambda>(k, v). (k, f v)) d) k = map_option f (dget d k)"
  by (induction d) auto

lemma dget_filter_SomeD:
  assumes "dget (filter P d) k = Some v" and "dict_ok d"
  shows "dget d k = Some v \<and> P (k, v)"
  using assms(1) dict_memD [OF assms(2), of k v] map_of_SomeD [OF assms(1)] by simp

text \<open>Python's \<open>c * (2 ** e)\<close> for a float \<open>c\<close>: an int of more than 1024 bits has no float.\<close>

definition float_pow2 :: "nat \<Rightarrow> py_error + rat" where
  "float_pow2 e = (if e \<ge> 1024 then Inl OverflowError else Inr (2 ^ e))"

text \<open>A Python set as a list without duplicates, in insertion order.\<close>

definition set_add :: "'a \<Rightarrow> 'a list \<Rightarrow> 'a list" where
  "set_add x xs = (if x \<in> set xs then xs else xs @ [x])"

definition set_discard :: "'a \<Rightarrow> 'a list \<Rightarrow> 'a list" where
  "set_discard x xs = filter (\<lambda>y. y \<noteq> x) xs"

lemma set_set_add [simp]: "set (set_add x xs) = insert x (set xs)"
  by (auto simp: set_add_def)

lemma set_set_discard [simp]: "set (set_discard x xs) = set xs - {x}"
  by (auto simp: set_discard_def)

lemma distinct_set_add [simp]: "distinct (set_add x xs) = distinct xs"
  by (simp add: set_add_def)

section \<open>Counting and summing over the values of a dictionary\<close>

definition dcount :: "('v \<Rightarrow> bool) \<Rightarrow> ('k, 'v) dict \<Rightarrow> nat" where
  "dcount P d = length (filter P (dvalues d))"

lemma dcount_Nil [simp]: "dcount P [] = 0"
  by (simp add: dcount_def)

lemma dcount_Cons [simp]: "dcount P ((k, v) # d) = (if P v then 1 else 0) + dcount P d"
  by (simp add: dcount_def)

lemma dcount_dput_absent:
  "dget d k = None \<Longrightarrow> dcount P (dput k v d) = dcount P d + (if P v then 1 else 0)"
  by (simp add: dput_absent dcount_def)

lemma dcount_dpop:
  assumes "dict_ok d" and "dget d k = Some v"
  shows "dcount P (dpop k d) = dcount P d - (if P v then 1 else 0)"
  using assms
proof (induction d)
  case Nil
  then show ?case by simp
next
  case (Cons p d)
  obtain a b where p: "p = (a, b)" by (cases p)
  show ?case
  proof (cases "a = k")
    case True
    with Cons.prems p have "dpop k d = d" and "b = v" by auto
    with True p show ?thesis by simp
  next
    case False
    from Cons.prems p False have k: "dict_ok d" "dget d k = Some v" by auto
    from k(2) have "P v \<Longrightarrow> 0 < dcount P d"
      by (auto simp: dcount_def filter_empty_conv dest!: map_of_SomeD intro!: bexI [of _ "(k, v)"])
    with Cons.IH [OF k] False p show ?thesis by auto
  qed
qed

lemma dcount_pos: "dget d k = Some v \<Longrightarrow> P v \<Longrightarrow> 0 < dcount P d"
  by (auto simp: dcount_def filter_empty_conv dest!: map_of_SomeD intro!: bexI [of _ "(k, v)"])

lemma length_dpop: "dict_ok d \<Longrightarrow> dget d k = Some v \<Longrightarrow> Suc (length (dpop k d)) = length d"
  by (induction d) (auto split: if_splits)

lemma length_dput_present: "dget d k = Some w \<Longrightarrow> length (dput k v d) = length d"
  by (induction d) (auto split: if_splits)

lemma length_dput_absent: "dget d k = None \<Longrightarrow> length (dput k v d) = Suc (length d)"
  by (simp add: dput_absent)

definition dsum :: "('v \<Rightarrow> nat) \<Rightarrow> ('k, 'v) dict \<Rightarrow> nat" where
  "dsum f d = sum_list (map f (dvalues d))"

lemma dsum_Nil [simp]: "dsum f [] = 0"
  by (simp add: dsum_def)

lemma dsum_Cons [simp]: "dsum f ((k, v) # d) = f v + dsum f d"
  by (simp add: dsum_def)

lemma dsum_dput_absent: "dget d k = None \<Longrightarrow> dsum f (dput k v d) = dsum f d + f v"
  by (simp add: dput_absent dsum_def)

lemma dsum_dput_present:
  "dget d k = Some w \<Longrightarrow> dsum f (dput k v d) + f w = dsum f d + f v"
  by (induction d) (auto split: if_splits)

lemma dsum_dpop: "dict_ok d \<Longrightarrow> dget d k = Some v \<Longrightarrow> dsum f (dpop k d) + f v = dsum f d"
  by (induction d) (auto split: if_splits)

lemma dsum_dpop_le: "dsum f (dpop k d) \<le> dsum f d"
  by (induction d) auto

lemma dsum_ge: "dget d k = Some v \<Longrightarrow> f v \<le> dsum f d"
  by (induction d) (auto split: if_splits)

section \<open>Lists\<close>

lemma sum_list_filter_le: "sum_list (map f (filter P xs)) \<le> sum_list (map (f :: 'a \<Rightarrow> nat) xs)"
  by (induction xs) auto

lemma sum_list_drop_le: "sum_list (map f (drop n xs)) \<le> sum_list (map (f :: 'a \<Rightarrow> nat) xs)"
  by (metis append_take_drop_id map_append sum_list_append le_add2)

lemma sum_list_take_le: "sum_list (map f (take n xs)) \<le> sum_list (map (f :: 'a \<Rightarrow> nat) xs)"
  by (metis append_take_drop_id map_append sum_list_append le_add1)

lemma filter_twice: "filter P (filter P xs) = filter P xs"
  by simp

text \<open>Python's \<open>sorted(xs, key=k, reverse=True)\<close>: descending, and stable on equal keys.\<close>

definition sort_desc :: "('a \<Rightarrow> 'k::linorder) \<Rightarrow> 'a list \<Rightarrow> 'a list" where
  "sort_desc k xs = rev (sort_key k (rev xs))"

lemma set_sort_desc [simp]: "set (sort_desc k xs) = set xs"
  by (simp add: sort_desc_def)

lemma length_sort_desc [simp]: "length (sort_desc k xs) = length xs"
  by (simp add: sort_desc_def)

lemma mset_sort_desc [simp]: "mset (sort_desc k xs) = mset xs"
  by (simp add: sort_desc_def)

lemma sorted_sort_desc: "sorted (rev (map k (sort_desc k xs)))"
  by (simp add: sort_desc_def rev_map)

lemma set_take_mem: "x \<in> set (take n xs) \<Longrightarrow> x \<in> set xs"
  by (rule in_set_takeD)

lemma sort_desc_append_le:
  assumes "sort_desc f xs = ys @ zs" and "y \<in> set ys" and "z \<in> set zs"
  shows "f z \<le> f y"
proof -
  have "sorted (rev (map f (ys @ zs)))" using sorted_sort_desc [of f xs] assms(1) by simp
  then have "sorted (map f (rev zs) @ map f (rev ys))" by (simp add: rev_map)
  with assms(2,3) show ?thesis by (auto simp: sorted_append)
qed

text \<open>The first \<open>n\<close> of a descending sort are a best choice of \<open>n\<close>.\<close>

lemma take_sort_desc_best:
  assumes "x \<in> set xs" and "x \<notin> set (take n (sort_desc f xs))" and "y \<in> set (take n (sort_desc f xs))"
  shows "f x \<le> f y"
proof -
  have split: "sort_desc f xs = take n (sort_desc f xs) @ drop n (sort_desc f xs)" by simp
  have "x \<in> set (take n (sort_desc f xs) @ drop n (sort_desc f xs))" using assms(1) by simp
  with assms(2) have "x \<in> set (drop n (sort_desc f xs))" by (simp only: set_append) blast
  with sort_desc_append_le [OF split assms(3)] show ?thesis by blast
qed

lemma filter_map_filter:
  assumes "\<And>x. R x \<Longrightarrow> g' x = g x" and "\<And>x p. \<not> R x \<Longrightarrow> g x = Some p \<Longrightarrow> \<not> Q p"
  shows "filter Q (List.map_filter g' (filter R xs)) = filter Q (List.map_filter g xs)"
  using assms by (induction xs) (auto simp: map_filter_simps split: option.split)

lemma dget_filter_key: "dget (filter (\<lambda>p. fst p \<notin> A) d) k = (if k \<in> A then None else dget d k)"
  by (induction d) auto

lemma find_SomeD: "find P xs = Some x \<Longrightarrow> x \<in> set xs \<and> P x"
  by (induction xs) (auto split: if_splits)

end
