(* ===== verification/MessageQueue.thy ===== *)
theory MessageQueue
  imports Prelude
begin

text \<open>
  The per-peer LXMF message queue (\<open>retiboard/sync/message_queue.py\<close>): two FIFO tiers per
  peer, per-message expiry, eviction on depth overflow, and a global manager with a memory
  ceiling. A queue operation reads the clock once (\<open>now\<close>): that the clock advances while an
  operation runs is not modelled. Logging is left out.
\<close>

section \<open>Messages and peer queues\<close>

datatype priority = CONTROL | DATA

datatype send_result = SENT | QUEUED | REJECTED

definition send_ok :: "send_result \<Rightarrow> bool" where
  "send_ok r = (r \<noteq> REJECTED)"

record queued_message =
  qm_peer :: string
  qm_payload :: bytes
  qm_priority :: priority
  qm_title :: string
  qm_ttl :: time
  qm_enqueued_at :: time

definition size_bytes :: "queued_message \<Rightarrow> nat" where
  "size_bytes m = length (qm_payload m) + 128"

definition expired :: "time \<Rightarrow> queued_message \<Rightarrow> bool" where
  "expired now m = (now - qm_enqueued_at m > qm_ttl m)"

record peer_queue =
  pq_peer :: string
  pq_max_depth :: nat
  pq_control :: "queued_message list"
  pq_data :: "queued_message list"

definition new_peer_queue :: "string \<Rightarrow> nat \<Rightarrow> peer_queue" where
  "new_peer_queue h d = \<lparr>pq_peer = h, pq_max_depth = d, pq_control = [], pq_data = []\<rparr>"

definition pq_depth :: "peer_queue \<Rightarrow> nat" where
  "pq_depth q = length (pq_control q) + length (pq_data q)"

definition pq_total_bytes :: "peer_queue \<Rightarrow> nat" where
  "pq_total_bytes q =
     sum_list (map size_bytes (pq_control q)) + sum_list (map size_bytes (pq_data q))"

definition pq_empty :: "peer_queue \<Rightarrow> bool" where
  "pq_empty q = (pq_depth q = 0)"

text \<open>\<open>_sweep_expired\<close> returns the number of removed messages with the swept queue.\<close>

definition sweep_pq :: "time \<Rightarrow> peer_queue \<Rightarrow> nat \<times> peer_queue" where
  "sweep_pq now q =
     (let c = filter (\<lambda>m. \<not> expired now m) (pq_control q);
          d = filter (\<lambda>m. \<not> expired now m) (pq_data q)
      in ((length (pq_control q) - length c) + (length (pq_data q) - length d),
          q\<lparr>pq_control := c, pq_data := d\<rparr>))"

text \<open>The \<open>while self.depth >= self.max_depth\<close> loop of \<open>enqueue\<close>.\<close>

function evict :: "peer_queue \<Rightarrow> peer_queue" where
  "evict q =
     (if pq_depth q \<ge> pq_max_depth q then
        (case pq_data q of
           _ # ds \<Rightarrow> evict (q\<lparr>pq_data := ds\<rparr>)
         | [] \<Rightarrow>
             (case pq_control q of
                _ # cs \<Rightarrow> evict (q\<lparr>pq_control := cs\<rparr>)
              | [] \<Rightarrow> q))
      else q)"
  by pat_completeness auto
termination
  by (relation "measure pq_depth") (auto simp: pq_depth_def)

declare evict.simps [simp del]

definition append_tier :: "queued_message \<Rightarrow> peer_queue \<Rightarrow> peer_queue" where
  "append_tier m q =
     (if qm_priority m = CONTROL then q\<lparr>pq_control := pq_control q @ [m]\<rparr>
      else q\<lparr>pq_data := pq_data q @ [m]\<rparr>)"

definition enqueue :: "time \<Rightarrow> queued_message \<Rightarrow> peer_queue \<Rightarrow> bool \<times> peer_queue" where
  "enqueue now m q = (True, append_tier m (evict (snd (sweep_pq now q))))"

fun pop_live :: "time \<Rightarrow> queued_message list \<Rightarrow> queued_message option \<times> queued_message list" where
  "pop_live now [] = (None, [])"
| "pop_live now (m # ms) = (if \<not> expired now m then (Some m, ms) else pop_live now ms)"

definition dequeue :: "time \<Rightarrow> peer_queue \<Rightarrow> queued_message option \<times> peer_queue" where
  "dequeue now q =
     (case pop_live now (pq_control q) of
        (Some m, cs) \<Rightarrow> (Some m, q\<lparr>pq_control := cs\<rparr>)
      | (None, cs) \<Rightarrow>
          (case pop_live now (pq_data q) of
             (r, ds) \<Rightarrow> (r, q\<lparr>pq_control := cs, pq_data := ds\<rparr>)))"

definition drain_all :: "time \<Rightarrow> peer_queue \<Rightarrow> queued_message list \<times> peer_queue" where
  "drain_all now q =
     (filter (\<lambda>m. \<not> expired now m) (pq_control q) @ filter (\<lambda>m. \<not> expired now m) (pq_data q),
      q\<lparr>pq_control := [], pq_data := []\<rparr>)"

text \<open>\<open>requeue_batch\<close> walks the batch from its end and pushes each live message at the front.\<close>

fun requeue_rev :: "time \<Rightarrow> queued_message list \<Rightarrow> peer_queue \<Rightarrow> peer_queue" where
  "requeue_rev now [] q = q"
| "requeue_rev now (m # ms) q =
     (if expired now m then requeue_rev now ms q
      else if qm_priority m = CONTROL
      then requeue_rev now ms (q\<lparr>pq_control := m # pq_control q\<rparr>)
      else requeue_rev now ms (q\<lparr>pq_data := m # pq_data q\<rparr>))"

definition requeue_batch :: "time \<Rightarrow> queued_message list \<Rightarrow> peer_queue \<Rightarrow> peer_queue" where
  "requeue_batch now ms q = requeue_rev now (rev ms) q"

section \<open>The manager\<close>

definition QUEUE_MAX_DEPTH_PER_PEER :: nat where "QUEUE_MAX_DEPTH_PER_PEER = 32"
definition QUEUE_CONTROL_TTL :: time where "QUEUE_CONTROL_TTL = 300"
definition QUEUE_DATA_TTL :: time where "QUEUE_DATA_TTL = 3600"
definition QUEUE_MAX_TOTAL_MEMORY_MB :: nat where "QUEUE_MAX_TOTAL_MEMORY_MB = 16"

record mq_manager =
  mq_queues :: "(string, peer_queue) dict"
  mq_max_depth :: nat
  mq_max_total_bytes :: nat

definition new_manager :: "nat \<Rightarrow> nat \<Rightarrow> mq_manager" where
  "new_manager depth mb =
     \<lparr>mq_queues = [], mq_max_depth = depth, mq_max_total_bytes = mb * 1024 * 1024\<rparr>"

definition mq_total_bytes :: "mq_manager \<Rightarrow> nat" where
  "mq_total_bytes s = dsum pq_total_bytes (mq_queues s)"

definition total_depth :: "mq_manager \<Rightarrow> nat" where
  "total_depth s = dsum pq_depth (mq_queues s)"

definition peer_queue_depth :: "mq_manager \<Rightarrow> string \<Rightarrow> nat" where
  "peer_queue_depth s h = (case dget (mq_queues s) h of None \<Rightarrow> 0 | Some q \<Rightarrow> pq_depth q)"

definition has_queued :: "mq_manager \<Rightarrow> string \<Rightarrow> bool" where
  "has_queued s h = (case dget (mq_queues s) h of None \<Rightarrow> False | Some q \<Rightarrow> \<not> pq_empty q)"

definition get_queue :: "mq_manager \<Rightarrow> string \<Rightarrow> peer_queue" where
  "get_queue s h =
     (case dget (mq_queues s) h of None \<Rightarrow> new_peer_queue h (mq_max_depth s) | Some q \<Rightarrow> q)"

definition default_ttl :: "priority \<Rightarrow> time option \<Rightarrow> time" where
  "default_ttl p ttl =
     (case ttl of Some t \<Rightarrow> t
      | None \<Rightarrow> if p = CONTROL then QUEUE_CONTROL_TTL else QUEUE_DATA_TTL)"

definition queue_message ::
  "time \<Rightarrow> string \<Rightarrow> bytes \<Rightarrow> string \<Rightarrow> priority \<Rightarrow> time option \<Rightarrow> mq_manager \<Rightarrow> bool \<times> mq_manager" where
  "queue_message now h payload title p ttl s =
     (let m = \<lparr>qm_peer = h, qm_payload = payload, qm_priority = p, qm_title = title,
               qm_ttl = default_ttl p ttl, qm_enqueued_at = now\<rparr>
      in if mq_total_bytes s + size_bytes m > mq_max_total_bytes s then (False, s)
         else (case enqueue now m (get_queue s h) of
                 (ok, q) \<Rightarrow> (ok, s\<lparr>mq_queues := dput h q (mq_queues s)\<rparr>)))"

definition flush_peer :: "time \<Rightarrow> string \<Rightarrow> mq_manager \<Rightarrow> queued_message list \<times> mq_manager" where
  "flush_peer now h s =
     (case dget (mq_queues s) h of
        None \<Rightarrow> ([], s)
      | Some q \<Rightarrow>
          (if pq_empty q then ([], s)
           else (case drain_all now q of
                   (ms, q') \<Rightarrow>
                     (ms, s\<lparr>mq_queues :=
                              (if pq_empty q' then dpop h (mq_queues s)
                               else dput h q' (mq_queues s))\<rparr>))))"

definition requeue_failed :: "time \<Rightarrow> string \<Rightarrow> queued_message list \<Rightarrow> mq_manager \<Rightarrow> mq_manager" where
  "requeue_failed now h ms s =
     s\<lparr>mq_queues := dput h (requeue_batch now ms (get_queue s h)) (mq_queues s)\<rparr>"

definition sweep_expired :: "time \<Rightarrow> mq_manager \<Rightarrow> nat \<times> mq_manager" where
  "sweep_expired now s =
     (let swept = map (\<lambda>(h, q). (h, sweep_pq now q)) (mq_queues s)
      in (sum_list (map (\<lambda>(h, r). fst r) swept),
          s\<lparr>mq_queues := map (\<lambda>(h, r). (h, snd r)) (filter (\<lambda>(h, r). \<not> pq_empty (snd r)) swept)\<rparr>))"

section \<open>Facts about one peer queue\<close>

named_theorems pq_simps \<open>effect of the queue operations on the two tiers\<close>

lemma sweep_pq_simps [pq_simps]:
  "pq_control (snd (sweep_pq now q)) = filter (\<lambda>m. \<not> expired now m) (pq_control q)"
  "pq_data (snd (sweep_pq now q)) = filter (\<lambda>m. \<not> expired now m) (pq_data q)"
  "pq_max_depth (snd (sweep_pq now q)) = pq_max_depth q"
  "pq_peer (snd (sweep_pq now q)) = pq_peer q"
  by (simp_all add: sweep_pq_def Let_def)

lemma evict_eq:
  "evict q = q\<lparr>pq_control := drop (Suc (pq_depth q) - pq_max_depth q - length (pq_data q)) (pq_control q),
               pq_data := drop (Suc (pq_depth q) - pq_max_depth q) (pq_data q)\<rparr>"
proof (induction q rule: evict.induct)
  case (1 q)
  consider (fit) "\<not> pq_max_depth q \<le> pq_depth q"
    | (data) m ds where "pq_max_depth q \<le> pq_depth q" "pq_data q = m # ds"
    | (ctrl) m cs where "pq_max_depth q \<le> pq_depth q" "pq_data q = []" "pq_control q = m # cs"
    | (none) "pq_max_depth q \<le> pq_depth q" "pq_data q = []" "pq_control q = []"
    by (cases "pq_data q"; cases "pq_control q"; linarith?) auto
  then show ?case
  proof cases
    case fit
    then show ?thesis by (simp add: evict.simps [of q])
  next
    case data
    then have d: "pq_depth q = Suc (length (pq_control q) + length ds)"
      by (simp add: pq_depth_def)
    with data obtain k where k: "Suc (pq_depth q) - pq_max_depth q = Suc k"
      "k = Suc (length (pq_control q) + length ds) - pq_max_depth q"
      by (metis Suc_diff_le)
    have "evict q = evict (q\<lparr>pq_data := ds\<rparr>)"
      using data by (simp add: evict.simps [of q])
    also have "\<dots> = q\<lparr>pq_control := drop (k - length ds) (pq_control q), pq_data := drop k ds\<rparr>"
      using "1.IH"(2) [OF data(1) data(2)] k by (simp add: pq_depth_def)
    finally show ?thesis using data k by simp
  next
    case ctrl
    then have d: "pq_depth q = Suc (length cs)"
      by (simp add: pq_depth_def)
    with ctrl obtain k where k: "Suc (pq_depth q) - pq_max_depth q = Suc k"
      "k = Suc (length cs) - pq_max_depth q"
      by (metis Suc_diff_le)
    have "evict q = evict (q\<lparr>pq_control := cs\<rparr>)"
      using ctrl by (simp add: evict.simps [of q])
    also have "\<dots> = q\<lparr>pq_control := drop k cs, pq_data := []\<rparr>"
      using "1.IH"(1) [OF ctrl(1,2,3)] ctrl(2) k by (simp add: pq_depth_def)
    finally show ?thesis using ctrl k by simp
  next
    case none
    then show ?thesis by (simp add: evict.simps [of q])
  qed
qed

lemma evict_simps [pq_simps]:
  "pq_control (evict q) = drop (Suc (pq_depth q) - pq_max_depth q - length (pq_data q)) (pq_control q)"
  "pq_data (evict q) = drop (Suc (pq_depth q) - pq_max_depth q) (pq_data q)"
  "pq_max_depth (evict q) = pq_max_depth q"
  "pq_peer (evict q) = pq_peer q"
  by (simp_all add: evict_eq)

lemma append_tier_simps [pq_simps]:
  "pq_control (append_tier m q) = pq_control q @ (if qm_priority m = CONTROL then [m] else [])"
  "pq_data (append_tier m q) = pq_data q @ (if qm_priority m = CONTROL then [] else [m])"
  "pq_max_depth (append_tier m q) = pq_max_depth q"
  "pq_peer (append_tier m q) = pq_peer q"
  by (simp_all add: append_tier_def)

lemma depth_evict: "pq_depth (evict q) \<le> pq_max_depth q - 1"
  by (auto simp: pq_depth_def pq_simps)

lemma bytes_evict: "pq_total_bytes (evict q) \<le> pq_total_bytes q"
  by (simp add: pq_total_bytes_def pq_simps add_mono sum_list_drop_le)

lemma bytes_sweep: "pq_total_bytes (snd (sweep_pq now q)) \<le> pq_total_bytes q"
  by (simp add: pq_total_bytes_def pq_simps add_mono sum_list_filter_le)

lemma depth_sweep: "pq_depth (snd (sweep_pq now q)) \<le> pq_depth q"
  by (simp add: pq_depth_def pq_simps add_mono)

lemma depth_append: "pq_depth (append_tier m q) = Suc (pq_depth q)"
  by (simp add: pq_depth_def pq_simps)

lemma bytes_append: "pq_total_bytes (append_tier m q) = pq_total_bytes q + size_bytes m"
  by (simp add: pq_total_bytes_def pq_simps)

lemma enqueue_depth_le: "pq_depth (snd (enqueue now m q)) \<le> max 1 (pq_max_depth q)"
  using depth_evict [of "snd (sweep_pq now q)"]
  by (simp add: enqueue_def depth_append pq_simps)

lemma enqueue_cap: "pq_max_depth (snd (enqueue now m q)) = pq_max_depth q"
  by (simp add: enqueue_def pq_simps)

lemma enqueue_bytes_le: "pq_total_bytes (snd (enqueue now m q)) \<le> pq_total_bytes q + size_bytes m"
  using bytes_evict [of "snd (sweep_pq now q)"] bytes_sweep [of now q]
  by (simp add: enqueue_def bytes_append)

definition tiers_ok :: "peer_queue \<Rightarrow> bool" where
  "tiers_ok q \<longleftrightarrow>
     (\<forall>m \<in> set (pq_control q). qm_priority m = CONTROL) \<and>
     (\<forall>m \<in> set (pq_data q). qm_priority m = DATA)"

lemma priority_not_control [simp]: "p \<noteq> CONTROL \<longleftrightarrow> p = DATA"
  by (cases p) auto

lemma tiers_ok_enqueue [inv_intros]: "tiers_ok q \<Longrightarrow> tiers_ok (snd (enqueue now m q))"
  by (auto simp: tiers_ok_def enqueue_def pq_simps dest!: in_set_dropD split: if_splits)

lemma requeue_rev_eq:
  "requeue_rev now ms q =
     q\<lparr>pq_control := rev (filter (\<lambda>m. \<not> expired now m \<and> qm_priority m = CONTROL) ms) @ pq_control q,
       pq_data := rev (filter (\<lambda>m. \<not> expired now m \<and> qm_priority m = DATA) ms) @ pq_data q\<rparr>"
  by (induction ms arbitrary: q) auto

lemma requeue_batch_eq:
  "requeue_batch now ms q =
     q\<lparr>pq_control := filter (\<lambda>m. \<not> expired now m \<and> qm_priority m = CONTROL) ms @ pq_control q,
       pq_data := filter (\<lambda>m. \<not> expired now m \<and> qm_priority m = DATA) ms @ pq_data q\<rparr>"
  by (simp add: requeue_batch_def requeue_rev_eq rev_filter)

lemma tiers_ok_requeue [inv_intros]: "tiers_ok q \<Longrightarrow> tiers_ok (requeue_batch now ms q)"
  by (auto simp: tiers_ok_def requeue_batch_eq)

lemma pop_live_eq:
  "pop_live now ms =
     (case dropWhile (expired now) ms of [] \<Rightarrow> (None, []) | m # ms' \<Rightarrow> (Some m, ms'))"
  by (induction ms) auto

lemma filter_dropWhile: "filter (\<lambda>m. \<not> P m) (dropWhile P xs) = filter (\<lambda>m. \<not> P m) xs"
  by (induction xs) auto

section \<open>The interface the manager relies on\<close>

text \<open>
  A bounded queue promises that putting a message in grows its accounted size by at most that
  message and keeps its depth within its cap. The manager's accounting over a dictionary of
  queues follows from these laws alone.
\<close>

locale bounded_queue =
  fixes put :: "'m \<Rightarrow> 'q \<Rightarrow> 'q"
    and bytes :: "'q \<Rightarrow> nat"
    and depth :: "'q \<Rightarrow> nat"
    and cap :: "'q \<Rightarrow> nat"
    and size_of :: "'m \<Rightarrow> nat"
  assumes put_bytes: "bytes (put m q) \<le> bytes q + size_of m"
    and put_depth: "depth (put m q) \<le> max 1 (cap q)"
    and put_cap: "cap (put m q) = cap q"
begin

lemma total_after_put:
  assumes "bytes q0 = 0"
  shows "dsum bytes (dput h (put m (case dget d h of None \<Rightarrow> q0 | Some q \<Rightarrow> q)) d)
           \<le> dsum bytes d + size_of m"
proof (cases "dget d h")
  case None
  with assms put_bytes [of m q0] show ?thesis by (simp add: dsum_dput_absent)
next
  case (Some q)
  with put_bytes [of m q] dsum_dput_present [of d h q bytes "put m q"] show ?thesis by simp
qed

lemma depths_after_put:
  assumes all: "\<And>k q. dget d k = Some q \<Longrightarrow> cap q = c \<and> depth q \<le> max 1 c"
    and "cap q0 = c"
    and k: "dget (dput h (put m (case dget d h of None \<Rightarrow> q0 | Some q \<Rightarrow> q)) d) k = Some q'"
  shows "cap q' = c \<and> depth q' \<le> max 1 c"
proof (cases "k = h")
  case True
  let ?q = "case dget d h of None \<Rightarrow> q0 | Some q \<Rightarrow> q"
  have "cap ?q = c" using all assms(2) by (auto split: option.splits)
  with True k put_depth [of m ?q] put_cap [of m ?q] show ?thesis by (auto simp: dict_laws)
next
  case False
  with k all show ?thesis by (auto simp: dict_laws)
qed

end

interpretation pq: bounded_queue "\<lambda>m q. snd (enqueue now m q)" pq_total_bytes pq_depth
    pq_max_depth size_bytes for now
  by unfold_locales (rule enqueue_bytes_le enqueue_depth_le enqueue_cap)+

section \<open>The manager: steps and invariant\<close>

datatype mq_op =
    OpQueue string bytes string priority "time option"
  | OpFlush string
  | OpRequeue string "queued_message list"
  | OpSweep

fun mq_step :: "mq_manager \<Rightarrow> time \<times> mq_op \<Rightarrow> mq_manager" where
  "mq_step s (now, OpQueue h payload title p ttl) = snd (queue_message now h payload title p ttl s)"
| "mq_step s (now, OpFlush h) = snd (flush_peer now h s)"
| "mq_step s (now, OpRequeue h ms) = requeue_failed now h ms s"
| "mq_step s (now, OpSweep) = snd (sweep_expired now s)"

definition mq_run :: "mq_manager \<Rightarrow> (time \<times> mq_op) list \<Rightarrow> mq_manager" where
  "mq_run s ops = foldl mq_step s ops"

definition mq_bounded :: "mq_manager \<Rightarrow> bool" where
  "mq_bounded s \<longleftrightarrow>
     dict_ok (mq_queues s) \<and> mq_total_bytes s \<le> mq_max_total_bytes s \<and>
     (\<forall>h q. dget (mq_queues s) h = Some q \<longrightarrow>
        pq_max_depth q = mq_max_depth s \<and> pq_depth q \<le> max 1 (mq_max_depth s))"

lemma mq_bounded_new: "mq_bounded (new_manager d mb)"
  by (simp add: mq_bounded_def new_manager_def mq_total_bytes_def)

lemma bytes_new_pq [simp]: "pq_total_bytes (new_peer_queue h d) = 0"
  and cap_new_pq [simp]: "pq_max_depth (new_peer_queue h d) = d"
  and depth_new_pq [simp]: "pq_depth (new_peer_queue h d) = 0"
  by (simp_all add: new_peer_queue_def pq_total_bytes_def pq_depth_def)

lemma queue_message_bounded [inv_intros]:
  assumes inv: "mq_bounded s"
  shows "mq_bounded (snd (queue_message now h payload title p ttl s))"
proof -
  let ?m = "\<lparr>qm_peer = h, qm_payload = payload, qm_priority = p, qm_title = title,
             qm_ttl = default_ttl p ttl, qm_enqueued_at = now\<rparr>"
  let ?d = "mq_queues s"
  let ?d' = "dput h (snd (enqueue now ?m (get_queue s h))) ?d"
  have get: "get_queue s h =
      (case dget ?d h of None \<Rightarrow> new_peer_queue h (mq_max_depth s) | Some q \<Rightarrow> q)"
    by (simp add: get_queue_def)
  have bytes: "dsum pq_total_bytes ?d' \<le> dsum pq_total_bytes ?d + size_bytes ?m"
    unfolding get by (rule pq.total_after_put) simp
  have depths: "pq_max_depth q = mq_max_depth s \<and> pq_depth q \<le> max 1 (mq_max_depth s)"
    if "dget ?d' k = Some q" for k q
    using that unfolding get
    by (rule pq.depths_after_put [rotated 2]) (use inv in \<open>auto simp: mq_bounded_def\<close>)
  show ?thesis
    using inv bytes depths
    by (auto simp: queue_message_def mq_bounded_def mq_total_bytes_def Let_def split_beta)
qed

lemma flush_peer_bounded [inv_intros]:
  assumes inv: "mq_bounded s"
  shows "mq_bounded (snd (flush_peer now h s))"
  using inv dsum_dpop_le [of pq_total_bytes h "mq_queues s"]
  by (auto simp: flush_peer_def mq_bounded_def mq_total_bytes_def drain_all_def pq_empty_def
      pq_depth_def dict_laws split: option.splits if_splits)

lemma sweep_queues_eq:
  "mq_queues (snd (sweep_expired now s)) =
     filter (\<lambda>(h, q). \<not> pq_empty q) (map (\<lambda>(h, q). (h, snd (sweep_pq now q))) (mq_queues s))"
  by (simp add: sweep_expired_def Let_def filter_map o_def case_prod_beta map_map)

lemma dsum_sweep:
  "dsum pq_total_bytes (filter (\<lambda>(h, q). \<not> pq_empty q)
     (map (\<lambda>(h, q). (h, snd (sweep_pq now q))) d)) \<le> dsum pq_total_bytes d"
proof (induction d)
  case Nil
  then show ?case by simp
next
  case (Cons p d)
  obtain h q where "p = (h, q)" by (cases p)
  with Cons.IH bytes_sweep [of now q] show ?case by simp
qed

lemma sweep_get:
  assumes "dget (filter (\<lambda>(h, q). \<not> pq_empty q) (map (\<lambda>(h, q). (h, snd (sweep_pq now q))) d)) k = Some q'"
    and "dict_ok d"
  shows "\<exists>q. dget d k = Some q \<and> q' = snd (sweep_pq now q)"
  using dget_filter_SomeD [OF assms(1)] assms(2) by (force simp: dget_map_values)

lemma sweep_dict_ok:
  "dict_ok d \<Longrightarrow>
     dict_ok (filter (\<lambda>(h, q). \<not> pq_empty q) (map (\<lambda>(h, q). (h, snd (sweep_pq now q))) d))"
  by (rule dict_ok_filter) simp

lemma sweep_expired_bounded [inv_intros]:
  assumes inv: "mq_bounded s"
  shows "mq_bounded (snd (sweep_expired now s))"
proof -
  have frame: "mq_max_depth (snd (sweep_expired now s)) = mq_max_depth s"
    "mq_max_total_bytes (snd (sweep_expired now s)) = mq_max_total_bytes s"
    by (simp_all add: sweep_expired_def Let_def)
  have "pq_max_depth q' = mq_max_depth s \<and> pq_depth q' \<le> max 1 (mq_max_depth s)"
    if "dget (mq_queues (snd (sweep_expired now s))) k = Some q'" for k q'
  proof -
    from that inv obtain q where q: "dget (mq_queues s) k = Some q" "q' = snd (sweep_pq now q)"
      unfolding sweep_queues_eq mq_bounded_def by (blast dest: sweep_get)
    with inv have "pq_depth q \<le> max 1 (mq_max_depth s)" "pq_max_depth q = mq_max_depth s"
      by (auto simp: mq_bounded_def)
    with q depth_sweep [of now q] show ?thesis by (auto simp: pq_simps)
  qed
  with inv dsum_sweep [of now "mq_queues s"] sweep_dict_ok [of "mq_queues s" now] show ?thesis
    by (simp add: mq_bounded_def frame mq_total_bytes_def) (simp add: sweep_queues_eq)
qed

lemma mq_step_bounded:
  "mq_bounded s \<Longrightarrow> \<forall>h ms. op \<noteq> OpRequeue h ms \<Longrightarrow> mq_bounded (mq_step s (now, op))"
  by (cases op) (auto intro: inv_intros)

lemma mq_run_bounded:
  "mq_bounded s \<Longrightarrow> \<forall>now h ms. (now, OpRequeue h ms) \<notin> set ops \<Longrightarrow> mq_bounded (mq_run s ops)"
proof (induction ops arbitrary: s)
  case Nil
  then show ?case by (simp add: mq_run_def)
next
  case (Cons op ops)
  obtain now o' where op: "op = (now, o')" by (cases op)
  from Cons.prems op have "mq_bounded (mq_step s op)"
    by (auto intro!: mq_step_bounded)
  with Cons.IH Cons.prems(2) show ?case by (simp add: mq_run_def)
qed

section \<open>Properties\<close>

text \<open>Also: as long as nothing is re-enqueued after a failed flush, any sequence of
  queue, flush and sweep operations keeps the manager within its global memory ceiling and every
  peer queue within the per-peer depth cap (a cap of 0 still holds one message).\<close>

theorem manager_stays_bounded:
  assumes "\<forall>now h ms. (now, OpRequeue h ms) \<notin> set ops"
  shows "mq_total_bytes (mq_run (new_manager d mb) ops) \<le> mb * 1024 * 1024 \<and>
         (\<forall>h. peer_queue_depth (mq_run (new_manager d mb) ops) h \<le> max 1 d)"
proof -
  let ?s = "mq_run (new_manager d mb) ops"
  have frame_step: "mq_max_depth (mq_step s op) = mq_max_depth s \<and>
      mq_max_total_bytes (mq_step s op) = mq_max_total_bytes s" for s op
    by (cases op; cases "snd op")
      (auto simp: queue_message_def flush_peer_def requeue_failed_def sweep_expired_def Let_def
        split_beta split: option.splits)
  have frame: "mq_max_depth (mq_run s ops) = mq_max_depth s \<and>
      mq_max_total_bytes (mq_run s ops) = mq_max_total_bytes s" for s
    by (induction ops arbitrary: s) (simp_all add: mq_run_def frame_step)
  have "mq_bounded ?s" using assms by (intro mq_run_bounded mq_bounded_new) auto
  with frame [of "new_manager d mb"] show ?thesis
    by (auto simp: mq_bounded_def peer_queue_depth_def new_manager_def split: option.split)
qed

theorem manager_stays_bounded_witness:
  "mq_total_bytes (mq_run (new_manager 2 16)
     [(0, OpQueue ''aa'' [120] ''t'' DATA None), (1, OpQueue ''aa'' [121] ''t'' CONTROL None),
      (2, OpSweep), (3, OpFlush ''aa'')]) \<le> 16 * 1024 * 1024"
  using manager_stays_bounded [of
      "[(0, OpQueue ''aa'' [120] ''t'' DATA None), (1, OpQueue ''aa'' [121] ''t'' CONTROL None),
        (2, OpSweep), (3, OpFlush ''aa'')]" 2 16]
  by auto

text \<open>Also: what an enqueue leaves in the two tiers. Expired messages go first; then, of the
  \<open>k\<close> messages that have to make room, the oldest data messages are evicted, and control messages
  only for the part of \<open>k\<close> that exceeds the data tier; the new message is the last of its tier.\<close>

theorem enqueue_evicts_data_first:
  "let c = filter (\<lambda>m. \<not> expired now m) (pq_control q);
       d = filter (\<lambda>m. \<not> expired now m) (pq_data q);
       k = Suc (length c + length d) - pq_max_depth q;
       q' = snd (enqueue now m q)
   in pq_control q' = drop (k - length d) c @ (if qm_priority m = CONTROL then [m] else []) \<and>
      pq_data q' = drop k d @ (if qm_priority m = CONTROL then [] else [m])"
  by (simp add: Let_def enqueue_def pq_simps pq_depth_def)

text \<open>Also: draining a queue for a flush yields exactly what repeated \<open>dequeue\<close> calls yield at
  the same time: live control messages in FIFO order, then live data messages in FIFO order.\<close>

theorem drain_is_repeated_dequeue:
  "fst (drain_all now q) =
     (case dequeue now q of (None, _) \<Rightarrow> [] | (Some m, q') \<Rightarrow> m # fst (drain_all now q'))"
proof -
  have live: "dropWhile (expired now) ms = m # ms' \<Longrightarrow>
      \<not> expired now m \<and> filter (\<lambda>m. \<not> expired now m) ms = m # filter (\<lambda>m. \<not> expired now m) ms'"
    and dead: "dropWhile (expired now) ms = [] \<Longrightarrow> filter (\<lambda>m. \<not> expired now m) ms = []" for m ms ms'
    by (induction ms) (auto split: if_splits)
  show ?thesis
    by (auto simp: drain_all_def dequeue_def pop_live_eq split: list.splits dest!: live dead)
qed

text \<open>Also: a flush that fails and is re-enqueued at the same time gives back the queue as the
  expiry sweep leaves it, so a failed flush neither loses, duplicates nor reorders a live message.\<close>

theorem requeue_undoes_drain:
  assumes "tiers_ok q"
  shows "requeue_batch now (fst (drain_all now q)) (snd (drain_all now q)) = snd (sweep_pq now q)"
proof -
  have "filter (\<lambda>m. \<not> expired now m \<and> qm_priority m = CONTROL) (pq_control q) =
          filter (\<lambda>m. \<not> expired now m) (pq_control q)"
    and "filter (\<lambda>m. \<not> expired now m \<and> qm_priority m = DATA) (pq_data q) =
          filter (\<lambda>m. \<not> expired now m) (pq_data q)"
    and "filter (\<lambda>m. \<not> expired now m \<and> qm_priority m = CONTROL) (pq_data q) = []"
    and "filter (\<lambda>m. \<not> expired now m \<and> qm_priority m = DATA) (pq_control q) = []"
    using assms by (auto simp: tiers_ok_def filter_empty_conv intro!: filter_cong)
  then show ?thesis
    by (simp add: requeue_batch_eq drain_all_def sweep_pq_def Let_def conj_commute conj_left_commute)
qed

definition sample_msg :: "priority \<Rightarrow> time \<Rightarrow> queued_message" where
  "sample_msg p t = \<lparr>qm_peer = ''aa'', qm_payload = [120], qm_priority = p, qm_title = ''t'',
                     qm_ttl = 300, qm_enqueued_at = t\<rparr>"

theorem requeue_undoes_drain_witness:
  "let q = \<lparr>pq_peer = ''aa'', pq_max_depth = 4, pq_control = [sample_msg CONTROL 0],
            pq_data = [sample_msg DATA 1]\<rparr>
   in requeue_batch 2 (fst (drain_all 2 q)) (snd (drain_all 2 q)) = snd (sweep_pq 2 q)"
  unfolding Let_def
  by (rule requeue_undoes_drain) (simp add: tiers_ok_def sample_msg_def)

text \<open>Also: re-enqueueing after a failed flush enforces no limit: every live message of the
  batch is added and nothing is evicted, whatever the depth cap and the memory ceiling say.\<close>

theorem requeue_ignores_depth_cap:
  "pq_depth (requeue_batch now ms q) = pq_depth q + length (filter (\<lambda>m. \<not> expired now m) ms)"
proof -
  have "length (filter (\<lambda>m. \<not> expired now m) ms) =
      length (filter (\<lambda>m. \<not> expired now m \<and> qm_priority m = CONTROL) ms) +
      length (filter (\<lambda>m. \<not> expired now m \<and> qm_priority m = DATA) ms)"
    by (induction ms) auto
  then show ?thesis by (simp add: pq_depth_def requeue_batch_eq)
qed

end
