(* ===== verification/Sha256.thy ===== *)
theory Sha256
  imports Prelude
begin

text \<open>
  \<open>hashlib.sha256(data).hexdigest()\<close>, which names every payload, chunk and proof-of-work
  hash of the program: FIPS 180-4 SHA-256 over bytes, executable, and the lower-case hexadecimal
  digest with \<open>int(h, 16)\<close> reading it back.
\<close>

unbundle bit_operations_syntax

type_synonym w32 = "32 word"

definition rotr :: "nat \<Rightarrow> w32 \<Rightarrow> w32" where
  "rotr n x = drop_bit n x OR push_bit (32 - n) x"

definition K256 :: "w32 list" where
  "K256 = [
   1116352408, 1899447441, 3049323471, 3921009573,
   961987163, 1508970993, 2453635748, 2870763221,
   3624381080, 310598401, 607225278, 1426881987,
   1925078388, 2162078206, 2614888103, 3248222580,
   3835390401, 4022224774, 264347078, 604807628,
   770255983, 1249150122, 1555081692, 1996064986,
   2554220882, 2821834349, 2952996808, 3210313671,
   3336571891, 3584528711, 113926993, 338241895,
   666307205, 773529912, 1294757372, 1396182291,
   1695183700, 1986661051, 2177026350, 2456956037,
   2730485921, 2820302411, 3259730800, 3345764771,
   3516065817, 3600352804, 4094571909, 275423344,
   430227734, 506948616, 659060556, 883997877,
   958139571, 1322822218, 1537002063, 1747873779,
   1955562222, 2024104815, 2227730452, 2361852424,
   2428436474, 2756734187, 3204031479, 3329325298]"

definition H256 :: "w32 list" where
  "H256 = [1779033703, 3144134277, 1013904242, 2773480762,
   1359893119, 2600822924, 528734635, 1541459225]"

definition be32 :: "bytes \<Rightarrow> w32" where
  "be32 bs = foldl (\<lambda>a b. push_bit 8 a OR ucast b) 0 bs"

definition bytes_of32 :: "w32 \<Rightarrow> bytes" where
  "bytes_of32 x = [ucast (drop_bit 24 x), ucast (drop_bit 16 x), ucast (drop_bit 8 x), ucast x]"

definition sha_pad :: "bytes \<Rightarrow> bytes" where
  "sha_pad msg =
     (let n = length msg;
          z = (119 - n mod 64) mod 64;
          bits = (word_of_nat (8 * n) :: 64 word)
      in msg @ [0x80] @ replicate z 0 @
         bytes_of32 (ucast (drop_bit 32 bits)) @ bytes_of32 (ucast bits))"

fun chunks_of :: "nat \<Rightarrow> nat \<Rightarrow> 'a list \<Rightarrow> 'a list list" where
  "chunks_of 0 k xs = []"
| "chunks_of (Suc n) k xs = take k xs # chunks_of n k (drop k xs)"

text \<open>The message schedule is kept newest first: \<open>ws ! 0\<close> is the last word computed.\<close>

fun sha_extend :: "nat \<Rightarrow> w32 list \<Rightarrow> w32 list" where
  "sha_extend 0 ws = ws"
| "sha_extend (Suc n) ws =
     (let a = ws ! 14; b = ws ! 1;
          s0 = rotr 7 a XOR rotr 18 a XOR drop_bit 3 a;
          s1 = rotr 17 b XOR rotr 19 b XOR drop_bit 10 b
      in sha_extend n ((ws ! 15 + s0 + ws ! 6 + s1) # ws))"

definition sha_round :: "w32 \<Rightarrow> w32 \<Rightarrow> w32 list \<Rightarrow> w32 list" where
  "sha_round k w st =
     (let a = st ! 0; b = st ! 1; c = st ! 2; d = st ! 3;
          e = st ! 4; f = st ! 5; g = st ! 6; h = st ! 7;
          s1 = rotr 6 e XOR rotr 11 e XOR rotr 25 e;
          ch = (e AND f) XOR (NOT e AND g);
          t1 = h + s1 + ch + k + w;
          s0 = rotr 2 a XOR rotr 13 a XOR rotr 22 a;
          maj = (a AND b) XOR (a AND c) XOR (b AND c)
      in [t1 + s0 + maj, a, b, c, d + t1, e, f, g])"

definition sha_rounds :: "(w32 \<times> w32) list \<Rightarrow> w32 list \<Rightarrow> w32 list" where
  "sha_rounds kws st = foldl (\<lambda>st (k, w). sha_round k w st) st kws"

definition sha_block :: "w32 list \<Rightarrow> bytes \<Rightarrow> w32 list" where
  "sha_block st block =
     (let w16 = map be32 (chunks_of 16 4 block);
          ws = rev (sha_extend 48 (rev w16))
      in map2 (+) st (sha_rounds (zip K256 ws) st))"

definition sha256 :: "bytes \<Rightarrow> bytes" where
  "sha256 msg =
     (let p = sha_pad msg
      in concat (map bytes_of32 (foldl sha_block H256 (chunks_of (length p div 64) 64 p))))"

definition hex_digits :: string where "hex_digits = ''0123456789abcdef''"

definition hex_byte :: "8 word \<Rightarrow> string" where
  "hex_byte b = [hex_digits ! (unat b div 16), hex_digits ! (unat b mod 16)]"

definition hexdigest :: "bytes \<Rightarrow> string" where
  "hexdigest bs = concat (map hex_byte bs)"

definition sha256_hex :: "bytes \<Rightarrow> string" where
  "sha256_hex data = hexdigest (sha256 data)"

definition digit_val :: "char \<Rightarrow> nat" where
  "digit_val c =
     (let n = of_char c :: nat
      in if 48 \<le> n \<and> n \<le> 57 then n - 48 else if 97 \<le> n \<and> n \<le> 102 then n - 87 else n - 55)"

text \<open>\<open>int(s, 16)\<close> on a string of hexadecimal digits.\<close>

definition hex_int :: "string \<Rightarrow> nat" where
  "hex_int s = foldl (\<lambda>a c. 16 * a + digit_val c) 0 s"


section \<open>Digest lengths and range\<close>

lemma length_sha_rounds: "length st = 8 \<Longrightarrow> length (sha_rounds kws st) = 8"
  unfolding sha_rounds_def
  by (induction kws arbitrary: st) (auto simp: sha_round_def Let_def)

lemma length_sha_block: "length st = 8 \<Longrightarrow> length (sha_block st b) = 8"
  by (simp add: sha_block_def Let_def length_sha_rounds)

lemma length_foldl_sha_block: "length st = 8 \<Longrightarrow> length (foldl sha_block st bs) = 8"
  by (induction bs arbitrary: st) (simp_all add: length_sha_block)

lemma length_bytes_of32 [simp]: "length (bytes_of32 x) = 4"
  by (simp add: bytes_of32_def)

lemma length_concat_const: "(\<And>x. x \<in> set xs \<Longrightarrow> length (f x) = k) \<Longrightarrow> length (concat (map f xs)) = k * length xs"
  by (induction xs) auto

lemma length_sha256 [simp]: "length (sha256 msg) = 32"
  by (simp add: sha256_def Let_def length_concat_const length_foldl_sha_block H256_def)

lemma length_hexdigest [simp]: "length (hexdigest bs) = 2 * length bs"
  by (simp add: hexdigest_def length_concat_const hex_byte_def)

lemma length_sha256_hex [simp]: "length (sha256_hex d) = 64"
  by (simp add: sha256_hex_def)

lemma digit_val_hex: "n < 16 \<Longrightarrow> digit_val (hex_digits ! n) = n"
proof -
  assume "n < 16"
  then have "n \<in> set [0..<16]" by simp
  moreover have "\<forall>i \<in> set [0..<16]. digit_val (hex_digits ! i) = i" by code_simp
  ultimately show ?thesis by blast
qed

lemma hex_int_append2: "hex_int (xs @ [c, d]) = 256 * hex_int xs + 16 * digit_val c + digit_val d"
  by (simp add: hex_int_def)

lemma unat_byte_lt: "unat (b :: 8 word) < 256"
  using unsigned_less [where w = b] by simp

lemma hex_int_hexdigest: "hex_int (hexdigest bs) = foldl (\<lambda>a b. 256 * a + unat b) 0 bs"
proof (induction bs rule: rev_induct)
  case Nil
  then show ?case by (simp add: hex_int_def hexdigest_def)
next
  case (snoc b bs)
  have "hexdigest (bs @ [b]) = hexdigest bs @ [hex_digits ! (unat b div 16), hex_digits ! (unat b mod 16)]"
    by (simp add: hexdigest_def hex_byte_def)
  with snoc show ?case
    using unat_byte_lt [of b]
    by (simp add: hex_int_append2 digit_val_hex less_mult_imp_div_less)
qed

lemma be_value_lt: "foldl (\<lambda>a b. 256 * a + unat (b :: 8 word)) 0 bs < 256 ^ length bs"
proof (induction bs rule: rev_induct)
  case Nil
  then show ?case by simp
next
  case (snoc b bs)
  let ?v = "foldl (\<lambda>a b. 256 * a + unat (b :: 8 word)) 0 bs"
  from snoc have "Suc ?v \<le> 256 ^ length bs" by simp
  then have "256 * Suc ?v \<le> 256 * 256 ^ length bs" by (rule mult_le_mono2)
  with unat_byte_lt [of b] show ?case by simp
qed

lemma hex_int_sha256_lt: "hex_int (sha256_hex d) < 2 ^ 256"
proof -
  have "hex_int (sha256_hex d) < 256 ^ 32"
    using be_value_lt [of "sha256 d"] by (simp add: sha256_hex_def hex_int_hexdigest)
  moreover have "(256 :: nat) ^ 32 = 2 ^ 256" by (simp add: power_mult [symmetric, of 2 8 32, simplified])
  ultimately show ?thesis by simp
qed

end
