(* ===== verification/Json.thy ===== *)
theory Json
  imports Prelude
begin

text \<open>
  JSON values and \<open>json.dumps(v, separators=(",", ":"))\<close>, with and without
  \<open>sort_keys=True\<close>, as the proof-of-work preimage, the gossip packets and the delta batch limit
  use it. A Python string is a \<^typ>\<open>string\<close> of ASCII characters; numbers are integers (the
  modelled messages carry no floats).
\<close>

datatype json =
    JNull
  | JBool bool
  | JInt int
  | JStr string
  | JArr "json list"
  | JObj "(string \<times> json) list"

fun digits10 :: "nat \<Rightarrow> string" where
  "digits10 n =
     (if n < 10 then [char_of (48 + n)] else digits10 (n div 10) @ [char_of (48 + n mod 10)])"

declare digits10.simps [simp del]

definition int_str :: "int \<Rightarrow> string" where
  "int_str i = (if i < 0 then CHR ''-'' # digits10 (nat (- i)) else digits10 (nat i))"

definition hex4 :: "nat \<Rightarrow> string" where
  "hex4 n = map (\<lambda>k. ''0123456789abcdef'' ! (n div 16 ^ k mod 16)) [3, 2, 1, 0]"

text \<open>The escapes of \<open>json.encoder\<close> with \<open>ensure_ascii=True\<close>.\<close>

definition escape_char :: "char \<Rightarrow> string" where
  "escape_char c =
     (let n = of_char c :: nat
      in if n = 34 then [char_of (92::nat), char_of (34::nat)]
         else if n = 92 then [char_of (92::nat), char_of (92::nat)]
         else if n = 10 then char_of (92::nat) # ''n''
         else if n = 13 then char_of (92::nat) # ''r''
         else if n = 9 then char_of (92::nat) # ''t''
         else if n = 8 then char_of (92::nat) # ''b''
         else if n = 12 then char_of (92::nat) # ''f''
         else if n < 32 \<or> 126 < n then char_of (92::nat) # ''u'' @ hex4 n
         else [c])"

definition json_str :: "string \<Rightarrow> string" where
  "json_str s = [char_of (34::nat)] @ concat (map escape_char s) @ [char_of (34::nat)]"

fun join_comma :: "string list \<Rightarrow> string" where
  "join_comma [] = []"
| "join_comma [x] = x"
| "join_comma (x # y # ys) = x @ '','' @ join_comma (y # ys)"

fun dumps :: "bool \<Rightarrow> json \<Rightarrow> string" where
  "dumps srt JNull = ''null''"
| "dumps srt (JBool b) = (if b then ''true'' else ''false'')"
| "dumps srt (JInt i) = int_str i"
| "dumps srt (JStr s) = json_str s"
| "dumps srt (JArr vs) = ''['' @ join_comma (map (dumps srt) vs) @ '']''"
| "dumps srt (JObj kvs) =
     (let items = map (\<lambda>(k, v). (k, dumps srt v)) kvs;
          items' = (if srt then sort_key fst items else items)
      in ''{'' @ join_comma (map (\<lambda>(k, d). json_str k @ '':'' @ d) items') @ ''}'')"

text \<open>\<open>s.encode("utf-8")\<close> of an ASCII string.\<close>

definition utf8 :: "string \<Rightarrow> bytes" where
  "utf8 s = map (\<lambda>c. word_of_nat (of_char c)) s"

lemma length_utf8 [simp]: "length (utf8 s) = length s"
  by (simp add: utf8_def)

lemma dumps_example:
  "dumps True (JObj [(''b'', JInt (- 12)), (''a'', JArr [JStr ''x'', JBool True])]) =
     ''{'' @ [char_of (34::nat)] @ ''a'' @ [char_of (34::nat)] @ '':['' @ [char_of (34::nat)] @ ''x'' @
     [char_of (34::nat)] @ '',true],'' @ [char_of (34::nat)] @ ''b'' @ [char_of (34::nat)] @ '':-12}''"
  by code_simp

end
