(* ===== verification/Models.thy ===== *)
theory Models
  imports Json
begin

text \<open>
  The data models (\<open>retiboard/db/models.py\<close>): a board's announced configuration, the
  structural metadata of a post, and their wire dictionaries. Wire values are JSON values; a
  dataclass field carries the type its annotation declares. Python does not check annotations: an
  ill-typed wire value is outside the model and reads as \<^term>\<open>TypeError\<close>.
\<close>

section \<open>Reading a wire dictionary\<close>

definition bindE :: "py_error + 'a \<Rightarrow> ('a \<Rightarrow> py_error + 'b) \<Rightarrow> py_error + 'b" where
  "bindE r f = (case r of Inl e \<Rightarrow> Inl e | Inr x \<Rightarrow> f x)"

lemma bindE_Inr [simp]: "bindE (Inr x) f = f x"
  and bindE_Inl [simp]: "bindE (Inl e) f = Inl e"
  by (simp_all add: bindE_def)

type_synonym wire = "(string, json) dict"

fun as_str :: "json \<Rightarrow> py_error + string" where
  "as_str (JStr s) = Inr s"
| "as_str _ = Inl TypeError"

fun as_int :: "json \<Rightarrow> py_error + int" where
  "as_int (JInt i) = Inr i"
| "as_int _ = Inl TypeError"

fun as_bool :: "json \<Rightarrow> py_error + bool" where
  "as_bool (JBool b) = Inr b"
| "as_bool _ = Inl TypeError"

definition require :: "(json \<Rightarrow> py_error + 'a) \<Rightarrow> wire \<Rightarrow> string \<Rightarrow> py_error + 'a" where
  "require conv d k = (case dget d k of None \<Rightarrow> Inl KeyError | Some v \<Rightarrow> conv v)"

definition optional :: "(json \<Rightarrow> py_error + 'a) \<Rightarrow> wire \<Rightarrow> string \<Rightarrow> 'a \<Rightarrow> py_error + 'a" where
  "optional conv d k dflt = (case dget d k of None \<Rightarrow> Inr dflt | Some v \<Rightarrow> conv v)"

abbreviation "req_str \<equiv> require as_str"
abbreviation "req_int \<equiv> require as_int"
abbreviation "opt_str \<equiv> optional as_str"
abbreviation "opt_int \<equiv> optional as_int"
abbreviation "opt_bool \<equiv> optional as_bool"

fun strings_of :: "json list \<Rightarrow> string list" where
  "strings_of [] = []"
| "strings_of (JStr s # vs) = s # strings_of vs"
| "strings_of (v # vs) = strings_of vs"

definition pings_of :: "json option \<Rightarrow> string list" where
  "pings_of r = (case r of Some (JArr vs) \<Rightarrow> strings_of vs | _ \<Rightarrow> [])"

lemma strings_of_map_JStr [simp]: "strings_of (map JStr xs) = xs"
  by (induction xs) simp_all

section \<open>Boards\<close>

record board =
  b_board_id :: string
  b_display_name :: string
  b_text_only :: bool
  b_default_ttl_seconds :: int
  b_bump_decay_rate :: int
  b_max_active_threads_local :: int
  b_pow_difficulty :: int
  b_key_material :: string
  b_announce_version :: int
  b_peer_lxmf_hash :: string
  b_subscribed_at :: time

definition to_announce_dict :: "board \<Rightarrow> wire" where
  "to_announce_dict b =
     [(''b'', JStr (b_board_id b)), (''n'', JStr (b_display_name b)),
      (''km'', JStr (b_key_material b)), (''av'', JInt (b_announce_version b))] @
     (if b_text_only b then [(''to'', JBool True)] else []) @
     (if b_default_ttl_seconds b \<noteq> 43200 then [(''ttl'', JInt (b_default_ttl_seconds b))] else []) @
     (if b_bump_decay_rate b \<noteq> 3600 then [(''bdr'', JInt (b_bump_decay_rate b))] else []) @
     (if b_max_active_threads_local b \<noteq> 50
      then [(''mt'', JInt (b_max_active_threads_local b))] else []) @
     (if b_pow_difficulty b \<noteq> 0 then [(''pow'', JInt (b_pow_difficulty b))] else []) @
     (if b_peer_lxmf_hash b \<noteq> [] then [(''plh'', JStr (b_peer_lxmf_hash b))] else [])"

text \<open>The key names of one announce format, with its default announce version.\<close>

record announce_format =
  af_id :: string
  af_name :: string
  af_text_only :: string
  af_ttl :: string
  af_decay :: string
  af_max_threads :: string
  af_pow :: string
  af_key :: string
  af_version :: string
  af_lxmf :: string
  af_default_version :: int

definition short_format :: announce_format where
  "short_format = \<lparr>af_id = ''b'', af_name = ''n'', af_text_only = ''to'', af_ttl = ''ttl'',
     af_decay = ''bdr'', af_max_threads = ''mt'', af_pow = ''pow'', af_key = ''km'',
     af_version = ''av'', af_lxmf = ''plh'', af_default_version = 2\<rparr>"

definition long_format :: announce_format where
  "long_format = \<lparr>af_id = ''board_id'', af_name = ''display_name'', af_text_only = ''text_only'',
     af_ttl = ''default_ttl_seconds'', af_decay = ''bump_decay_rate'',
     af_max_threads = ''max_active_threads_local'', af_pow = ''pow_difficulty'',
     af_key = ''key_material'', af_version = ''announce_version'', af_lxmf = ''peer_lxmf_hash'',
     af_default_version = 1\<rparr>"

definition board_of_keys :: "announce_format \<Rightarrow> wire \<Rightarrow> time \<Rightarrow> py_error + board" where
  "board_of_keys f data now =
     bindE (req_str data (af_id f)) (\<lambda>bid.
     bindE (opt_str data (af_name f) []) (\<lambda>nm.
     bindE (opt_bool data (af_text_only f) False) (\<lambda>tx.
     bindE (opt_int data (af_ttl f) 43200) (\<lambda>ttl.
     bindE (opt_int data (af_decay f) 3600) (\<lambda>bdr.
     bindE (opt_int data (af_max_threads f) 50) (\<lambda>mt.
     bindE (opt_int data (af_pow f) 0) (\<lambda>pw.
     bindE (opt_str data (af_key f) []) (\<lambda>km.
     bindE (opt_int data (af_version f) (af_default_version f)) (\<lambda>av.
     bindE (opt_str data (af_lxmf f) []) (\<lambda>plh.
     Inr \<lparr>b_board_id = bid, b_display_name = nm, b_text_only = tx, b_default_ttl_seconds = ttl,
          b_bump_decay_rate = bdr, b_max_active_threads_local = mt, b_pow_difficulty = pw,
          b_key_material = km, b_announce_version = av, b_peer_lxmf_hash = plh,
          b_subscribed_at = now\<rparr>))))))))))"

definition from_announce_dict :: "time \<Rightarrow> wire \<Rightarrow> py_error + board" where
  "from_announce_dict now data =
     board_of_keys (if dget data ''b'' \<noteq> None then short_format else long_format) data now"

section \<open>Posts\<close>

record post =
  p_post_id :: string
  p_thread_id :: string
  p_parent_id :: string
  p_timestamp :: int
  p_expiry_timestamp :: int
  p_bump_flag :: bool
  p_content_hash :: string
  p_payload_size :: int
  p_attachment_content_hash :: string
  p_attachment_payload_size :: int
  p_has_attachments :: bool
  p_attachment_count :: int
  p_text_only :: bool
  p_identity_hash :: string
  p_pow_nonce :: string
  p_public_key :: string
  p_encrypted_pings :: "string list"
  p_edit_signature :: string
  p_thread_last_activity :: int
  p_is_abandoned :: bool

definition is_op :: "post \<Rightarrow> bool" where
  "is_op p = (p_post_id p = p_thread_id p)"

definition post_to_dict :: "post \<Rightarrow> wire" where
  "post_to_dict p =
     [(''post_id'', JStr (p_post_id p)),
      (''thread_id'', JStr (p_thread_id p)),
      (''parent_id'', JStr (p_parent_id p)),
      (''timestamp'', JInt (p_timestamp p)),
      (''bump_flag'', JBool (p_bump_flag p)),
      (''content_hash'', JStr (p_content_hash p)),
      (''payload_size'', JInt (p_payload_size p)),
      (''attachment_content_hash'', JStr (p_attachment_content_hash p)),
      (''attachment_payload_size'', JInt (p_attachment_payload_size p)),
      (''has_attachments'', JBool (p_has_attachments p)),
      (''attachment_count'', JInt (p_attachment_count p)),
      (''text_only'', JBool (p_text_only p)),
      (''identity_hash'', JStr (p_identity_hash p)),
      (''pow_nonce'', JStr (p_pow_nonce p)),
      (''public_key'', JStr (p_public_key p)),
      (''encrypted_pings'', JArr (map JStr (p_encrypted_pings p))),
      (''edit_signature'', JStr (p_edit_signature p)),
      (''thread_last_activity'', JInt (p_thread_last_activity p)),
      (''is_abandoned'', JBool (p_is_abandoned p))]"

definition post_from_dict :: "wire \<Rightarrow> int \<Rightarrow> py_error + post" where
  "post_from_dict data ttl =
     bindE (req_int data ''timestamp'') (\<lambda>v_timestamp.
     bindE (req_str data ''post_id'') (\<lambda>v_post_id.
     bindE (req_str data ''thread_id'') (\<lambda>v_thread_id.
     bindE (opt_str data ''parent_id'' []) (\<lambda>v_parent_id.
     bindE (opt_int data ''expiry_timestamp'' (v_timestamp + ttl)) (\<lambda>v_expiry_timestamp.
     bindE (opt_bool data ''bump_flag'' False) (\<lambda>v_bump_flag.
     bindE (req_str data ''content_hash'') (\<lambda>v_content_hash.
     bindE (opt_int data ''payload_size'' 0) (\<lambda>v_payload_size.
     bindE (opt_str data ''attachment_content_hash'' []) (\<lambda>v_attachment_content_hash.
     bindE (opt_int data ''attachment_payload_size'' 0) (\<lambda>v_attachment_payload_size.
     bindE (opt_bool data ''has_attachments'' False) (\<lambda>v_has_attachments.
     bindE (opt_int data ''attachment_count'' 0) (\<lambda>v_attachment_count.
     bindE (opt_bool data ''text_only'' False) (\<lambda>v_text_only.
     bindE (opt_str data ''identity_hash'' []) (\<lambda>v_identity_hash.
     bindE (opt_str data ''pow_nonce'' []) (\<lambda>v_pow_nonce.
     bindE (opt_str data ''public_key'' []) (\<lambda>v_public_key.
     bindE (opt_str data ''edit_signature'' []) (\<lambda>v_edit_signature.
     bindE (opt_int data ''thread_last_activity'' v_timestamp) (\<lambda>v_thread_last_activity.
     bindE (opt_bool data ''is_abandoned'' False) (\<lambda>v_is_abandoned.
     Inr \<lparr>p_post_id = v_post_id,
       p_thread_id = v_thread_id,
       p_parent_id = v_parent_id,
       p_timestamp = v_timestamp,
       p_expiry_timestamp = v_expiry_timestamp,
       p_bump_flag = v_bump_flag,
       p_content_hash = v_content_hash,
       p_payload_size = v_payload_size,
       p_attachment_content_hash = v_attachment_content_hash,
       p_attachment_payload_size = v_attachment_payload_size,
       p_has_attachments = v_has_attachments,
       p_attachment_count = v_attachment_count,
       p_text_only = v_text_only,
       p_identity_hash = v_identity_hash,
       p_pow_nonce = v_pow_nonce,
       p_public_key = v_public_key,
       p_encrypted_pings = pings_of (dget data ''encrypted_pings''),
       p_edit_signature = v_edit_signature,
       p_thread_last_activity = v_thread_last_activity,
       p_is_abandoned = v_is_abandoned\<rparr>)))))))))))))))))))"

section \<open>Thread summaries\<close>

record thread_summary =
  ts_thread_id :: string
  ts_op_post_id :: string
  ts_post_count :: nat
  ts_latest_post_timestamp :: int
  ts_thread_last_activity :: int
  ts_has_attachments :: bool
  ts_text_only :: bool
  ts_is_abandoned :: bool
  ts_op_content_hash :: string
  ts_op_payload_size :: int
  ts_op_attachment_content_hash :: string
  ts_op_attachment_payload_size :: int
  ts_op_attachment_count :: int
  ts_public_key :: string
  ts_op_identity_hash :: string
  ts_expiry_timestamp :: int

section \<open>Properties\<close>

text \<open>Also: a board survives the compact announce format: parsing what
  \<open>to_announce_dict\<close> wrote gives the same board, whichever fields were left out because they
  had their default value; only the local subscription time is the receiver's own.\<close>

theorem announce_roundtrip:
  "from_announce_dict now (to_announce_dict b) = Inr (b\<lparr>b_subscribed_at := now\<rparr>)"
proof -
  let ?d = "to_announce_dict b"
  have keys: "dget ?d ''b'' = Some (JStr (b_board_id b))"
    "dget ?d ''n'' = Some (JStr (b_display_name b))"
    "dget ?d ''km'' = Some (JStr (b_key_material b))"
    "dget ?d ''av'' = Some (JInt (b_announce_version b))"
    "dget ?d ''to'' = (if b_text_only b then Some (JBool True) else None)"
    "dget ?d ''ttl'' = (if b_default_ttl_seconds b \<noteq> 43200
        then Some (JInt (b_default_ttl_seconds b)) else None)"
    "dget ?d ''bdr'' = (if b_bump_decay_rate b \<noteq> 3600 then Some (JInt (b_bump_decay_rate b)) else None)"
    "dget ?d ''mt'' = (if b_max_active_threads_local b \<noteq> 50
        then Some (JInt (b_max_active_threads_local b)) else None)"
    "dget ?d ''pow'' = (if b_pow_difficulty b \<noteq> 0 then Some (JInt (b_pow_difficulty b)) else None)"
    "dget ?d ''plh'' = (if b_peer_lxmf_hash b \<noteq> [] then Some (JStr (b_peer_lxmf_hash b)) else None)"
    by (simp_all add: to_announce_dict_def)
  show ?thesis
    by (simp add: from_announce_dict_def board_of_keys_def short_format_def require_def optional_def keys
        split: if_split)
qed

text \<open>Also: a post survives the wire format: parsing what \<open>to_dict\<close> wrote gives the
  same post, except that the local-only expiry is recomputed from the receiver's board TTL.\<close>

theorem post_roundtrip:
  "post_from_dict (post_to_dict p) ttl = Inr (p\<lparr>p_expiry_timestamp := p_timestamp p + ttl\<rparr>)"
  by (simp add: post_from_dict_def post_to_dict_def require_def optional_def pings_of_def)

end
