(* ===== verification/Pow.thy ===== *)
theory Pow
  imports Sha256 Models
begin

text \<open>
  Proof of work over post metadata (\<open>retiboard/crypto/pow.py\<close>). Metadata is a Python dict with
  JSON values. \<open>secrets.token_hex(8)\<close> is an argument: the list of the nonces drawn, in order.
\<close>

definition POW_FIELDS :: "string list" where
  "POW_FIELDS =
    [''post_id'', ''thread_id'', ''parent_id'', ''timestamp'', ''bump_flag'', ''content_hash'',
     ''payload_size'', ''attachment_content_hash'', ''attachment_payload_size'',
     ''has_attachments'', ''attachment_count'', ''text_only'', ''identity_hash'', ''public_key'',
     ''encrypted_pings'', ''edit_signature'']"

definition canonical_value :: "string \<Rightarrow> json \<Rightarrow> json" where
  "canonical_value key v =
     (if key = ''encrypted_pings''
      then (case v of JArr vs \<Rightarrow> JArr (map JStr (sort (strings_of vs))) | _ \<Rightarrow> JArr [])
      else v)"

fun canonical_fields :: "string list \<Rightarrow> (string, json) dict \<Rightarrow> (string, json) dict" where
  "canonical_fields [] md = []"
| "canonical_fields (k # ks) md =
     (case dget md k of
        None \<Rightarrow> canonical_fields ks md
      | Some v \<Rightarrow> (k, canonical_value k v) # canonical_fields ks md)"

definition canonicalize_metadata :: "(string, json) dict \<Rightarrow> string" where
  "canonicalize_metadata md = dumps True (JObj (canonical_fields POW_FIELDS md))"

definition compute_pow_hash :: "string \<Rightarrow> string \<Rightarrow> string" where
  "compute_pow_hash canonical nonce = sha256_hex (utf8 (canonical @ nonce))"

text \<open>
  \<open>2 ** (256 - difficulty)\<close>: an integer up to difficulty 256, beyond it a Python float, which
  underflows to 0.0 below \<open>2 ** -1074\<close>.
\<close>

definition difficulty_target :: "int \<Rightarrow> rat" where
  "difficulty_target d =
     (if d \<le> 0 then 2 ^ 256
      else if d \<le> 256 then 2 ^ nat (256 - d)
      else if d \<le> 1330 then 1 / 2 ^ nat (d - 256)
      else 0)"

definition verify_pow :: "(string, json) dict \<Rightarrow> string \<Rightarrow> int \<Rightarrow> bool" where
  "verify_pow md nonce d =
     (if d \<le> 0 then True
      else of_nat (hex_int (compute_pow_hash (canonicalize_metadata md) nonce)) < difficulty_target d)"

fun pow_search :: "string \<Rightarrow> rat \<Rightarrow> string list \<Rightarrow> string option" where
  "pow_search canonical target [] = None"
| "pow_search canonical target (nonce # nonces) =
     (if of_nat (hex_int (compute_pow_hash canonical nonce)) < target then Some nonce
      else pow_search canonical target nonces)"

definition solve_pow :: "(string, json) dict \<Rightarrow> int \<Rightarrow> nat \<Rightarrow> string list \<Rightarrow> string option" where
  "solve_pow md d max_iterations draws =
     (if d \<le> 0 then Some []
      else pow_search (canonicalize_metadata md) (difficulty_target d) (take max_iterations draws))"

definition verify_content_hash :: "bytes \<Rightarrow> string \<Rightarrow> bool" where
  "verify_content_hash data expected = (sha256_hex data = expected)"

section \<open>Lemmas\<close>

lemma canonical_fields_cong:
  "(\<And>k. k \<in> set ks \<Longrightarrow> dget md k = dget md' k) \<Longrightarrow> canonical_fields ks md = canonical_fields ks md'"
  by (induction ks) (auto split: option.split)

lemma target_antimono: "d \<le> e \<Longrightarrow> difficulty_target e \<le> difficulty_target d"
proof -
  assume le: "d \<le> e"
  have p: "(2 :: rat) ^ m \<le> 2 ^ n" if "m \<le> n" for m n :: nat
    using that by (simp add: power_increasing)
  have q: "1 / (2 :: rat) ^ n \<le> 1 / 2 ^ m" if "m \<le> n" for m n :: nat
    using p [OF that] by (simp add: frac_le)
  have r: "1 / (2 :: rat) ^ n \<le> 2 ^ m" for m n :: nat
    by (rule order_trans [of _ 1]) simp_all
  obtain T :: rat where T: "T = 2 ^ 256" by blast
  have top: "2 ^ n \<le> T" if "n \<le> 256" for n :: nat
    unfolding T using that by (rule p)
  have below: "1 / 2 ^ n \<le> T" for n :: nat
    unfolding T by (rule r)
  have "0 \<le> T" unfolding T by (rule zero_le_power) simp
  with le show ?thesis
    unfolding difficulty_target_def T [symmetric] by (auto intro!: p q r top below)
qed

lemma pow_search_Some:
  "pow_search c t ns = Some n \<Longrightarrow>
     n \<in> set ns \<and> of_nat (hex_int (compute_pow_hash c n)) < t"
  by (induction ns) (auto split: if_splits)

lemma pow_search_None:
  "pow_search c t ns = None \<longleftrightarrow> (\<forall>n \<in> set ns. \<not> of_nat (hex_int (compute_pow_hash c n)) < t)"
  by (induction ns) auto

section \<open>Properties\<close>



text \<open>Also: the solver is sound and complete for its draws. With difficulty 0 it answers the
  empty nonce; otherwise it answers a nonce the verifier accepts, and answers nothing only when
  none of the first \<open>max_iterations\<close> draws would be accepted.\<close>

theorem solve_pow_correct:
  "case solve_pow md d n draws of
     Some nonce \<Rightarrow> verify_pow md nonce d
   | None \<Rightarrow> 0 < d \<and> (\<forall>nonce \<in> set (take n draws). \<not> verify_pow md nonce d)"
  by (auto simp: solve_pow_def verify_pow_def pow_search_None split: option.split
      dest: pow_search_Some)

theorem solve_pow_correct_witness:
  "case solve_pow [] 5 0 [''00''] of
     Some nonce \<Rightarrow> verify_pow [] nonce 5
   | None \<Rightarrow> 0 < (5 :: int) \<and> (\<forall>nonce \<in> set (take 0 [''00'']). \<not> verify_pow [] nonce 5)"
  by (rule solve_pow_correct)

lemma verify_pow_cong:
  "(\<And>k. k \<in> set POW_FIELDS \<Longrightarrow> dget md k = dget md' k) \<Longrightarrow> verify_pow md nonce d = verify_pow md' nonce d"
  by (simp add: verify_pow_def canonicalize_metadata_def cong: canonical_fields_cong)

text \<open>Also: a verdict depends only on the sixteen structural fields that enter the preimage, so
  a relay may rewrite the local-only fields (last activity, abandonment, expiry, the order of the
  dict) without invalidating the work; and work that is good for a difficulty is good for every
  lower one.\<close>

theorem verify_pow_stable:
  assumes "\<And>k. k \<in> set POW_FIELDS \<Longrightarrow> dget md k = dget md' k"
    and "e \<le> d" and "verify_pow md nonce d"
  shows "verify_pow md' nonce e"
proof -
  have "canonicalize_metadata md' = canonicalize_metadata md"
    using assms(1) by (simp add: canonicalize_metadata_def cong: canonical_fields_cong)
  with assms(2,3) target_antimono [of e d] show ?thesis
    by (auto simp: verify_pow_def)
qed

theorem verify_pow_stable_witness:
  "verify_pow [(''is_abandoned'', JBool True), (''post_id'', JStr ''p'')] ''00'' 0"
  by (rule verify_pow_stable [of "[(''post_id'', JStr ''p'')]" _ 0 0])
    (auto simp: POW_FIELDS_def verify_pow_def)

end
