(* ===== verification/Chunks.thy ===== *)
theory Chunks
  imports Sha256
begin

text \<open>
  Chunked transfer of encrypted blobs (\<open>retiboard/chunks/chunker.py\<close>, \<open>validator.py\<close>,
  \<open>reassembly.py\<close> and the manifest types of \<open>models.py\<close>). A blob is a byte list; the assembly
  file and the final path are byte lists that may be absent. Operating-system failures (disk
  full, permissions) are not modelled.
\<close>

section \<open>Manifests\<close>

datatype blob_kind = Text | Attachments

record manifest_entry =
  me_blob_hash :: string
  me_chunk_index :: nat
  me_offset :: nat
  me_size :: nat
  me_chunk_hash :: string

record manifest =
  mf_manifest_version :: int
  mf_board_id :: string
  mf_post_id :: string
  mf_thread_id :: string
  mf_blob_kind :: blob_kind
  mf_blob_hash :: string
  mf_blob_size :: nat
  mf_chunk_size :: int
  mf_chunk_count :: nat
  mf_merkle_root :: "string option"
  mf_created_at :: int

text \<open>The \<open>while offset < len(blob)\<close> loop; \<open>chunk_size\<close> is positive there. The loop body
  would not advance for chunk size 0, so the recursion is guarded by it.\<close>

function split_loop :: "bytes \<Rightarrow> nat \<Rightarrow> nat \<Rightarrow> (nat \<times> nat \<times> bytes) list" where
  "split_loop blob k off =
     (if off < length blob \<and> 0 < k then
        (let part = take k (drop off blob)
         in (off, length part, part) # split_loop blob k (off + length part))
      else [])"
  by pat_completeness auto
termination
  by (relation "measure (\<lambda>(blob, k, off). length blob - off)") auto

declare split_loop.simps [simp del]

definition split_encrypted_blob :: "bytes \<Rightarrow> int \<Rightarrow> py_error + (nat \<times> nat \<times> bytes) list" where
  "split_encrypted_blob blob chunk_size =
     (if chunk_size \<le> 0 then Inl ValueError else Inr (split_loop blob (nat chunk_size) 0))"

definition entry_of :: "string \<Rightarrow> nat \<times> nat \<times> nat \<times> bytes \<Rightarrow> manifest_entry" where
  "entry_of blob_hash x =
     (case x of (index, off, sz, chunk) \<Rightarrow>
        \<lparr>me_blob_hash = blob_hash, me_chunk_index = index, me_offset = off, me_size = sz,
         me_chunk_hash = sha256_hex chunk\<rparr>)"

definition build_chunk_manifest ::
  "string \<Rightarrow> string \<Rightarrow> string \<Rightarrow> blob_kind \<Rightarrow> bytes \<Rightarrow> int \<Rightarrow> int \<Rightarrow> string option \<Rightarrow> int \<Rightarrow>
   py_error + manifest \<times> manifest_entry list" where
  "build_chunk_manifest board_id post_id thread_id kind blob chunk_size version merkle now =
     (let blob_hash = sha256_hex blob
      in case split_encrypted_blob blob chunk_size of
           Inl e \<Rightarrow> Inl e
         | Inr chunks \<Rightarrow>
             (let entries = map (entry_of blob_hash) (zip [0..<length chunks] chunks)
              in Inr (\<lparr>mf_manifest_version = version, mf_board_id = board_id, mf_post_id = post_id,
                       mf_thread_id = thread_id, mf_blob_kind = kind, mf_blob_hash = blob_hash,
                       mf_blob_size = length blob, mf_chunk_size = chunk_size,
                       mf_chunk_count = length entries, mf_merkle_root = merkle,
                       mf_created_at = now\<rparr>, entries)))"

section \<open>Pre-validation\<close>

definition prevalidate ::
  "manifest \<Rightarrow> (nat, manifest_entry) dict \<Rightarrow> int \<Rightarrow> string \<Rightarrow> string \<Rightarrow> bytes \<Rightarrow> py_error + manifest_entry" where
  "prevalidate mf entries_by_index chunk_index peer assigned data =
     (if chunk_index < 0 \<or> chunk_index \<ge> int (mf_chunk_count mf) then Inl ChunkValidationError
      else if assigned \<noteq> [] \<and> peer \<noteq> assigned then Inl ChunkValidationError
      else case dget entries_by_index (nat chunk_index) of
          None \<Rightarrow> Inl ChunkValidationError
        | Some entry \<Rightarrow>
            (if length data \<noteq> me_size entry then Inl ChunkValidationError
             else if sha256_hex data \<noteq> me_chunk_hash entry then Inl ChunkValidationError
             else if me_offset entry + me_size entry > mf_blob_size mf then Inl ChunkValidationError
             else Inr entry))"

definition entries_by_index :: "manifest_entry list \<Rightarrow> (nat, manifest_entry) dict" where
  "entries_by_index es = map (\<lambda>e. (me_chunk_index e, e)) es"

section \<open>Reassembly\<close>

record assembly =
  as_temp :: "bytes option"
  as_blob_size :: nat
  as_chunk_count :: nat
  as_present :: "nat list"

definition new_assembly :: "nat \<Rightarrow> nat \<Rightarrow> assembly" where
  "new_assembly sz cnt =
     \<lparr>as_temp = None, as_blob_size = sz, as_chunk_count = cnt, as_present = []\<rparr>"

definition reserve :: "assembly \<Rightarrow> assembly" where
  "reserve a = a\<lparr>as_temp := Some (replicate (as_blob_size a) 0)\<rparr>"

text \<open>\<open>seek(offset); write(data)\<close>: bytes before the end are overwritten, a gap past the end reads
  as zeros.\<close>

definition write_at :: "nat \<Rightarrow> bytes \<Rightarrow> bytes \<Rightarrow> bytes" where
  "write_at off data file =
     (if data = [] then file
      else take off file @ replicate (off - length file) 0 @ data @ drop (off + length data) file)"

definition mark_present :: "nat \<Rightarrow> assembly \<Rightarrow> assembly" where
  "mark_present i a = a\<lparr>as_present := List.insert i (as_present a)\<rparr>"

definition write_verified_chunk :: "nat \<Rightarrow> nat \<Rightarrow> bytes \<Rightarrow> assembly \<Rightarrow> py_error + assembly" where
  "write_verified_chunk i off data a =
     (case as_temp a of
        None \<Rightarrow> Inl FileNotFoundError
      | Some file \<Rightarrow> Inr (mark_present i (a\<lparr>as_temp := Some (write_at off data file)\<rparr>)))"

definition read_chunk :: "nat \<Rightarrow> nat \<Rightarrow> assembly \<Rightarrow> bytes option" where
  "read_chunk off sz a =
     (case as_temp a of
        None \<Rightarrow> None
      | Some file \<Rightarrow>
          (let data = take sz (drop off file)
           in if length data \<noteq> sz then None else Some data))"

definition verify_chunk_on_disk :: "nat \<Rightarrow> nat \<Rightarrow> string \<Rightarrow> assembly \<Rightarrow> bool" where
  "verify_chunk_on_disk off sz expected a =
     (case read_chunk off sz a of None \<Rightarrow> False | Some data \<Rightarrow> sha256_hex data = expected)"

definition asm_complete :: "assembly \<Rightarrow> bool" where
  "asm_complete a = (length (as_present a) \<ge> as_chunk_count a)"

text \<open>\<open>finalize\<close> returns the assembly without its temp file and the content now at the final path.
  Hashing block by block is the hash of the whole file. The \<open>FileNotFoundError\<close> branch of
  \<open>os.replace\<close> needs a concurrent session to move the file between the hash and the rename, which
  a single operation on this state cannot show.\<close>

definition finalize :: "string \<Rightarrow> assembly \<Rightarrow> bytes option \<Rightarrow> py_error + assembly \<times> bytes option" where
  "finalize expected a final =
     (case as_temp a of
        None \<Rightarrow> Inl FileNotFoundError
      | Some file \<Rightarrow>
          (if sha256_hex file \<noteq> expected then Inl ValueError
           else Inr (a\<lparr>as_temp := None\<rparr>, Some file)))"

text \<open>Receiving chunks: each is pre-validated against the manifest and written where its entry says;
  the first invalid one stops the run with its error.\<close>

fun receive_chunks ::
  "manifest \<Rightarrow> (nat, manifest_entry) dict \<Rightarrow> (nat \<times> bytes) list \<Rightarrow> assembly \<Rightarrow> py_error + assembly" where
  "receive_chunks mf es [] a = Inr a"
| "receive_chunks mf es ((i, data) # rest) a =
     (case prevalidate mf es (int i) [] [] data of
        Inl e \<Rightarrow> Inl e
      | Inr entry \<Rightarrow>
          (case write_verified_chunk i (me_offset entry) data a of
             Inl e \<Rightarrow> Inl e
           | Inr a' \<Rightarrow> receive_chunks mf es rest a'))"

section \<open>Facts about splitting\<close>

text \<open>The reference splitting: chunk \<open>i\<close> is the \<open>i\<close>-th block of \<open>k\<close> bytes.\<close>

definition block_count :: "nat \<Rightarrow> nat \<Rightarrow> nat" where
  "block_count n k = (n + k - 1) div k"

definition block :: "bytes \<Rightarrow> nat \<Rightarrow> nat \<Rightarrow> nat \<times> nat \<times> bytes" where
  "block blob k i = (i * k, min k (length blob - i * k), take k (drop (i * k) blob))"

lemma block_count_0 [simp]: "0 < k \<Longrightarrow> block_count 0 k = 0"
  by (simp add: block_count_def)

lemma block_count_gt: "0 < k \<Longrightarrow> i < block_count n k \<longleftrightarrow> i * k < n"
proof -
  assume k: "0 < k"
  have "i < block_count n k \<longleftrightarrow> Suc i \<le> (n + k - 1) div k" by (simp add: block_count_def Suc_le_eq)
  also have "\<dots> \<longleftrightarrow> Suc i * k \<le> n + k - 1" using k by (rule less_eq_div_iff_mult_less_eq)
  also have "\<dots> \<longleftrightarrow> i * k + k \<le> n + k - 1" by (simp only: mult_Suc add.commute)
  also have "\<dots> \<longleftrightarrow> i * k < n"
  proof
    show "i * k + k \<le> n + k - 1 \<Longrightarrow> i * k < n" using k by linarith
    show "i * k < n \<Longrightarrow> i * k + k \<le> n + k - 1" by linarith
  qed
  finally show ?thesis .
qed

lemma split_loop_eq:
  assumes "0 < k"
  shows "split_loop blob k (i * k) = map (block blob k) [i..<block_count (length blob) k]"
proof (induction "block_count (length blob) k - i" arbitrary: i)
  case 0
  then have "\<not> i * k < length blob" using assms block_count_gt [of k i "length blob"] by simp
  with 0 show ?case by (simp add: split_loop.simps [of blob k])
next
  case (Suc d)
  then have lt: "i < block_count (length blob) k" by simp
  with assms have off: "i * k < length blob" by (simp add: block_count_gt)
  let ?part = "take k (drop (i * k) blob)"
  have rest: "split_loop blob k (i * k + length ?part) =
      map (block blob k) [Suc i..<block_count (length blob) k]"
  proof (cases "k \<le> length blob - i * k")
    case True
    then have "i * k + length ?part = Suc i * k" by simp
    moreover from Suc have "split_loop blob k (Suc i * k) =
        map (block blob k) [Suc i..<block_count (length blob) k]"
      by (intro Suc(1)) simp
    ultimately show ?thesis by (simp only:)
  next
    case False
    then have "i * k + length ?part = length blob" using off by simp
    moreover have "block_count (length blob) k \<le> Suc i"
      using False assms block_count_gt [of k "Suc i" "length blob"] by (auto simp: not_less [symmetric])
    ultimately show ?thesis by (simp add: split_loop.simps [of blob k])
  qed
  have "split_loop blob k (i * k) = (i * k, length ?part, ?part) # split_loop blob k (i * k + length ?part)"
    using off assms by (simp add: split_loop.simps [of blob k "i * k"] Let_def)
  also have "\<dots> = block blob k i # map (block blob k) [Suc i..<block_count (length blob) k]"
    using rest by (simp add: block_def min.commute)
  finally show ?case using lt by (simp add: upt_conv_Cons)
qed

lemma split_eq_blocks:
  "0 < k \<Longrightarrow> split_loop blob k 0 = map (block blob k) [0..<block_count (length blob) k]"
  using split_loop_eq [of k blob 0] by simp

lemma concat_blocks:
  assumes "0 < k"
  shows "concat (map (\<lambda>i. take k (drop (i * k) blob)) [0..<n]) = take (n * k) blob"
  by (induction n) (simp_all add: take_add [symmetric] add.commute)

section \<open>Facts about assembling\<close>

lemma length_write_at [simp]:
  "off + length data \<le> length fl \<Longrightarrow> length (write_at off data fl) = length fl"
  by (simp add: write_at_def)

lemma write_at_nth:
  assumes "off + length data \<le> length fl" and "j < length fl"
  shows "write_at off data fl ! j =
    (if off \<le> j \<and> j < off + length data then data ! (j - off) else fl ! j)"
  using assms by (auto simp: write_at_def nth_append)

text \<open>What a partly assembled file looks like: every chunk marked present is the blob's own.\<close>

definition assembled :: "bytes \<Rightarrow> nat \<Rightarrow> assembly \<Rightarrow> bool" where
  "assembled blob k a \<longleftrightarrow>
     distinct (as_present a) \<and>
     (\<exists>fl. as_temp a = Some fl \<and> length fl = length blob \<and>
        (\<forall>i \<in> set (as_present a). i < block_count (length blob) k) \<and>
        (\<forall>j < length blob. j div k \<in> set (as_present a) \<longrightarrow> fl ! j = blob ! j))"

lemma assembled_reserve: "assembled blob k (reserve (new_assembly (length blob) n))"
  by (simp add: assembled_def reserve_def new_assembly_def)

lemma block_bounds:
  assumes "0 < k" and "i < block_count (length blob) k"
  shows "i * k + length (take k (drop (i * k) blob)) \<le> length blob"
  using assms by (simp add: block_count_gt)

lemma in_block_iff:
  assumes "0 < k" and "j < length blob" and "i < block_count (length blob) k"
  shows "i * k \<le> j \<and> j < i * k + length (take k (drop (i * k) blob)) \<longleftrightarrow> j div k = i"
proof -
  have "i * k \<le> j \<and> j < i * k + length (take k (drop (i * k) blob)) \<longleftrightarrow> i * k \<le> j \<and> j < Suc i * k"
    using assms by (auto simp: block_count_gt)
  also have "\<dots> \<longleftrightarrow> j div k = i"
    using assms(1) by (metis div_less_iff_less_mult less_Suc_eq_le less_eq_div_iff_mult_less_eq le_antisym order_refl)
  finally show ?thesis .
qed

lemma assembled_write:
  assumes k: "0 < k" and a: "assembled blob k a" and i: "i < block_count (length blob) k"
  shows "\<exists>a'. write_verified_chunk i (i * k) (take k (drop (i * k) blob)) a = Inr a' \<and>
    assembled blob k a' \<and> set (as_present a') = insert i (set (as_present a))"
proof -
  let ?data = "take k (drop (i * k) blob)"
  from a obtain fl where fl: "as_temp a = Some fl" "length fl = length blob"
    "\<forall>i \<in> set (as_present a). i < block_count (length blob) k"
    "\<forall>j < length blob. j div k \<in> set (as_present a) \<longrightarrow> fl ! j = blob ! j"
    by (auto simp: assembled_def)
  let ?fl = "write_at (i * k) ?data fl"
  have fits: "i * k + length ?data \<le> length fl"
    using block_bounds [OF k i] fl(2) by simp
  have cont: "?fl ! j = blob ! j"
    if j: "j < length blob" "j div k = i \<or> j div k \<in> set (as_present a)" for j
  proof (cases "j div k = i")
    case True
    with in_block_iff [OF k j(1) i] have b: "i * k \<le> j" "j < i * k + length ?data" by blast+
    then have "?data ! (j - i * k) = blob ! j" using j(1) by simp
    with b show ?thesis using write_at_nth [OF fits, of j] fl(2) j(1) by simp
  next
    case False
    then have "\<not> (i * k \<le> j \<and> j < i * k + length ?data)"
      using in_block_iff [OF k j(1) i] by blast
    moreover have "fl ! j = blob ! j" using False j fl(4) by blast
    ultimately show ?thesis using write_at_nth [OF fits, of j] fl(2) j(1) by auto
  qed
  then have "assembled blob k (mark_present i (a\<lparr>as_temp := Some ?fl\<rparr>))"
    using a i fl fits by (auto simp: assembled_def mark_present_def)
  with fl show ?thesis by (auto simp: write_verified_chunk_def mark_present_def)
qed


lemma assembled_full:
  assumes k: "0 < k" and a: "assembled blob k a"
    and all: "\<forall>i < block_count (length blob) k. i \<in> set (as_present a)"
  shows "as_temp a = Some blob \<and> length (as_present a) = block_count (length blob) k"
proof -
  from a obtain fl where fl: "as_temp a = Some fl" "length fl = length blob"
    "\<forall>i \<in> set (as_present a). i < block_count (length blob) k"
    "\<forall>j < length blob. j div k \<in> set (as_present a) \<longrightarrow> fl ! j = blob ! j"
    by (auto simp: assembled_def)
  have "j div k < block_count (length blob) k" if "j < length blob" for j
    using that block_count_gt [OF k, of "j div k" "length blob"]
    by (simp add: le_less_trans [OF div_times_less_eq_dividend])
  with fl(2,4) all have "fl = blob" by (auto intro!: nth_equalityI)
  moreover have "set (as_present a) = {..<block_count (length blob) k}" using fl(3) all by auto
  with a have "length (as_present a) = block_count (length blob) k"
    by (metis assembled_def card_lessThan distinct_card)
  ultimately show ?thesis using fl(1) by simp
qed

lemma dget_entries:
  "i < length es \<Longrightarrow> (\<And>j. j < length es \<Longrightarrow> me_chunk_index (es ! j) = j) \<Longrightarrow>
     dget (entries_by_index es) i = Some (es ! i)"
proof -
  assume i: "i < length es" and idx: "\<And>j. j < length es \<Longrightarrow> me_chunk_index (es ! j) = j"
  have keys: "map fst (entries_by_index es) = [0..<length es]"
    using idx by (auto simp: entries_by_index_def intro!: nth_equalityI)
  have "(i, es ! i) \<in> set (entries_by_index es)"
    using i idx [of i] by (auto simp: entries_by_index_def intro!: image_eqI [of _ _ "es ! i"])
  then show ?thesis using dict_memD [of "entries_by_index es" i "es ! i"] keys by simp
qed

text \<open>What a built manifest says, in terms of the reference splitting.\<close>

lemma build_manifest_facts:
  assumes "build_chunk_manifest board_id post_id thread_id kind blob chunk_size v mr now = Inr (mf, es)"
  defines "k \<equiv> nat chunk_size"
  shows "0 < k" and "mf_blob_hash mf = sha256_hex blob" and "mf_blob_size mf = length blob"
    and "mf_chunk_count mf = block_count (length blob) k" and "length es = block_count (length blob) k"
    and "i < block_count (length blob) k \<Longrightarrow>
      es ! i = \<lparr>me_blob_hash = sha256_hex blob, me_chunk_index = i, me_offset = i * k,
                me_size = min k (length blob - i * k),
                me_chunk_hash = sha256_hex (take k (drop (i * k) blob))\<rparr>"
proof -
  show k: "0 < k"
    using assms by (auto simp: build_chunk_manifest_def split_encrypted_blob_def Let_def split: if_splits)
  have es: "es = map (entry_of (sha256_hex blob))
      (zip [0..<block_count (length blob) k] (map (block blob k) [0..<block_count (length blob) k]))"
    and mf: "mf_blob_hash mf = sha256_hex blob" "mf_blob_size mf = length blob" "mf_chunk_count mf = length es"
    using assms split_eq_blocks [OF k, of blob]
    by (auto simp: build_chunk_manifest_def split_encrypted_blob_def Let_def split: if_splits)
  show "mf_blob_hash mf = sha256_hex blob" "mf_blob_size mf = length blob" using mf by auto
  show len: "length es = block_count (length blob) k" by (simp add: es)
  with mf show "mf_chunk_count mf = block_count (length blob) k" by simp
  show "i < block_count (length blob) k \<Longrightarrow>
      es ! i = \<lparr>me_blob_hash = sha256_hex blob, me_chunk_index = i, me_offset = i * k,
                me_size = min k (length blob - i * k),
                me_chunk_hash = sha256_hex (take k (drop (i * k) blob))\<rparr>"
    by (simp add: es entry_of_def block_def)
qed

lemma prevalidate_own_chunk:
  assumes b: "build_chunk_manifest board_id post_id thread_id kind blob chunk_size v mr now = Inr (mf, es)"
    and i: "i < mf_chunk_count mf"
  defines "k \<equiv> nat chunk_size"
  shows "prevalidate mf (entries_by_index es) (int i) peer [] (take k (drop (i * k) blob)) = Inr (es ! i)"
proof -
  note f = build_manifest_facts [OF b, folded k_def]
  have i': "i < block_count (length blob) k" using i f(4) by simp
  have get: "dget (entries_by_index es) i = Some (es ! i)"
    using i' f(5,6) by (intro dget_entries) simp_all
  have "i * k + min k (length blob - i * k) \<le> length blob"
    using block_bounds [OF f(1) i'] by (simp add: min.commute)
  with get i f(3) f(6) [OF i'] show ?thesis by (simp add: prevalidate_def min.commute)
qed

lemma receive_own_chunks:
  assumes b: "build_chunk_manifest board_id post_id thread_id kind blob chunk_size v mr now = Inr (mf, es)"
  defines "k \<equiv> nat chunk_size"
  assumes "set is \<subseteq> {..<mf_chunk_count mf}" and "assembled blob k a"
  shows "\<exists>a'. receive_chunks mf (entries_by_index es) (map (\<lambda>i. (i, take k (drop (i * k) blob))) is) a = Inr a' \<and>
    assembled blob k a' \<and> set (as_present a') = set is \<union> set (as_present a)"
  using assms(3,4)
proof (induction "is" arbitrary: a)
  case Nil
  then show ?case by simp
next
  case (Cons i js)
  note f = build_manifest_facts [OF b, folded k_def]
  have i: "i < block_count (length blob) k" using Cons.prems(1) f(4) by simp
  from assembled_write [OF f(1) Cons.prems(2) i] obtain a1 where a1:
    "write_verified_chunk i (i * k) (take k (drop (i * k) blob)) a = Inr a1"
    "assembled blob k a1" "set (as_present a1) = insert i (set (as_present a))"
    by blast
  from Cons.IH [OF _ a1(2)] Cons.prems(1) obtain a2 where
    "receive_chunks mf (entries_by_index es) (map (\<lambda>i. (i, take k (drop (i * k) blob))) js) a1 = Inr a2"
    "assembled blob k a2" "set (as_present a2) = set js \<union> set (as_present a1)"
    by auto
  with a1 i f(4) f(6) [OF i] prevalidate_own_chunk [OF b, of i "[]", folded k_def] show ?case
    by auto
qed

lemma write_chunk_count: "write_verified_chunk i off data a = Inr a' \<Longrightarrow> as_chunk_count a' = as_chunk_count a"
  by (auto simp: write_verified_chunk_def mark_present_def split: option.splits)

lemma receive_chunk_count: "receive_chunks mf es xs a = Inr a' \<Longrightarrow> as_chunk_count a' = as_chunk_count a"
proof (induction xs arbitrary: a)
  case Nil
  then show ?case by simp
next
  case (Cons x xs)
  obtain i data where x: "x = (i, data)" by (cases x)
  from Cons.prems x obtain entry :: manifest_entry and a1 where "write_verified_chunk i (me_offset entry) data a = Inr a1"
    "receive_chunks mf es xs a1 = Inr a'"
    by (auto split: sum.splits)
  with Cons.IH write_chunk_count show ?case by metis
qed

section \<open>Properties\<close>

text \<open>Also: splitting an encrypted blob loses nothing. It fails exactly on a chunk size that
  is not positive; otherwise the parts, in order, are the consecutive blocks of \<open>chunk_size\<close>
  bytes with their offsets, there are \<open>ceil(len / chunk_size)\<close> of them, each reports its own length,
  and their concatenation is the blob.\<close>

theorem split_encrypted_blob_correct:
  "case split_encrypted_blob blob chunk_size of
     Inl e \<Rightarrow> e = ValueError \<and> chunk_size \<le> 0
   | Inr parts \<Rightarrow>
       0 < chunk_size \<and>
       parts = map (block blob (nat chunk_size)) [0..<block_count (length blob) (nat chunk_size)] \<and>
       concat (map (snd \<circ> snd) parts) = blob"
proof (cases "chunk_size \<le> 0")
  case True
  then show ?thesis by (simp add: split_encrypted_blob_def)
next
  case False
  let ?k = "nat chunk_size"
  have k: "0 < ?k" using False by simp
  have "length blob \<le> block_count (length blob) ?k * ?k"
    using block_count_gt [OF k, of "block_count (length blob) ?k" "length blob"] by simp
  then have "concat (map (\<lambda>i. take ?k (drop (i * ?k) blob)) [0..<block_count (length blob) ?k]) = blob"
    by (simp add: concat_blocks [OF k])
  with False split_eq_blocks [OF k, of blob] show ?thesis
    by (simp add: split_encrypted_blob_def o_def block_def)
qed

text \<open>Property C13: chunked transfer gives back the blob, whatever the arrival order. For the manifest
  built from a blob, receiving its chunks in any order that covers all indexes (duplicates included)
  passes every pre-validation, completes the buffer, and \<open>finalize\<close> against the manifest's blob
  hash commits exactly the original bytes and leaves no temp file.\<close>

theorem chunked_transfer_roundtrip:
  assumes b: "build_chunk_manifest board_id post_id thread_id kind blob chunk_size v mr now = Inr (mf, es)"
    and all: "set is = {..<mf_chunk_count mf}"
  shows "\<exists>a. receive_chunks mf (entries_by_index es)
           (map (\<lambda>i. (i, take (nat chunk_size) (drop (i * nat chunk_size) blob))) is)
           (reserve (new_assembly (mf_blob_size mf) (mf_chunk_count mf))) = Inr a \<and>
         asm_complete a \<and>
         finalize (mf_blob_hash mf) a final = Inr (a\<lparr>as_temp := None\<rparr>, Some blob)"
proof -
  let ?k = "nat chunk_size" and ?a0 = "reserve (new_assembly (mf_blob_size mf) (mf_chunk_count mf))"
  note f = build_manifest_facts [OF b]
  have a0: "assembled blob ?k ?a0" using assembled_reserve [of blob ?k "mf_chunk_count mf"] f(3) by simp
  have none: "set (as_present ?a0) = {}" by (simp add: reserve_def new_assembly_def)
  have "set is \<subseteq> {..<mf_chunk_count mf}" using all by simp
  from receive_own_chunks [OF b this a0] obtain a where a:
    "receive_chunks mf (entries_by_index es) (map (\<lambda>i. (i, take ?k (drop (i * ?k) blob))) is) ?a0 = Inr a"
    "assembled blob ?k a" "set (as_present a) = {..<mf_chunk_count mf}"
    unfolding none all Un_empty_right by blast
  have "as_temp a = Some blob \<and> length (as_present a) = block_count (length blob) ?k"
    using assembled_full [OF f(1) a(2)] a(3) f(4) by simp
  moreover have "as_chunk_count a = mf_chunk_count mf"
    using receive_chunk_count [OF a(1)] by (simp add: reserve_def new_assembly_def)
  ultimately show ?thesis using a(1) f(2,4) by (simp add: asm_complete_def finalize_def)
qed

theorem chunked_transfer_roundtrip_witness:
  "\<exists>mf es a. build_chunk_manifest ''b'' ''p'' ''t'' Text [1, 2, 3] 2 1 None 0 = Inr (mf, es) \<and>
     receive_chunks mf (entries_by_index es) [(1, [3]), (0, [1, 2]), (1, [3])]
       (reserve (new_assembly 3 2)) = Inr a \<and>
     finalize (mf_blob_hash mf) a None = Inr (a\<lparr>as_temp := None\<rparr>, Some [1, 2, 3])"
proof -
  obtain mf es where b: "build_chunk_manifest ''b'' ''p'' ''t'' Text [1, 2, 3] 2 1 None 0 = Inr (mf, es)"
    by (simp add: build_chunk_manifest_def split_encrypted_blob_def Let_def)
  note f = build_manifest_facts [OF b]
  have n: "mf_chunk_count mf = 2" "mf_blob_size mf = 3"
    using f(3,4) by (simp_all add: block_count_def)
  have "set [1, 0, 1] = {..<mf_chunk_count mf}" by (auto simp: n)
  from chunked_transfer_roundtrip [OF b this, of None] obtain a where a:
    "receive_chunks mf (entries_by_index es)
       (map (\<lambda>i. (i, take (nat 2) (drop (i * nat 2) [1, 2, 3]))) [1, 0, 1])
       (reserve (new_assembly (mf_blob_size mf) (mf_chunk_count mf))) = Inr a"
    "finalize (mf_blob_hash mf) a None = Inr (a\<lparr>as_temp := None\<rparr>, Some [1, 2, 3])"
    by blast
  have parts: "map (\<lambda>i. (i, take (nat 2) (drop (i * nat 2) [1, 2, 3 :: 8 word]))) [1, 0, 1] =
      [(1, [3]), (0, [1, 2]), (1, [3])]"
    by simp
  show ?thesis
    by (rule exI, rule exI, rule exI, rule conjI [OF b], rule conjI [OF a(1) [unfolded parts n] a(2)])
qed

text \<open>Also: nothing but the named blob is ever committed. If \<open>finalize\<close> succeeds then the
  content at the final path hashes to the expected blob hash and is the assembled file; a mismatch or a
  missing temp file is an error and commits nothing.\<close>

theorem finalize_commits_only_the_named_blob:
  "case finalize expected a final of
     Inr (a', committed) \<Rightarrow>
       (\<exists>data. committed = Some data \<and> as_temp a = Some data \<and> sha256_hex data = expected \<and> as_temp a' = None)
   | Inl e \<Rightarrow>
       (e = FileNotFoundError \<and> as_temp a = None) \<or>
       (e = ValueError \<and> (\<exists>data. as_temp a = Some data \<and> sha256_hex data \<noteq> expected))"
  by (simp add: finalize_def split: option.split)

text \<open>Also: a chunk is admitted exactly when its index is in range, its peer is the assigned one
  (if one is assigned), the manifest has an entry for it, and the bytes have the entry's size and
  hash and fit into the blob; every other case raises the validation error.\<close>

theorem prevalidate_admits_iff:
  "prevalidate mf es i peer assigned data = Inr entry \<longleftrightarrow>
     0 \<le> i \<and> i < int (mf_chunk_count mf) \<and> (assigned = [] \<or> peer = assigned) \<and>
     dget es (nat i) = Some entry \<and> length data = me_size entry \<and>
     sha256_hex data = me_chunk_hash entry \<and> me_offset entry + me_size entry \<le> mf_blob_size mf"
  by (auto simp: prevalidate_def split: option.splits)

end
