(* ===== verification/Swarm.thy ===== *)
theory Swarm
  imports Prelude
begin

text \<open>
  The multi-peer chunk scheduler \<open>SwarmFetcher\<close> (\<open>retiboard/chunks/swarm.py\<close>).
  \<open>uuid.uuid4().hex\<close> is read as a fresh number; the set \<open>active_request_ids\<close> is kept as a
  list, newest first (Python leaves the order open; only the order of the returned cancellations
  depends on it). Every operation reads the clock once. The penalties raise \<^term>\<open>OverflowError\<close>
  where Python's conversion of \<open>2 ** exponent\<close> to a float does; an operation that raises aborts
  the session's loop, and its partly updated state is not modelled.
\<close>

section \<open>State\<close>

datatype chunk_state =
    Missing | Scheduled | RequestEnqueued | Requested | Received | Prevalidated | Stored
  | Complete | Finalizing | TimedOut | RejectedInvalid | Cancelled | PeerCooldown

datatype priority_mode = Linear | Hybrid | RarestFirst

record swarm_peer =
  sp_hash :: string
  sp_timeout_count :: nat
  sp_invalid_chunk_count :: nat
  sp_success_count :: nat
  sp_cooldown_until :: time
  sp_in_flight :: nat

record swarm_chunk =
  sc_index :: nat
  sc_state :: chunk_state
  sc_attempt_count :: nat
  sc_stored :: bool
  sc_active :: "nat list"
  sc_successful_peer :: string

record request_plan =
  rp_id :: nat
  rp_peer :: string
  rp_chunk :: nat
  rp_timeout :: time
  rp_duplicate :: bool

record active_request =
  ar_id :: nat
  ar_peer :: string
  ar_chunk :: nat
  ar_deadline :: time
  ar_duplicate :: bool

record swarm =
  sw_mode :: priority_mode
  sw_max_total :: nat
  sw_max_per_peer :: nat
  sw_max_attempts :: nat
  sw_peers :: "(string, swarm_peer) dict"
  sw_chunks :: "(nat, swarm_chunk) dict"
  sw_requests :: "(nat, active_request) dict"
  sw_ranges :: "(string, (int \<times> int) list) dict"
  sw_recent_timeouts :: "active_request list"
  sw_next_id :: nat

definition new_peer :: "string \<Rightarrow> swarm_peer" where
  "new_peer h = \<lparr>sp_hash = h, sp_timeout_count = 0, sp_invalid_chunk_count = 0,
                 sp_success_count = 0, sp_cooldown_until = 0, sp_in_flight = 0\<rparr>"

definition new_chunk :: "nat \<Rightarrow> swarm_chunk" where
  "new_chunk i = \<lparr>sc_index = i, sc_state = Missing, sc_attempt_count = 0, sc_stored = False,
                  sc_active = [], sc_successful_peer = []\<rparr>"

definition update_peer_availability :: "string \<Rightarrow> (int \<times> int) list \<Rightarrow> swarm \<Rightarrow> swarm" where
  "update_peer_availability h rs s =
     (let clipped = map (\<lambda>(a, b). (max 0 a, min (int (length (sw_chunks s)) - 1) b)) rs;
          normalized = sort (filter (\<lambda>(a, b). \<not> b < a) clipped)
      in s\<lparr>sw_ranges := dput h normalized (sw_ranges s)\<rparr>)"

text \<open>\<open>None\<close> for the in-flight limits is the caller's default, which depends on the bandwidth.\<close>

definition new_swarm ::
  "string list \<Rightarrow> nat \<Rightarrow> int option \<Rightarrow> int option \<Rightarrow> int \<Rightarrow> priority_mode \<Rightarrow>
   (string \<times> (int \<times> int) list) list \<Rightarrow> bool \<Rightarrow> swarm" where
  "new_swarm peers chunk_count max_total max_per_peer max_attempts mode ranges low_bandwidth =
     (let total = (case max_total of None \<Rightarrow> if low_bandwidth then 3 else 10 | Some n \<Rightarrow> n);
          per_peer = (case max_per_peer of None \<Rightarrow> if low_bandwidth then 1 else 3 | Some n \<Rightarrow> n);
          s = \<lparr>sw_mode = mode, sw_max_total = nat (max 1 total),
               sw_max_per_peer = nat (max 1 per_peer), sw_max_attempts = nat (max 1 max_attempts),
               sw_peers = foldl (\<lambda>d h. dput h (new_peer h) d) [] (filter (\<lambda>h. h \<noteq> []) peers),
               sw_chunks = map (\<lambda>i. (i, new_chunk i)) [0..<chunk_count],
               sw_requests = [], sw_ranges = [], sw_recent_timeouts = [], sw_next_id = 0\<rparr>
      in foldl (\<lambda>s (h, rs). update_peer_availability h rs s) s ranges)"

section \<open>Queries\<close>

definition is_available :: "time \<Rightarrow> swarm_peer \<Rightarrow> bool" where
  "is_available now p = (now \<ge> sp_cooldown_until p)"

definition has_peer_availability :: "swarm \<Rightarrow> bool" where
  "has_peer_availability s = list_ex (\<lambda>rs. rs \<noteq> []) (dvalues (sw_ranges s))"

definition peer_has_chunk :: "swarm \<Rightarrow> string \<Rightarrow> nat \<Rightarrow> bool" where
  "peer_has_chunk s h i =
     (case dget (sw_ranges s) h of
        None \<Rightarrow> True
      | Some [] \<Rightarrow> True
      | Some rs \<Rightarrow> list_ex (\<lambda>(a, b). a \<le> int i \<and> int i \<le> b) rs)"

definition availability_count :: "time \<Rightarrow> swarm \<Rightarrow> nat \<Rightarrow> nat" where
  "availability_count now s i =
     length (filter (\<lambda>p. is_available now p \<and> peer_has_chunk s (sp_hash p) i) (dvalues (sw_peers s)))"

definition apply_persisted_peer_state :: "string \<Rightarrow> nat \<Rightarrow> nat \<Rightarrow> nat \<Rightarrow> time \<Rightarrow> swarm \<Rightarrow> swarm" where
  "apply_persisted_peer_state h t i sc cd s =
     (case dget (sw_peers s) h of
        None \<Rightarrow> s
      | Some p \<Rightarrow>
          s\<lparr>sw_peers := dput h
              (p\<lparr>sp_timeout_count := max (sp_timeout_count p) t,
                 sp_invalid_chunk_count := max (sp_invalid_chunk_count p) i,
                 sp_success_count := max (sp_success_count p) sc,
                 sp_cooldown_until := max (sp_cooldown_until p) cd\<rparr>) (sw_peers s)\<rparr>)"

record progress =
  pr_chunk_count :: nat
  pr_stored_chunks :: nat
  pr_requested_chunks :: nat
  pr_active_requests :: nat
  pr_peer_count :: nat
  pr_available_peers :: nat
  pr_cooled_down_peers :: nat
  pr_percent_complete :: nat
  pr_complete :: bool

definition progress_snapshot :: "time \<Rightarrow> swarm \<Rightarrow> progress" where
  "progress_snapshot now s =
     (let total = length (sw_chunks s);
          stored = dcount sc_stored (sw_chunks s);
          avail = dcount (is_available now) (sw_peers s)
      in \<lparr>pr_chunk_count = total, pr_stored_chunks = stored,
          pr_requested_chunks = dcount (\<lambda>c. sc_active c \<noteq> []) (sw_chunks s),
          pr_active_requests = length (sw_requests s), pr_peer_count = length (sw_peers s),
          pr_available_peers = avail, pr_cooled_down_peers = length (sw_peers s) - avail,
          pr_percent_complete = (if total > 0 then stored * 100 div total else 0),
          pr_complete = (stored = total \<and> total > 0)\<rparr>)"

definition active_peer_count :: "time \<Rightarrow> swarm \<Rightarrow> nat" where
  "active_peer_count now s = dcount (is_available now) (sw_peers s)"

definition is_complete :: "swarm \<Rightarrow> bool" where
  "is_complete s = list_all sc_stored (dvalues (sw_chunks s))"

definition is_endgame :: "time \<Rightarrow> swarm \<Rightarrow> bool" where
  "is_endgame now s =
     (dcount (\<lambda>c. \<not> sc_stored c) (sw_chunks s) \<le> max 2 (active_peer_count now s * 2))"

definition peer_order_key :: "swarm_peer \<Rightarrow> int \<times> nat \<times> nat \<times> string" where
  "peer_order_key p =
     (- int (sp_success_count p), sp_timeout_count p + sp_invalid_chunk_count p,
      sp_in_flight p, sp_hash p)"

definition timeout_penalty :: "nat \<Rightarrow> py_error + time" where
  "timeout_penalty n = map_sum id (\<lambda>x. min 180 (10 * x)) (float_pow2 (n - 1))"

definition invalid_penalty :: "nat \<Rightarrow> py_error + time" where
  "invalid_penalty n = map_sum id (\<lambda>x. min 600 (60 * x)) (float_pow2 (n - 1))"

section \<open>Choosing a chunk\<close>

definition ordered_chunks :: "time \<Rightarrow> swarm \<Rightarrow> swarm_chunk list" where
  "ordered_chunks now s =
     (let idxs = (if sw_mode s = RarestFirst \<and> has_peer_availability s
                  then sort_key (\<lambda>i. (availability_count now s i, i)) (map fst (sw_chunks s))
                  else sort (map fst (sw_chunks s)))
      in List.map_filter (dget (sw_chunks s)) idxs)"

definition wants_chunk :: "swarm \<Rightarrow> string \<Rightarrow> swarm_chunk \<Rightarrow> bool" where
  "wants_chunk s h c =
     (\<not> sc_stored c \<and> \<not> sc_attempt_count c \<ge> sw_max_attempts s \<and> peer_has_chunk s h (sc_index c))"

definition may_duplicate :: "swarm \<Rightarrow> string \<Rightarrow> swarm_chunk \<Rightarrow> bool" where
  "may_duplicate s h c =
     (case sc_active c of
        [rid] \<Rightarrow> (case dget (sw_requests s) rid of None \<Rightarrow> False | Some r \<Rightarrow> ar_peer r \<noteq> h)
      | _ \<Rightarrow> False)"

definition select_chunk_for_peer :: "time \<Rightarrow> swarm \<Rightarrow> string \<Rightarrow> (nat \<times> bool) option" where
  "select_chunk_for_peer now s h =
     (case find (\<lambda>c. wants_chunk s h c \<and> sc_active c = []) (ordered_chunks now s) of
        Some c \<Rightarrow> Some (sc_index c, False)
      | None \<Rightarrow>
          (if \<not> is_endgame now s then None
           else (case find (\<lambda>c. wants_chunk s h c \<and> may_duplicate s h c) (ordered_chunks now s) of
                   Some c \<Rightarrow> Some (sc_index c, True)
                 | None \<Rightarrow> None)))"

section \<open>Bookkeeping shared by the request outcomes\<close>

text \<open>\<open>peer = self.peers.get(h); if peer is not None: f(peer); if peer.in_flight > 0: peer.in_flight -= 1\<close>\<close>

definition release_peer :: "string \<Rightarrow> (swarm_peer \<Rightarrow> swarm_peer) \<Rightarrow> swarm \<Rightarrow> swarm" where
  "release_peer h f s =
     (case dget (sw_peers s) h of
        None \<Rightarrow> s
      | Some p \<Rightarrow> s\<lparr>sw_peers := dput h ((f p)\<lparr>sp_in_flight := sp_in_flight p - 1\<rparr>) (sw_peers s)\<rparr>)"

definition modify_chunk :: "nat \<Rightarrow> (swarm_chunk \<Rightarrow> swarm_chunk) \<Rightarrow> swarm \<Rightarrow> swarm" where
  "modify_chunk i f s =
     (case dget (sw_chunks s) i of
        None \<Rightarrow> s
      | Some c \<Rightarrow> s\<lparr>sw_chunks := dput i (f c) (sw_chunks s)\<rparr>)"

definition pop_request :: "nat \<Rightarrow> swarm \<Rightarrow> swarm" where
  "pop_request rid s = s\<lparr>sw_requests := dpop rid (sw_requests s)\<rparr>"

definition discard_active :: "nat \<Rightarrow> swarm_chunk \<Rightarrow> swarm_chunk" where
  "discard_active rid c = c\<lparr>sc_active := filter (\<lambda>x. x \<noteq> rid) (sc_active c)\<rparr>"

text \<open>\<open>if not chunk.stored and not chunk.active_request_ids: chunk.state = MISSING\<close>\<close>

definition missing_if_idle :: "swarm_chunk \<Rightarrow> swarm_chunk" where
  "missing_if_idle c = (if \<not> sc_stored c \<and> sc_active c = [] then c\<lparr>sc_state := Missing\<rparr> else c)"

section \<open>Outcomes of a request\<close>

definition mark_send_failed :: "request_plan \<Rightarrow> swarm \<Rightarrow> swarm" where
  "mark_send_failed plan s =
     modify_chunk (rp_chunk plan) (\<lambda>c. missing_if_idle (discard_active (rp_id plan) c))
       (release_peer (rp_peer plan) id (pop_request (rp_id plan) s))"

definition mark_request_sent :: "nat \<Rightarrow> swarm \<Rightarrow> swarm" where
  "mark_request_sent rid s =
     (case dget (sw_requests s) rid of
        None \<Rightarrow> s
      | Some r \<Rightarrow>
          modify_chunk (ar_chunk r) (\<lambda>c. if \<not> sc_stored c then c\<lparr>sc_state := Requested\<rparr> else c) s)"

definition deferred_chunk :: "nat \<Rightarrow> chunk_state \<Rightarrow> swarm_chunk \<Rightarrow> swarm_chunk" where
  "deferred_chunk rid st c =
     (let c1 = discard_active rid c;
          c2 = c1\<lparr>sc_attempt_count := sc_attempt_count c1 - 1\<rparr>
      in if sc_stored c2 then c2
         else if sc_active c2 \<noteq> [] then c2\<lparr>sc_state := Requested\<rparr>
         else c2\<lparr>sc_state := st\<rparr>)"

definition mark_request_deferred :: "nat \<Rightarrow> chunk_state \<Rightarrow> swarm \<Rightarrow> swarm" where
  "mark_request_deferred rid st s =
     (case dget (sw_requests s) rid of
        None \<Rightarrow> s
      | Some r \<Rightarrow>
          modify_chunk (ar_chunk r) (deferred_chunk rid st)
            (release_peer (ar_peer r) id (pop_request rid s)))"

fun cancel_siblings :: "nat list \<Rightarrow> nat \<Rightarrow> swarm \<Rightarrow> active_request list \<times> swarm" where
  "cancel_siblings [] rid s = ([], s)"
| "cancel_siblings (x # xs) rid s =
     (if x = rid then cancel_siblings xs rid s
      else (case dget (sw_requests s) x of
              None \<Rightarrow> cancel_siblings xs rid s
            | Some sib \<Rightarrow>
                (case cancel_siblings xs rid (release_peer (ar_peer sib) id (pop_request x s)) of
                   (cs, s') \<Rightarrow> (sib # cs, s'))))"

definition mark_chunk_stored :: "nat \<Rightarrow> swarm \<Rightarrow> active_request list \<times> swarm" where
  "mark_chunk_stored rid s =
     (case dget (sw_requests s) rid of
        None \<Rightarrow> ([], s)
      | Some r \<Rightarrow>
          (let s1 = release_peer (ar_peer r) (\<lambda>p. p\<lparr>sp_success_count := Suc (sp_success_count p)\<rparr>)
                      (pop_request rid s)
           in case dget (sw_chunks s1) (ar_chunk r) of
                None \<Rightarrow> ([], s1)
              | Some c \<Rightarrow>
                  cancel_siblings (sc_active c) rid
                    (s1\<lparr>sw_chunks := dput (ar_chunk r)
                         (c\<lparr>sc_stored := True, sc_successful_peer := ar_peer r, sc_state := Stored,
                            sc_active := []\<rparr>) (sw_chunks s1)\<rparr>)))"

definition mark_invalid :: "time \<Rightarrow> nat \<Rightarrow> swarm \<Rightarrow> py_error + swarm" where
  "mark_invalid now rid s =
     (case dget (sw_requests s) rid of
        None \<Rightarrow> Inr s
      | Some r \<Rightarrow>
          (let s1 = pop_request rid s;
               chunk_part = modify_chunk (ar_chunk r) (\<lambda>c. missing_if_idle (discard_active rid c))
           in case dget (sw_peers s) (ar_peer r) of
                None \<Rightarrow> Inr (chunk_part s1)
              | Some p \<Rightarrow>
                  (case invalid_penalty (Suc (sp_invalid_chunk_count p)) of
                     Inl e \<Rightarrow> Inl e
                   | Inr pen \<Rightarrow>
                       Inr (chunk_part (release_peer (ar_peer r)
                         (\<lambda>p. p\<lparr>sp_invalid_chunk_count := Suc (sp_invalid_chunk_count p),
                                sp_cooldown_until := max (sp_cooldown_until p) (now + pen)\<rparr>) s1)))))"

definition cancelled_chunk :: "nat \<Rightarrow> swarm_chunk \<Rightarrow> swarm_chunk" where
  "cancelled_chunk rid c =
     (let c1 = discard_active rid c
      in if sc_stored c1 then c1
         else if sc_active c1 \<noteq> [] then c1\<lparr>sc_state := Requested\<rparr>
         else c1\<lparr>sc_state := Cancelled\<rparr>)"

definition mark_cancelled :: "nat \<Rightarrow> swarm \<Rightarrow> swarm" where
  "mark_cancelled rid s =
     (case dget (sw_requests s) rid of
        None \<Rightarrow> s
      | Some r \<Rightarrow>
          modify_chunk (ar_chunk r) (cancelled_chunk rid)
            (release_peer (ar_peer r) id (pop_request rid s)))"

definition time_out_request :: "time \<Rightarrow> nat \<Rightarrow> swarm \<Rightarrow> py_error + swarm" where
  "time_out_request now rid s =
     (case dget (sw_requests s) rid of
        None \<Rightarrow> Inr s
      | Some r \<Rightarrow>
          (let s1 = (pop_request rid s)\<lparr>sw_recent_timeouts := sw_recent_timeouts s @ [r]\<rparr>;
               chunk_part = modify_chunk (ar_chunk r) (\<lambda>c. missing_if_idle (discard_active rid c))
           in case dget (sw_peers s) (ar_peer r) of
                None \<Rightarrow> Inr (chunk_part s1)
              | Some p \<Rightarrow>
                  (case timeout_penalty (Suc (sp_timeout_count p)) of
                     Inl e \<Rightarrow> Inl e
                   | Inr pen \<Rightarrow>
                       Inr (chunk_part (release_peer (ar_peer r)
                         (\<lambda>p. p\<lparr>sp_timeout_count := Suc (sp_timeout_count p),
                                sp_cooldown_until := max (sp_cooldown_until p) (now + pen)\<rparr>) s1)))))"

fun time_out_all :: "time \<Rightarrow> nat list \<Rightarrow> swarm \<Rightarrow> py_error + swarm" where
  "time_out_all now [] s = Inr s"
| "time_out_all now (rid # rids) s =
     (case time_out_request now rid s of Inl e \<Rightarrow> Inl e | Inr s' \<Rightarrow> time_out_all now rids s')"

definition expired_ids :: "time \<Rightarrow> swarm \<Rightarrow> nat list" where
  "expired_ids now s = map fst (filter (\<lambda>(rid, r). ar_deadline r \<le> now) (sw_requests s))"

definition process_timeouts :: "time \<Rightarrow> swarm \<Rightarrow> py_error + nat \<times> swarm" where
  "process_timeouts now s =
     map_sum id (Pair (length (expired_ids now s)))
       (time_out_all now (expired_ids now s) (s\<lparr>sw_recent_timeouts := []\<rparr>))"

definition take_recent_timeouts :: "swarm \<Rightarrow> active_request list \<times> swarm" where
  "take_recent_timeouts s = (sw_recent_timeouts s, s\<lparr>sw_recent_timeouts := []\<rparr>)"

definition can_make_progress :: "swarm \<Rightarrow> bool" where
  "can_make_progress s =
     (if is_complete s \<or> sw_requests s \<noteq> [] then True
      else list_ex (\<lambda>c. \<not> sc_stored c \<and> sc_attempt_count c < sw_max_attempts s) (dvalues (sw_chunks s)))"

section \<open>Planning\<close>

definition issue_request :: "time \<Rightarrow> (nat \<Rightarrow> time) \<Rightarrow> string \<Rightarrow> nat \<Rightarrow> bool \<Rightarrow> swarm \<Rightarrow> request_plan \<times> swarm" where
  "issue_request now tmo h i dup s =
     (let rid = sw_next_id s;
          plan = \<lparr>rp_id = rid, rp_peer = h, rp_chunk = i, rp_timeout = tmo i, rp_duplicate = dup\<rparr>;
          req = \<lparr>ar_id = rid, ar_peer = h, ar_chunk = i, ar_deadline = now + tmo i, ar_duplicate = dup\<rparr>;
          s1 = s\<lparr>sw_requests := dput rid req (sw_requests s), sw_next_id := Suc rid\<rparr>;
          s2 = (case dget (sw_peers s1) h of
                  None \<Rightarrow> s1
                | Some p \<Rightarrow>
                    s1\<lparr>sw_peers := dput h (p\<lparr>sp_in_flight := Suc (sp_in_flight p)\<rparr>) (sw_peers s1)\<rparr>);
          s3 = modify_chunk i (\<lambda>c. c\<lparr>sc_attempt_count := Suc (sc_attempt_count c),
                                      sc_active := List.insert rid (sc_active c),
                                      sc_state := RequestEnqueued\<rparr>) s2
      in (plan, s3))"

definition in_flight :: "swarm \<Rightarrow> string \<Rightarrow> nat" where
  "in_flight s h = (case dget (sw_peers s) h of None \<Rightarrow> sw_max_per_peer s | Some p \<Rightarrow> sp_in_flight p)"

lemma modify_chunk_frame [simp]:
  "sw_peers (modify_chunk i f s) = sw_peers s"
  "sw_requests (modify_chunk i f s) = sw_requests s"
  "sw_max_per_peer (modify_chunk i f s) = sw_max_per_peer s"
  "sw_max_total (modify_chunk i f s) = sw_max_total s"
  "sw_max_attempts (modify_chunk i f s) = sw_max_attempts s"
  "sw_next_id (modify_chunk i f s) = sw_next_id s"
  "sw_ranges (modify_chunk i f s) = sw_ranges s"
  by (simp_all add: modify_chunk_def split: option.split)

lemma in_flight_issue:
  "in_flight s h < sw_max_per_peer s \<Longrightarrow>
     in_flight (snd (issue_request now tmo h i dup s)) h = Suc (in_flight s h) \<and>
     sw_max_per_peer (snd (issue_request now tmo h i dup s)) = sw_max_per_peer s"
  by (auto simp: in_flight_def issue_request_def Let_def dict_laws split: option.splits)

text \<open>The inner \<open>while\<close> loop of \<open>plan_requests\<close> for one peer.\<close>

function plan_for_peer :: "time \<Rightarrow> (nat \<Rightarrow> time) \<Rightarrow> string \<Rightarrow> swarm \<Rightarrow> request_plan list \<times> swarm" where
  "plan_for_peer now tmo h s =
     (if in_flight s h < sw_max_per_peer s \<and> length (sw_requests s) < sw_max_total s then
        (case select_chunk_for_peer now s h of
           None \<Rightarrow> ([], s)
         | Some (i, dup) \<Rightarrow>
             (let r = issue_request now tmo h i dup s;
                  rest = plan_for_peer now tmo h (snd r)
              in (fst r # fst rest, snd rest)))
      else ([], s))"
  by pat_completeness auto
termination
  by (relation "measure (\<lambda>(now, tmo, h, s). sw_max_per_peer s - in_flight s h)")
    (auto simp: in_flight_issue)

declare plan_for_peer.simps [simp del]

fun plan_for_peers :: "time \<Rightarrow> (nat \<Rightarrow> time) \<Rightarrow> string list \<Rightarrow> swarm \<Rightarrow> request_plan list \<times> swarm" where
  "plan_for_peers now tmo [] s = ([], s)"
| "plan_for_peers now tmo (h # hs) s =
     (case plan_for_peer now tmo h s of
        (ps, s') \<Rightarrow> (case plan_for_peers now tmo hs s' of (qs, s'') \<Rightarrow> (ps @ qs, s'')))"

definition plan_requests :: "time \<Rightarrow> (nat \<Rightarrow> time) \<Rightarrow> swarm \<Rightarrow> py_error + request_plan list \<times> swarm" where
  "plan_requests now tmo s0 =
     (case process_timeouts now s0 of
        Inl e \<Rightarrow> Inl e
      | Inr (_, s) \<Rightarrow>
          (if is_complete s then Inr ([], s)
           else
             (let cands = filter (\<lambda>p. is_available now p \<and> sp_in_flight p < sw_max_per_peer s)
                            (sort_key peer_order_key (dvalues (sw_peers s)))
              in Inr (plan_for_peers now tmo (map sp_hash cands) s))))"

end
