(* ===== verification/SwarmInv.thy ===== *)
theory SwarmInv
  imports Swarm
begin

text \<open>
  The swarm scheduler's bookkeeping invariant. The peer part says that each peer's in-flight counter
  is the number of its outstanding requests, within the two concurrency limits; the chunk part ties
  each chunk's active request ids to the request table. Each outcome of a request keeps both, and the
  safety properties of reachable states follow.
\<close>

section \<open>Frames\<close>

lemma release_peer_frame [simp]:
  "sw_requests (release_peer h f s) = sw_requests s"
  "sw_chunks (release_peer h f s) = sw_chunks s"
  "sw_max_per_peer (release_peer h f s) = sw_max_per_peer s"
  "sw_max_total (release_peer h f s) = sw_max_total s"
  "sw_max_attempts (release_peer h f s) = sw_max_attempts s"
  "sw_next_id (release_peer h f s) = sw_next_id s"
  by (simp_all add: release_peer_def split: option.split)

lemma pop_request_frame [simp]:
  "sw_requests (pop_request rid s) = dpop rid (sw_requests s)"
  "sw_peers (pop_request rid s) = sw_peers s"
  "sw_chunks (pop_request rid s) = sw_chunks s"
  "sw_max_per_peer (pop_request rid s) = sw_max_per_peer s"
  "sw_max_total (pop_request rid s) = sw_max_total s"
  "sw_max_attempts (pop_request rid s) = sw_max_attempts s"
  "sw_next_id (pop_request rid s) = sw_next_id s"
  by (simp_all add: pop_request_def)

section \<open>The peer part\<close>

definition peer_ok :: "(nat, active_request) dict \<Rightarrow> nat \<Rightarrow> string \<Rightarrow> swarm_peer \<Rightarrow> bool" where
  "peer_ok reqs m h p \<longleftrightarrow>
     sp_hash p = h \<and> sp_in_flight p = dcount (\<lambda>r. ar_peer r = h) reqs \<and> sp_in_flight p \<le> m"

definition peers_inv :: "swarm \<Rightarrow> bool" where
  "peers_inv s \<longleftrightarrow>
     dict_ok (sw_peers s) \<and> dict_ok (sw_requests s) \<and>
     length (sw_requests s) \<le> sw_max_total s \<and>
     (\<forall>rid r. dget (sw_requests s) rid = Some r \<longrightarrow> dget (sw_peers s) (ar_peer r) \<noteq> None) \<and>
     (\<forall>h p. dget (sw_peers s) h = Some p \<longrightarrow> peer_ok (sw_requests s) (sw_max_per_peer s) h p)"

lemma peers_inv_cong:
  "sw_peers t = sw_peers s \<Longrightarrow> sw_requests t = sw_requests s \<Longrightarrow> sw_max_total t = sw_max_total s \<Longrightarrow>
     sw_max_per_peer t = sw_max_per_peer s \<Longrightarrow> peers_inv t \<longleftrightarrow> peers_inv s"
  by (simp add: peers_inv_def)

lemma peers_inv_modify_chunk [simp]: "peers_inv (modify_chunk i g s) = peers_inv s"
  by (rule peers_inv_cong) simp_all

lemma peers_inv_peer:
  assumes "peers_inv s" and "dget (sw_requests s) rid = Some r"
  obtains p where "dget (sw_peers s) (ar_peer r) = Some p"
proof -
  from assms have "dget (sw_peers s) (ar_peer r) \<noteq> None" unfolding peers_inv_def by blast
  then show thesis using that by auto
qed

lemma peers_inv_counts:
  "peers_inv s \<Longrightarrow> dget (sw_peers s) h = Some p \<Longrightarrow>
     sp_hash p = h \<and> sp_in_flight p = dcount (\<lambda>r. ar_peer r = h) (sw_requests s) \<and>
     sp_in_flight p \<le> sw_max_per_peer s"
  unfolding peers_inv_def peer_ok_def by blast

lemma length_dpop_le: "length (dpop k d) \<le> length d"
  by (rule length_delete_le)

lemma peers_inv_drop:
  assumes inv: "peers_inv s" and r: "dget (sw_requests s) rid = Some r"
    and f: "\<And>p. sp_hash (f p) = sp_hash p"
  shows "peers_inv (release_peer (ar_peer r) f (pop_request rid s))"
proof -
  obtain p where p: "dget (sw_peers s) (ar_peer r) = Some p"
    using peers_inv_peer [OF inv r] .
  let ?q = "(f p)\<lparr>sp_in_flight := sp_in_flight p - 1\<rparr>"
  let ?t = "release_peer (ar_peer r) f (pop_request rid s)"
  have peers: "sw_peers ?t = dput (ar_peer r) ?q (sw_peers s)"
    using p by (simp add: release_peer_def)
  have cnt: "dcount P (dpop rid (sw_requests s)) = dcount P (sw_requests s) - (if P r then 1 else 0)" for P
    using inv r by (intro dcount_dpop) (auto simp: peers_inv_def)
  have each: "peer_ok (sw_requests ?t) (sw_max_per_peer s) h p'" if "dget (sw_peers ?t) h = Some p'" for h p'
  proof (cases "h = ar_peer r")
    case True
    with that peers have "p' = ?q" by (simp add: dict_laws)
    with True peers_inv_counts [OF inv p] cnt [of "\<lambda>r'. ar_peer r' = h"] f show ?thesis
      by (auto simp: peer_ok_def)
  next
    case False
    with that peers have "dget (sw_peers s) h = Some p'" by (simp add: dict_laws)
    from False peers_inv_counts [OF inv this] cnt [of "\<lambda>r'. ar_peer r' = h"] show ?thesis
      by (simp add: peer_ok_def)
  qed
  have "length (dpop rid (sw_requests s)) \<le> sw_max_total s"
    using inv length_dpop_le [of rid "sw_requests s"] by (simp add: peers_inv_def)
  moreover have "dict_ok (sw_peers ?t)" "dict_ok (dpop rid (sw_requests s))"
    using inv by (simp_all add: peers peers_inv_def)
  moreover have "dget (sw_peers ?t) (ar_peer r') \<noteq> None"
    if "dget (dpop rid (sw_requests s)) x = Some r'" for x r'
  proof -
    from that have "dget (sw_requests s) x = Some r'" by (simp add: dict_laws split: if_splits)
    then show ?thesis using peers_inv_peer [OF inv, of x r'] by (auto simp: peers dict_laws)
  qed
  ultimately show ?thesis unfolding peers_inv_def using each by simp
qed

section \<open>The chunk part\<close>

definition chunk_ok :: "(nat, active_request) dict \<Rightarrow> nat \<Rightarrow> nat \<Rightarrow> swarm_chunk \<Rightarrow> bool" where
  "chunk_ok reqs m i c \<longleftrightarrow>
     sc_index c = i \<and> distinct (sc_active c) \<and> sc_attempt_count c \<le> m \<and>
     (sc_stored c \<longrightarrow> sc_active c = []) \<and> length (sc_active c) \<le> 2 \<and>
     (\<forall>x \<in> set (sc_active c). \<exists>r. dget reqs x = Some r \<and> ar_chunk r = i) \<and>
     (\<forall>x \<in> set (sc_active c). \<forall>y \<in> set (sc_active c).
        map_option ar_peer (dget reqs x) = map_option ar_peer (dget reqs y) \<longrightarrow> x = y)"

definition request_ok :: "nat \<Rightarrow> (nat, swarm_chunk) dict \<Rightarrow> nat \<Rightarrow> active_request \<Rightarrow> bool" where
  "request_ok next chunks rid r \<longleftrightarrow>
     ar_id r = rid \<and> rid < next \<and>
     (\<exists>c. dget chunks (ar_chunk r) = Some c \<and> rid \<in> set (sc_active c))"

definition chunks_inv :: "swarm \<Rightarrow> bool" where
  "chunks_inv s \<longleftrightarrow>
     dict_ok (sw_chunks s) \<and>
     (\<forall>rid r. dget (sw_requests s) rid = Some r \<longrightarrow> request_ok (sw_next_id s) (sw_chunks s) rid r) \<and>
     (\<forall>i c. dget (sw_chunks s) i = Some c \<longrightarrow> chunk_ok (sw_requests s) (sw_max_attempts s) i c)"

lemma chunks_inv_cong:
  "sw_chunks t = sw_chunks s \<Longrightarrow> sw_requests t = sw_requests s \<Longrightarrow> sw_next_id t = sw_next_id s \<Longrightarrow>
     sw_max_attempts t = sw_max_attempts s \<Longrightarrow> chunks_inv t \<longleftrightarrow> chunks_inv s"
  by (simp add: chunks_inv_def)

lemma chunk_ok_same_requests:
  "chunk_ok reqs m i c \<Longrightarrow> (\<And>x. x \<in> set (sc_active c) \<Longrightarrow> dget reqs' x = dget reqs x) \<Longrightarrow>
     chunk_ok reqs' m i c"
  by (auto simp: chunk_ok_def)

lemma chunk_ok_discard:
  assumes "chunk_ok reqs m i c"
    and "sc_index c' = sc_index c" "sc_active c' = filter (\<lambda>x. x \<noteq> rid) (sc_active c)"
    and "sc_attempt_count c' \<le> sc_attempt_count c" "sc_stored c' = sc_stored c"
  shows "chunk_ok (dpop rid reqs) m i c'"
proof -
  have "length (filter (\<lambda>x. x \<noteq> rid) (sc_active c)) \<le> 2"
    using assms(1) by (meson chunk_ok_def le_trans length_filter_le)
  with assms show ?thesis by (auto simp: chunk_ok_def dict_laws)
qed

lemma other_chunk_not_active:
  assumes "chunks_inv s" and "dget (sw_requests s) rid = Some r"
    and "dget (sw_chunks s) i = Some c" and "i \<noteq> ar_chunk r"
  shows "rid \<notin> set (sc_active c)"
proof
  assume "rid \<in> set (sc_active c)"
  with assms(1,3) have "\<exists>r'. dget (sw_requests s) rid = Some r' \<and> ar_chunk r' = i"
    by (simp add: chunks_inv_def chunk_ok_def)
  with assms(2,4) show False by simp
qed

lemma chunks_inv_drop:
  assumes inv: "chunks_inv s" and r: "dget (sw_requests s) rid = Some r"
    and t: "sw_chunks t = sw_chunks s" "sw_requests t = dpop rid (sw_requests s)"
      "sw_next_id t = sw_next_id s" "sw_max_attempts t = sw_max_attempts s"
    and g: "\<And>c. sc_index (g c) = sc_index c \<and> sc_active (g c) = filter (\<lambda>x. x \<noteq> rid) (sc_active c) \<and>
      sc_attempt_count (g c) \<le> sc_attempt_count c \<and> sc_stored (g c) = sc_stored c"
  shows "chunks_inv (modify_chunk (ar_chunk r) g t)"
proof -
  from inv r have "request_ok (sw_next_id s) (sw_chunks s) rid r" by (simp add: chunks_inv_def)
  then obtain c where c: "dget (sw_chunks s) (ar_chunk r) = Some c"
    by (auto simp: request_ok_def)
  let ?t = "modify_chunk (ar_chunk r) g t"
  have ch: "sw_chunks ?t = dput (ar_chunk r) (g c) (sw_chunks s)"
    using c t by (simp add: modify_chunk_def)
  have reqs: "request_ok (sw_next_id s) (sw_chunks ?t) x r'"
    if x: "dget (dpop rid (sw_requests s)) x = Some r'" for x r'
  proof -
    from x have x': "x \<noteq> rid" "dget (sw_requests s) x = Some r'" by (auto simp: dict_laws split: if_splits)
    from inv x'(2) have "request_ok (sw_next_id s) (sw_chunks s) x r'" by (simp add: chunks_inv_def)
    then show ?thesis using x'(1) c g [of c]
      by (cases "ar_chunk r' = ar_chunk r") (auto simp: ch dict_laws request_ok_def)
  qed
  have chunks: "chunk_ok (dpop rid (sw_requests s)) (sw_max_attempts s) i c'"
    if i: "dget (sw_chunks ?t) i = Some c'" for i c'
  proof (cases "i = ar_chunk r")
    case True
    with i ch have "c' = g c" by (simp add: dict_laws)
    moreover have "chunk_ok (sw_requests s) (sw_max_attempts s) i c"
      using inv c True by (simp add: chunks_inv_def)
    ultimately show ?thesis using g [of c] by (intro chunk_ok_discard [of _ _ _ c]) simp_all
  next
    case False
    with i ch have old: "dget (sw_chunks s) i = Some c'" by (simp add: dict_laws)
    with inv have ok: "chunk_ok (sw_requests s) (sw_max_attempts s) i c'" by (simp add: chunks_inv_def)
    show ?thesis
    proof (rule chunk_ok_same_requests [OF ok])
      fix x assume "x \<in> set (sc_active c')"
      with other_chunk_not_active [OF inv r old False] have "x \<noteq> rid" by metis
      then show "dget (dpop rid (sw_requests s)) x = dget (sw_requests s) x" by (simp add: dget_dpop)
    qed
  qed
  have "dict_ok (sw_chunks ?t)" using inv unfolding ch chunks_inv_def by simp
  moreover have eqs: "sw_requests ?t = dpop rid (sw_requests s)" "sw_next_id ?t = sw_next_id s"
    "sw_max_attempts ?t = sw_max_attempts s" by (simp_all only: t modify_chunk_frame)
  ultimately show ?thesis unfolding chunks_inv_def eqs using reqs chunks by blast
qed

definition swarm_inv :: "swarm \<Rightarrow> bool" where
  "swarm_inv s \<longleftrightarrow> peers_inv s \<and> chunks_inv s"

text \<open>The shape shared by all outcomes that retire one request.\<close>

lemma retire_request:
  assumes "swarm_inv s" and "dget (sw_requests s) rid = Some r"
    and "\<And>p. sp_hash (f p) = sp_hash p"
    and "\<And>c. sc_index (g c) = sc_index c \<and> sc_active (g c) = filter (\<lambda>x. x \<noteq> rid) (sc_active c) \<and>
      sc_attempt_count (g c) \<le> sc_attempt_count c \<and> sc_stored (g c) = sc_stored c"
  shows "swarm_inv (modify_chunk (ar_chunk r) g (release_peer (ar_peer r) f (pop_request rid s)))"
  using assms by (auto simp: swarm_inv_def intro!: peers_inv_drop chunks_inv_drop [of s rid])

lemma discard_active_shape:
  "sc_index (missing_if_idle (discard_active rid c)) = sc_index c \<and>
   sc_active (missing_if_idle (discard_active rid c)) = filter (\<lambda>x. x \<noteq> rid) (sc_active c) \<and>
   sc_attempt_count (missing_if_idle (discard_active rid c)) \<le> sc_attempt_count c \<and>
   sc_stored (missing_if_idle (discard_active rid c)) = sc_stored c"
  by (simp add: missing_if_idle_def discard_active_def)

lemma swarm_inv_recent [simp]: "swarm_inv (s\<lparr>sw_recent_timeouts := x\<rparr>) = swarm_inv s"
  by (simp add: swarm_inv_def peers_inv_def chunks_inv_def)

section \<open>Every outcome keeps the invariant\<close>

lemma send_failed_inv [inv_intros]:
  assumes "swarm_inv s" and "dget (sw_requests s) (rp_id plan) = Some r"
    and "ar_peer r = rp_peer plan" and "ar_chunk r = rp_chunk plan"
  shows "swarm_inv (mark_send_failed plan s)"
  using retire_request [OF assms(1,2), of id "\<lambda>c. missing_if_idle (discard_active (rp_id plan) c)"]
    discard_active_shape assms(3,4)
  by (simp add: mark_send_failed_def)

lemma modify_chunk_state_inv:
  assumes "swarm_inv s"
    and "\<And>c. sc_index (g c) = sc_index c \<and> sc_active (g c) = sc_active c \<and>
      sc_attempt_count (g c) = sc_attempt_count c \<and> sc_stored (g c) = sc_stored c"
  shows "swarm_inv (modify_chunk i g s)"
proof (cases "dget (sw_chunks s) i")
  case None
  with assms show ?thesis by (simp add: modify_chunk_def)
next
  case (Some c)
  let ?t = "modify_chunk i g s"
  have ch: "sw_chunks ?t = dput i (g c) (sw_chunks s)" using Some by (simp add: modify_chunk_def)
  from assms(1) have inv: "chunks_inv s" and "peers_inv ?t" by (simp_all add: swarm_inv_def)
  have "dict_ok (sw_chunks ?t)" using inv by (simp add: ch chunks_inv_def)
  moreover have "request_ok (sw_next_id s) (sw_chunks ?t) x r"
    if "dget (sw_requests s) x = Some r" for x r
  proof -
    from inv that have "request_ok (sw_next_id s) (sw_chunks s) x r" by (simp add: chunks_inv_def)
    then show ?thesis using Some assms(2) [of c] by (auto simp: ch dict_laws request_ok_def)
  qed
  moreover have "chunk_ok (sw_requests s) (sw_max_attempts s) j c'"
    if "dget (sw_chunks ?t) j = Some c'" for j c'
  proof (cases "j = i")
    case True
    with that have "c' = g c" by (simp add: ch dict_laws)
    moreover have "chunk_ok (sw_requests s) (sw_max_attempts s) j c"
      using inv Some True by (simp add: chunks_inv_def)
    ultimately show ?thesis using assms(2) [of c] by (simp add: chunk_ok_def)
  next
    case False
    with that inv show ?thesis by (simp add: ch dict_laws chunks_inv_def)
  qed
  ultimately have "chunks_inv ?t" unfolding chunks_inv_def modify_chunk_frame by blast
  with \<open>peers_inv ?t\<close> show ?thesis by (simp add: swarm_inv_def)
qed

lemma request_sent_inv [inv_intros]:
  assumes "swarm_inv s"
  shows "swarm_inv (mark_request_sent rid s)"
proof (cases "dget (sw_requests s) rid")
  case None
  with assms show ?thesis by (simp add: mark_request_sent_def)
next
  case (Some r)
  have "swarm_inv (modify_chunk (ar_chunk r)
      (\<lambda>c. if \<not> sc_stored c then c\<lparr>sc_state := Requested\<rparr> else c) s)"
    using assms by (rule modify_chunk_state_inv) simp
  with Some show ?thesis by (simp add: mark_request_sent_def)
qed

lemma deferred_chunk_shape:
  "sc_index (deferred_chunk rid st c) = sc_index c \<and>
   sc_active (deferred_chunk rid st c) = filter (\<lambda>x. x \<noteq> rid) (sc_active c) \<and>
   sc_attempt_count (deferred_chunk rid st c) \<le> sc_attempt_count c \<and>
   sc_stored (deferred_chunk rid st c) = sc_stored c"
  by (simp add: deferred_chunk_def Let_def discard_active_def)

lemma deferred_inv [inv_intros]:
  "swarm_inv s \<Longrightarrow> swarm_inv (mark_request_deferred rid st s)"
  using retire_request [of s rid _ id "deferred_chunk rid st"] deferred_chunk_shape
  by (simp add: mark_request_deferred_def split: option.split)

lemma cancelled_chunk_shape:
  "sc_index (cancelled_chunk rid c) = sc_index c \<and>
   sc_active (cancelled_chunk rid c) = filter (\<lambda>x. x \<noteq> rid) (sc_active c) \<and>
   sc_attempt_count (cancelled_chunk rid c) \<le> sc_attempt_count c \<and>
   sc_stored (cancelled_chunk rid c) = sc_stored c"
  by (simp add: cancelled_chunk_def Let_def discard_active_def)

lemma cancelled_inv [inv_intros]: "swarm_inv s \<Longrightarrow> swarm_inv (mark_cancelled rid s)"
  using retire_request [of s rid _ id "cancelled_chunk rid"] cancelled_chunk_shape
  by (simp add: mark_cancelled_def split: option.split)

lemma invalid_inv [inv_intros]:
  assumes inv: "swarm_inv s" and "mark_invalid now rid s = Inr t"
  shows "swarm_inv t"
proof (cases "dget (sw_requests s) rid")
  case None
  with assms show ?thesis by (simp add: mark_invalid_def)
next
  case (Some r)
  from inv have pinv: "peers_inv s" by (simp add: swarm_inv_def)
  obtain p where p: "dget (sw_peers s) (ar_peer r) = Some p"
    using peers_inv_peer [OF pinv Some] .
  from assms(2) Some p obtain pen where
    "t = modify_chunk (ar_chunk r) (\<lambda>c. missing_if_idle (discard_active rid c))
       (release_peer (ar_peer r)
          (\<lambda>p. p\<lparr>sp_invalid_chunk_count := Suc (sp_invalid_chunk_count p),
                 sp_cooldown_until := max (sp_cooldown_until p) (now + pen)\<rparr>) (pop_request rid s))"
    by (auto simp: mark_invalid_def Let_def split: sum.splits)
  then show ?thesis using retire_request [OF inv Some] discard_active_shape by simp
qed

lemma time_out_request_inv:
  assumes inv: "swarm_inv s" and "time_out_request now rid s = Inr t"
  shows "swarm_inv t"
proof (cases "dget (sw_requests s) rid")
  case None
  with assms show ?thesis by (simp add: time_out_request_def)
next
  case (Some r)
  let ?s = "s\<lparr>sw_recent_timeouts := sw_recent_timeouts s @ [r]\<rparr>"
  from inv have pinv: "peers_inv s" by (simp add: swarm_inv_def)
  obtain p where p: "dget (sw_peers s) (ar_peer r) = Some p"
    using peers_inv_peer [OF pinv Some] .
  have pop: "(pop_request rid s)\<lparr>sw_recent_timeouts := sw_recent_timeouts s @ [r]\<rparr> = pop_request rid ?s"
    by (simp add: pop_request_def)
  from assms(2) Some p obtain pen where
    "t = modify_chunk (ar_chunk r) (\<lambda>c. missing_if_idle (discard_active rid c))
       (release_peer (ar_peer r)
          (\<lambda>p. p\<lparr>sp_timeout_count := Suc (sp_timeout_count p),
                 sp_cooldown_until := max (sp_cooldown_until p) (now + pen)\<rparr>) (pop_request rid ?s))"
    by (auto simp: time_out_request_def Let_def pop split: sum.splits)
  moreover have "swarm_inv ?s" "dget (sw_requests ?s) rid = Some r" using inv Some by simp_all
  ultimately show ?thesis using retire_request [of ?s rid r] discard_active_shape by simp
qed

lemma time_out_all_inv: "swarm_inv s \<Longrightarrow> time_out_all now rids s = Inr t \<Longrightarrow> swarm_inv t"
  by (induction rids arbitrary: s) (auto split: sum.splits dest: time_out_request_inv)

lemma process_timeouts_inv [inv_intros]:
  "swarm_inv s \<Longrightarrow> process_timeouts now s = Inr (n, t) \<Longrightarrow> swarm_inv t"
  using time_out_all_inv [of "s\<lparr>sw_recent_timeouts := []\<rparr>" now "expired_ids now s" t]
  by (auto simp: process_timeouts_def map_sum_def split: sum.splits)

lemma cancel_siblings_frame:
  "sw_requests (snd (cancel_siblings xs rid s)) = filter (\<lambda>p. fst p \<notin> set xs - {rid}) (sw_requests s) \<and>
   sw_chunks (snd (cancel_siblings xs rid s)) = sw_chunks s \<and>
   sw_next_id (snd (cancel_siblings xs rid s)) = sw_next_id s \<and>
   sw_max_attempts (snd (cancel_siblings xs rid s)) = sw_max_attempts s"
proof (induction xs arbitrary: s)
  case Nil
  then show ?case by simp
next
  case (Cons x xs)
  have absent: "dget (sw_requests s) x = None \<Longrightarrow>
      filter (\<lambda>p. fst p \<notin> set xs - {rid}) (sw_requests s) =
      filter (\<lambda>p. fst p \<notin> insert x (set xs) - {rid}) (sw_requests s)"
    by (rule filter_cong) (auto simp: map_of_eq_None_iff image_iff)
  have insert_rid: "insert rid (set xs) - {rid} = set xs - {rid}" by auto
  show ?case
  proof (cases "x = rid \<or> dget (sw_requests s) x = None")
    case True
    then show ?thesis
    proof
      assume "x = rid"
      with Cons.IH [of s] show ?thesis by (simp add: insert_rid)
    next
      assume "dget (sw_requests s) x = None"
      with Cons.IH [of s] absent show ?thesis by simp
    qed
  next
    case False
    then obtain r where x: "x \<noteq> rid" "dget (sw_requests s) x = Some r" by auto
    have "filter (\<lambda>p. fst p \<notin> set xs - {rid}) (filter (\<lambda>p. fst p \<noteq> x) (sw_requests s)) =
        filter (\<lambda>p. fst p \<notin> set (x # xs) - {rid}) (sw_requests s)"
      using x(1) by (auto intro: filter_cong)
    with Cons.IH [of "release_peer (ar_peer r) id (pop_request x s)"] x show ?thesis
      by (simp add: case_prod_beta dpop_filter)
  qed
qed

lemma cancel_siblings_peers: "peers_inv s \<Longrightarrow> peers_inv (snd (cancel_siblings xs rid s))"
proof (induction xs arbitrary: s)
  case Nil
  then show ?case by simp
next
  case (Cons x xs)
  show ?case
  proof (cases "x = rid \<or> dget (sw_requests s) x = None")
    case True
    with Cons show ?thesis by auto
  next
    case False
    then obtain r where x: "x \<noteq> rid" "dget (sw_requests s) x = Some r" by auto
    have "peers_inv (release_peer (ar_peer r) id (pop_request x s))"
      by (rule peers_inv_drop [OF Cons.prems x(2)]) simp
    from Cons.IH [OF this] x show ?thesis by (simp add: case_prod_beta)
  qed
qed

end
