(* ===== verification/SwarmSafe.thy ===== *)
theory SwarmSafe
  imports SwarmInv
begin

text \<open>
  Planning and completion keep the swarm invariant; the sequences of operations a download
  session can perform, as a step relation; and the safety and planning properties of
  \<open>SwarmFetcher\<close> over every reachable state.
\<close>

section \<open>Completion\<close>

lemma chunks_inv_stored:
  assumes inv: "chunks_inv s" and c: "dget (sw_chunks s) i = Some c"
    and t: "sw_chunks t = dput i c' (sw_chunks s)"
      "sw_requests t = filter (\<lambda>p. fst p \<notin> set (sc_active c)) (sw_requests s)"
      "sw_next_id t = sw_next_id s" "sw_max_attempts t = sw_max_attempts s"
    and c': "sc_index c' = sc_index c" "sc_active c' = []" "sc_attempt_count c' = sc_attempt_count c"
  shows "chunks_inv t"
proof -
  have ok_c: "chunk_ok (sw_requests s) (sw_max_attempts s) i c" using inv c by (simp add: chunks_inv_def)
  have "dict_ok (sw_chunks t)" using inv unfolding t chunks_inv_def by simp
  moreover have "request_ok (sw_next_id s) (sw_chunks t) x r" if "dget (sw_requests t) x = Some r" for x r
  proof -
    from that have x: "x \<notin> set (sc_active c)" "dget (sw_requests s) x = Some r"
      unfolding t dget_filter_key by (simp_all split: if_splits)
    from inv x(2) have "request_ok (sw_next_id s) (sw_chunks s) x r" by (simp add: chunks_inv_def)
    with x(1) c show ?thesis by (auto simp: request_ok_def t dict_laws)
  qed
  moreover have "chunk_ok (sw_requests t) (sw_max_attempts s) j d" if "dget (sw_chunks t) j = Some d" for j d
  proof (cases "j = i")
    case True
    with that have "d = c'" by (simp add: t dict_laws)
    with True ok_c c' show ?thesis by (simp add: chunk_ok_def)
  next
    case False
    with that have "dget (sw_chunks s) j = Some d" by (simp add: t dict_laws)
    with inv have ok_d: "chunk_ok (sw_requests s) (sw_max_attempts s) j d" by (simp add: chunks_inv_def)
    show ?thesis
    proof (rule chunk_ok_same_requests [OF ok_d])
      fix x assume "x \<in> set (sc_active d)"
      with ok_d obtain r where "dget (sw_requests s) x = Some r" "ar_chunk r = j"
        unfolding chunk_ok_def by blast
      with ok_c False have "x \<notin> set (sc_active c)" unfolding chunk_ok_def by force
      then show "dget (sw_requests t) x = dget (sw_requests s) x" by (simp only: t dget_filter_key if_False)
    qed
  qed
  ultimately show ?thesis unfolding chunks_inv_def t(3,4) by blast
qed

lemma chunk_stored_inv [inv_intros]:
  assumes inv: "swarm_inv s"
  shows "swarm_inv (snd (mark_chunk_stored rid s))"
proof (cases "dget (sw_requests s) rid")
  case None
  with inv show ?thesis by (simp add: mark_chunk_stored_def)
next
  case (Some r)
  from inv have pinv: "peers_inv s" and cinv: "chunks_inv s" by (simp_all add: swarm_inv_def)
  from cinv Some have "request_ok (sw_next_id s) (sw_chunks s) rid r" by (simp add: chunks_inv_def)
  then obtain c where c: "dget (sw_chunks s) (ar_chunk r) = Some c" "rid \<in> set (sc_active c)"
    by (auto simp: request_ok_def)
  let ?f = "\<lambda>p. p\<lparr>sp_success_count := Suc (sp_success_count p)\<rparr>"
  let ?c = "c\<lparr>sc_stored := True, sc_successful_peer := ar_peer r, sc_state := Stored, sc_active := []\<rparr>"
  let ?s1 = "release_peer (ar_peer r) ?f (pop_request rid s)"
  let ?s2 = "?s1\<lparr>sw_chunks := dput (ar_chunk r) ?c (sw_chunks ?s1)\<rparr>"
  let ?t = "snd (cancel_siblings (sc_active c) rid ?s2)"
  have eq: "snd (mark_chunk_stored rid s) = ?t"
    using Some c by (simp add: mark_chunk_stored_def)
  have "peers_inv ?s1" by (rule peers_inv_drop [OF pinv Some]) simp
  then have "peers_inv ?s2" by (simp add: peers_inv_def)
  then have "peers_inv ?t" by (rule cancel_siblings_peers)
  moreover have "chunks_inv ?t"
  proof (rule chunks_inv_stored [OF cinv c(1), where c' = ?c])
    have "filter (\<lambda>p. fst p \<notin> set (sc_active c) - {rid}) (filter (\<lambda>p. fst p \<noteq> rid) (sw_requests s)) =
        filter (\<lambda>p. fst p \<notin> set (sc_active c)) (sw_requests s)"
      using c(2) by (auto intro!: filter_cong)
    then show "sw_requests ?t = filter (\<lambda>p. fst p \<notin> set (sc_active c)) (sw_requests s)"
      using cancel_siblings_frame [of "sc_active c" rid ?s2] by (simp add: dpop_filter)
  qed (use cancel_siblings_frame [of "sc_active c" rid ?s2] in simp_all)
  ultimately show ?thesis by (simp add: eq swarm_inv_def)
qed

section \<open>Issuing a request\<close>

definition may_issue :: "swarm \<Rightarrow> string \<Rightarrow> nat \<Rightarrow> bool" where
  "may_issue s h i \<longleftrightarrow>
     in_flight s h < sw_max_per_peer s \<and> length (sw_requests s) < sw_max_total s \<and>
     (\<exists>c. dget (sw_chunks s) i = Some c \<and> \<not> sc_stored c \<and> sc_attempt_count c < sw_max_attempts s \<and>
        (sc_active c = [] \<or>
         (\<exists>x r. sc_active c = [x] \<and> dget (sw_requests s) x = Some r \<and> ar_peer r \<noteq> h)))"

lemma fresh_id: "chunks_inv s \<Longrightarrow> dget (sw_requests s) (sw_next_id s) = None"
  by (rule ccontr) (auto simp: chunks_inv_def request_ok_def)

lemma peers_inv_issue:
  assumes inv: "peers_inv s" and fresh: "dget (sw_requests s) (sw_next_id s) = None"
    and may: "may_issue s h i"
  shows "peers_inv (snd (issue_request now tmo h i dup s))"
proof -
  from may obtain p where p: "dget (sw_peers s) h = Some p" "sp_in_flight p < sw_max_per_peer s"
    by (auto simp: may_issue_def in_flight_def split: option.splits)
  let ?t = "snd (issue_request now tmo h i dup s)"
  let ?r = "\<lparr>ar_id = sw_next_id s, ar_peer = h, ar_chunk = i, ar_deadline = now + tmo i, ar_duplicate = dup\<rparr>"
  let ?p = "p\<lparr>sp_in_flight := Suc (sp_in_flight p)\<rparr>"
  have t: "sw_requests ?t = dput (sw_next_id s) ?r (sw_requests s)" "sw_peers ?t = dput h ?p (sw_peers s)"
    "sw_max_total ?t = sw_max_total s" "sw_max_per_peer ?t = sw_max_per_peer s"
    using p by (simp_all add: issue_request_def Let_def)
  have "dict_ok (sw_peers ?t)" "dict_ok (sw_requests ?t)"
    using inv unfolding t peers_inv_def by simp_all
  moreover have "length (sw_requests ?t) \<le> sw_max_total s"
    using may fresh by (simp add: t length_dput_absent may_issue_def)
  moreover have "dget (sw_peers ?t) (ar_peer r) \<noteq> None" if "dget (sw_requests ?t) x = Some r" for x r
  proof (cases "x = sw_next_id s")
    case True
    with that show ?thesis by (auto simp: t dict_laws)
  next
    case False
    with that have "dget (sw_requests s) x = Some r" by (simp add: t dict_laws)
    with inv show ?thesis by (auto simp: t dict_laws elim: peers_inv_peer)
  qed
  moreover have "peer_ok (sw_requests ?t) (sw_max_per_peer s) g q" if "dget (sw_peers ?t) g = Some q" for g q
  proof -
    have cnt: "dcount (\<lambda>r. ar_peer r = g) (sw_requests ?t) =
        dcount (\<lambda>r. ar_peer r = g) (sw_requests s) + (if g = h then 1 else 0)"
      using fresh by (auto simp: t dcount_dput_absent)
    show ?thesis
    proof (cases "g = h")
      case True
      with that have "q = ?p" by (simp add: t dict_laws)
      with True peers_inv_counts [OF inv p(1)] p(2) cnt show ?thesis by (simp add: peer_ok_def)
    next
      case False
      with that have "dget (sw_peers s) g = Some q" by (simp add: t dict_laws)
      from peers_inv_counts [OF inv this] False cnt show ?thesis by (simp add: peer_ok_def)
    qed
  qed
  ultimately show ?thesis unfolding peers_inv_def t(3,4) by blast
qed

lemma chunks_inv_issue:
  assumes inv: "chunks_inv s" and may: "may_issue s h i"
  shows "chunks_inv (snd (issue_request now tmo h i dup s))"
proof -
  from may obtain c where c: "dget (sw_chunks s) i = Some c" "\<not> sc_stored c"
    "sc_attempt_count c < sw_max_attempts s"
    and act: "sc_active c = [] \<or> (\<exists>x r. sc_active c = [x] \<and> dget (sw_requests s) x = Some r \<and> ar_peer r \<noteq> h)"
    unfolding may_issue_def by blast
  let ?n = "sw_next_id s"
  let ?t = "snd (issue_request now tmo h i dup s)"
  let ?r = "\<lparr>ar_id = ?n, ar_peer = h, ar_chunk = i, ar_deadline = now + tmo i, ar_duplicate = dup\<rparr>"
  let ?c = "c\<lparr>sc_attempt_count := Suc (sc_attempt_count c), sc_active := ?n # sc_active c, sc_state := RequestEnqueued\<rparr>"
  have fresh: "dget (sw_requests s) ?n = None" by (rule fresh_id [OF inv])
  from inv c have ok: "chunk_ok (sw_requests s) (sw_max_attempts s) i c" by (simp add: chunks_inv_def)
  have new: "?n \<notin> set (sc_active d)" if "dget (sw_chunks s) j = Some d" for j d
  proof
    assume "?n \<in> set (sc_active d)"
    with inv that fresh show False by (force simp: chunks_inv_def chunk_ok_def)
  qed
  have t: "sw_requests ?t = dput ?n ?r (sw_requests s)" "sw_chunks ?t = dput i ?c (sw_chunks s)"
    "sw_next_id ?t = Suc ?n" "sw_max_attempts ?t = sw_max_attempts s"
    using c new [OF c(1)]
    by (auto simp: issue_request_def Let_def modify_chunk_def List.insert_def split: option.split)
  have "dict_ok (sw_chunks ?t)" using inv unfolding t chunks_inv_def by simp
  moreover have "request_ok (Suc ?n) (sw_chunks ?t) x r" if "dget (sw_requests ?t) x = Some r" for x r
  proof (cases "x = ?n")
    case True
    with that show ?thesis by (auto simp: t dict_laws request_ok_def)
  next
    case False
    with that have "dget (sw_requests s) x = Some r" by (simp add: t dict_laws)
    with inv have "request_ok ?n (sw_chunks s) x r" by (simp add: chunks_inv_def)
    then show ?thesis using c by (auto simp: request_ok_def t dict_laws)
  qed
  moreover have "chunk_ok (sw_requests ?t) (sw_max_attempts s) j d" if "dget (sw_chunks ?t) j = Some d" for j d
  proof (cases "j = i")
    case True
    with that have "d = ?c" by (simp add: t dict_laws)
    with True ok c act new [OF c(1)] show ?thesis
      by (elim disjE exE conjE) (auto simp: chunk_ok_def t dict_laws)
  next
    case False
    with that have d: "dget (sw_chunks s) j = Some d" by (simp add: t dict_laws)
    with inv have ok_d: "chunk_ok (sw_requests s) (sw_max_attempts s) j d" by (simp add: chunks_inv_def)
    show ?thesis
    proof (rule chunk_ok_same_requests [OF ok_d])
      fix x assume "x \<in> set (sc_active d)"
      with new [OF d] have "x \<noteq> ?n" by metis
      then show "dget (sw_requests ?t) x = dget (sw_requests s) x" by (simp add: t dict_laws)
    qed
  qed
  ultimately show ?thesis unfolding chunks_inv_def t(3,4) by blast
qed

lemma issue_inv: "swarm_inv s \<Longrightarrow> may_issue s h i \<Longrightarrow> swarm_inv (snd (issue_request now tmo h i dup s))"
  using peers_inv_issue chunks_inv_issue fresh_id by (simp add: swarm_inv_def)

section \<open>Planning\<close>

lemma ordered_chunks_mem:
  assumes "chunks_inv s" and "c \<in> set (ordered_chunks now s)"
  shows "dget (sw_chunks s) (sc_index c) = Some c"
proof -
  from assms(2) obtain i where i: "dget (sw_chunks s) i = Some c"
    by (auto simp: ordered_chunks_def Let_def List.map_filter_def)
  with assms(1) have "sc_index c = i" by (simp add: chunks_inv_def chunk_ok_def)
  with i show ?thesis by simp
qed

lemma mem_ordered_chunks:
  assumes "dget (sw_chunks s) i = Some c"
  shows "c \<in> set (ordered_chunks now s)"
proof -
  from assms have "i \<in> fst ` set (sw_chunks s)" by (force dest: map_of_SomeD)
  with assms show ?thesis
    by (auto simp: ordered_chunks_def Let_def List.map_filter_def image_iff intro!: exI [of _ i])
qed

lemma select_chunk_SomeD:
  assumes inv: "chunks_inv s" and sel: "select_chunk_for_peer now s h = Some (i, dup)"
  shows "\<exists>c. dget (sw_chunks s) i = Some c \<and> sc_index c = i \<and> wants_chunk s h c \<and>
    (if dup then is_endgame now s \<and> may_duplicate s h c else sc_active c = [])"
proof (cases "find (\<lambda>c. wants_chunk s h c \<and> sc_active c = []) (ordered_chunks now s)")
  case None
  with sel obtain c where "is_endgame now s" "dup" "i = sc_index c"
    "find (\<lambda>c. wants_chunk s h c \<and> may_duplicate s h c) (ordered_chunks now s) = Some c"
    by (auto simp: select_chunk_for_peer_def split: if_splits option.splits)
  with find_SomeD [OF this(4)] ordered_chunks_mem [OF inv] show ?thesis by auto
next
  case (Some c)
  with sel have "\<not> dup" "i = sc_index c" by (auto simp: select_chunk_for_peer_def)
  with find_SomeD [OF Some] ordered_chunks_mem [OF inv] show ?thesis by auto
qed

lemma select_chunk_may_issue:
  assumes "chunks_inv s" and "select_chunk_for_peer now s h = Some (i, dup)"
    and "in_flight s h < sw_max_per_peer s" and "length (sw_requests s) < sw_max_total s"
  shows "may_issue s h i"
proof -
  obtain c where c: "dget (sw_chunks s) i = Some c" "wants_chunk s h c"
    "if dup then is_endgame now s \<and> may_duplicate s h c else sc_active c = []"
    using select_chunk_SomeD [OF assms(1,2)] by blast
  have "sc_active c = [] \<or> (\<exists>x r. sc_active c = [x] \<and> dget (sw_requests s) x = Some r \<and> ar_peer r \<noteq> h)"
    using c(3) by (auto simp: may_duplicate_def split: if_splits list.splits option.splits)
  with c assms(3,4) show ?thesis by (simp add: may_issue_def wants_chunk_def)
qed

text \<open>What planning leaves alone, and what it only adds to.\<close>

definition plan_rel :: "swarm \<Rightarrow> swarm \<Rightarrow> bool" where
  "plan_rel s t \<longleftrightarrow>
     sw_ranges t = sw_ranges s \<and> sw_max_per_peer t = sw_max_per_peer s \<and>
     sw_max_total t = sw_max_total s \<and> sw_max_attempts t = sw_max_attempts s \<and>
     length (sw_requests s) \<le> length (sw_requests t) \<and>
     (\<forall>h. in_flight s h \<le> in_flight t h \<and>
          map_option sp_cooldown_until (dget (sw_peers t) h) = map_option sp_cooldown_until (dget (sw_peers s) h)) \<and>
     (\<forall>x r. dget (sw_requests s) x = Some r \<longrightarrow> dget (sw_requests t) x = Some r) \<and>
     (\<forall>i. map_option sc_stored (dget (sw_chunks t) i) = map_option sc_stored (dget (sw_chunks s) i)) \<and>
     (\<forall>i c. dget (sw_chunks t) i = Some c \<longrightarrow> sc_active c = [] \<longrightarrow> dget (sw_chunks s) i = Some c)"

lemma plan_rel_refl [simp]: "plan_rel s s"
  by (simp add: plan_rel_def)

lemma plan_rel_trans: "plan_rel s t \<Longrightarrow> plan_rel t u \<Longrightarrow> plan_rel s u"
  unfolding plan_rel_def by (auto intro: order_trans)

lemma plan_rel_issue:
  assumes inv: "swarm_inv s"
  shows "plan_rel s (snd (issue_request now tmo h i dup s))"
proof -
  have "dget (sw_requests s) (sw_next_id s) = None" using inv fresh_id by (simp add: swarm_inv_def)
  then have "length (sw_requests s) \<le> length (sw_requests (snd (issue_request now tmo h i dup s)))"
    "\<And>x r. dget (sw_requests s) x = Some r \<Longrightarrow>
       dget (sw_requests (snd (issue_request now tmo h i dup s))) x = Some r"
    by (auto simp: issue_request_def Let_def length_dput_absent dict_laws split: option.split)
  then show ?thesis
    by (auto simp: plan_rel_def issue_request_def Let_def modify_chunk_def in_flight_def dict_laws
        List.insert_def split: option.splits if_splits)
qed

lemma issue_request_plan [simp]:
  "fst (issue_request now tmo h i dup s) =
     \<lparr>rp_id = sw_next_id s, rp_peer = h, rp_chunk = i, rp_timeout = tmo i, rp_duplicate = dup\<rparr>"
  by (simp add: issue_request_def Let_def)

lemma issue_request_entry:
  "dget (sw_requests (snd (issue_request now tmo h i dup s))) (sw_next_id s) =
     Some \<lparr>ar_id = sw_next_id s, ar_peer = h, ar_chunk = i, ar_deadline = now + tmo i, ar_duplicate = dup\<rparr>"
  by (auto simp: issue_request_def Let_def dict_laws split: option.split)

definition plan_ok :: "time \<Rightarrow> (nat \<Rightarrow> time) \<Rightarrow> swarm \<Rightarrow> request_plan \<Rightarrow> bool" where
  "plan_ok now tmo t p \<longleftrightarrow>
     map_option sc_stored (dget (sw_chunks t) (rp_chunk p)) = Some False \<and>
     peer_has_chunk t (rp_peer p) (rp_chunk p) \<and> rp_timeout p = tmo (rp_chunk p) \<and>
     dget (sw_requests t) (rp_id p) =
       Some \<lparr>ar_id = rp_id p, ar_peer = rp_peer p, ar_chunk = rp_chunk p,
             ar_deadline = now + tmo (rp_chunk p), ar_duplicate = rp_duplicate p\<rparr>"

lemma plan_ok_mono: "plan_rel s t \<Longrightarrow> plan_ok now tmo s p \<Longrightarrow> plan_ok now tmo t p"
  by (simp add: plan_rel_def plan_ok_def peer_has_chunk_def)

lemma plan_ok_issue:
  assumes inv: "swarm_inv s" and sel: "select_chunk_for_peer now s h = Some (i, dup)"
  shows "plan_ok now tmo (snd (issue_request now tmo h i dup s)) (fst (issue_request now tmo h i dup s))"
proof -
  from inv have cinv: "chunks_inv s" by (simp add: swarm_inv_def)
  obtain c where "dget (sw_chunks s) i = Some c" "sc_index c = i" "wants_chunk s h c"
    using select_chunk_SomeD [OF cinv sel] by blast
  with plan_rel_issue [OF inv, of now tmo h i dup] show ?thesis
    by (simp add: plan_ok_def plan_rel_def issue_request_entry wants_chunk_def peer_has_chunk_def)
qed

text \<open>No idle chunk is left that the peer could still be asked for.\<close>

definition saturated :: "swarm \<Rightarrow> string \<Rightarrow> bool" where
  "saturated t h \<longleftrightarrow>
     in_flight t h \<ge> sw_max_per_peer t \<or> length (sw_requests t) \<ge> sw_max_total t \<or>
     (\<forall>i c. dget (sw_chunks t) i = Some c \<longrightarrow> \<not> (wants_chunk t h c \<and> sc_active c = []))"

lemma saturated_mono:
  assumes rel: "plan_rel s t" and sat: "saturated s h"
  shows "saturated t h"
proof -
  from rel have le: "in_flight s h \<le> in_flight t h" "length (sw_requests s) \<le> length (sw_requests t)"
    "sw_max_per_peer t = sw_max_per_peer s" "sw_max_total t = sw_max_total s"
    "sw_max_attempts t = sw_max_attempts s" "sw_ranges t = sw_ranges s"
    and idle: "\<And>i c. dget (sw_chunks t) i = Some c \<Longrightarrow> sc_active c = [] \<Longrightarrow> dget (sw_chunks s) i = Some c"
    unfolding plan_rel_def by auto
  have "wants_chunk t h c = wants_chunk s h c" for c
    using le by (simp add: wants_chunk_def peer_has_chunk_def)
  with sat le idle show ?thesis unfolding saturated_def by (metis order_trans)
qed

lemma select_None_saturated:
  assumes "select_chunk_for_peer now s h = None"
  shows "saturated s h"
proof -
  from assms have "find (\<lambda>c. wants_chunk s h c \<and> sc_active c = []) (ordered_chunks now s) = None"
    by (auto simp: select_chunk_for_peer_def split: option.splits)
  then have "\<forall>c \<in> set (ordered_chunks now s). \<not> (wants_chunk s h c \<and> sc_active c = [])"
    by (auto simp: find_None_iff)
  with mem_ordered_chunks show ?thesis unfolding saturated_def by blast
qed

lemma plan_for_peer_sound:
  assumes "swarm_inv s"
  shows "swarm_inv (snd (plan_for_peer now tmo h s)) \<and> plan_rel s (snd (plan_for_peer now tmo h s)) \<and>
    (\<forall>p \<in> set (fst (plan_for_peer now tmo h s)). rp_peer p = h \<and> plan_ok now tmo (snd (plan_for_peer now tmo h s)) p) \<and>
    saturated (snd (plan_for_peer now tmo h s)) h"
  using assms
proof (induction now tmo h s rule: plan_for_peer.induct)
  case (1 now tmo h s)
  show ?case
  proof (cases "in_flight s h < sw_max_per_peer s \<and> length (sw_requests s) < sw_max_total s")
    case False
    with "1.prems" show ?thesis by (subst (1 2 3 4 5) plan_for_peer.simps) (auto simp: saturated_def)
  next
    case room: True
    show ?thesis
    proof (cases "select_chunk_for_peer now s h")
      case None
      with "1.prems" room select_None_saturated [OF None] show ?thesis
        by (subst (1 2 3 4 5) plan_for_peer.simps) simp
    next
      case (Some pr)
      obtain i dup where pr: "pr = (i, dup)" by (cases pr)
      let ?r = "issue_request now tmo h i dup s"
      let ?rest = "plan_for_peer now tmo h (snd ?r)"
      from room Some pr have eq: "plan_for_peer now tmo h s = (fst ?r # fst ?rest, snd ?rest)"
        by (subst plan_for_peer.simps) (simp add: Let_def)
      from "1.prems" have cinv: "chunks_inv s" by (simp add: swarm_inv_def)
      have may: "may_issue s h i"
        using select_chunk_may_issue [OF cinv Some [unfolded pr]] room by blast
      have IH: "swarm_inv (snd ?rest) \<and> plan_rel (snd ?r) (snd ?rest) \<and>
          (\<forall>p \<in> set (fst ?rest). rp_peer p = h \<and> plan_ok now tmo (snd ?rest) p) \<and> saturated (snd ?rest) h"
        using "1.IH" [OF room Some pr [symmetric] refl] issue_inv [OF "1.prems" may] by blast
      have "plan_ok now tmo (snd ?rest) (fst ?r)"
        using plan_ok_mono IH plan_ok_issue [OF "1.prems" Some [unfolded pr]] by blast
      moreover have "plan_rel s (snd ?rest)"
        using plan_rel_trans [OF plan_rel_issue [OF "1.prems"]] IH by blast
      ultimately show ?thesis using IH by (simp add: eq)
    qed
  qed
qed

lemma plan_for_peers_sound:
  assumes "swarm_inv s"
  shows "swarm_inv (snd (plan_for_peers now tmo hs s)) \<and> plan_rel s (snd (plan_for_peers now tmo hs s)) \<and>
    (\<forall>p \<in> set (fst (plan_for_peers now tmo hs s)).
       rp_peer p \<in> set hs \<and> plan_ok now tmo (snd (plan_for_peers now tmo hs s)) p) \<and>
    (\<forall>h \<in> set hs. saturated (snd (plan_for_peers now tmo hs s)) h)"
  using assms
proof (induction hs arbitrary: s)
  case Nil
  then show ?case by simp
next
  case (Cons h hs)
  obtain ps s1 where 1: "plan_for_peer now tmo h s = (ps, s1)" by (cases "plan_for_peer now tmo h s")
  obtain qs s2 where 2: "plan_for_peers now tmo hs s1 = (qs, s2)" by (cases "plan_for_peers now tmo hs s1")
  from plan_for_peer_sound [OF Cons.prems, of now tmo h] 1
  have s1: "swarm_inv s1" "plan_rel s s1" "saturated s1 h"
    and ps: "\<And>p. p \<in> set ps \<Longrightarrow> rp_peer p = h \<and> plan_ok now tmo s1 p" by auto
  from Cons.IH [OF s1(1)] 2
  have s2: "swarm_inv s2" "plan_rel s1 s2" "\<And>g. g \<in> set hs \<Longrightarrow> saturated s2 g"
    and qs: "\<And>p. p \<in> set qs \<Longrightarrow> rp_peer p \<in> set hs \<and> plan_ok now tmo s2 p" by auto
  have "plan_for_peers now tmo (h # hs) s = (ps @ qs, s2)" by (simp add: 1 2)
  then show ?case
    using s2 ps qs plan_ok_mono [OF s2(2)] plan_rel_trans [OF s1(2) s2(2)] saturated_mono [OF s2(2) s1(3)]
    by auto
qed

lemma plan_requests_cases:
  assumes inv: "swarm_inv s" and run: "plan_requests now tmo s = Inr (ps, t)"
  obtains n s1 where "process_timeouts now s = Inr (n, s1)" "swarm_inv s1" "is_complete s1" "ps = []" "t = s1"
  | n s1 hs where "process_timeouts now s = Inr (n, s1)" "swarm_inv s1" "\<not> is_complete s1"
      "hs = map sp_hash (filter (\<lambda>p. is_available now p \<and> sp_in_flight p < sw_max_per_peer s1)
              (sort_key peer_order_key (dvalues (sw_peers s1))))"
      "(ps, t) = plan_for_peers now tmo hs s1"
proof (cases "process_timeouts now s")
  case (Inl e)
  with run show thesis by (simp add: plan_requests_def)
next
  case (Inr a)
  obtain n s1 where a: "a = (n, s1)" by (cases a)
  with Inr inv have inv1: "swarm_inv s1" by (simp add: process_timeouts_inv)
  show thesis
  proof (cases "is_complete s1")
    case True
    with Inr a run that(1) inv1 show thesis by (simp add: plan_requests_def)
  next
    case False
    from False Inr a run show thesis by (intro that(2) [OF _ inv1 False refl]) (simp_all add: plan_requests_def)
  qed
qed

lemma plan_requests_inv [inv_intros]:
  assumes "swarm_inv s" and "plan_requests now tmo s = Inr (ps, t)"
  shows "swarm_inv t"
  using assms(1,2)
proof (cases rule: plan_requests_cases)
  case (2 n s1 hs)
  then show ?thesis using plan_for_peers_sound [OF 2(2), of now tmo hs] by (metis snd_conv)
qed simp

lemma ranges_inv [inv_intros]: "swarm_inv s \<Longrightarrow> swarm_inv (update_peer_availability h rs s)"
  by (simp add: update_peer_availability_def Let_def swarm_inv_def peers_inv_def chunks_inv_def)

lemma persisted_inv [inv_intros]:
  assumes inv: "swarm_inv s"
  shows "swarm_inv (apply_persisted_peer_state h t i sc cd s)"
proof (cases "dget (sw_peers s) h")
  case None
  with inv show ?thesis by (simp add: apply_persisted_peer_state_def)
next
  case (Some p)
  let ?t = "apply_persisted_peer_state h t i sc cd s"
  from inv have pinv: "peers_inv s" by (simp add: swarm_inv_def)
  obtain q where q: "sw_peers ?t = dput h q (sw_peers s)" "sp_hash q = sp_hash p" "sp_in_flight q = sp_in_flight p"
    using Some by (simp add: apply_persisted_peer_state_def)
  have t: "sw_requests ?t = sw_requests s" "sw_chunks ?t = sw_chunks s" "sw_next_id ?t = sw_next_id s"
    "sw_max_total ?t = sw_max_total s" "sw_max_per_peer ?t = sw_max_per_peer s" "sw_max_attempts ?t = sw_max_attempts s"
    using Some by (simp_all add: apply_persisted_peer_state_def)
  have "peer_ok (sw_requests s) (sw_max_per_peer s) g p'" if "dget (sw_peers ?t) g = Some p'" for g p'
  proof (cases "g = h")
    case True
    with that have "p' = q" by (simp add: q dict_laws)
    with True peers_inv_counts [OF pinv Some] q show ?thesis by (simp add: peer_ok_def)
  next
    case False
    with that have "dget (sw_peers s) g = Some p'" by (simp add: q dict_laws)
    from peers_inv_counts [OF pinv this] show ?thesis by (simp add: peer_ok_def)
  qed
  moreover have "dget (sw_peers ?t) (ar_peer r) \<noteq> None" if "dget (sw_requests s) x = Some r" for x r
    using peers_inv_peer [OF pinv that] by (auto simp: q dict_laws)
  moreover have "dict_ok (sw_peers ?t)" "dict_ok (sw_requests s)" "length (sw_requests s) \<le> sw_max_total s"
    using pinv unfolding q peers_inv_def by simp_all
  ultimately have "peers_inv ?t" unfolding peers_inv_def t by blast
  moreover have "chunks_inv ?t" using inv chunks_inv_cong [OF t(2,1,3,6)] by (simp add: swarm_inv_def)
  ultimately show ?thesis by (simp add: swarm_inv_def)
qed

lemma new_peer_ok: "peer_ok [] m h (new_peer h)"
  by (simp add: peer_ok_def new_peer_def)

lemma new_swarm_inv: "swarm_inv (new_swarm peers n mt mp ma mode ranges lb)"
proof -
  have ranges: "swarm_inv s \<Longrightarrow> swarm_inv (foldl (\<lambda>s (h, rs). update_peer_availability h rs s) s rs)" for s rs
    by (induction rs arbitrary: s) (auto intro: ranges_inv)
  have peers: "dict_ok (foldl (\<lambda>d h. dput h (new_peer h) d) d hs) \<and>
      (\<forall>h p. dget (foldl (\<lambda>d h. dput h (new_peer h) d) d hs) h = Some p \<longrightarrow> peer_ok [] m h p)"
    if "dict_ok d" "\<forall>h p. dget d h = Some p \<longrightarrow> peer_ok [] m h p" for d hs m
    using that
  proof (induction hs arbitrary: d)
    case (Cons h hs)
    have "dict_ok (dput h (new_peer h) d)" using Cons.prems(1) by simp
    moreover have "\<forall>g p. dget (dput h (new_peer h) d) g = Some p \<longrightarrow> peer_ok [] m g p"
      using Cons.prems(2) new_peer_ok [of m h] by (simp add: dget_dput)
    ultimately show ?case using Cons.IH by simp
  qed simp
  have chunks: "chunk_ok [] m i c" if "dget (map (\<lambda>i. (i, new_chunk i)) [0..<n]) i = Some c" for i c m
  proof -
    from that have "c = new_chunk i" using map_of_SomeD [OF that] by auto
    then show ?thesis by (simp add: chunk_ok_def new_chunk_def)
  qed
  have "swarm_inv \<lparr>sw_mode = mode, sw_max_total = a, sw_max_per_peer = b, sw_max_attempts = m,
      sw_peers = foldl (\<lambda>d h. dput h (new_peer h) d) [] hs,
      sw_chunks = map (\<lambda>i. (i, new_chunk i)) [0..<n],
      sw_requests = [], sw_ranges = [], sw_recent_timeouts = [], sw_next_id = 0\<rparr>" (is "swarm_inv ?s") for a b m hs
  proof -
    have "dict_ok (sw_peers ?s)" "\<forall>h p. dget (sw_peers ?s) h = Some p \<longrightarrow> peer_ok [] b h p"
      using peers [of "[]" b hs] by simp_all
    then have "peers_inv ?s" unfolding peers_inv_def by simp
    moreover have "dict_ok (sw_chunks ?s)" by (simp add: comp_def)
    then have "chunks_inv ?s" unfolding chunks_inv_def using chunks by simp
    ultimately show ?thesis by (simp add: swarm_inv_def)
  qed
  from ranges [OF this] show ?thesis unfolding new_swarm_def Let_def .
qed

section \<open>The runs of a session\<close>

text \<open>
  One operation of a download session. \<open>mark_send_failed\<close> is called with a plan whose request is
  still outstanding (the engine sends a plan in the iteration that issued it).
\<close>

inductive swarm_step :: "swarm \<Rightarrow> swarm \<Rightarrow> bool" where
  Plan: "plan_requests now tmo s = Inr (ps, t) \<Longrightarrow> swarm_step s t"
| Timeouts: "process_timeouts now s = Inr (n, t) \<Longrightarrow> swarm_step s t"
| Take_timeouts: "swarm_step s (snd (take_recent_timeouts s))"
| Sent: "swarm_step s (mark_request_sent rid s)"
| Send_failed: "dget (sw_requests s) (rp_id plan) = Some r \<Longrightarrow> ar_peer r = rp_peer plan \<Longrightarrow>
    ar_chunk r = rp_chunk plan \<Longrightarrow> swarm_step s (mark_send_failed plan s)"
| Deferred: "swarm_step s (mark_request_deferred rid st s)"
| Chunk_stored: "swarm_step s (snd (mark_chunk_stored rid s))"
| Invalid: "mark_invalid now rid s = Inr t \<Longrightarrow> swarm_step s t"
| Cancel: "swarm_step s (mark_cancelled rid s)"
| Availability: "swarm_step s (update_peer_availability h rs s)"
| Persisted: "swarm_step s (apply_persisted_peer_state h t i sc cd s)"

inductive_cases swarm_stepE: "swarm_step s t"

lemma swarm_step_inv: "swarm_step s t \<Longrightarrow> swarm_inv s \<Longrightarrow> swarm_inv t"
  by (induction rule: swarm_step.induct) (auto intro: inv_intros simp: take_recent_timeouts_def)

inductive swarm_reachable :: "swarm \<Rightarrow> bool" where
  start: "swarm_reachable (new_swarm peers n mt mp ma mode ranges lb)"
| step: "swarm_reachable s \<Longrightarrow> swarm_step s t \<Longrightarrow> swarm_reachable t"

lemma swarm_reachable_inv: "swarm_reachable s \<Longrightarrow> swarm_inv s"
  by (induction rule: swarm_reachable.induct) (auto intro: new_swarm_inv swarm_step_inv)

section \<open>Safety of every reachable session\<close>

definition two_peers :: swarm where
  "two_peers = new_swarm [''a'', ''b''] 2 (Some 3) (Some 2) 5 Hybrid [] False"

definition two_planned :: swarm where
  "two_planned = snd (projr (plan_requests 100 (\<lambda>_. 30) two_peers))"

definition two_plans :: "request_plan list" where
  "two_plans = fst (projr (plan_requests 100 (\<lambda>_. 30) two_peers))"

lemma two_peers_run: "plan_requests 100 (\<lambda>_. 30) two_peers = Inr (two_plans, two_planned)"
  by code_simp

lemma two_peers_reachable: "swarm_reachable two_peers"
  unfolding two_peers_def by (rule swarm_reachable.start)

lemma two_planned_reachable: "swarm_reachable two_planned"
  by (rule swarm_reachable.step [OF two_peers_reachable swarm_step.Plan [OF two_peers_run]])

text \<open>Property C2: in every reachable session the number of outstanding requests is within the global
  limit, and each peer's in-flight counter is the number of requests outstanding to it and within the
  per-peer limit.\<close>

theorem swarm_within_limits:
  assumes "swarm_reachable s"
  shows "length (sw_requests s) \<le> sw_max_total s \<and>
    (\<forall>(h, p) \<in> set (sw_peers s).
       sp_in_flight p = dcount (\<lambda>r. ar_peer r = h) (sw_requests s) \<and> sp_in_flight p \<le> sw_max_per_peer s)"
proof -
  from swarm_reachable_inv [OF assms] have inv: "peers_inv s" by (simp add: swarm_inv_def)
  then have "dget (sw_peers s) h = Some p" if "(h, p) \<in> set (sw_peers s)" for h p
    using that dict_memD [of "sw_peers s" h p] by (simp add: peers_inv_def)
  with peers_inv_counts [OF inv] inv show ?thesis by (fastforce simp: peers_inv_def)
qed

text \<open>Also: in every reachable session each chunk has at most two outstanding requests, they go to
  different peers, a stored chunk has none, and no chunk was attempted more often than allowed.\<close>

theorem swarm_chunk_requests:
  assumes "swarm_reachable s" and "dget (sw_chunks s) i = Some c"
  shows "length (sc_active c) \<le> 2 \<and> distinct (sc_active c) \<and>
    distinct (map (\<lambda>x. map_option ar_peer (dget (sw_requests s) x)) (sc_active c)) \<and>
    set (sc_active c) = {x. \<exists>r. dget (sw_requests s) x = Some r \<and> ar_chunk r = i} \<and>
    (sc_stored c \<longrightarrow> (\<forall>(x, r) \<in> set (sw_requests s). ar_chunk r \<noteq> i)) \<and>
    sc_attempt_count c \<le> sw_max_attempts s"
proof -
  from swarm_reachable_inv [OF assms(1)] have inv: "chunks_inv s" "peers_inv s" by (simp_all add: swarm_inv_def)
  with assms(2) have ok: "chunk_ok (sw_requests s) (sw_max_attempts s) i c" by (simp add: chunks_inv_def)
  have act: "set (sc_active c) = {x. \<exists>r. dget (sw_requests s) x = Some r \<and> ar_chunk r = i}"
  proof (intro equalityI subsetI)
    fix x assume "x \<in> set (sc_active c)"
    with ok show "x \<in> {x. \<exists>r. dget (sw_requests s) x = Some r \<and> ar_chunk r = i}"
      unfolding chunk_ok_def by blast
  next
    fix x assume "x \<in> {x. \<exists>r. dget (sw_requests s) x = Some r \<and> ar_chunk r = i}"
    then obtain r where r: "dget (sw_requests s) x = Some r" "ar_chunk r = i" by blast
    with inv have "request_ok (sw_next_id s) (sw_chunks s) x r" by (simp add: chunks_inv_def)
    with r assms(2) show "x \<in> set (sc_active c)" by (simp add: request_ok_def)
  qed
  have idle: "ar_chunk r \<noteq> i" if "sc_stored c" "(x, r) \<in> set (sw_requests s)" for x r
  proof
    assume "ar_chunk r = i"
    moreover have "dget (sw_requests s) x = Some r"
      using that(2) inv(2) dict_memD [of "sw_requests s" x r] by (simp add: peers_inv_def)
    ultimately have "x \<in> set (sc_active c)" using act by blast
    with ok that(1) show False by (simp add: chunk_ok_def)
  qed
  have "inj_on (\<lambda>x. map_option ar_peer (dget (sw_requests s) x)) (set (sc_active c))"
    using ok unfolding chunk_ok_def inj_on_def by blast
  with ok act idle show ?thesis by (auto simp: chunk_ok_def distinct_map)
qed

theorem swarm_within_limits_witness:
  "length (sw_requests two_planned) = 3 \<and> length (sw_requests two_planned) \<le> sw_max_total two_planned"
proof
  show "length (sw_requests two_planned) = 3" by code_simp
  show "length (sw_requests two_planned) \<le> sw_max_total two_planned"
    using swarm_within_limits [OF two_planned_reachable] by blast
qed

theorem swarm_chunk_requests_witness:
  "map_option sc_active (dget (sw_chunks two_planned) 0) = Some [2, 0] \<and>
   length (sc_active (the (dget (sw_chunks two_planned) 0))) \<le> 2"
proof -
  have c: "map_option sc_active (dget (sw_chunks two_planned) 0) = Some [2, 0]" by code_simp
  then have "dget (sw_chunks two_planned) 0 = Some (the (dget (sw_chunks two_planned) 0))" by auto
  from swarm_chunk_requests [OF two_planned_reachable this] c show ?thesis by blast
qed

text \<open>Property C18: a request issued by \<open>plan_requests\<close> goes to a peer that is out of cooldown, for a
  chunk that is not stored and that the peer has; the request is recorded, with its deadline one
  timeout ahead.\<close>

theorem plan_requests_sound:
  assumes "swarm_reachable s" and run: "plan_requests now tmo s = Inr (ps, t)" and p: "p \<in> set ps"
  shows "\<exists>q c. dget (sw_peers t) (rp_peer p) = Some q \<and> is_available now q \<and>
    dget (sw_chunks t) (rp_chunk p) = Some c \<and> \<not> sc_stored c \<and>
    peer_has_chunk t (rp_peer p) (rp_chunk p) \<and>
    dget (sw_requests t) (rp_id p) =
      Some \<lparr>ar_id = rp_id p, ar_peer = rp_peer p, ar_chunk = rp_chunk p,
            ar_deadline = now + tmo (rp_chunk p), ar_duplicate = rp_duplicate p\<rparr>"
  using swarm_reachable_inv [OF assms(1)] run
proof (cases rule: plan_requests_cases)
  case 1
  with p show ?thesis by simp
next
  case (2 n s1 hs)
  from 2(5) have eqs: "plan_for_peers now tmo hs s1 = (ps, t)" by simp
  from plan_for_peers_sound [OF 2(2), of now tmo hs] p
  have rel: "plan_rel s1 t" and hs: "rp_peer p \<in> set hs" and ok: "plan_ok now tmo t p"
    by (auto simp: eqs)
  from hs obtain q0 where q0: "q0 \<in> set (dvalues (sw_peers s1))" "sp_hash q0 = rp_peer p" "is_available now q0"
    unfolding 2(4) by (fastforce simp: image_iff)
  from 2(2) have pinv: "peers_inv s1" by (simp add: swarm_inv_def)
  from q0(1) obtain h where h: "(h, q0) \<in> set (sw_peers s1)" by auto
  with pinv have h': "dget (sw_peers s1) h = Some q0"
    using dict_memD [of "sw_peers s1" h q0] by (simp add: peers_inv_def)
  with peers_inv_counts [OF pinv h'] q0 have "dget (sw_peers s1) (rp_peer p) = Some q0" by simp
  with rel have "map_option sp_cooldown_until (dget (sw_peers t) (rp_peer p)) = Some (sp_cooldown_until q0)"
    unfolding plan_rel_def by simp
  with q0(3) obtain q where "dget (sw_peers t) (rp_peer p) = Some q" "is_available now q"
    by (auto simp: is_available_def)
  with ok show ?thesis by (auto simp: plan_ok_def)
qed

theorem plan_requests_sound_witness:
  "length two_plans = 3 \<and>
   (\<exists>q. dget (sw_peers two_planned) (rp_peer (two_plans ! 2)) = Some q \<and> is_available 100 q)"
proof
  show "length two_plans = 3" by code_simp
  then have "two_plans ! 2 \<in> set two_plans" by simp
  from plan_requests_sound [OF two_peers_reachable two_peers_run this]
  show "\<exists>q. dget (sw_peers two_planned) (rp_peer (two_plans ! 2)) = Some q \<and> is_available 100 q" by blast
qed

text \<open>Property C19: planning leaves no capacity idle: afterwards, whenever an available peer has a chunk
  that is neither stored, nor requested, nor out of attempts, that peer is at its in-flight limit or
  the session is at its global limit.\<close>

theorem plan_requests_saturates:
  assumes "swarm_reachable s" and run: "plan_requests now tmo s = Inr (ps, t)"
    and h: "dget (sw_peers t) h = Some q" and avail: "is_available now q"
    and c: "dget (sw_chunks t) i = Some c" "\<not> sc_stored c" "sc_active c = []"
      "sc_attempt_count c < sw_max_attempts t" "peer_has_chunk t h i"
  shows "sp_in_flight q = sw_max_per_peer t \<or> length (sw_requests t) = sw_max_total t"
  using swarm_reachable_inv [OF assms(1)] run
proof (cases rule: plan_requests_cases)
  case 1
  with c show ?thesis using map_of_SomeD [OF c(1)] by (force simp: is_complete_def list_all_iff)
next
  case (2 n s1 hs)
  from 2(5) have eqs: "plan_for_peers now tmo hs s1 = (ps, t)" by simp
  from plan_for_peers_sound [OF 2(2), of now tmo hs]
  have inv: "swarm_inv t" and rel: "plan_rel s1 t" and sat: "\<And>g. g \<in> set hs \<Longrightarrow> saturated t g"
    by (auto simp: eqs)
  from inv have pinv: "peers_inv t" and cinv: "chunks_inv t" by (simp_all add: swarm_inv_def)
  from 2(2) have pinv1: "peers_inv s1" by (simp add: swarm_inv_def)
  from rel h have "map_option sp_cooldown_until (dget (sw_peers s1) h) = Some (sp_cooldown_until q)"
    unfolding plan_rel_def by (metis option.simps(9))
  then obtain q0 where q0: "dget (sw_peers s1) h = Some q0" "is_available now q0"
    using avail by (auto simp: is_available_def)
  have "saturated t h"
  proof (cases "sp_in_flight q0 < sw_max_per_peer s1")
    case True
    with q0 peers_inv_counts [OF pinv1 q0(1)] have "h \<in> set hs"
      by (force simp: 2(4) dest: map_of_SomeD)
    then show ?thesis by (rule sat)
  next
    case False
    with rel q0 have "in_flight t h \<ge> sw_max_per_peer t"
      unfolding plan_rel_def in_flight_def by (metis le_trans not_less option.simps(5))
    then show ?thesis by (simp add: saturated_def)
  qed
  moreover have "sc_index c = i" using cinv c(1) by (simp add: chunks_inv_def chunk_ok_def)
  then have "wants_chunk t h c \<and> sc_active c = []" using c by (simp add: wants_chunk_def)
  ultimately have "in_flight t h \<ge> sw_max_per_peer t \<or> sw_max_total t \<le> length (sw_requests t)"
    using c(1) unfolding saturated_def by blast
  then have "sw_max_per_peer t \<le> sp_in_flight q \<or> sw_max_total t \<le> length (sw_requests t)"
    using h by (simp add: in_flight_def)
  moreover have "length (sw_requests t) \<le> sw_max_total t" using pinv by (simp add: peers_inv_def)
  ultimately show ?thesis using peers_inv_counts [OF pinv h] by linarith
qed

definition one_slot :: swarm where
  "one_slot = new_swarm [''a''] 2 (Some 1) (Some 2) 5 Hybrid [] False"

definition one_slot_planned :: swarm where
  "one_slot_planned = snd (projr (plan_requests 100 (\<lambda>_. 30) one_slot))"

theorem plan_requests_saturates_witness:
  "length (sw_requests one_slot_planned) = sw_max_total one_slot_planned"
proof -
  have reach: "swarm_reachable one_slot" unfolding one_slot_def by (rule swarm_reachable.start)
  have run: "plan_requests 100 (\<lambda>_. 30) one_slot =
      Inr (fst (projr (plan_requests 100 (\<lambda>_. 30) one_slot)), one_slot_planned)" by code_simp
  let ?q = "\<lparr>sp_hash = ''a'', sp_timeout_count = 0, sp_invalid_chunk_count = 0, sp_success_count = 0,
    sp_cooldown_until = 0, sp_in_flight = 1\<rparr>"
  have q: "dget (sw_peers one_slot_planned) ''a'' = Some ?q" by code_simp
  have c: "dget (sw_chunks one_slot_planned) 1 = Some (new_chunk 1)" by code_simp
  have "sp_in_flight ?q = sw_max_per_peer one_slot_planned \<or>
      length (sw_requests one_slot_planned) = sw_max_total one_slot_planned"
    by (rule plan_requests_saturates [OF reach run q _ c]; code_simp)
  moreover have "sw_max_per_peer one_slot_planned = 2" by code_simp
  ultimately show ?thesis by simp
qed

lemma find_least:
  assumes "sorted (map f xs)" and "find P xs = Some d" and "c \<in> set xs" and "P c"
  shows "f d \<le> f c"
  using assms by (induction xs) (auto split: if_splits)

lemma map_index_map_filter:
  assumes "\<And>k d. g k = Some d \<Longrightarrow> f d = k"
  shows "map f (List.map_filter g xs) = filter (\<lambda>k. g k \<noteq> None) xs"
  using assms by (induction xs) (auto simp: map_filter_simps split: option.split)

text \<open>Also: under rarest-first, with some availability known, a fresh (non-duplicate) request goes
  to a chunk of least availability among the idle chunks the peer may fetch, the lowest index among
  equals.\<close>

theorem rarest_first_picks_rarest:
  assumes "swarm_reachable s" and mode: "sw_mode s = RarestFirst" "has_peer_availability s"
    and sel: "select_chunk_for_peer now s h = Some (i, False)"
    and c: "dget (sw_chunks s) j = Some c" "wants_chunk s h c" "sc_active c = []"
  shows "(availability_count now s i, i) \<le> (availability_count now s j, j)"
proof -
  let ?key = "\<lambda>i. (availability_count now s i, i)"
  let ?idxs = "sort_key ?key (map fst (sw_chunks s))"
  let ?P = "\<lambda>c. wants_chunk s h c \<and> sc_active c = []"
  from swarm_reachable_inv [OF assms(1)] have cinv: "chunks_inv s" by (simp add: swarm_inv_def)
  have idx: "sc_index d = k" if "dget (sw_chunks s) k = Some d" for k d
    using cinv that by (simp add: chunks_inv_def chunk_ok_def)
  have "map sc_index (ordered_chunks now s) = filter (\<lambda>k. dget (sw_chunks s) k \<noteq> None) ?idxs"
    using mode map_index_map_filter [of "dget (sw_chunks s)" sc_index ?idxs] idx
    by (simp add: ordered_chunks_def)
  then have "map ?key (map sc_index (ordered_chunks now s)) =
      map ?key (filter (\<lambda>k. dget (sw_chunks s) k \<noteq> None) ?idxs)" by (rule arg_cong)
  moreover have "sorted (map ?key (filter (\<lambda>k. dget (sw_chunks s) k \<noteq> None) ?idxs))"
    by (rule sorted_filter) simp
  ultimately have sorted: "sorted (map (?key \<circ> sc_index) (ordered_chunks now s))"
    by (metis map_map)
  from sel obtain d where d: "find ?P (ordered_chunks now s) = Some d" "sc_index d = i"
    by (auto simp: select_chunk_for_peer_def split: option.splits if_splits)
  have "(?key \<circ> sc_index) d \<le> (?key \<circ> sc_index) c"
    by (rule find_least [OF sorted d(1) mem_ordered_chunks [OF c(1)]]) (use c in simp)
  with d(2) idx [OF c(1)] show ?thesis by simp
qed

definition rarest :: swarm where
  "rarest = new_swarm [''a'', ''b''] 2 None None 5 RarestFirst [(''a'', [(0, 1)]), (''b'', [(0, 0)])] False"

theorem rarest_first_picks_rarest_witness:
  "select_chunk_for_peer 100 rarest ''a'' = Some (1, False) \<and>
   (availability_count 100 rarest 1, 1::nat) \<le> (availability_count 100 rarest 0, 0)"
proof
  show sel: "select_chunk_for_peer 100 rarest ''a'' = Some (1, False)" by code_simp
  have reach: "swarm_reachable rarest" unfolding rarest_def by (rule swarm_reachable.start)
  have c: "dget (sw_chunks rarest) 0 = Some (new_chunk 0)" by code_simp
  show "(availability_count 100 rarest 1, 1::nat) \<le> (availability_count 100 rarest 0, 0)"
    by (rule rarest_first_picks_rarest [OF reach _ _ sel c]) code_simp+
qed

end
