(* ===== verification/SwarmOutcomes.thy ===== *)
theory SwarmOutcomes
  imports SwarmSafe
begin

text \<open>
  What the outcomes of requests do: the penalties and their bounds, the exact effect of
  \<open>process_timeouts\<close>, and the effect of \<open>mark_chunk_stored\<close> with the cancellations it returns.
\<close>

section \<open>Penalties\<close>

text \<open>Also: a timeout costs a peer between 10 and 180 seconds of cooldown and an invalid chunk
  between 60 and 600, never less for a higher count, as long as the count is at most 1024; from
  the 1025th on the computation raises \<open>OverflowError\<close>.\<close>

theorem penalties_bounded:
  "(timeout_penalty n = Inl OverflowError \<longleftrightarrow> 1025 \<le> n) \<and> (invalid_penalty n = Inl OverflowError \<longleftrightarrow> 1025 \<le> n) \<and>
   (\<forall>x. timeout_penalty n = Inr x \<longrightarrow> 10 \<le> x \<and> x \<le> 180) \<and>
   (\<forall>x. invalid_penalty n = Inr x \<longrightarrow> 60 \<le> x \<and> x \<le> 600) \<and>
   (\<forall>m x y. m \<le> n \<longrightarrow> timeout_penalty m = Inr x \<longrightarrow> timeout_penalty n = Inr y \<longrightarrow> x \<le> y)"
proof (intro conjI allI impI)
  show "timeout_penalty n = Inl OverflowError \<longleftrightarrow> 1025 \<le> n" "invalid_penalty n = Inl OverflowError \<longleftrightarrow> 1025 \<le> n"
    by (auto simp: timeout_penalty_def invalid_penalty_def float_pow2_def)
  have pow: "(1::rat) \<le> 2 ^ (n - 1)" by simp
  fix x
  show "10 \<le> x" "x \<le> 180" if "timeout_penalty n = Inr x"
    using that pow by (auto simp: timeout_penalty_def float_pow2_def split: if_splits)
  show "60 \<le> x" "x \<le> 600" if "invalid_penalty n = Inr x"
    using that pow by (auto simp: invalid_penalty_def float_pow2_def split: if_splits)
next
  fix m x y assume le: "m \<le> n" and "timeout_penalty m = Inr x" "timeout_penalty n = Inr y"
  then have "x = min 180 (10 * 2 ^ (m - 1))" "y = min 180 (10 * 2 ^ (n - 1))"
    by (auto simp: timeout_penalty_def float_pow2_def split: if_splits)
  moreover from le have "(10::rat) * 2 ^ (m - 1) \<le> 10 * 2 ^ (n - 1)"
    by (intro mult_left_mono power_increasing) auto
  ultimately show "x \<le> y" by (simp only: min.mono order_refl)
qed

theorem penalties_bounded_witness:
  "timeout_penalty 3 = Inr 40 \<and> 40 \<le> (180::rat) \<and> timeout_penalty 1025 = Inl OverflowError"
proof (intro conjI)
  show 3: "timeout_penalty 3 = Inr 40" by code_simp
  show "40 \<le> (180::rat)" using penalties_bounded [of 3] 3 by blast
  show "timeout_penalty 1025 = Inl OverflowError" using penalties_bounded [of 1025] by blast
qed

lemma timeout_penalty_ge: "timeout_penalty n = Inr x \<Longrightarrow> 10 \<le> x"
  by (auto simp: timeout_penalty_def float_pow2_def split: if_splits)

section \<open>Timeouts\<close>

lemma time_out_request_effect:
  assumes inv: "swarm_inv s" and r: "dget (sw_requests s) rid = Some r"
    and run: "time_out_request now rid s = Inr t"
  shows "sw_requests t = dpop rid (sw_requests s) \<and> sw_recent_timeouts t = sw_recent_timeouts s @ [r] \<and>
    (\<exists>p. dget (sw_peers t) (ar_peer r) = Some p \<and> now + 10 \<le> sp_cooldown_until p) \<and>
    (\<forall>h p. dget (sw_peers s) h = Some p \<longrightarrow>
       (\<exists>q. dget (sw_peers t) h = Some q \<and> sp_cooldown_until p \<le> sp_cooldown_until q))"
proof -
  from inv have pinv: "peers_inv s" by (simp add: swarm_inv_def)
  obtain p where p: "dget (sw_peers s) (ar_peer r) = Some p" using peers_inv_peer [OF pinv r] .
  from run r p obtain pen where pen: "timeout_penalty (Suc (sp_timeout_count p)) = Inr pen"
    by (auto simp: time_out_request_def Let_def split: sum.splits)
  have t: "t = modify_chunk (ar_chunk r) (\<lambda>c. missing_if_idle (discard_active rid c))
       (release_peer (ar_peer r)
          (\<lambda>p. p\<lparr>sp_timeout_count := Suc (sp_timeout_count p),
                 sp_cooldown_until := max (sp_cooldown_until p) (now + pen)\<rparr>)
          ((pop_request rid s)\<lparr>sw_recent_timeouts := sw_recent_timeouts s @ [r]\<rparr>))"
    using run r p pen by (simp add: time_out_request_def Let_def)
  have recent: "sw_recent_timeouts (modify_chunk i g u) = sw_recent_timeouts u" for i g u
    by (simp add: modify_chunk_def split: option.split)
  have "sw_requests t = dpop rid (sw_requests s)" by (simp add: t)
  moreover have "sw_recent_timeouts t = sw_recent_timeouts s @ [r]"
    using p by (simp add: t recent release_peer_def)
  ultimately show ?thesis
    using p timeout_penalty_ge [OF pen] by (auto simp: t release_peer_def dict_laws max_def)
qed

lemma time_out_all_effect:
  assumes "swarm_inv s" and "distinct rids"
    and "\<forall>rid \<in> set rids. dget (sw_requests s) rid \<noteq> None" and "time_out_all now rids s = Inr t"
  shows "sw_requests t = filter (\<lambda>p. fst p \<notin> set rids) (sw_requests s) \<and>
    sw_recent_timeouts t = sw_recent_timeouts s @ map (\<lambda>rid. the (dget (sw_requests s) rid)) rids \<and>
    (\<forall>rid \<in> set rids. \<exists>p. dget (sw_peers t) (ar_peer (the (dget (sw_requests s) rid))) = Some p \<and>
       now + 10 \<le> sp_cooldown_until p) \<and>
    (\<forall>h p. dget (sw_peers s) h = Some p \<longrightarrow>
       (\<exists>q. dget (sw_peers t) h = Some q \<and> sp_cooldown_until p \<le> sp_cooldown_until q))"
  using assms
proof (induction rids arbitrary: s)
  case Nil
  then show ?case by auto
next
  case (Cons rid rids)
  from Cons.prems(3) obtain r where r: "dget (sw_requests s) rid = Some r" by auto
  from Cons.prems(4) obtain s1 where s1: "time_out_request now rid s = Inr s1" "time_out_all now rids s1 = Inr t"
    by (auto split: sum.splits)
  note eff = time_out_request_effect [OF Cons.prems(1) r s1(1)]
  have inv1: "swarm_inv s1" by (rule time_out_request_inv [OF Cons.prems(1) s1(1)])
  from eff have reqs1: "sw_requests s1 = dpop rid (sw_requests s)" by blast
  have same: "dget (sw_requests s1) x = dget (sw_requests s) x" if "x \<in> set rids" for x
    using that Cons.prems(2) by (auto simp: reqs1 dict_laws)
  have "\<forall>x \<in> set rids. dget (sw_requests s1) x \<noteq> None" using same Cons.prems(3) by simp
  note IH = Cons.IH [OF inv1 _ this s1(2)]
  have "map (\<lambda>x. the (dget (sw_requests s1) x)) rids = map (\<lambda>x. the (dget (sw_requests s) x)) rids"
    using same by simp
  moreover have "filter (\<lambda>p. fst p \<notin> set rids) (dpop rid (sw_requests s)) =
      filter (\<lambda>p. fst p \<notin> set (rid # rids)) (sw_requests s)"
    by (auto simp: dpop_filter intro: filter_cong)
  moreover have "\<exists>p. dget (sw_peers t) (ar_peer (the (dget (sw_requests s) x))) = Some p \<and>
      now + 10 \<le> sp_cooldown_until p" if "x \<in> set (rid # rids)" for x
  proof (cases "x = rid")
    case True
    from eff obtain p where p: "dget (sw_peers s1) (ar_peer r) = Some p" "now + 10 \<le> sp_cooldown_until p" by blast
    with IH Cons.prems(2) obtain q where "dget (sw_peers t) (ar_peer r) = Some q" "sp_cooldown_until p \<le> sp_cooldown_until q"
      by (meson distinct.simps(2))
    with p True r show ?thesis by auto
  next
    case False
    with that have "x \<in> set rids" by simp
    with IH Cons.prems(2) show ?thesis unfolding same [OF \<open>x \<in> set rids\<close>, symmetric] by simp
  qed
  moreover have "\<exists>q. dget (sw_peers t) h = Some q \<and> sp_cooldown_until p \<le> sp_cooldown_until q"
    if p: "dget (sw_peers s) h = Some p" for h p
  proof -
    from eff p obtain q where q: "dget (sw_peers s1) h = Some q" "sp_cooldown_until p \<le> sp_cooldown_until q" by blast
    with IH Cons.prems(2) obtain u where "dget (sw_peers t) h = Some u" "sp_cooldown_until q \<le> sp_cooldown_until u"
      by (meson distinct.simps(2))
    with q show ?thesis by (blast intro: order_trans)
  qed
  ultimately show ?case using IH Cons.prems(2) eff r reqs1 by (intro conjI ballI allI impI) simp_all
qed

text \<open>Also: \<open>process_timeouts\<close> retires exactly the requests whose deadline has passed, reports their
  number and the requests themselves, and leaves each peer that let one pass in cooldown for at
  least ten seconds.\<close>

theorem process_timeouts_exact:
  assumes "swarm_reachable s" and "process_timeouts now s = Inr (n, t)"
  shows "sw_requests t = filter (\<lambda>(rid, r). now < ar_deadline r) (sw_requests s) \<and>
    n = length (sw_recent_timeouts t) \<and>
    sw_recent_timeouts t = filter (\<lambda>r. ar_deadline r \<le> now) (dvalues (sw_requests s)) \<and>
    (\<forall>r \<in> set (sw_recent_timeouts t). \<exists>p. dget (sw_peers t) (ar_peer r) = Some p \<and>
       now + 10 \<le> sp_cooldown_until p)"
proof -
  let ?s = "s\<lparr>sw_recent_timeouts := []\<rparr>"
  let ?rids = "expired_ids now s"
  from swarm_reachable_inv [OF assms(1)] have inv: "swarm_inv s" .
  then have ok: "dict_ok (sw_requests s)" by (simp add: swarm_inv_def peers_inv_def)
  from assms(2) have run: "time_out_all now ?rids ?s = Inr t" and n: "n = length ?rids"
    by (auto simp: process_timeouts_def map_sum_def split: sum.splits)
  have get: "dget (sw_requests s) (fst e) = Some (snd e)" if "e \<in> set (sw_requests s)" for e
    using dict_memD [OF ok, of "fst e" "snd e"] that by simp
  have "distinct ?rids" using ok by (simp add: expired_ids_def distinct_map_filter)
  moreover have "\<forall>x \<in> set ?rids. dget (sw_requests ?s) x \<noteq> None"
    using get by (force simp: expired_ids_def)
  moreover have "swarm_inv ?s" using inv by simp
  ultimately have eff: "sw_requests t = filter (\<lambda>p. fst p \<notin> set ?rids) (sw_requests s)"
    "sw_recent_timeouts t = map (\<lambda>x. the (dget (sw_requests s) x)) ?rids"
    "\<forall>x \<in> set ?rids. \<exists>p. dget (sw_peers t) (ar_peer (the (dget (sw_requests s) x))) = Some p \<and>
       now + 10 \<le> sp_cooldown_until p"
    using time_out_all_effect [OF _ _ _ run] by simp_all
  have "filter (\<lambda>p. fst p \<notin> set ?rids) (sw_requests s) = filter (\<lambda>(rid, r). now < ar_deadline r) (sw_requests s)"
  proof (rule filter_cong [OF refl])
    fix e assume e: "e \<in> set (sw_requests s)"
    have "fst e \<in> set ?rids \<longleftrightarrow> ar_deadline (snd e) \<le> now"
    proof
      assume "fst e \<in> set ?rids"
      then obtain e' where e': "e' \<in> set (sw_requests s)" "fst e' = fst e" "ar_deadline (snd e') \<le> now"
        by (auto simp: expired_ids_def)
      with get [OF e'(1)] get [OF e] show "ar_deadline (snd e) \<le> now" by simp
    qed (use e in \<open>force simp: expired_ids_def\<close>)
    then show "(fst e \<notin> set ?rids) = (case e of (rid, r) \<Rightarrow> now < ar_deadline r)" by (auto simp: case_prod_beta)
  qed
  moreover have "map (\<lambda>x. the (dget (sw_requests s) x)) ?rids =
      filter (\<lambda>r. ar_deadline r \<le> now) (dvalues (sw_requests s))"
  proof -
    have "?rids = map fst (filter (\<lambda>e. ar_deadline (snd e) \<le> now) (sw_requests s))"
      by (simp add: expired_ids_def split_def)
    then show ?thesis
      using get by (auto simp: filter_map comp_def intro!: map_cong)
  qed
  moreover have "n = length (sw_recent_timeouts t)" using eff(2) n by simp
  moreover have "\<exists>p. dget (sw_peers t) (ar_peer r) = Some p \<and> now + 10 \<le> sp_cooldown_until p"
    if "r \<in> set (sw_recent_timeouts t)" for r
  proof -
    from that eff(2) obtain x where "x \<in> set ?rids" "r = the (dget (sw_requests s) x)" by auto
    with eff(3) show ?thesis by blast
  qed
  ultimately show ?thesis using eff(1,2) by simp
qed

definition two_expired :: swarm where
  "two_expired = snd (projr (process_timeouts 200 two_planned))"

theorem process_timeouts_exact_witness:
  "sw_requests two_expired = [] \<and> length (sw_recent_timeouts two_expired) = 3 \<and>
   list_all (\<lambda>r. \<exists>p. dget (sw_peers two_expired) (ar_peer r) = Some p \<and> 210 \<le> sp_cooldown_until p)
     (sw_recent_timeouts two_expired)"
proof -
  have run: "process_timeouts 200 two_planned = Inr (3, two_expired)" by code_simp
  have reqs: "sw_requests two_expired = []" by code_simp
  from process_timeouts_exact [OF two_planned_reachable run] reqs show ?thesis
    by (auto simp: list_all_iff)
qed

section \<open>Completion of a chunk\<close>

lemma cancel_siblings_list:
  assumes "distinct xs" and "dict_ok (sw_requests s)"
    and "\<forall>x \<in> set xs - {rid}. dget (sw_requests s) x \<noteq> None"
  shows "fst (cancel_siblings xs rid s) =
    map (\<lambda>x. the (dget (sw_requests s) x)) (filter (\<lambda>x. x \<noteq> rid) xs)"
  using assms
proof (induction xs arbitrary: s)
  case Nil
  then show ?case by simp
next
  case (Cons x xs)
  show ?case
  proof (cases "x = rid")
    case True
    with Cons show ?thesis by simp
  next
    case False
    with Cons.prems(3) obtain r where r: "dget (sw_requests s) x = Some r" by auto
    let ?s = "release_peer (ar_peer r) id (pop_request x s)"
    have "\<forall>y \<in> set xs - {rid}. dget (sw_requests ?s) y \<noteq> None"
      using Cons.prems(1,3) by (auto simp: dict_laws)
    moreover have "dict_ok (sw_requests ?s)" using Cons.prems(2) by simp
    ultimately have "fst (cancel_siblings xs rid ?s) =
        map (\<lambda>x. the (dget (sw_requests ?s) x)) (filter (\<lambda>x. x \<noteq> rid) xs)"
      using Cons.IH Cons.prems(1) by simp
    moreover have "map (\<lambda>y. the (dget (sw_requests ?s) y)) (filter (\<lambda>x. x \<noteq> rid) xs) =
        map (\<lambda>y. the (dget (sw_requests s) y)) (filter (\<lambda>x. x \<noteq> rid) xs)"
      using Cons.prems(1) by (auto simp: dict_laws)
    ultimately show ?thesis using False r by (simp add: case_prod_beta)
  qed
qed

text \<open>Also: when the response to an outstanding request has been stored, the chunk is stored and
  credited to the peer that answered, the requests returned for cancellation are exactly the other
  outstanding requests for that chunk, and only requests for that chunk disappear.\<close>

theorem chunk_stored_cancels_siblings:
  assumes "swarm_reachable s" and r: "dget (sw_requests s) rid = Some r"
    and run: "mark_chunk_stored rid s = (cs, t)"
  shows "(\<exists>c. dget (sw_chunks t) (ar_chunk r) = Some c \<and> sc_stored c \<and> sc_successful_peer c = ar_peer r) \<and>
    set cs = {x. x \<in> set (dvalues (sw_requests s)) \<and> ar_chunk x = ar_chunk r \<and> ar_id x \<noteq> rid} \<and>
    sw_requests t = filter (\<lambda>(i, x). ar_chunk x \<noteq> ar_chunk r) (sw_requests s)"
proof -
  from swarm_reachable_inv [OF assms(1)] have pinv: "peers_inv s" and cinv: "chunks_inv s"
    by (simp_all add: swarm_inv_def)
  then have ok: "dict_ok (sw_requests s)" by (simp add: peers_inv_def)
  from cinv r have "request_ok (sw_next_id s) (sw_chunks s) rid r" by (simp add: chunks_inv_def)
  then obtain c where c: "dget (sw_chunks s) (ar_chunk r) = Some c" "rid \<in> set (sc_active c)"
    by (auto simp: request_ok_def)
  have cok: "chunk_ok (sw_requests s) (sw_max_attempts s) (ar_chunk r) c"
    using cinv c(1) by (simp add: chunks_inv_def)
  let ?s1 = "release_peer (ar_peer r) (\<lambda>p. p\<lparr>sp_success_count := Suc (sp_success_count p)\<rparr>) (pop_request rid s)"
  let ?c = "c\<lparr>sc_stored := True, sc_successful_peer := ar_peer r, sc_state := Stored, sc_active := []\<rparr>"
  let ?s2 = "?s1\<lparr>sw_chunks := dput (ar_chunk r) ?c (sw_chunks ?s1)\<rparr>"
  have eq: "cancel_siblings (sc_active c) rid ?s2 = (cs, t)"
    using run r c by (simp add: mark_chunk_stored_def)
  have act: "i \<in> set (sc_active c) \<longleftrightarrow> ar_chunk x = ar_chunk r"
    if ix: "dget (sw_requests s) i = Some x" for i x
  proof
    assume "i \<in> set (sc_active c)"
    with cok ix show "ar_chunk x = ar_chunk r" unfolding chunk_ok_def by force
  next
    assume "ar_chunk x = ar_chunk r"
    moreover from cinv ix have "request_ok (sw_next_id s) (sw_chunks s) i x" by (simp add: chunks_inv_def)
    ultimately show "i \<in> set (sc_active c)" using c(1) by (simp add: request_ok_def)
  qed
  have get: "dget (sw_requests s) i = Some x" if "(i, x) \<in> set (sw_requests s)" for i x
    using dict_memD [OF ok] that by simp
  have ident: "ar_id x = i" if "dget (sw_requests s) i = Some x" for i x
    using cinv that by (simp add: chunks_inv_def request_ok_def)
  have "sw_requests t = filter (\<lambda>p. fst p \<notin> set (sc_active c) - {rid}) (filter (\<lambda>p. fst p \<noteq> rid) (sw_requests s))"
    using cancel_siblings_frame [of "sc_active c" rid ?s2] eq by (simp add: dpop_filter)
  also have "\<dots> = filter (\<lambda>(i, x). ar_chunk x \<noteq> ar_chunk r) (sw_requests s)"
    using c(2) act get by (auto intro!: filter_cong)
  finally have reqs: "sw_requests t = filter (\<lambda>(i, x). ar_chunk x \<noteq> ar_chunk r) (sw_requests s)" .
  have have_active: "dget (sw_requests s) x \<noteq> None" if "x \<in> set (sc_active c)" for x
    using cok that unfolding chunk_ok_def by force
  have "cs = map (\<lambda>x. the (dget (sw_requests ?s2) x)) (filter (\<lambda>x. x \<noteq> rid) (sc_active c))"
    using cancel_siblings_list [of "sc_active c" ?s2 rid] eq cok ok have_active
    by (auto simp: chunk_ok_def dict_laws)
  also have "\<dots> = map (\<lambda>x. the (dget (sw_requests s) x)) (filter (\<lambda>x. x \<noteq> rid) (sc_active c))"
    by (auto simp: dict_laws)
  finally have "set cs = (\<lambda>x. the (dget (sw_requests s) x)) ` (set (sc_active c) - {rid})" by auto
  also have "\<dots> = {x. x \<in> set (dvalues (sw_requests s)) \<and> ar_chunk x = ar_chunk r \<and> ar_id x \<noteq> rid}"
  proof (intro equalityI subsetI)
    fix x assume "x \<in> (\<lambda>x. the (dget (sw_requests s) x)) ` (set (sc_active c) - {rid})"
    then obtain i where i: "i \<in> set (sc_active c)" "i \<noteq> rid" "dget (sw_requests s) i = Some x"
      using have_active by force
    with map_of_SomeD [OF i(3)] act [OF i(3)] ident [OF i(3)]
    show "x \<in> {x. x \<in> set (dvalues (sw_requests s)) \<and> ar_chunk x = ar_chunk r \<and> ar_id x \<noteq> rid}"
      by force
  next
    fix x assume "x \<in> {x. x \<in> set (dvalues (sw_requests s)) \<and> ar_chunk x = ar_chunk r \<and> ar_id x \<noteq> rid}"
    then obtain i where i: "(i, x) \<in> set (sw_requests s)" "ar_chunk x = ar_chunk r" "ar_id x \<noteq> rid" by auto
    from get [OF i(1)] ident [OF get [OF i(1)]] act [OF get [OF i(1)]] i(2,3)
    show "x \<in> (\<lambda>x. the (dget (sw_requests s) x)) ` (set (sc_active c) - {rid})"
      by (intro image_eqI [of _ _ i]) auto
  qed
  finally have cancels: "set cs = {x. x \<in> set (dvalues (sw_requests s)) \<and> ar_chunk x = ar_chunk r \<and> ar_id x \<noteq> rid}" .
  have "sw_chunks t = dput (ar_chunk r) ?c (sw_chunks s)"
    using cancel_siblings_frame [of "sc_active c" rid ?s2] eq by simp
  then have "dget (sw_chunks t) (ar_chunk r) = Some ?c" by (simp add: dict_laws)
  with cancels reqs show ?thesis by simp
qed

theorem chunk_stored_cancels_siblings_witness:
  "map ar_id (fst (mark_chunk_stored 0 two_planned)) = [2] \<and>
   map fst (sw_requests (snd (mark_chunk_stored 0 two_planned))) = [1] \<and>
   set (fst (mark_chunk_stored 0 two_planned)) =
     {x. x \<in> set (dvalues (sw_requests two_planned)) \<and> ar_chunk x = 0 \<and> ar_id x \<noteq> 0}"
proof (intro conjI)
  show "map ar_id (fst (mark_chunk_stored 0 two_planned)) = [2]" by code_simp
  show "map fst (sw_requests (snd (mark_chunk_stored 0 two_planned))) = [1]" by code_simp
  let ?r = "\<lparr>ar_id = 0, ar_peer = ''a'', ar_chunk = 0, ar_deadline = 130, ar_duplicate = False\<rparr>"
  have r: "dget (sw_requests two_planned) 0 = Some ?r" by code_simp
  have "mark_chunk_stored 0 two_planned = (fst (mark_chunk_stored 0 two_planned), snd (mark_chunk_stored 0 two_planned))"
    by simp
  from chunk_stored_cancels_siblings [OF two_planned_reachable r this]
  show "set (fst (mark_chunk_stored 0 two_planned)) =
     {x. x \<in> set (dvalues (sw_requests two_planned)) \<and> ar_chunk x = 0 \<and> ar_id x \<noteq> 0}" by simp
qed

end
