(* ===== verification/Pools.thy ===== *)
theory Pools
  imports Prelude
begin

text \<open>
  The contract of a bounded pool of slots, which the payload scheduler meets twice, with the limit
  of a node and with that of a low-bandwidth node: a grant takes at most one slot and only while
  fewer than \<open>cap\<close> are held, a refusal takes none, and every other operation can only free slots.
\<close>

locale slot_pool =
  fixes held :: "'s \<Rightarrow> nat"
    and acquire :: "'a \<Rightarrow> 's \<Rightarrow> bool \<times> 's"
    and free :: "'r \<Rightarrow> 's \<Rightarrow> 's"
    and cap :: nat
  assumes granted: "acquire a s = (True, t) \<Longrightarrow> held t \<le> held s \<or> held s < cap \<and> held t \<le> Suc (held s)"
    and refused: "acquire a s = (False, t) \<Longrightarrow> held t \<le> held s"
    and frees: "held (free r s) \<le> held s"
begin

definition pool_step :: "'a + 'r \<Rightarrow> 's \<Rightarrow> 's" where
  "pool_step x s = (case x of Inl a \<Rightarrow> snd (acquire a s) | Inr r \<Rightarrow> free r s)"

lemma acquire_bounded: "held s \<le> cap \<Longrightarrow> held (snd (acquire a s)) \<le> cap"
  using granted [of a s] refused [of a s] by (cases "acquire a s"; cases "fst (acquire a s)") force+

lemma step_bounded: "held s \<le> cap \<Longrightarrow> held (pool_step x s) \<le> cap"
  using acquire_bounded frees order_trans by (fastforce simp: pool_step_def split: sum.split)

lemma run_bounded: "held s \<le> cap \<Longrightarrow> held (fold pool_step xs s) \<le> cap"
  by (induction xs arbitrary: s) (auto intro: step_bounded)

end

end
