(* ===== verification/Scheduler.thy ===== *)
theory Scheduler
  imports Pools
begin

text \<open>
  The node-local fairness scheduler for payload fetches
  (\<open>retiboard/sync/payload_scheduler.py\<close>). \<open>low\<close> is \<open>is_low_bandwidth()\<close> and \<open>now\<close> is
  \<open>time.time()\<close> at the call. A session's set of active request ids is a list without
  duplicates in insertion order; no operation depends on that order.
\<close>

section \<open>State\<close>

datatype priority_class = Interactive | Manual | Normal | Bulk

record fetch_decision =
  fd_allowed_auto :: bool
  fd_allowed_manual :: bool
  fd_priority_class :: priority_class
  fd_max_parallelism :: nat

record fetch_session =
  fs_blob_hash :: string
  fs_blob_kind :: string
  fs_expected_size :: int
  fs_manual_override :: bool
  fs_priority :: priority_class
  fs_max_parallelism :: nat
  fs_registered_at :: time
  fs_active :: "string list"

record scheduler =
  sch_sessions :: "(string, fetch_session) dict"
  sch_requests :: "(string, string) dict"

definition new_scheduler :: scheduler where
  "new_scheduler = \<lparr>sch_sessions = [], sch_requests = []\<rparr>"

definition SMALL_ATTACHMENT_BYTES :: int where "SMALL_ATTACHMENT_BYTES = 256 * 1024"
definition LARGE_ATTACHMENT_BYTES :: int where "LARGE_ATTACHMENT_BYTES = 8 * 1024 * 1024"
definition BULK_AGING_SECONDS :: time where "BULK_AGING_SECONDS = 20"

definition limits :: "bool \<Rightarrow> nat \<times> nat \<times> nat" where
  "limits low = (if low then (2, 1, 1) else (12, 4, 2))"

text \<open>Python's \<open>a or b\<close> on strings and numbers.\<close>

definition str_or :: "string \<Rightarrow> string \<Rightarrow> string" where
  "str_or a b = (if a = [] then b else a)"

section \<open>Operations\<close>

definition classify :: "bool \<Rightarrow> string \<Rightarrow> int \<Rightarrow> bool \<Rightarrow> fetch_decision" where
  "classify low kind0 expected manual =
     (let kind = str_or kind0 ''text''; sz = max 0 expected in
      if kind \<noteq> ''attachments'' then
        \<lparr>fd_allowed_auto = True, fd_allowed_manual = True, fd_priority_class = Interactive, fd_max_parallelism = 4\<rparr>
      else if manual then
        \<lparr>fd_allowed_auto = False, fd_allowed_manual = True, fd_priority_class = Manual,
         fd_max_parallelism = (if low then 1 else 4)\<rparr>
      else if sz \<le> 0 \<or> sz \<le> SMALL_ATTACHMENT_BYTES then
        \<lparr>fd_allowed_auto = True, fd_allowed_manual = True, fd_priority_class = Interactive, fd_max_parallelism = 4\<rparr>
      else if sz \<ge> LARGE_ATTACHMENT_BYTES then
        \<lparr>fd_allowed_auto = False, fd_allowed_manual = True, fd_priority_class = Bulk, fd_max_parallelism = 2\<rparr>
      else
        \<lparr>fd_allowed_auto = False, fd_allowed_manual = True, fd_priority_class = Normal,
         fd_max_parallelism = (if low then 1 else 3)\<rparr>)"

definition register_session ::
  "bool \<Rightarrow> time \<Rightarrow> string \<Rightarrow> string \<Rightarrow> string \<Rightarrow> int \<Rightarrow> bool \<Rightarrow> scheduler \<Rightarrow> fetch_decision \<times> scheduler" where
  "register_session low now sid blob kind expected manual s =
     (let d = classify low kind expected manual in
      case dget (sch_sessions s) sid of
        None \<Rightarrow>
          (d, s\<lparr>sch_sessions := dput sid
             \<lparr>fs_blob_hash = blob, fs_blob_kind = str_or kind ''text'', fs_expected_size = max 0 expected,
              fs_manual_override = manual, fs_priority = fd_priority_class d,
              fs_max_parallelism = max 1 (fd_max_parallelism d), fs_registered_at = now, fs_active = []\<rparr>
             (sch_sessions s)\<rparr>)
      | Some st \<Rightarrow>
          (d, s\<lparr>sch_sessions := dput sid
             (st\<lparr>fs_blob_hash := blob, fs_blob_kind := str_or kind (str_or (fs_blob_kind st) ''text''),
                 fs_expected_size := max 0 (if expected \<noteq> 0 then expected else fs_expected_size st),
                 fs_manual_override := manual, fs_priority := fd_priority_class d,
                 fs_max_parallelism := max 1 (fd_max_parallelism d)\<rparr>) (sch_sessions s)\<rparr>))"

fun pop_all :: "'k list \<Rightarrow> ('k, 'v) dict \<Rightarrow> ('k, 'v) dict" where
  "pop_all [] d = d"
| "pop_all (k # ks) d = pop_all ks (dpop k d)"

definition unregister_session :: "string \<Rightarrow> scheduler \<Rightarrow> scheduler" where
  "unregister_session sid s =
     (case dget (sch_sessions s) sid of
        None \<Rightarrow> s
      | Some st \<Rightarrow>
          s\<lparr>sch_sessions := dpop sid (sch_sessions s),
            sch_requests := pop_all (fs_active st) (sch_requests s)\<rparr>)"

definition release_request :: "string \<Rightarrow> scheduler \<Rightarrow> scheduler" where
  "release_request rid s =
     (if rid = [] then s
      else (case dget (sch_requests s) rid of
              None \<Rightarrow> s
            | Some sid \<Rightarrow>
                (let s1 = s\<lparr>sch_requests := dpop rid (sch_requests s)\<rparr> in
                 case dget (sch_sessions s1) sid of
                   None \<Rightarrow> s1
                 | Some st \<Rightarrow>
                     s1\<lparr>sch_sessions := dput sid
                          (st\<lparr>fs_active := filter (\<lambda>x. x \<noteq> rid) (fs_active st)\<rparr>) (sch_sessions s1)\<rparr>)))"

definition release_session_requests :: "string \<Rightarrow> scheduler \<Rightarrow> scheduler" where
  "release_session_requests sid s =
     (case dget (sch_sessions s) sid of
        None \<Rightarrow> s
      | Some st \<Rightarrow>
          s\<lparr>sch_sessions := dput sid (st\<lparr>fs_active := []\<rparr>) (sch_sessions s),
            sch_requests := pop_all (fs_active st) (sch_requests s)\<rparr>)"

definition active_in :: "(fetch_session \<Rightarrow> bool) \<Rightarrow> scheduler \<Rightarrow> nat" where
  "active_in P s = dsum (\<lambda>st. if P st then length (fs_active st) else 0) (sch_sessions s)"

abbreviation total_active :: "scheduler \<Rightarrow> nat" where
  "total_active \<equiv> active_in (\<lambda>_. True)"

definition is_prompt :: "fetch_session \<Rightarrow> bool" where
  "is_prompt st = (fs_priority st = Interactive \<or> fs_priority st = Manual)"

definition is_bulk :: "fetch_session \<Rightarrow> bool" where
  "is_bulk st = (fs_priority st = Bulk)"

definition admits :: "bool \<Rightarrow> time \<Rightarrow> fetch_session \<Rightarrow> scheduler \<Rightarrow> bool" where
  "admits low now st s =
     (case limits low of (global_cap, interactive_cap, bulk_cap) \<Rightarrow>
        if total_active s \<ge> global_cap then False
        else if length (fs_active st) \<ge> max 1 (fs_max_parallelism st) then False
        else (case fs_priority st of
                Interactive \<Rightarrow> True
              | Manual \<Rightarrow> True
              | Normal \<Rightarrow>
                  \<not> (total_active s \<ge> max 1 (global_cap - 1) \<and> active_in is_prompt s < interactive_cap)
              | Bulk \<Rightarrow>
                  (if active_in is_bulk s \<ge> bulk_cap then False
                   else if total_active s \<ge> max 1 (global_cap - 1) then
                     (if active_in is_prompt s < interactive_cap then False
                      else \<not> now - fs_registered_at st < BULK_AGING_SECONDS)
                   else True)))"

definition try_acquire_request :: "bool \<Rightarrow> time \<Rightarrow> string \<Rightarrow> string \<Rightarrow> scheduler \<Rightarrow> bool \<times> scheduler" where
  "try_acquire_request low now sid rid s =
     (if sid = [] \<or> rid = [] then (False, s)
      else (case dget (sch_sessions s) sid of
              None \<Rightarrow> (False, s)
            | Some st \<Rightarrow>
                (if rid \<in> set (fs_active st) then (True, s)
                 else if \<not> admits low now st s then (False, s)
                 else (True, s\<lparr>sch_sessions := dput sid (st\<lparr>fs_active := fs_active st @ [rid]\<rparr>) (sch_sessions s),
                               sch_requests := dput rid sid (sch_requests s)\<rparr>))))"

section \<open>Slots are bounded\<close>

lemma active_in_dput:
  "dget (sch_sessions s) sid = Some st \<Longrightarrow>
     active_in P (s\<lparr>sch_sessions := dput sid st' (sch_sessions s)\<rparr>) + (if P st then length (fs_active st) else 0) =
     active_in P s + (if P st' then length (fs_active st') else 0)"
  unfolding active_in_def
  by (drule dsum_dput_present [where f = "\<lambda>st. if P st then length (fs_active st) else 0" and v = st']) simp

lemma active_in_dput_new:
  "dget (sch_sessions s) sid = None \<Longrightarrow>
     active_in P (s\<lparr>sch_sessions := dput sid st' (sch_sessions s)\<rparr>) =
     active_in P s + (if P st' then length (fs_active st') else 0)"
  unfolding active_in_def by (simp add: dsum_dput_absent)

lemma active_in_requests [simp]: "active_in P (s\<lparr>sch_requests := r\<rparr>) = active_in P s"
  by (simp add: active_in_def)

lemma active_in_both [simp]:
  "active_in P (s\<lparr>sch_sessions := d, sch_requests := r\<rparr>) = active_in P (s\<lparr>sch_sessions := d\<rparr>)"
  by (simp add: active_in_def)

lemma acquire_cases:
  assumes "try_acquire_request low now sid rid s = (True, t)"
  obtains st where "dget (sch_sessions s) sid = Some st" "rid \<in> set (fs_active st)" "t = s"
  | st where "dget (sch_sessions s) sid = Some st" "rid \<notin> set (fs_active st)" "admits low now st s"
      "t = s\<lparr>sch_sessions := dput sid (st\<lparr>fs_active := fs_active st @ [rid]\<rparr>) (sch_sessions s),
             sch_requests := dput rid sid (sch_requests s)\<rparr>" "rid \<noteq> []" "sid \<noteq> []"
  using assms unfolding try_acquire_request_def by (auto split: if_splits option.splits)

lemma acquire_refused: "try_acquire_request low now sid rid s = (False, t) \<Longrightarrow> t = s"
  unfolding try_acquire_request_def by (auto split: if_splits option.splits)

lemma admits_below_cap: "admits low now st s \<Longrightarrow> total_active s < fst (limits low)"
  by (simp add: admits_def limits_def split: if_splits)

lemma acquire_one_more:
  assumes "try_acquire_request low now sid rid s = (True, t)"
  shows "t = s \<or> total_active s < fst (limits low) \<and> total_active t = Suc (total_active s)"
  using assms
proof (cases rule: acquire_cases)
  case (2 st)
  have "total_active t = Suc (total_active s)"
    using active_in_dput [OF 2(1), of "\<lambda>_. True" "st\<lparr>fs_active := fs_active st @ [rid]\<rparr>"] 2(4) by simp
  with admits_below_cap [OF 2(3)] show ?thesis by simp
qed simp

datatype sched_free =
    Register bool time string string string int bool
  | Unregister string
  | Release string
  | Release_session string

fun free_step :: "sched_free \<Rightarrow> scheduler \<Rightarrow> scheduler" where
  "free_step (Register low now sid blob kind expected manual) s =
     snd (register_session low now sid blob kind expected manual s)"
| "free_step (Unregister sid) s = unregister_session sid s"
| "free_step (Release rid) s = release_request rid s"
| "free_step (Release_session sid) s = release_session_requests sid s"

lemma register_total: "total_active (snd (register_session low now sid blob kind expected manual s)) = total_active s"
proof (cases "dget (sch_sessions s) sid")
  case None
  then show ?thesis by (simp add: register_session_def Let_def active_in_dput_new)
next
  case (Some st)
  then show ?thesis
    using active_in_dput [OF Some, of "\<lambda>_. True"
        "st\<lparr>fs_blob_hash := blob, fs_blob_kind := str_or kind (str_or (fs_blob_kind st) ''text''),
            fs_expected_size := max 0 (if expected \<noteq> 0 then expected else fs_expected_size st),
            fs_manual_override := manual, fs_priority := fd_priority_class (classify low kind expected manual),
            fs_max_parallelism := max 1 (fd_max_parallelism (classify low kind expected manual))\<rparr>"]
    by (simp add: register_session_def Let_def)
qed

lemma sched_free_total: "total_active (free_step x s) \<le> total_active s"
proof (cases x)
  case (Register low now sid blob kind expected manual)
  then show ?thesis by (simp add: register_total)
next
  case (Unregister sid)
  then show ?thesis
    by (simp add: unregister_session_def active_in_def dsum_dpop_le split: option.split)
next
  case (Release rid)
  show ?thesis
  proof (cases "rid = [] \<or> dget (sch_requests s) rid = None")
    case True
    with Release show ?thesis by (auto simp: release_request_def)
  next
    case False
    then obtain sid where sid: "rid \<noteq> []" "dget (sch_requests s) rid = Some sid" by auto
    show ?thesis
    proof (cases "dget (sch_sessions s) sid")
      case None
      with Release sid show ?thesis by (simp add: release_request_def Let_def)
    next
      case (Some st)
      let ?st = "st\<lparr>fs_active := filter (\<lambda>x. x \<noteq> rid) (fs_active st)\<rparr>"
      have "total_active (free_step x s) = total_active (s\<lparr>sch_sessions := dput sid ?st (sch_sessions s)\<rparr>)"
        using Release sid Some by (simp add: release_request_def Let_def active_in_def)
      moreover have "length (fs_active ?st) \<le> length (fs_active st)" by simp
      ultimately show ?thesis using active_in_dput [OF Some, of "\<lambda>_. True" ?st, unfolded if_True] by linarith
    qed
  qed
next
  case (Release_session sid)
  show ?thesis
  proof (cases "dget (sch_sessions s) sid")
    case None
    with Release_session show ?thesis by (simp add: release_session_requests_def)
  next
    case (Some st)
    with active_in_dput [OF Some, of "\<lambda>_. True" "st\<lparr>fs_active := []\<rparr>"] Release_session
    show ?thesis by (simp add: release_session_requests_def)
  qed
qed

definition acquire_op :: "bool \<times> time \<times> string \<times> string \<Rightarrow> scheduler \<Rightarrow> bool \<times> scheduler" where
  "acquire_op = (\<lambda>(low, now, sid, rid). try_acquire_request low now sid rid)"

interpretation fetch_pool: slot_pool total_active acquire_op free_step 12
proof
  fix a :: "bool \<times> time \<times> string \<times> string" and s t
  obtain low now sid rid where a: "a = (low, now, sid, rid)" by (cases a)
  show "total_active t \<le> total_active s \<or> total_active s < 12 \<and> total_active t \<le> Suc (total_active s)"
    if "acquire_op a s = (True, t)"
    using that acquire_one_more [of low now sid rid s t] by (auto simp: acquire_op_def a limits_def split: if_splits)
  show "total_active t \<le> total_active s" if "acquire_op a s = (False, t)"
    using that acquire_refused [of low now sid rid s t] by (simp add: acquire_op_def a)
next
  fix r s
  show "total_active (free_step r s) \<le> total_active s" by (rule sched_free_total)
qed

lemma register_active:
  "dget (sch_sessions (snd (register_session low now sid blob kind expected manual s))) x = Some st \<Longrightarrow>
     fs_active st = (case dget (sch_sessions s) x of None \<Rightarrow> [] | Some st0 \<Rightarrow> fs_active st0)"
  by (cases "dget (sch_sessions s) sid") (auto simp: register_session_def Let_def dict_laws split: if_splits)

section \<open>The two tables agree\<close>

text \<open>Request ids are fresh UUIDs: an id is acquired for one session only.\<close>

inductive sched_step :: "scheduler \<Rightarrow> scheduler \<Rightarrow> bool" where
  Acquire: "dget (sch_requests s) rid = None \<or> dget (sch_requests s) rid = Some sid \<Longrightarrow>
    try_acquire_request low now sid rid s = (ok, t) \<Longrightarrow> sched_step s t"
| Free: "sched_step s (free_step x s)"

inductive_cases sched_stepE: "sched_step s t"

inductive sched_reachable :: "scheduler \<Rightarrow> bool" where
  start: "sched_reachable new_scheduler"
| step: "sched_reachable s \<Longrightarrow> sched_step s t \<Longrightarrow> sched_reachable t"

definition holds_request :: "scheduler \<Rightarrow> string \<Rightarrow> string \<Rightarrow> bool" where
  "holds_request s sid rid = (\<exists>st. dget (sch_sessions s) sid = Some st \<and> rid \<in> set (fs_active st))"

definition tables_agree :: "scheduler \<Rightarrow> bool" where
  "tables_agree s \<longleftrightarrow> (\<forall>sid rid. holds_request s sid rid \<longleftrightarrow> rid \<noteq> [] \<and> dget (sch_requests s) rid = Some sid)"

lemma tables_agreeD:
  assumes "tables_agree s" and "dget (sch_sessions s) sid = Some st"
  shows "r \<in> set (fs_active st) \<longleftrightarrow> r \<noteq> [] \<and> dget (sch_requests s) r = Some sid"
proof -
  from assms(2) have "holds_request s sid r \<longleftrightarrow> r \<in> set (fs_active st)" by (simp add: holds_request_def)
  with assms(1) show ?thesis unfolding tables_agree_def by blast
qed

lemma dget_pop_all: "dget (pop_all ks d) k = (if k \<in> set ks then None else dget d k)"
  by (induction ks arbitrary: d) (auto simp: dict_laws)

lemma tables_agree_acquire:
  assumes "tables_agree s" and fresh: "dget (sch_requests s) rid = None \<or> dget (sch_requests s) rid = Some sid"
    and "try_acquire_request low now sid rid s = (ok, t)"
  shows "tables_agree t"
proof (cases ok)
  case False
  with assms(3) have "try_acquire_request low now sid rid s = (False, t)" by simp
  from acquire_refused [OF this] assms(1) show ?thesis by simp
next
  case True
  with assms(3) have "try_acquire_request low now sid rid s = (True, t)" by simp
  then show ?thesis
  proof (cases rule: acquire_cases)
    case 1
    with assms(1) show ?thesis by simp
  next
    case (2 st)
    have "holds_request t x r \<longleftrightarrow> (if x = sid \<and> r = rid then True else holds_request s x r)" for x r
      using 2 by (auto simp: holds_request_def dict_laws)
    moreover have "dget (sch_requests t) r = (if r = rid then Some sid else dget (sch_requests s) r)" for r
      using 2 by (simp add: dict_laws)
    ultimately show ?thesis using assms(1) fresh 2(5) by (auto simp: tables_agree_def)
  qed
qed

lemma tables_agree_free:
  assumes "tables_agree s"
  shows "tables_agree (free_step x s)"
proof (cases x)
  case (Register low now sid blob kind expected manual)
  have "holds_request (free_step x s) y r = holds_request s y r" for y r
    using Register register_active [of low now sid blob kind expected manual s y]
    by (cases "dget (sch_sessions s) sid")
      (auto simp: holds_request_def register_session_def Let_def dict_laws split: if_splits)
  moreover have "sch_requests (free_step x s) = sch_requests s"
    using Register by (simp add: register_session_def Let_def split: option.split)
  ultimately show ?thesis using assms by (simp add: tables_agree_def)
next
  case (Unregister sid)
  show ?thesis
  proof (cases "dget (sch_sessions s) sid")
    case None
    with Unregister assms show ?thesis by (simp add: unregister_session_def)
  next
    case (Some st)
    have "holds_request (free_step x s) y r \<longleftrightarrow> y \<noteq> sid \<and> holds_request s y r"
      and "dget (sch_requests (free_step x s)) r = (if r \<in> set (fs_active st) then None else dget (sch_requests s) r)" for y r
      using Unregister Some by (auto simp: unregister_session_def holds_request_def dict_laws dget_pop_all)
    moreover note tables_agreeD [OF assms Some]
    ultimately show ?thesis using assms by (auto simp: tables_agree_def)
  qed
next
  case (Release rid)
  show ?thesis
  proof (cases "rid = [] \<or> dget (sch_requests s) rid = None")
    case True
    with Release assms show ?thesis by (auto simp: release_request_def)
  next
    case False
    then obtain sid where sid: "rid \<noteq> []" "dget (sch_requests s) rid = Some sid" by auto
    with assms have "holds_request s sid rid" by (simp add: tables_agree_def)
    then obtain st where st: "dget (sch_sessions s) sid = Some st" by (auto simp: holds_request_def)
    have "holds_request (free_step x s) y r \<longleftrightarrow> \<not> (y = sid \<and> r = rid) \<and> holds_request s y r"
      and "dget (sch_requests (free_step x s)) r = (if r = rid then None else dget (sch_requests s) r)" for y r
      using Release sid st by (auto simp: release_request_def Let_def holds_request_def dict_laws)
    then show ?thesis using assms sid by (auto simp: tables_agree_def)
  qed
next
  case (Release_session sid)
  show ?thesis
  proof (cases "dget (sch_sessions s) sid")
    case None
    with Release_session assms show ?thesis by (simp add: release_session_requests_def)
  next
    case (Some st)
    have "holds_request (free_step x s) y r \<longleftrightarrow> y \<noteq> sid \<and> holds_request s y r"
      and "dget (sch_requests (free_step x s)) r = (if r \<in> set (fs_active st) then None else dget (sch_requests s) r)" for y r
      using Release_session Some
      by (auto simp: release_session_requests_def holds_request_def dict_laws dget_pop_all)
    moreover note tables_agreeD [OF assms Some]
    ultimately show ?thesis using assms by (auto simp: tables_agree_def)
  qed
qed

lemma reachable_tables_agree: "sched_reachable s \<Longrightarrow> tables_agree s"
proof (induction rule: sched_reachable.induct)
  case start
  show ?case by (simp add: tables_agree_def holds_request_def new_scheduler_def)
next
  case (step s t)
  from step.hyps(2) step.IH show ?case
    by (elim sched_stepE) (simp_all add: tables_agree_acquire tables_agree_free)
qed

section \<open>Properties\<close>

definition sched_run ::
  "((bool \<times> time \<times> string \<times> string) + sched_free) list \<Rightarrow> scheduler \<Rightarrow> scheduler" where
  "sched_run xs s = fold (\<lambda>x s. case x of Inl a \<Rightarrow> snd (acquire_op a s) | Inr r \<Rightarrow> free_step r s) xs s"

definition low_op :: "(bool \<times> time \<times> string \<times> string) + sched_free \<Rightarrow> bool" where
  "low_op x = (case x of Inl a \<Rightarrow> fst a | Inr r \<Rightarrow> True)"

interpretation low_pool: slot_pool total_active "\<lambda>a. acquire_op (True, a)" free_step 2
proof
  fix a :: "time \<times> string \<times> string" and s t
  obtain now sid rid where a: "a = (now, sid, rid)" by (cases a)
  show "total_active t \<le> total_active s \<or> total_active s < 2 \<and> total_active t \<le> Suc (total_active s)"
    if "acquire_op (True, a) s = (True, t)"
    using that acquire_one_more [of True now sid rid s t] by (auto simp: acquire_op_def a limits_def)
  show "total_active t \<le> total_active s" if "acquire_op (True, a) s = (False, t)"
    using that acquire_refused [of True now sid rid s t] by (simp add: acquire_op_def a)
next
  fix r s
  show "total_active (free_step r s) \<le> total_active s" by (rule sched_free_total)
qed

lemma sched_run_pool: "sched_run xs s = fold fetch_pool.pool_step xs s"
  unfolding sched_run_def fetch_pool.pool_step_def by simp

lemma sched_run_low: "list_all low_op xs \<Longrightarrow> total_active s \<le> 2 \<Longrightarrow> total_active (sched_run xs s) \<le> 2"
proof (induction xs arbitrary: s)
  case Nil
  then show ?case by (simp add: sched_run_def)
next
  case (Cons x xs)
  have "total_active (sched_run [x] s) \<le> 2"
  proof (cases x)
    case (Inl a)
    with Cons.prems(1) obtain b where "a = (True, b)" by (cases a) (auto simp: low_op_def)
    with Inl low_pool.acquire_bounded [OF Cons.prems(2)] show ?thesis by (simp add: sched_run_def)
  next
    case (Inr r)
    with sched_free_total [of r s] Cons.prems(2) show ?thesis by (simp add: sched_run_def)
  qed
  with Cons.IH [of "sched_run [x] s"] Cons.prems(1) show ?case by (simp add: sched_run_def)
qed

text \<open>Also: whatever sessions register, acquire and release in whatever order, at most 12 payload
  requests are active on the node, and at most 2 when every acquisition is made in low-bandwidth
  mode.\<close>

theorem fetch_slots_bounded:
  "total_active (sched_run xs new_scheduler) \<le> (if list_all low_op xs then 2 else 12)"
proof -
  have new: "total_active new_scheduler = 0" by (simp add: active_in_def new_scheduler_def)
  then have "total_active (sched_run xs new_scheduler) \<le> 12"
    unfolding sched_run_pool by (intro fetch_pool.run_bounded) simp
  moreover have "list_all low_op xs \<Longrightarrow> total_active (sched_run xs new_scheduler) \<le> 2"
    using new by (intro sched_run_low) simp_all
  ultimately show ?thesis by simp
qed

text \<open>Property C38: interactive and manual work is never starved: as long as one of the node's slots is
  free and the session is below its own parallelism, its request is granted.\<close>

theorem prompt_work_admitted:
  assumes "dget (sch_sessions s) sid = Some st" and "is_prompt st" and "sid \<noteq> []" "rid \<noteq> []"
    and "total_active s < fst (limits low)" and "length (fs_active st) < fs_max_parallelism st"
  shows "fst (try_acquire_request low now sid rid s) \<and> holds_request (snd (try_acquire_request low now sid rid s)) sid rid"
proof -
  have "admits low now st s"
    using assms by (auto simp: admits_def is_prompt_def limits_def split: if_splits)
  with assms show ?thesis by (auto simp: try_acquire_request_def holds_request_def dict_laws)
qed

definition sample_sched :: scheduler where
  "sample_sched = snd (register_session False 0 ''m'' ''h'' ''text'' 0 False
     (snd (register_session False 0 ''b'' ''g'' ''attachments'' 9000000 False new_scheduler)))"

theorem prompt_work_admitted_witness:
  "fst (try_acquire_request False 1 ''m'' ''r'' sample_sched)"
proof -
  let ?st = "\<lparr>fs_blob_hash = ''h'', fs_blob_kind = ''text'', fs_expected_size = 0, fs_manual_override = False,
    fs_priority = Interactive, fs_max_parallelism = 4, fs_registered_at = 0, fs_active = []\<rparr>"
  have st: "dget (sch_sessions sample_sched) ''m'' = Some ?st" by code_simp
  have "is_prompt ?st" "total_active sample_sched < fst (limits False)" by code_simp+
  then show ?thesis using prompt_work_admitted [OF st, of "''r''" False 1] by simp
qed

text \<open>Also: background work leaves room: after a new grant to a normal or bulk session, a slot is
  still free unless prompt work already holds its reserve; bulk sessions together stay within the
  bulk cap; and a bulk session takes the last slot only after having waited 20 seconds.\<close>

theorem background_leaves_room:
  assumes "try_acquire_request low now sid rid s = (True, t)"
    and "dget (sch_sessions s) sid = Some st" and "\<not> is_prompt st" and "rid \<notin> set (fs_active st)"
  shows "(total_active t < fst (limits low) \<or> fst (snd (limits low)) \<le> active_in is_prompt t) \<and>
    (is_bulk st \<longrightarrow> active_in is_bulk t \<le> snd (snd (limits low)) \<and>
       (total_active t < fst (limits low) \<or> 20 \<le> now - fs_registered_at st))"
  using assms(1)
proof (cases rule: acquire_cases)
  case (1 st')
  with assms(2,4) show ?thesis by simp
next
  case (2 st')
  with assms(2) have st': "st' = st" by simp
  let ?st = "st\<lparr>fs_active := fs_active st @ [rid]\<rparr>"
  have "total_active t = Suc (total_active s)"
    using active_in_dput [OF assms(2), of "\<lambda>_. True" ?st] 2(4) st' by simp
  moreover have "active_in is_prompt t = active_in is_prompt s"
    using active_in_dput [OF assms(2), of is_prompt ?st] 2(4) st' assms(3) by (simp add: is_prompt_def)
  moreover have "is_bulk st \<Longrightarrow> active_in is_bulk t = Suc (active_in is_bulk s)"
    using active_in_dput [OF assms(2), of is_bulk ?st] 2(4) st' by (simp add: is_bulk_def)
  ultimately show ?thesis using 2(3) assms(3) unfolding st'
    by (cases "fs_priority st")
      (auto simp: admits_def is_prompt_def is_bulk_def limits_def BULK_AGING_SECONDS_def split: if_splits)
qed

theorem background_leaves_room_witness:
  "fst (try_acquire_request False 1 ''b'' ''r'' sample_sched) \<and>
   total_active (snd (try_acquire_request False 1 ''b'' ''r'' sample_sched)) \<le> 12 \<and>
   active_in is_bulk (snd (try_acquire_request False 1 ''b'' ''r'' sample_sched)) \<le> 2"
proof (intro conjI)
  let ?st = "\<lparr>fs_blob_hash = ''g'', fs_blob_kind = ''attachments'', fs_expected_size = 9000000,
    fs_manual_override = False, fs_priority = Bulk, fs_max_parallelism = 2, fs_registered_at = 0, fs_active = []\<rparr>"
  let ?t = "snd (try_acquire_request False 1 ''b'' ''r'' sample_sched)"
  show ok: "fst (try_acquire_request False 1 ''b'' ''r'' sample_sched)" by code_simp
  show "total_active ?t \<le> 12" by code_simp
  have st: "dget (sch_sessions sample_sched) ''b'' = Some ?st" by code_simp
  have run: "try_acquire_request False 1 ''b'' ''r'' sample_sched = (True, ?t)" using ok by (simp add: prod_eq_iff)
  have "\<not> is_prompt ?st" "is_bulk ?st" by code_simp+
  with background_leaves_room [OF run st] show "active_in is_bulk ?t \<le> 2" by (simp add: limits_def)
qed

text \<open>Property C37: in every reachable scheduler the two tables agree: a request id maps to a session
  exactly when that session holds it, so \<open>release_request\<close> frees the slot of the request it names,
  and no slot can leak.\<close>

theorem scheduler_tables_agree:
  assumes "sched_reachable s"
  shows "(holds_request s sid rid \<longleftrightarrow> rid \<noteq> [] \<and> dget (sch_requests s) rid = Some sid) \<and>
    \<not> holds_request (release_request rid s) sid rid \<and>
    (rid' \<noteq> rid \<longrightarrow> holds_request (release_request rid s) sid rid' = holds_request s sid rid')"
proof -
  from reachable_tables_agree [OF assms] have agree: "tables_agree s" .
  have "tables_agree (release_request rid s)" using tables_agree_free [OF agree, of "Release rid"] by simp
  moreover have "dget (sch_requests (release_request rid s)) r = (if rid \<noteq> [] \<and> r = rid then None else dget (sch_requests s) r)" for r
    by (auto simp: release_request_def Let_def dict_laws split: option.split)
  ultimately show ?thesis using agree by (auto simp: tables_agree_def)
qed

theorem scheduler_tables_agree_witness:
  "\<not> holds_request (release_request ''r'' (snd (try_acquire_request False 1 ''m'' ''r'' sample_sched))) ''m'' ''r''"
proof -
  let ?s1 = "free_step (Register False 0 ''b'' ''g'' ''attachments'' 9000000 False) new_scheduler"
  let ?s2 = "free_step (Register False 0 ''m'' ''h'' ''text'' 0 False) ?s1"
  have "sched_reachable ?s2"
    by (intro sched_reachable.step [OF _ sched_step.Free] sched_reachable.start)
  then have reach: "sched_reachable sample_sched" by (simp add: sample_sched_def)
  have fresh: "dget (sch_requests sample_sched) ''r'' = None" by code_simp
  let ?a = "try_acquire_request False 1 ''m'' ''r'' sample_sched"
  have "sched_step sample_sched (snd ?a)"
    by (rule sched_step.Acquire [of sample_sched "''r''" "''m''" False 1 "fst ?a"]) (use fresh in simp_all)
  from scheduler_tables_agree [OF sched_reachable.step [OF reach this], of "''m''" "''r''" "''r''"]
  show ?thesis by blast
qed

end
