(* ===== verification/RateLimiter.thy ===== *)
theory RateLimiter
  imports Prelude
begin

text \<open>
  Per-board sync slots and per-peer backoff (\<open>retiboard/sync/rate_limiter.py\<close>). An
  \<open>asyncio.Semaphore\<close> is its counter; \<open>acquire\<close> is the moment the caller obtains the slot and is
  \<^term>\<open>None\<close> while it has to wait. \<open>random.random()\<close> is the argument \<open>u\<close>, at least 0 and less than 1.
\<close>

definition MAX_CONCURRENT_SYNCS :: nat where "MAX_CONCURRENT_SYNCS = 5"
definition MAX_CONCURRENT_SYNCS_LORA :: nat where "MAX_CONCURRENT_SYNCS_LORA = 2"

record rate_limiter =
  rl_max_concurrent :: nat
  rl_semaphores :: "(string, nat) dict"
  rl_backoff :: "(string \<times> string, time) dict"
  rl_failures :: "(string \<times> string, nat) dict"

definition new_rate_limiter :: "bool \<Rightarrow> rate_limiter" where
  "new_rate_limiter low =
     \<lparr>rl_max_concurrent = (if low then MAX_CONCURRENT_SYNCS_LORA else MAX_CONCURRENT_SYNCS),
      rl_semaphores = [], rl_backoff = [], rl_failures = []\<rparr>"

definition get_semaphore :: "string \<Rightarrow> rate_limiter \<Rightarrow> nat \<times> rate_limiter" where
  "get_semaphore b r =
     (case dget (rl_semaphores r) b of
        Some v \<Rightarrow> (v, r)
      | None \<Rightarrow> (rl_max_concurrent r,
                 r\<lparr>rl_semaphores := dput b (rl_max_concurrent r) (rl_semaphores r)\<rparr>))"

definition acquire :: "string \<Rightarrow> rate_limiter \<Rightarrow> rate_limiter option" where
  "acquire b r =
     (case get_semaphore b r of (v, r') \<Rightarrow>
        if v = 0 then None else Some (r'\<lparr>rl_semaphores := dput b (v - 1) (rl_semaphores r')\<rparr>))"

definition release :: "string \<Rightarrow> rate_limiter \<Rightarrow> rate_limiter" where
  "release b r =
     (case get_semaphore b r of (v, r') \<Rightarrow> r'\<lparr>rl_semaphores := dput b (Suc v) (rl_semaphores r')\<rparr>)"

definition can_sync_peer :: "time \<Rightarrow> string \<Rightarrow> string \<Rightarrow> rate_limiter \<Rightarrow> bool" where
  "can_sync_peer now b peer r = (now \<ge> dget_or (rl_backoff r) (b, peer) 0)"

text \<open>The exception, if any, with the state it leaves.\<close>

definition record_failure ::
  "time \<Rightarrow> rat \<Rightarrow> string \<Rightarrow> string \<Rightarrow> rate_limiter \<Rightarrow> py_error option \<times> rate_limiter" where
  "record_failure now u b peer r =
     (let key = (b, peer);
          failures = dget_or (rl_failures r) key 0 + 1;
          r1 = r\<lparr>rl_failures := dput key failures (rl_failures r)\<rparr>
      in case float_pow2 (failures - 1) of
           Inl e \<Rightarrow> (Some e, r1)
         | Inr x \<Rightarrow>
             (let delay = min (5 * x) 300;
                  jitter = delay * (1 / 4) * (2 * u - 1);
                  actual_delay = delay + jitter
              in (None, r1\<lparr>rl_backoff := dput key (now + actual_delay) (rl_backoff r1)\<rparr>)))"

definition record_success :: "string \<Rightarrow> string \<Rightarrow> rate_limiter \<Rightarrow> rate_limiter" where
  "record_success b peer r =
     r\<lparr>rl_failures := dpop (b, peer) (rl_failures r), rl_backoff := dpop (b, peer) (rl_backoff r)\<rparr>"

section \<open>Slots\<close>

text \<open>The engine releases each slot it acquired once; \<open>hs\<close> are the boards of the slots now held.\<close>

inductive limiter_step :: "rate_limiter \<times> string list \<Rightarrow> rate_limiter \<times> string list \<Rightarrow> bool" where
  Acquire: "acquire b r = Some r' \<Longrightarrow> limiter_step (r, hs) (r', b # hs)"
| Release: "b \<in> set hs \<Longrightarrow> limiter_step (r, hs) (release b r, remove1 b hs)"
| Failure: "limiter_step (r, hs) (snd (record_failure now u b peer r), hs)"
| Success: "limiter_step (r, hs) (record_success b peer r, hs)"

inductive_cases limiter_stepE: "limiter_step s t"

inductive limiter_reachable :: "bool \<Rightarrow> rate_limiter \<times> string list \<Rightarrow> bool" for low where
  start: "limiter_reachable low (new_rate_limiter low, [])"
| step: "limiter_reachable low s \<Longrightarrow> limiter_step s t \<Longrightarrow> limiter_reachable low t"

definition slots_free :: "rate_limiter \<Rightarrow> string \<Rightarrow> nat" where
  "slots_free r b = dget_or (rl_semaphores r) b (rl_max_concurrent r)"

definition slots_inv :: "nat \<Rightarrow> rate_limiter \<times> string list \<Rightarrow> bool" where
  "slots_inv m s \<longleftrightarrow>
     rl_max_concurrent (fst s) = m \<and> (\<forall>b. slots_free (fst s) b + count_list (snd s) b = m)"

lemma get_semaphore_facts:
  assumes "get_semaphore b r = (v, r')"
  shows "v = slots_free r b \<and> slots_free r' = slots_free r \<and> rl_max_concurrent r' = rl_max_concurrent r"
proof -
  have "slots_free r' c = slots_free r c" for c
    using assms
    by (auto simp: get_semaphore_def slots_free_def dget_or_def dict_laws split: option.splits if_splits)
  moreover have "v = slots_free r b" "rl_max_concurrent r' = rl_max_concurrent r"
    using assms by (auto simp: get_semaphore_def slots_free_def dget_or_def split: option.splits)
  ultimately show ?thesis by auto
qed

lemma slots_free_put:
  "slots_free (r\<lparr>rl_semaphores := dput b v (rl_semaphores r)\<rparr>) c = (if c = b then v else slots_free r c)"
  by (simp add: slots_free_def dict_laws)

lemma acquire_slots:
  assumes "acquire b r = Some r'"
  shows "0 < slots_free r b \<and> rl_max_concurrent r' = rl_max_concurrent r \<and>
    slots_free r' c = (if c = b then slots_free r b - 1 else slots_free r c)"
proof -
  obtain v r1 where g: "get_semaphore b r = (v, r1)" by (cases "get_semaphore b r")
  from assms g show ?thesis
    using get_semaphore_facts [OF g] by (auto simp: acquire_def slots_free_put split: if_splits)
qed

lemma release_slots:
  "rl_max_concurrent (release b r) = rl_max_concurrent r \<and>
   slots_free (release b r) c = (if c = b then Suc (slots_free r b) else slots_free r c)"
proof -
  obtain v r1 where g: "get_semaphore b r = (v, r1)" by (cases "get_semaphore b r")
  then show ?thesis using get_semaphore_facts [OF g] by (simp add: release_def slots_free_put)
qed

lemma failure_slots:
  "rl_max_concurrent (snd (record_failure now u b peer r)) = rl_max_concurrent r \<and>
   slots_free (snd (record_failure now u b peer r)) c = slots_free r c"
  by (simp add: record_failure_def Let_def slots_free_def split: sum.split)

lemma count_remove1: "count_list (remove1 b hs) c = count_list hs c - (if b = c then 1 else 0)"
  by (induction hs) auto

lemma slots_inv_step: "limiter_step s t \<Longrightarrow> slots_inv m s \<Longrightarrow> slots_inv m t"
proof (induction rule: limiter_step.induct)
  case (Acquire b r r' hs)
  have "slots_free r' c + count_list (b # hs) c = m" for c
    using Acquire acquire_slots [OF Acquire(1), of c] by (auto simp: slots_inv_def)
  with Acquire acquire_slots [OF Acquire(1)] show ?case by (simp add: slots_inv_def)
next
  case (Release b hs r)
  from Release(1) have pos: "0 < count_list hs b" by (metis count_list_0_iff neq0_conv)
  have "slots_free (release b r) c + count_list (remove1 b hs) c = m" for c
  proof -
    from Release(2) have "slots_free r c + count_list hs c = m" by (simp add: slots_inv_def)
    with pos release_slots [of b r c] show ?thesis by (auto simp: count_remove1)
  qed
  with Release release_slots [of b r] show ?case by (simp add: slots_inv_def)
next
  case (Failure r hs now u b peer)
  then show ?case by (simp add: slots_inv_def failure_slots)
next
  case (Success r hs b peer)
  then show ?case by (auto simp: slots_inv_def record_success_def slots_free_def)
qed

lemma limiter_reachable_inv:
  "limiter_reachable low s \<Longrightarrow> slots_inv (if low then 2 else 5) s"
proof (induction rule: limiter_reachable.induct)
  case start
  show ?case
    by (simp add: slots_inv_def new_rate_limiter_def slots_free_def dget_or_def
        MAX_CONCURRENT_SYNCS_def MAX_CONCURRENT_SYNCS_LORA_def)
qed (rule slots_inv_step)

section \<open>Properties\<close>

text \<open>Also: however syncs start, end and fail, at most five of them (two on a slow interface)
  hold a slot of one board at a time, and a waiting sync obtains a slot exactly when fewer are
  held.\<close>

theorem sync_slots_bounded:
  assumes "limiter_reachable low (r, hs)"
  shows "count_list hs b \<le> (if low then 2 else 5) \<and>
    (acquire b r \<noteq> None \<longleftrightarrow> count_list hs b < (if low then 2 else 5))"
proof -
  from limiter_reachable_inv [OF assms] have sum: "slots_free r b + count_list hs b = (if low then 2 else 5)"
    by (simp add: slots_inv_def)
  obtain v r1 where g: "get_semaphore b r = (v, r1)" by (cases "get_semaphore b r")
  with get_semaphore_facts [OF g] have "acquire b r \<noteq> None \<longleftrightarrow> 0 < slots_free r b"
    by (simp add: acquire_def)
  with sum show ?thesis by linarith
qed

theorem sync_slots_bounded_witness:
  "acquire ''b'' (the (acquire ''b'' (the (acquire ''b'' (new_rate_limiter True))))) = None"
proof -
  let ?r0 = "new_rate_limiter True" and ?r1 = "the (acquire ''b'' (new_rate_limiter True))"
  let ?r2 = "the (acquire ''b'' ?r1)"
  have 1: "acquire ''b'' ?r0 = Some ?r1" and 2: "acquire ''b'' ?r1 = Some ?r2" by code_simp+
  have "limiter_reachable True (?r2, [''b'', ''b''])"
    by (rule limiter_reachable.step [OF limiter_reachable.step [OF limiter_reachable.start
        limiter_step.Acquire [OF 1]] limiter_step.Acquire [OF 2]])
  from sync_slots_bounded [OF this, of "''b''"] show ?thesis by simp
qed

section \<open>Backoff\<close>

lemma jitter_bounds:
  fixes d u :: rat
  assumes "0 \<le> d" "0 \<le> u" "u \<le> 1"
  shows "3 / 4 * d \<le> d + d * (1 / 4) * (2 * u - 1) \<and> d + d * (1 / 4) * (2 * u - 1) \<le> 5 / 4 * d"
proof -
  have eq: "d + d * (1 / 4) * (2 * u - 1) = 3 / 4 * d + (d * u) / 2" by (simp add: field_simps)
  have "0 \<le> d * u" using assms by simp
  moreover have "d * u \<le> d" using mult_left_mono [OF assms(3,1)] by simp
  ultimately show ?thesis unfolding eq by (intro conjI) linarith+
qed

text \<open>Also: after the \<open>n\<close>-th failure in a row a peer is not synced with for at least three
  quarters of \<open>min (5 * 2 ^ (n - 1)) 300\<close> seconds and is again after at most five quarters of it,
  and a success clears the backoff. At the 1025th failure in a row the delay cannot be computed:
  the call raises \<open>OverflowError\<close> and the previous backoff stays.\<close>

theorem backoff_delay:
  fixes u :: rat
  assumes "0 \<le> u" "u < 1" and n: "n = Suc (dget_or (rl_failures r) (b, peer) 0)"
    and run: "record_failure now u b peer r = (err, r')"
  shows "(n \<le> 1024 \<longrightarrow> err = None \<and>
            (\<forall>t. t < now + 3 / 4 * min (5 * 2 ^ (n - 1)) 300 \<longrightarrow> \<not> can_sync_peer t b peer r') \<and>
            (\<forall>t. now + 5 / 4 * min (5 * 2 ^ (n - 1)) 300 \<le> t \<longrightarrow> can_sync_peer t b peer r')) \<and>
    (1025 \<le> n \<longrightarrow> err = Some OverflowError \<and> can_sync_peer t b peer r' = can_sync_peer t b peer r) \<and>
    dget_or (rl_failures r') (b, peer) 0 = n \<and>
    (0 \<le> t \<longrightarrow> can_sync_peer t b peer (record_success b peer r'))"
proof (intro conjI)
  let ?d = "min (5 * 2 ^ (n - 1)) 300 :: rat"
  have "0 \<le> ?d" by simp
  note bounds = jitter_bounds [OF this assms(1) less_imp_le [OF assms(2)]]
  have in_range: "err = None \<and> (\<forall>t. t < now + 3 / 4 * ?d \<longrightarrow> \<not> can_sync_peer t b peer r') \<and>
      (\<forall>t. now + 5 / 4 * ?d \<le> t \<longrightarrow> can_sync_peer t b peer r')" if small: "n \<le> 1024"
  proof -
    from small n run have eqs: "err = None" "dget_or (rl_backoff r') (b, peer) 0 = now + (?d + ?d * (1 / 4) * (2 * u - 1))"
      by (auto simp: record_failure_def Let_def float_pow2_def dict_laws)
    from eqs(1) show ?thesis unfolding can_sync_peer_def eqs(2)
      by (intro conjI allI impI) (assumption | (use bounds in linarith))+
  qed
  then show "n \<le> 1024 \<longrightarrow> err = None \<and>
            (\<forall>t. t < now + 3 / 4 * ?d \<longrightarrow> \<not> can_sync_peer t b peer r') \<and>
            (\<forall>t. now + 5 / 4 * ?d \<le> t \<longrightarrow> can_sync_peer t b peer r')" by blast
  show "1025 \<le> n \<longrightarrow> err = Some OverflowError \<and> can_sync_peer t b peer r' = can_sync_peer t b peer r"
    using n run by (auto simp: record_failure_def Let_def float_pow2_def can_sync_peer_def)
  show "dget_or (rl_failures r') (b, peer) 0 = n"
    using n run by (auto simp: record_failure_def Let_def dict_laws split: sum.splits)
  show "0 \<le> t \<longrightarrow> can_sync_peer t b peer (record_success b peer r')"
    by (simp add: can_sync_peer_def record_success_def dict_laws)
qed

theorem backoff_delay_witness:
  "\<not> can_sync_peer 103 ''b'' ''p'' (snd (record_failure 100 (1 / 2) ''b'' ''p'' (new_rate_limiter False))) \<and>
   can_sync_peer 107 ''b'' ''p'' (snd (record_failure 100 (1 / 2) ''b'' ''p'' (new_rate_limiter False)))"
proof -
  let ?x = "record_failure 100 (1 / 2) ''b'' ''p'' (new_rate_limiter False)"
  have n: "(1::nat) = Suc (dget_or (rl_failures (new_rate_limiter False)) (''b'', ''p'') 0)" by code_simp
  have run: "?x = (fst ?x, snd ?x)" by simp
  from backoff_delay [OF _ _ n run] show ?thesis by simp
qed

end
