(* ===== verification/Peers.thy ===== *)
theory Peers
  imports Prelude
begin

text \<open>
  The peer table (\<open>retiboard/sync/peers.py\<close>): peers keyed by LXMF hash, the board index, the path
  states and the selection of peers. An identity is its public key in hexadecimal; Python sets are
  lists without duplicates (the order of a set, which decides ties between equal sort keys, is the
  insertion order here). \<open>now\<close> is the clock during the call, \<open>u\<close> the value of
  \<open>random.uniform(0, 1)\<close>. The peer's own \<open>lxmf_hash\<close> field and its table key are kept apart as in
  the code.
\<close>

section \<open>State\<close>

datatype path_state = Unknown | Path_requested | Known | Stale | Unreachable

definition PATH_REQUEST_TIMEOUT :: rat where "PATH_REQUEST_TIMEOUT = 30"
definition MAX_PATH_RETRIES :: nat where "MAX_PATH_RETRIES = 5"
definition RETRY_BACKOFF_MAX :: rat where "RETRY_BACKOFF_MAX = 600"
definition PEER_UNREACHABLE_TTL :: rat where "PEER_UNREACHABLE_TTL = 3600"
definition PEER_EXPIRY_SECONDS :: rat where "PEER_EXPIRY_SECONDS = 900"
definition MAX_PEER_TABLE_SIZE :: nat where "MAX_PEER_TABLE_SIZE = 200"

record peer_info =
  pi_hash :: string
  pi_identity :: "string option"
  pi_boards :: "string list"
  pi_last_seen :: time
  pi_path :: path_state
  pi_verified :: bool
  pi_announce_hash :: "string option"
  pi_retry_count :: nat
  pi_next_retry_at :: time
  pi_successes :: nat
  pi_failures :: nat
  pi_last_success_at :: time
  pi_last_failure_at :: time
  pi_last_direct_have_at :: time

record tracker =
  tr_peers :: "(string, peer_info) dict"
  tr_index :: "(string, string list) dict"
  tr_self :: string

definition new_tracker :: tracker where
  "new_tracker = \<lparr>tr_peers = [], tr_index = [], tr_self = []\<rparr>"

definition fresh_peer :: "time \<Rightarrow> string \<Rightarrow> peer_info" where
  "fresh_peer now h =
     \<lparr>pi_hash = h, pi_identity = None, pi_boards = [], pi_last_seen = now, pi_path = Unknown,
      pi_verified = False, pi_announce_hash = None, pi_retry_count = 0, pi_next_retry_at = 0,
      pi_successes = 0, pi_failures = 0, pi_last_success_at = 0, pi_last_failure_at = 0,
      pi_last_direct_have_at = 0\<rparr>"

definition is_expired :: "time \<Rightarrow> peer_info \<Rightarrow> bool" where
  "is_expired now p = (now - pi_last_seen p > PEER_EXPIRY_SECONDS)"

definition next_retry_delay :: "rat \<Rightarrow> peer_info \<Rightarrow> rat" where
  "next_retry_delay u p =
     (let delay = min (PATH_REQUEST_TIMEOUT * 2 ^ pi_retry_count p) RETRY_BACKOFF_MAX
      in delay + delay * (1 / 4) * u)"

definition set_self_hash :: "string \<Rightarrow> tracker \<Rightarrow> tracker" where
  "set_self_hash h t = t\<lparr>tr_self := h\<rparr>"

definition is_self :: "tracker \<Rightarrow> string \<Rightarrow> bool" where
  "is_self t h = (h \<noteq> [] \<and> h = tr_self t)"

text \<open>\<open>bytes.fromhex\<close> skips ASCII white space between the bytes.\<close>

definition hex_char :: "char \<Rightarrow> bool" where
  "hex_char c = (c \<in> set ''0123456789abcdefABCDEF'')"

definition space_char :: "char \<Rightarrow> bool" where
  "space_char c = (of_char c \<in> {9, 10, 11, 12, 13, 32 :: nat})"

fun fromhex_ok :: "string \<Rightarrow> bool" where
  "fromhex_ok [] = True"
| "fromhex_ok (c # cs) =
     (if space_char c then fromhex_ok cs
      else (case cs of [] \<Rightarrow> False | d # ds \<Rightarrow> hex_char c \<and> hex_char d \<and> fromhex_ok ds))"

definition is_valid_peer_hash :: "string \<Rightarrow> bool" where
  "is_valid_peer_hash h = ((length h = 16 \<or> length h = 32) \<and> fromhex_ok h)"

section \<open>Table limit\<close>

definition index_add :: "string \<Rightarrow> string \<Rightarrow> tracker \<Rightarrow> tracker" where
  "index_add b h t = t\<lparr>tr_index := dput b (set_add h (dget_or (tr_index t) b [])) (tr_index t)\<rparr>"

text \<open>\<open>self._board_index.get(bid, set()).discard(h)\<close>: an absent board stays absent.\<close>

definition index_discard :: "string \<Rightarrow> string \<Rightarrow> (string, string list) dict \<Rightarrow> (string, string list) dict" where
  "index_discard b h ix =
     (case dget ix b of None \<Rightarrow> ix | Some ms \<Rightarrow> dput b (set_discard h ms) ix)"

definition victim_of :: "tracker \<Rightarrow> peer_info" where
  "victim_of t = hd (sort_key (\<lambda>p. (pi_verified p, pi_last_seen p)) (dvalues (tr_peers t)))"

definition enforce_limit :: "tracker \<Rightarrow> py_error + tracker" where
  "enforce_limit t =
     (if length (tr_peers t) < MAX_PEER_TABLE_SIZE then Inr t
      else (let v = victim_of t in
            if dget (tr_peers t) (pi_hash v) = None then Inl KeyError
            else Inr (t\<lparr>tr_peers := dpop (pi_hash v) (tr_peers t),
                        tr_index := fold (\<lambda>b. index_discard b (pi_hash v)) (pi_boards v) (tr_index t)\<rparr>)))"

section \<open>Registration\<close>

definition or_old :: "'a option \<Rightarrow> 'a option \<Rightarrow> 'a option" where
  "or_old new old = (case new of None \<Rightarrow> old | Some x \<Rightarrow> Some x)"

definition truthy :: "string option \<Rightarrow> string option" where
  "truthy x = (case x of None \<Rightarrow> None | Some s \<Rightarrow> if s = [] then None else Some s)"

definition put_peer :: "string \<Rightarrow> peer_info \<Rightarrow> tracker \<Rightarrow> tracker" where
  "put_peer h p t = t\<lparr>tr_peers := dput h p (tr_peers t)\<rparr>"

text \<open>The frame the three registrations share: validation, the limit, update or insertion.\<close>

definition register_with ::
  "string \<Rightarrow> (peer_info \<Rightarrow> peer_info) \<Rightarrow> peer_info \<Rightarrow> string option \<Rightarrow> tracker \<Rightarrow>
     py_error + bool \<times> tracker" where
  "register_with h upd new board t =
     (if \<not> is_valid_peer_hash h then Inr (False, t)
      else if is_self t h then Inr (False, t)
      else (case enforce_limit t of
              Inl e \<Rightarrow> Inl e
            | Inr t1 \<Rightarrow>
                (let t2 = (case dget (tr_peers t1) h of
                             Some p \<Rightarrow> put_peer h (upd p) t1
                           | None \<Rightarrow> put_peer h new t1)
                 in Inr (True, case board of None \<Rightarrow> t2 | Some b \<Rightarrow> index_add b h t2))))"

definition register_peer_identity ::
  "time \<Rightarrow> string \<Rightarrow> string option \<Rightarrow> string option \<Rightarrow> tracker \<Rightarrow> py_error + bool \<times> tracker" where
  "register_peer_identity now h ident ah =
     register_with h
       (\<lambda>p. p\<lparr>pi_last_seen := now, pi_identity := or_old ident (pi_identity p),
              pi_announce_hash := or_old (truthy ah) (pi_announce_hash p)\<rparr>)
       ((fresh_peer now h)\<lparr>pi_identity := ident, pi_announce_hash := ah\<rparr>) None"

definition register_from_announce ::
  "time \<Rightarrow> string \<Rightarrow> string \<Rightarrow> string option \<Rightarrow> string option \<Rightarrow> tracker \<Rightarrow> py_error + bool \<times> tracker" where
  "register_from_announce now b h ident ah =
     register_with h
       (\<lambda>p. p\<lparr>pi_last_seen := now, pi_boards := set_add b (pi_boards p),
              pi_identity := or_old ident (pi_identity p),
              pi_announce_hash := or_old (truthy ah) (pi_announce_hash p)\<rparr>)
       ((fresh_peer now h)\<lparr>pi_identity := ident, pi_boards := [b], pi_announce_hash := ah\<rparr>) (Some b)"

definition register_from_message ::
  "time \<Rightarrow> string \<Rightarrow> string option \<Rightarrow> string option \<Rightarrow> tracker \<Rightarrow> py_error + bool \<times> tracker" where
  "register_from_message now h board ident =
     register_with h
       (\<lambda>p. p\<lparr>pi_last_seen := now, pi_verified := True, pi_path := Known, pi_retry_count := 0,
              pi_identity := or_old ident (pi_identity p),
              pi_boards := (case truthy board of None \<Rightarrow> pi_boards p | Some b \<Rightarrow> set_add b (pi_boards p))\<rparr>)
       ((fresh_peer now h)\<lparr>pi_identity := ident,
          pi_boards := (case truthy board of None \<Rightarrow> [] | Some b \<Rightarrow> [b]),
          pi_verified := True, pi_path := Known\<rparr>) (truthy board)"

definition see_peer ::
  "time \<Rightarrow> string \<Rightarrow> string \<Rightarrow> string option \<Rightarrow> tracker \<Rightarrow> py_error + tracker" where
  "see_peer now b h ident t =
     (case dget (tr_peers t) h of
        Some p \<Rightarrow> Inr (put_peer h (p\<lparr>pi_last_seen := now, pi_boards := set_add b (pi_boards p)\<rparr>) t)
      | None \<Rightarrow> map_sum id snd (register_from_announce now b h ident (Some h) t))"

section \<open>Delivery outcomes and expiry\<close>

definition modify_peer :: "string \<Rightarrow> (peer_info \<Rightarrow> peer_info) \<Rightarrow> tracker \<Rightarrow> tracker" where
  "modify_peer h f t = (case dget (tr_peers t) h of None \<Rightarrow> t | Some p \<Rightarrow> put_peer h (f p) t)"

definition failed_peer :: "time \<Rightarrow> rat \<Rightarrow> peer_info \<Rightarrow> peer_info" where
  "failed_peer now u p =
     (let p1 = p\<lparr>pi_path := Stale, pi_retry_count := pi_retry_count p + 1,
                 pi_failures := pi_failures p + 1, pi_last_failure_at := now\<rparr>
      in if pi_retry_count p1 \<ge> MAX_PATH_RETRIES
         then p1\<lparr>pi_path := Unreachable, pi_next_retry_at := now + PEER_UNREACHABLE_TTL\<rparr>
         else p1\<lparr>pi_next_retry_at := now + next_retry_delay u p1\<rparr>)"

definition record_delivery_failure :: "time \<Rightarrow> rat \<Rightarrow> string \<Rightarrow> tracker \<Rightarrow> tracker" where
  "record_delivery_failure now u h = modify_peer h (failed_peer now u)"

definition record_delivery_success :: "time \<Rightarrow> string \<Rightarrow> tracker \<Rightarrow> tracker" where
  "record_delivery_success now h =
     modify_peer h (\<lambda>p. p\<lparr>pi_path := Known, pi_retry_count := 0, pi_verified := True,
       pi_successes := pi_successes p + 1, pi_last_success_at := now, pi_last_seen := now\<rparr>)"

definition mark_path_known :: "time \<Rightarrow> string \<Rightarrow> tracker \<Rightarrow> tracker" where
  "mark_path_known now h =
     modify_peer h (\<lambda>p. p\<lparr>pi_path := Known, pi_retry_count := 0, pi_last_seen := now\<rparr>)"

definition mark_direct_have_sent :: "time \<Rightarrow> string \<Rightarrow> tracker \<Rightarrow> tracker" where
  "mark_direct_have_sent now h = modify_peer h (\<lambda>p. p\<lparr>pi_last_direct_have_at := now\<rparr>)"

definition index_drop :: "string \<Rightarrow> string \<Rightarrow> (string, string list) dict \<Rightarrow> (string, string list) dict" where
  "index_drop h b ix =
     (case dget ix b of
        None \<Rightarrow> ix
      | Some ms \<Rightarrow>
          (let ms' = set_discard h ms in if ms' = [] then dpop b ix else dput b ms' ix))"

definition drop_peer :: "string \<Rightarrow> tracker \<Rightarrow> tracker" where
  "drop_peer h t =
     (case dget (tr_peers t) h of
        None \<Rightarrow> t
      | Some p \<Rightarrow> t\<lparr>tr_peers := dpop h (tr_peers t), tr_index := fold (index_drop h) (pi_boards p) (tr_index t)\<rparr>)"

definition sweep_peers :: "time \<Rightarrow> tracker \<Rightarrow> tracker" where
  "sweep_peers now t = fold drop_peer (map fst (filter (\<lambda>(h, p). is_expired now p) (tr_peers t))) t"

section \<open>Selection\<close>

definition get_peers :: "time \<Rightarrow> string \<Rightarrow> tracker \<Rightarrow> peer_info list" where
  "get_peers now b t =
     sort_desc pi_last_seen
       (filter (\<lambda>p. \<not> is_expired now p) (List.map_filter (dget (tr_peers t)) (dget_or (tr_index t) b [])))"

definition get_lxmf_peers :: "time \<Rightarrow> string \<Rightarrow> tracker \<Rightarrow> peer_info list" where
  "get_lxmf_peers now b t =
     filter (\<lambda>p. \<not> is_self t (pi_hash p) \<and> pi_identity p \<noteq> None \<and> pi_path p \<noteq> Unreachable \<and>
                 now \<ge> pi_next_retry_at p) (get_peers now b t)"

definition path_rank :: "path_state \<Rightarrow> int" where
  "path_rank s =
     (case s of Known \<Rightarrow> 4 | Stale \<Rightarrow> 3 | Path_requested \<Rightarrow> 2 | Unknown \<Rightarrow> 1 | Unreachable \<Rightarrow> 0)"

definition peer_quality_score :: "peer_info \<Rightarrow> int \<times> int \<times> int \<times> time \<times> time" where
  "peer_quality_score p =
     (path_rank (pi_path p), (if pi_verified p then 1 else 0), int (pi_successes p) - int (pi_failures p),
      pi_last_success_at p, pi_last_seen p)"

definition get_fetch_peers :: "time \<Rightarrow> string \<Rightarrow> nat \<Rightarrow> tracker \<Rightarrow> peer_info list" where
  "get_fetch_peers now b cnt t =
     (let peers0 = get_lxmf_peers now b t;
          peers = (if peers0 = [] then
                     filter (\<lambda>p. b \<in> set (pi_boards p) \<and> \<not> is_self t (pi_hash p) \<and>
                                 pi_identity p \<noteq> None \<and> pi_path p \<noteq> Unreachable) (dvalues (tr_peers t))
                   else peers0)
      in take cnt (sort_desc peer_quality_score peers))"

definition exclude :: "string option \<Rightarrow> peer_info list \<Rightarrow> peer_info list" where
  "exclude h ps = (case truthy h of None \<Rightarrow> ps | Some x \<Rightarrow> filter (\<lambda>p. pi_hash p \<noteq> x) ps)"

definition direct_have_key :: "peer_info \<Rightarrow> time \<times> int \<times> int \<times> time" where
  "direct_have_key p =
     (pi_last_direct_have_at p, - path_rank (pi_path p), - (int (pi_successes p) - int (pi_failures p)),
      - pi_last_seen p)"

definition get_direct_have_peers :: "time \<Rightarrow> string \<Rightarrow> string option \<Rightarrow> nat \<Rightarrow> tracker \<Rightarrow> peer_info list" where
  "get_direct_have_peers now b ex cnt t =
     take cnt (sort_key direct_have_key (exclude ex (get_lxmf_peers now b t)))"

definition get_replication_targets :: "time \<Rightarrow> string \<Rightarrow> string option \<Rightarrow> nat \<Rightarrow> tracker \<Rightarrow> peer_info list" where
  "get_replication_targets now b ex cnt t =
     take cnt (sort_desc peer_quality_score (exclude ex (get_lxmf_peers now b t)))"

text \<open>\<open>random.sample\<close>: the argument picks \<open>n\<close> of the candidates.\<close>

definition pex_candidates :: "time \<Rightarrow> string \<Rightarrow> tracker \<Rightarrow> peer_info list" where
  "pex_candidates now b t =
     filter (\<lambda>p. pi_verified p \<and> pi_identity p \<noteq> None \<and> now - pi_last_seen p < 7200)
       (List.map_filter (dget (tr_peers t)) (filter (\<lambda>h. \<not> is_self t h) (dget_or (tr_index t) b [])))"

definition get_pex_peers ::
  "(nat \<Rightarrow> peer_info list \<Rightarrow> peer_info list) \<Rightarrow> time \<Rightarrow> string \<Rightarrow> nat \<Rightarrow> tracker \<Rightarrow>
     (string \<times> string option) list" where
  "get_pex_peers sample now b cnt t =
     (let cands = pex_candidates now b t in
      if cands = [] then []
      else map (\<lambda>p. (pi_hash p, pi_identity p)) (sample (min (length cands) cnt) cands))"

definition unique_peer_count :: "time \<Rightarrow> string list option \<Rightarrow> tracker \<Rightarrow> nat" where
  "unique_peer_count now board_ids t =
     (let hashes = (case board_ids of
                      None \<Rightarrow> map fst (tr_peers t)
                    | Some bs \<Rightarrow> remdups (concat (map (\<lambda>b. dget_or (tr_index t) b []) bs)))
      in length (filter (\<lambda>h. case dget (tr_peers t) h of
                               None \<Rightarrow> False
                             | Some p \<Rightarrow> \<not> is_self t h \<and> now - pi_last_seen p < 600) hashes))"

definition path_summary :: "time \<Rightarrow> tracker \<Rightarrow> path_state \<Rightarrow> nat" where
  "path_summary now t s = dcount (\<lambda>p. \<not> is_expired now p \<and> pi_path p = s) (tr_peers t)"

section \<open>Persistence\<close>

record peer_row =
  row_hash :: string
  row_identity :: "string option"
  row_boards :: "string list"
  row_last_seen :: time
  row_path :: path_state
  row_verified :: bool
  row_announce_hash :: "string option"
  row_successes :: nat
  row_failures :: nat
  row_last_success_at :: time
  row_last_failure_at :: time

definition peer_to_dict :: "peer_info \<Rightarrow> peer_row" where
  "peer_to_dict p =
     \<lparr>row_hash = pi_hash p, row_identity = pi_identity p, row_boards = pi_boards p,
      row_last_seen = pi_last_seen p, row_path = pi_path p, row_verified = pi_verified p,
      row_announce_hash = pi_announce_hash p, row_successes = pi_successes p,
      row_failures = pi_failures p, row_last_success_at = pi_last_success_at p,
      row_last_failure_at = pi_last_failure_at p\<rparr>"

text \<open>\<open>decode\<close> is \<open>RNS.Identity.from_bytes\<close> on the stored bytes, \<^term>\<open>None\<close> where it raises.\<close>

definition peer_from_dict :: "(string \<Rightarrow> string option) \<Rightarrow> peer_row \<Rightarrow> peer_info" where
  "peer_from_dict decode r =
     \<lparr>pi_hash = row_hash r, pi_identity = Option.bind (truthy (row_identity r)) decode,
      pi_boards = row_boards r, pi_last_seen = row_last_seen r, pi_path = row_path r,
      pi_verified = row_verified r, pi_announce_hash = row_announce_hash r, pi_retry_count = 0,
      pi_next_retry_at = 0, pi_successes = row_successes r, pi_failures = row_failures r,
      pi_last_success_at = row_last_success_at r, pi_last_failure_at = row_last_failure_at r,
      pi_last_direct_have_at = 0\<rparr>"

definition persist :: "time \<Rightarrow> tracker \<Rightarrow> (string, peer_row) dict" where
  "persist now t =
     map (\<lambda>(h, p). (h, peer_to_dict p))
       (filter (\<lambda>(h, p). pi_verified p \<and> now - pi_last_seen p < 900) (tr_peers t))"

fun load_rows :: "(string \<Rightarrow> string option) \<Rightarrow> (string, peer_row) dict \<Rightarrow> nat \<Rightarrow> tracker \<Rightarrow> nat \<times> tracker" where
  "load_rows decode [] n t = (n, t)"
| "load_rows decode ((h, r) # rows) n t =
     (if is_self t h then load_rows decode rows n t
      else if dget (tr_peers t) h \<noteq> None then load_rows decode rows n t
      else (let p = peer_from_dict decode r in
            load_rows decode rows (Suc n) (fold (\<lambda>b. index_add b h) (pi_boards p) (put_peer h p t))))"

definition load_peers :: "(string \<Rightarrow> string option) \<Rightarrow> (string, peer_row) dict \<Rightarrow> tracker \<Rightarrow> nat \<times> tracker" where
  "load_peers decode rows t = load_rows decode rows 0 t"

end
