(* ===== verification/PeersSafe.thy ===== *)
theory PeersSafe
  imports Peers
begin

text \<open>
  Properties of the peer table: the invariant that ties the board index to the peers, the size
  bound, the optimality of the selections, the delivery state machine and persistence.
\<close>

section \<open>The table invariant\<close>

definition tracker_inv :: "tracker \<Rightarrow> bool" where
  "tracker_inv t \<longleftrightarrow>
     dict_ok (tr_peers t) \<and> dict_ok (tr_index t) \<and>
     (\<forall>h p. dget (tr_peers t) h = Some p \<longrightarrow> pi_hash p = h) \<and>
     (\<forall>b ms h. dget (tr_index t) b = Some ms \<longrightarrow> h \<in> set ms \<longrightarrow>
        (\<exists>p. dget (tr_peers t) h = Some p \<and> b \<in> set (pi_boards p)))"

lemma tracker_inv_indexD:
  "tracker_inv t \<Longrightarrow> dget (tr_index t) b = Some ms \<Longrightarrow> h \<in> set ms \<Longrightarrow>
     \<exists>p. dget (tr_peers t) h = Some p \<and> b \<in> set (pi_boards p)"
  unfolding tracker_inv_def by blast

lemma tracker_inv_hash: "tracker_inv t \<Longrightarrow> dget (tr_peers t) h = Some p \<Longrightarrow> pi_hash p = h"
  unfolding tracker_inv_def by blast

lemma tracker_inv_members:
  assumes "tracker_inv t" and "h \<in> set (dget_or (tr_index t) b [])"
  shows "\<exists>p. dget (tr_peers t) h = Some p \<and> pi_hash p = h \<and> b \<in> set (pi_boards p)"
proof (cases "dget (tr_index t) b")
  case None
  with assms(2) show ?thesis by (simp add: dget_or_def)
next
  case (Some ms)
  with assms tracker_inv_indexD [OF assms(1) Some] tracker_inv_hash [OF assms(1)] show ?thesis
    by (fastforce simp: dget_or_def)
qed

lemma put_peer_inv:
  assumes inv: "tracker_inv t" and "pi_hash p = h"
    and old: "\<And>q. dget (tr_peers t) h = Some q \<Longrightarrow> set (pi_boards q) \<subseteq> set (pi_boards p)"
  shows "tracker_inv (put_peer h p t)"
proof -
  have "\<exists>q. dget (dput h p (tr_peers t)) x = Some q \<and> b \<in> set (pi_boards q)"
    if m: "dget (tr_index t) b = Some ms" "x \<in> set ms" for b ms x
  proof -
    from tracker_inv_indexD [OF inv m] obtain q where "dget (tr_peers t) x = Some q" "b \<in> set (pi_boards q)" by blast
    with old show ?thesis by (cases "x = h") (auto simp: dict_laws)
  qed
  moreover have "pi_hash q = x" if "dget (dput h p (tr_peers t)) x = Some q" for x q
    using that assms(2) tracker_inv_hash [OF inv, of x q] by (auto simp: dict_laws split: if_splits)
  moreover have "dict_ok (dput h p (tr_peers t))" "dict_ok (tr_index t)"
    using inv unfolding tracker_inv_def by simp_all
  ultimately show ?thesis unfolding tracker_inv_def put_peer_def by simp
qed

lemma index_add_inv:
  assumes inv: "tracker_inv t" and p: "dget (tr_peers t) h = Some p" "b \<in> set (pi_boards p)"
  shows "tracker_inv (index_add b h t)"
proof -
  have "\<exists>q. dget (tr_peers t) x = Some q \<and> c \<in> set (pi_boards q)"
    if m: "dget (tr_index (index_add b h t)) c = Some ms" "x \<in> set ms" for c ms x
  proof (cases "c = b")
    case True
    with m have "x = h \<or> (\<exists>ms0. dget (tr_index t) b = Some ms0 \<and> x \<in> set ms0)"
      by (auto simp: index_add_def dict_laws dget_or_def split: option.splits)
    with p True tracker_inv_indexD [OF inv] show ?thesis by blast
  next
    case False
    with m tracker_inv_indexD [OF inv] show ?thesis by (simp add: index_add_def dict_laws)
  qed
  moreover have "dict_ok (tr_index (index_add b h t))" using inv by (simp add: tracker_inv_def index_add_def)
  moreover have "tr_peers (index_add b h t) = tr_peers t" by (simp add: index_add_def)
  moreover have "dict_ok (tr_peers t)" "\<forall>h p. dget (tr_peers t) h = Some p \<longrightarrow> pi_hash p = h"
    using inv by (simp_all add: tracker_inv_def)
  ultimately show ?thesis unfolding tracker_inv_def by simp
qed

text \<open>Removing a peer together with its index entries.\<close>

lemma remove_peer_inv:
  assumes inv: "tracker_inv t" and p: "dget (tr_peers t) h = Some p" and ok: "dict_ok ix"
    and ix: "\<And>b ms'. dget ix b = Some ms' \<Longrightarrow>
      \<exists>ms. dget (tr_index t) b = Some ms \<and> set ms' \<subseteq> set ms \<and> (b \<in> set (pi_boards p) \<longrightarrow> h \<notin> set ms')"
  shows "tracker_inv (t\<lparr>tr_peers := dpop h (tr_peers t), tr_index := ix\<rparr>)"
proof -
  have "\<exists>q. dget (dpop h (tr_peers t)) x = Some q \<and> b \<in> set (pi_boards q)"
    if m: "dget ix b = Some ms'" "x \<in> set ms'" for b ms' x
  proof -
    from ix [OF m(1)] m(2) obtain ms where ms: "dget (tr_index t) b = Some ms" "x \<in> set ms"
      "b \<in> set (pi_boards p) \<longrightarrow> h \<notin> set ms'" by blast
    from tracker_inv_indexD [OF inv ms(1,2)] obtain q where q: "dget (tr_peers t) x = Some q" "b \<in> set (pi_boards q)"
      by blast
    with p ms(3) m(2) have "x \<noteq> h" by auto
    with q show ?thesis by (simp add: dict_laws)
  qed
  moreover have "pi_hash q = x" if "dget (dpop h (tr_peers t)) x = Some q" for x q
    using that tracker_inv_hash [OF inv, of x q] by (simp add: dict_laws split: if_splits)
  moreover have "dict_ok (dpop h (tr_peers t))" using inv by (simp add: tracker_inv_def)
  ultimately show ?thesis unfolding tracker_inv_def using ok by simp
qed

lemma dget_index_discard:
  "dget (index_discard b h ix) c = (if c = b then map_option (set_discard h) (dget ix c) else dget ix c)"
  by (auto simp: index_discard_def dict_laws split: option.split)

lemma fold_discard_get:
  "dget (fold (\<lambda>b. index_discard b h) bs ix) c = Some ms' \<Longrightarrow>
     \<exists>ms. dget ix c = Some ms \<and> set ms' \<subseteq> set ms \<and> (c \<in> set bs \<longrightarrow> h \<notin> set ms')"
proof (induction bs arbitrary: ix)
  case Nil
  then show ?case by simp
next
  case (Cons b bs)
  from Cons.IH [of "index_discard b h ix"] Cons.prems obtain ms1 where
    1: "dget (index_discard b h ix) c = Some ms1" "set ms' \<subseteq> set ms1" "c \<in> set bs \<longrightarrow> h \<notin> set ms'" by auto
  then show ?case by (auto simp: dget_index_discard split: if_splits)
qed

lemma dict_ok_fold_discard: "dict_ok ix \<Longrightarrow> dict_ok (fold (\<lambda>b. index_discard b h) bs ix)"
  by (induction bs arbitrary: ix) (auto simp: index_discard_def split: option.split)

lemma fold_drop_get:
  "dget (fold (index_drop h) bs ix) c = Some ms' \<Longrightarrow>
     \<exists>ms. dget ix c = Some ms \<and> set ms' \<subseteq> set ms \<and> (c \<in> set bs \<longrightarrow> h \<notin> set ms')"
proof (induction bs arbitrary: ix)
  case Nil
  then show ?case by simp
next
  case (Cons b bs)
  from Cons.IH [of "index_drop h b ix"] Cons.prems obtain ms1 where
    1: "dget (index_drop h b ix) c = Some ms1" "set ms' \<subseteq> set ms1" "c \<in> set bs \<longrightarrow> h \<notin> set ms'" by auto
  then show ?case
    by (auto simp: index_drop_def Let_def dict_laws split: option.splits if_splits)
qed

lemma dict_ok_fold_drop: "dict_ok ix \<Longrightarrow> dict_ok (fold (index_drop h) bs ix)"
  by (induction bs arbitrary: ix) (auto simp: index_drop_def Let_def split: option.split)

lemma victim_mem:
  assumes "tr_peers t \<noteq> []"
  shows "victim_of t \<in> set (dvalues (tr_peers t))"
proof -
  let ?xs = "sort_key (\<lambda>p. (pi_verified p, pi_last_seen p)) (dvalues (tr_peers t))"
  have "?xs \<noteq> []" using assms by (metis length_0_conv length_map length_sort)
  then have "hd ?xs \<in> set ?xs" by (rule hd_in_set)
  then show ?thesis by (simp add: victim_of_def)
qed

lemma victim_get:
  assumes inv: "tracker_inv t" and "\<not> length (tr_peers t) < MAX_PEER_TABLE_SIZE"
  shows "dget (tr_peers t) (pi_hash (victim_of t)) = Some (victim_of t)"
proof -
  from assms(2) have "tr_peers t \<noteq> []" by (auto simp: MAX_PEER_TABLE_SIZE_def)
  from victim_mem [OF this] obtain h where "(h, victim_of t) \<in> set (tr_peers t)" by auto
  then have "dget (tr_peers t) h = Some (victim_of t)"
    using inv dict_memD [of "tr_peers t" h] by (simp add: tracker_inv_def)
  with tracker_inv_hash [OF inv this] show ?thesis by simp
qed

lemma enforce_limit_ok:
  assumes inv: "tracker_inv t"
  obtains t1 where "enforce_limit t = Inr t1" "tracker_inv t1"
    "length (tr_peers t1) \<le> max (MAX_PEER_TABLE_SIZE - 1) (length (tr_peers t) - 1)"
    "tr_self t1 = tr_self t"
proof (cases "length (tr_peers t) < MAX_PEER_TABLE_SIZE")
  case True
  then show thesis using that [of t] inv by (simp add: enforce_limit_def)
next
  case False
  let ?v = "victim_of t"
  let ?t = "t\<lparr>tr_peers := dpop (pi_hash ?v) (tr_peers t),
              tr_index := fold (\<lambda>b. index_discard b (pi_hash ?v)) (pi_boards ?v) (tr_index t)\<rparr>"
  note v = victim_get [OF inv False]
  have "tracker_inv ?t"
    by (rule remove_peer_inv [OF inv v])
      (use inv fold_discard_get dict_ok_fold_discard in \<open>auto simp: tracker_inv_def\<close>)
  moreover have "enforce_limit t = Inr ?t" using False v by (simp add: enforce_limit_def Let_def)
  moreover have "Suc (length (dpop (pi_hash ?v) (tr_peers t))) = length (tr_peers t)"
    using length_dpop [OF _ v] inv by (simp add: tracker_inv_def)
  ultimately show thesis by (intro that [of ?t]) simp_all
qed

text \<open>A registration never raises, keeps the invariant, and leaves at most \<open>max 200 (size t)\<close> peers.\<close>

definition good_update :: "string \<Rightarrow> string option \<Rightarrow> (peer_info \<Rightarrow> peer_info) \<Rightarrow> peer_info \<Rightarrow> bool" where
  "good_update h board upd new \<longleftrightarrow>
     pi_hash new = h \<and> (\<forall>p. pi_hash (upd p) = pi_hash p \<and> set (pi_boards p) \<subseteq> set (pi_boards (upd p))) \<and>
     (\<forall>b. board = Some b \<longrightarrow> b \<in> set (pi_boards new) \<and> (\<forall>p. b \<in> set (pi_boards (upd p))))"

lemma length_put_peer: "length (tr_peers (put_peer h p t)) \<le> Suc (length (tr_peers t))"
  by (cases "dget (tr_peers t) h") (simp_all add: put_peer_def length_dput_absent length_dput_present)

lemma register_with_ok:
  assumes inv: "tracker_inv t" and good: "good_update h board upd new"
  obtains ok t' where "register_with h upd new board t = Inr (ok, t')" "tracker_inv t'"
    "length (tr_peers t') \<le> max MAX_PEER_TABLE_SIZE (length (tr_peers t))" "tr_self t' = tr_self t"
proof (cases "is_valid_peer_hash h \<and> \<not> is_self t h")
  case False
  then have "register_with h upd new board t = Inr (False, t)" by (auto simp: register_with_def)
  with inv show thesis by (intro that [of False t]) simp_all
next
  case True
  obtain t1 where t1: "enforce_limit t = Inr t1" "tracker_inv t1"
    "length (tr_peers t1) \<le> max (MAX_PEER_TABLE_SIZE - 1) (length (tr_peers t) - 1)" "tr_self t1 = tr_self t"
    using enforce_limit_ok [OF inv] .
  let ?p = "case dget (tr_peers t1) h of Some p \<Rightarrow> upd p | None \<Rightarrow> new"
  let ?t2 = "put_peer h ?p t1"
  let ?t3 = "case board of None \<Rightarrow> ?t2 | Some b \<Rightarrow> index_add b h ?t2"
  have run: "register_with h upd new board t = Inr (True, ?t3)"
    using True t1(1) by (simp add: register_with_def Let_def split: option.split)
  have hash: "pi_hash ?p = h"
    using good tracker_inv_hash [OF t1(2)] by (auto simp: good_update_def split: option.split)
  have "tracker_inv ?t2"
    by (rule put_peer_inv [OF t1(2) hash]) (use good in \<open>auto simp: good_update_def split: option.splits\<close>)
  moreover have "dget (tr_peers ?t2) h = Some ?p" by (simp add: put_peer_def dict_laws)
  moreover have "b \<in> set (pi_boards ?p)" if "board = Some b" for b
    using good that by (auto simp: good_update_def split: option.split)
  ultimately have inv3: "tracker_inv ?t3"
    using index_add_inv [of ?t2 h ?p] by (auto split: option.split)
  have same: "tr_peers ?t3 = tr_peers ?t2" "tr_self ?t3 = tr_self t"
    using t1(4) by (simp_all add: index_add_def put_peer_def split: option.split)
  have "length (tr_peers ?t3) \<le> max MAX_PEER_TABLE_SIZE (length (tr_peers t))"
    using length_put_peer [of h ?p t1] t1(3) by (auto simp: same MAX_PEER_TABLE_SIZE_def max_def split: if_splits)
  then show thesis using that [OF run inv3] same by simp
qed

lemma register_with_step:
  assumes "tracker_inv t" and "good_update h board upd new"
    and "register_with h upd new board t = Inr (ok, t')"
  shows "tracker_inv t' \<and> length (tr_peers t') \<le> max MAX_PEER_TABLE_SIZE (length (tr_peers t))"
proof -
  obtain ok1 t1 where "register_with h upd new board t = Inr (ok1, t1)" "tracker_inv t1"
    "length (tr_peers t1) \<le> max MAX_PEER_TABLE_SIZE (length (tr_peers t))"
    using register_with_ok [OF assms(1,2)] .
  with assms(3) show ?thesis by simp
qed

lemma good_identity:
  "good_update h None
     (\<lambda>p. p\<lparr>pi_last_seen := now, pi_identity := or_old ident (pi_identity p),
            pi_announce_hash := or_old (truthy ah) (pi_announce_hash p)\<rparr>)
     ((fresh_peer now h)\<lparr>pi_identity := ident, pi_announce_hash := ah\<rparr>)"
  by (simp add: good_update_def fresh_peer_def)

lemma good_announce:
  "good_update h (Some b)
     (\<lambda>p. p\<lparr>pi_last_seen := now, pi_boards := set_add b (pi_boards p),
            pi_identity := or_old ident (pi_identity p),
            pi_announce_hash := or_old (truthy ah) (pi_announce_hash p)\<rparr>)
     ((fresh_peer now h)\<lparr>pi_identity := ident, pi_boards := [b], pi_announce_hash := ah\<rparr>)"
  by (auto simp: good_update_def fresh_peer_def)

lemma good_message:
  "good_update h (truthy board)
     (\<lambda>p. p\<lparr>pi_last_seen := now, pi_verified := True, pi_path := Known, pi_retry_count := 0,
            pi_identity := or_old ident (pi_identity p),
            pi_boards := (case truthy board of None \<Rightarrow> pi_boards p | Some b \<Rightarrow> set_add b (pi_boards p))\<rparr>)
     ((fresh_peer now h)\<lparr>pi_identity := ident,
        pi_boards := (case truthy board of None \<Rightarrow> [] | Some b \<Rightarrow> [b]),
        pi_verified := True, pi_path := Known\<rparr>)"
  by (auto simp: good_update_def fresh_peer_def split: option.split)

lemma modify_peer_inv:
  assumes inv: "tracker_inv t" and f: "\<And>p. pi_hash (f p) = pi_hash p \<and> pi_boards (f p) = pi_boards p"
  shows "tracker_inv (modify_peer h f t) \<and> length (tr_peers (modify_peer h f t)) = length (tr_peers t)"
proof (cases "dget (tr_peers t) h")
  case None
  with inv show ?thesis by (simp add: modify_peer_def)
next
  case (Some p)
  have "tracker_inv (put_peer h (f p) t)"
    by (rule put_peer_inv [OF inv]) (use Some f tracker_inv_hash [OF inv Some] in auto)
  moreover have "length (tr_peers (put_peer h (f p) t)) = length (tr_peers t)"
    using Some by (simp add: put_peer_def length_dput_present)
  ultimately show ?thesis using Some by (simp add: modify_peer_def)
qed

lemma drop_peer_inv:
  assumes inv: "tracker_inv t"
  shows "tracker_inv (drop_peer h t) \<and> length (tr_peers (drop_peer h t)) \<le> length (tr_peers t)"
proof (cases "dget (tr_peers t) h")
  case None
  with inv show ?thesis by (simp add: drop_peer_def)
next
  case (Some p)
  have "tracker_inv (t\<lparr>tr_peers := dpop h (tr_peers t), tr_index := fold (index_drop h) (pi_boards p) (tr_index t)\<rparr>)"
    by (rule remove_peer_inv [OF inv Some])
      (use inv fold_drop_get dict_ok_fold_drop in \<open>auto simp: tracker_inv_def\<close>)
  with Some length_delete_le [of h "tr_peers t"] show ?thesis by (simp add: drop_peer_def)
qed

lemma sweep_peers_inv:
  assumes "tracker_inv t"
  shows "tracker_inv (sweep_peers now t) \<and> length (tr_peers (sweep_peers now t)) \<le> length (tr_peers t)"
proof -
  have "tracker_inv (fold drop_peer hs t) \<and> length (tr_peers (fold drop_peer hs t)) \<le> length (tr_peers t)" for hs
    using assms
  proof (induction hs arbitrary: t)
    case (Cons h hs)
    with drop_peer_inv [OF Cons.prems, of h] show ?case
      by (metis (no_types, lifting) fold_simps(2) order_trans)
  qed simp
  then show ?thesis by (simp add: sweep_peers_def)
qed

section \<open>Runs\<close>

inductive tracker_step :: "tracker \<Rightarrow> tracker \<Rightarrow> bool" where
  Identity: "register_peer_identity now h ident ah t = Inr (ok, t') \<Longrightarrow> tracker_step t t'"
| Announce: "register_from_announce now b h ident ah t = Inr (ok, t') \<Longrightarrow> tracker_step t t'"
| Message: "register_from_message now h board ident t = Inr (ok, t') \<Longrightarrow> tracker_step t t'"
| See: "see_peer now b h ident t = Inr t' \<Longrightarrow> tracker_step t t'"
| Self: "tracker_step t (set_self_hash h t)"
| Delivery_failure: "tracker_step t (record_delivery_failure now u h t)"
| Delivery_success: "tracker_step t (record_delivery_success now h t)"
| Path_known: "tracker_step t (mark_path_known now h t)"
| Direct_have: "tracker_step t (mark_direct_have_sent now h t)"
| Sweep: "tracker_step t (sweep_peers now t)"

text \<open>A run starts with the table loaded from disk; \<open>n\<close> is the number of rows loaded.\<close>

inductive tracker_reachable :: "nat \<Rightarrow> tracker \<Rightarrow> bool" where
  start: "list_all (\<lambda>(h, r). row_hash r = h) rows \<Longrightarrow> load_peers decode rows new_tracker = (n, t) \<Longrightarrow>
    tracker_reachable n t"
| step: "tracker_reachable n t \<Longrightarrow> tracker_step t t' \<Longrightarrow> tracker_reachable n t'"

lemma index_add_fold_inv:
  "tracker_inv t \<Longrightarrow> dget (tr_peers t) h = Some p \<Longrightarrow> set bs \<subseteq> set (pi_boards p) \<Longrightarrow>
     tracker_inv (fold (\<lambda>b. index_add b h) bs t) \<and> tr_peers (fold (\<lambda>b. index_add b h) bs t) = tr_peers t"
proof (induction bs arbitrary: t)
  case Nil
  then show ?case by simp
next
  case (Cons b bs)
  have "tracker_inv (index_add b h t)" using index_add_inv [OF Cons.prems(1,2)] Cons.prems(3) by simp
  moreover have "tr_peers (index_add b h t) = tr_peers t" by (simp add: index_add_def)
  ultimately show ?case using Cons.IH [of "index_add b h t"] Cons.prems(2,3) by simp
qed

lemma load_rows_inv:
  "tracker_inv t \<Longrightarrow> length (tr_peers t) = n \<Longrightarrow> list_all (\<lambda>(h, r). row_hash r = h) rows \<Longrightarrow>
     load_rows decode rows n t = (m, t') \<Longrightarrow> tracker_inv t' \<and> length (tr_peers t') = m"
proof (induction rows arbitrary: n t)
  case Nil
  then show ?case by simp
next
  case (Cons row rows)
  obtain h r where row: "row = (h, r)" by (cases row)
  show ?case
  proof (cases "is_self t h \<or> dget (tr_peers t) h \<noteq> None")
    case True
    with Cons.prems(4) row have "load_rows decode rows n t = (m, t')" by (auto split: if_splits)
    from Cons.IH [OF Cons.prems(1,2) _ this] Cons.prems(3) show ?thesis by simp
  next
    case False
    let ?p = "peer_from_dict decode r"
    let ?t = "fold (\<lambda>b. index_add b h) (pi_boards ?p) (put_peer h ?p t)"
    from Cons.prems(3) row have hash: "pi_hash ?p = h" by (simp add: peer_from_dict_def)
    from put_peer_inv [OF Cons.prems(1) hash] False have "tracker_inv (put_peer h ?p t)" by simp
    moreover have "dget (tr_peers (put_peer h ?p t)) h = Some ?p" by (simp add: put_peer_def dict_laws)
    ultimately have "tracker_inv ?t" "tr_peers ?t = tr_peers (put_peer h ?p t)"
      using index_add_fold_inv [of "put_peer h ?p t" h ?p "pi_boards ?p"] by simp_all
    moreover have "length (tr_peers (put_peer h ?p t)) = Suc n"
      using False Cons.prems(2) by (simp add: put_peer_def length_dput_absent)
    moreover have "load_rows decode rows (Suc n) ?t = (m, t')"
      using Cons.prems(4) False row by (simp add: Let_def)
    ultimately show ?thesis using Cons.IH [of ?t "Suc n"] Cons.prems(3) by simp
  qed
qed

lemma tracker_step_inv:
  assumes "tracker_step t t'" and inv: "tracker_inv t"
  shows "tracker_inv t' \<and> length (tr_peers t') \<le> max MAX_PEER_TABLE_SIZE (length (tr_peers t))"
  using assms(1)
proof (cases rule: tracker_step.cases)
  case (Identity now h ident ah ok)
  from register_with_step [OF inv good_identity Identity [unfolded register_peer_identity_def]]
  show ?thesis .
next
  case (Announce now b h ident ah ok)
  from register_with_step [OF inv good_announce Announce [unfolded register_from_announce_def]]
  show ?thesis .
next
  case (Message now h board ident ok)
  from register_with_step [OF inv good_message Message [unfolded register_from_message_def]]
  show ?thesis .
next
  case (See now b h ident)
  show ?thesis
  proof (cases "dget (tr_peers t) h")
    case None
    with See have "map_sum id snd (register_from_announce now b h ident (Some h) t) = Inr t'"
      by (simp add: see_peer_def)
    then obtain a where a: "register_from_announce now b h ident (Some h) t = Inr a" "snd a = t'"
      by (cases "register_from_announce now b h ident (Some h) t") simp_all
    then have "register_from_announce now b h ident (Some h) t = Inr (fst a, t')" by (simp only: prod.collapse flip: a(2))
    from register_with_step [OF inv good_announce this [unfolded register_from_announce_def]]
    show ?thesis .
  next
    case (Some p)
    let ?p = "p\<lparr>pi_last_seen := now, pi_boards := set_add b (pi_boards p)\<rparr>"
    have "tracker_inv (put_peer h ?p t)"
      by (rule put_peer_inv [OF inv]) (use Some tracker_inv_hash [OF inv Some] in auto)
    moreover have "length (tr_peers (put_peer h ?p t)) = length (tr_peers t)"
      using Some by (simp add: put_peer_def length_dput_present)
    ultimately show ?thesis using See Some by (auto simp: see_peer_def)
  qed
next
  case (Self h)
  then show ?thesis using inv by (simp add: set_self_hash_def tracker_inv_def)
next
  case (Delivery_failure now u h)
  then show ?thesis
    using modify_peer_inv [OF inv, of "failed_peer now u" h]
    by (simp add: record_delivery_failure_def failed_peer_def Let_def)
next
  case (Sweep now)
  then show ?thesis using sweep_peers_inv [OF inv] by (simp add: le_max_iff_disj)
qed (use modify_peer_inv [OF inv] in \<open>simp_all add: record_delivery_success_def mark_path_known_def mark_direct_have_sent_def\<close>)

lemma tracker_reachable_inv:
  "tracker_reachable n t \<Longrightarrow> tracker_inv t \<and> length (tr_peers t) \<le> max MAX_PEER_TABLE_SIZE n"
proof (induction rule: tracker_reachable.induct)
  case (start rows decode n t)
  have "tracker_inv new_tracker" by (simp add: tracker_inv_def new_tracker_def)
  from load_rows_inv [OF this _ start(1), of 0 decode n t] start(2) show ?case
    by (simp add: load_peers_def new_tracker_def)
next
  case (step n t t')
  from tracker_step_inv [OF step(2)] step(3) show ?case by fastforce
qed

section \<open>Properties\<close>

text \<open>Also: in every state a run reaches from a loaded table, the table holds at most 200 peers (or
  as many as were loaded, if more), the board index names only peers that are in the table and
  carry the board, and no further registration raises.\<close>

theorem tracker_consistent:
  assumes "tracker_reachable n t"
  shows "length (tr_peers t) \<le> max 200 n \<and>
    (\<forall>b. \<forall>h \<in> set (dget_or (tr_index t) b []).
       \<exists>p. dget (tr_peers t) h = Some p \<and> pi_hash p = h \<and> b \<in> set (pi_boards p)) \<and>
    (\<exists>r. register_from_announce now c g ident ah t = Inr r) \<and>
    (\<exists>r. register_from_message now g board ident t = Inr r) \<and>
    (\<exists>r. register_peer_identity now g ident ah t = Inr r)"
proof -
  from tracker_reachable_inv [OF assms] have inv: "tracker_inv t" and len: "length (tr_peers t) \<le> max 200 n"
    by (simp_all add: MAX_PEER_TABLE_SIZE_def)
  note tracker_inv_members [OF inv]
  moreover have "\<exists>r. register_with h upd new bo t = Inr r" if "good_update h bo upd new" for h upd new bo
    using register_with_ok [OF inv that] by metis
  from this [OF good_announce] this [OF good_message] this [OF good_identity]
  have "(\<exists>r. register_from_announce now c g ident ah t = Inr r) \<and>
      (\<exists>r. register_from_message now g board ident t = Inr r) \<and>
      (\<exists>r. register_peer_identity now g ident ah t = Inr r)"
    unfolding register_from_announce_def register_from_message_def register_peer_identity_def by blast
  ultimately show ?thesis using len by blast
qed

definition hash_a :: string where "hash_a = ''aaaaaaaaaaaaaaaa''"

definition tracker_a :: tracker where
  "tracker_a = snd (projr (register_from_announce 10 ''b'' hash_a (Some ''k'') None new_tracker))"

lemma tracker_a_reachable: "tracker_reachable 0 tracker_a"
proof -
  have "load_peers (\<lambda>_. None) [] new_tracker = (0, new_tracker)" by (simp add: load_peers_def)
  then have start: "tracker_reachable 0 new_tracker" by (rule tracker_reachable.start [rotated]) simp
  have "register_from_announce 10 ''b'' hash_a (Some ''k'') None new_tracker = Inr (True, tracker_a)"
    by code_simp
  from tracker_reachable.step [OF start tracker_step.Announce [OF this]] show ?thesis .
qed

theorem tracker_consistent_witness:
  "length (tr_peers tracker_a) = 1 \<and> length (tr_peers tracker_a) \<le> max 200 0"
proof
  show "length (tr_peers tracker_a) = 1" by code_simp
  from tracker_consistent [OF tracker_a_reachable] show "length (tr_peers tracker_a) \<le> max 200 0" by blast
qed

text \<open>Also: the replication targets of a board are peers of that board, seen in the last 15 minutes,
  with an identity, reachable, out of their retry backoff, neither this node nor the excluded
  peer; there are as many as asked for and available; and no peer left out has a better quality
  than one chosen.\<close>

theorem replication_targets_best:
  assumes "tracker_reachable n t" and "q \<in> set (get_replication_targets now b ex k t)"
  shows "b \<in> set (pi_boards q) \<and> now - pi_last_seen q \<le> 900 \<and> pi_identity q \<noteq> None \<and>
    pi_path q \<noteq> Unreachable \<and> pi_next_retry_at q \<le> now \<and> \<not> is_self t (pi_hash q) \<and>
    (ex = Some x \<longrightarrow> x \<noteq> [] \<longrightarrow> pi_hash q \<noteq> x) \<and>
    length (get_replication_targets now b ex k t) = min k (length (exclude ex (get_lxmf_peers now b t))) \<and>
    (\<forall>p \<in> set (exclude ex (get_lxmf_peers now b t)) - set (get_replication_targets now b ex k t).
       peer_quality_score p \<le> peer_quality_score q)"
proof -
  from tracker_reachable_inv [OF assms(1)] have inv: "tracker_inv t" by blast
  let ?c = "exclude ex (get_lxmf_peers now b t)"
  from assms(2) have q: "q \<in> set ?c" by (auto simp: get_replication_targets_def dest: in_set_takeD)
  then have lx: "q \<in> set (get_lxmf_peers now b t)" by (auto simp: exclude_def split: option.splits)
  then have gp: "q \<in> set (get_peers now b t)" by (simp add: get_lxmf_peers_def)
  then obtain h where h: "h \<in> set (dget_or (tr_index t) b [])" "dget (tr_peers t) h = Some q"
    by (auto simp: get_peers_def List.map_filter_def)
  then have "b \<in> set (pi_boards q)"
    using tracker_inv_members [OF inv h(1)] by auto
  moreover have "now - pi_last_seen q \<le> 900"
    using gp by (auto simp: get_peers_def is_expired_def PEER_EXPIRY_SECONDS_def)
  moreover have "ex = Some x \<longrightarrow> x \<noteq> [] \<longrightarrow> pi_hash q \<noteq> x"
    using q by (auto simp: exclude_def truthy_def)
  moreover have "length (get_replication_targets now b ex k t) = min k (length ?c)"
    by (simp add: get_replication_targets_def)
  moreover have "peer_quality_score p \<le> peer_quality_score q"
    if "p \<in> set ?c - set (get_replication_targets now b ex k t)" for p
    using that assms(2) take_sort_desc_best [of p ?c k peer_quality_score q]
    by (simp add: get_replication_targets_def)
  ultimately show ?thesis using lx by (auto simp: get_lxmf_peers_def)
qed

theorem replication_targets_best_witness:
  "map pi_hash (get_replication_targets 20 ''b'' None 2 tracker_a) = [hash_a] \<and>
   pi_next_retry_at (hd (get_replication_targets 20 ''b'' None 2 tracker_a)) \<le> 20"
proof
  show one: "map pi_hash (get_replication_targets 20 ''b'' None 2 tracker_a) = [hash_a]" by code_simp
  then have "hd (get_replication_targets 20 ''b'' None 2 tracker_a) \<in> set (get_replication_targets 20 ''b'' None 2 tracker_a)"
    by (intro hd_in_set) auto
  from replication_targets_best [OF tracker_a_reachable this]
  show "pi_next_retry_at (hd (get_replication_targets 20 ''b'' None 2 tracker_a)) \<le> 20" by blast
qed

section \<open>Delivery outcomes\<close>

lemma modify_peer_get:
  "dget (tr_peers t) h = Some p \<Longrightarrow> dget (tr_peers (modify_peer h f t)) h = Some (f p)"
  by (simp add: modify_peer_def put_peer_def dict_laws)

lemma lxmf_peer_entry:
  assumes "tracker_inv t" and "q \<in> set (get_lxmf_peers now b t)"
  shows "dget (tr_peers t) (pi_hash q) = Some q \<and> pi_next_retry_at q \<le> now \<and> pi_path q \<noteq> Unreachable"
proof -
  from assms(2) obtain h where "dget (tr_peers t) h = Some q"
    by (auto simp: get_lxmf_peers_def get_peers_def List.map_filter_def)
  with tracker_inv_hash [OF assms(1) this] assms(2) show ?thesis by (auto simp: get_lxmf_peers_def)
qed

lemma failed_peer_facts:
  fixes u :: rat
  assumes "0 \<le> u" "u \<le> 1"
  shows "pi_failures (failed_peer now u p) = pi_failures p + 1 \<and>
    pi_retry_count (failed_peer now u p) = pi_retry_count p + 1 \<and>
    (if pi_retry_count p + 1 \<ge> 5
     then pi_path (failed_peer now u p) = Unreachable \<and> pi_next_retry_at (failed_peer now u p) = now + 3600
     else pi_path (failed_peer now u p) = Stale \<and>
       now + min (30 * 2 ^ (pi_retry_count p + 1)) 600 \<le> pi_next_retry_at (failed_peer now u p) \<and>
       pi_next_retry_at (failed_peer now u p) \<le> now + 5 / 4 * min (30 * 2 ^ (pi_retry_count p + 1)) 600)"
proof (cases "pi_retry_count p + 1 \<ge> 5")
  case True
  then show ?thesis by (simp add: failed_peer_def MAX_PATH_RETRIES_def PEER_UNREACHABLE_TTL_def)
next
  case False
  let ?d = "min (30 * 2 ^ (pi_retry_count p + 1)) 600 :: rat"
  have d: "0 \<le> ?d" by simp
  have next_at: "pi_next_retry_at (failed_peer now u p) = now + (?d + ?d * (1 / 4) * u)"
    using False by (simp add: failed_peer_def MAX_PATH_RETRIES_def next_retry_delay_def
        PATH_REQUEST_TIMEOUT_def RETRY_BACKOFF_MAX_def Let_def)
  have "0 \<le> ?d * (1 / 4) * u" using d assms by simp
  moreover have "?d * (1 / 4) * u \<le> ?d * (1 / 4) * 1" using d assms by (intro mult_left_mono) simp_all
  ultimately have "now + ?d \<le> now + (?d + ?d * (1 / 4) * u)" "now + (?d + ?d * (1 / 4) * u) \<le> now + 5 / 4 * ?d"
    by linarith+
  moreover have "pi_failures (failed_peer now u p) = pi_failures p + 1 \<and>
      pi_retry_count (failed_peer now u p) = pi_retry_count p + 1 \<and> pi_path (failed_peer now u p) = Stale"
    using False by (simp add: failed_peer_def MAX_PATH_RETRIES_def Let_def)
  ultimately show ?thesis using False by (simp only: next_at if_False simp_thms)
qed

text \<open>Also: a failed delivery makes the peer stale and keeps it out of the delivery candidates of
  every board for at least \<open>min (30 * 2 ^ r) 600\<close> seconds, where \<open>r\<close> counts its consecutive failures
  and this one; the fifth failure in a row makes it unreachable, for 3600 seconds.\<close>

theorem delivery_failure_backs_off:
  fixes u :: rat
  assumes "tracker_reachable n t" and p: "dget (tr_peers t) h = Some p" and u: "0 \<le> u" "u \<le> 1"
    and r: "r = pi_retry_count p + 1"
    and early: "later < now + (if r \<ge> 5 then 3600 else min (30 * 2 ^ r) 600)"
  shows "\<exists>q. dget (tr_peers (record_delivery_failure now u h t)) h = Some q \<and>
      pi_path q = (if r \<ge> 5 then Unreachable else Stale) \<and> pi_retry_count q = r \<and>
      h \<notin> pi_hash ` set (get_lxmf_peers later b (record_delivery_failure now u h t))"
proof -
  let ?t = "record_delivery_failure now u h t"
  let ?q = "failed_peer now u p"
  from tracker_reachable_inv [OF assms(1)] have "tracker_inv t" by blast
  then have inv: "tracker_inv ?t" using tracker_step_inv [OF tracker_step.Delivery_failure] by blast
  have q: "dget (tr_peers ?t) h = Some ?q"
    using modify_peer_get [OF p] by (simp add: record_delivery_failure_def)
  note facts = failed_peer_facts [OF u, of now p, folded r]
  from facts early have late: "later < pi_next_retry_at ?q" by (auto split: if_splits)
  have "x \<noteq> h" if "x \<in> pi_hash ` set (get_lxmf_peers later b ?t)" for x
    using that lxmf_peer_entry [OF inv] q late by force
  with q facts show ?thesis by (auto split: if_splits)
qed

theorem delivery_failure_backs_off_witness:
  "\<exists>q. dget (tr_peers (record_delivery_failure 20 0 hash_a tracker_a)) hash_a = Some q \<and> pi_path q = Stale \<and>
     hash_a \<notin> pi_hash ` set (get_lxmf_peers 70 ''b'' (record_delivery_failure 20 0 hash_a tracker_a))"
proof -
  let ?p = "(fresh_peer 10 hash_a)\<lparr>pi_identity := Some ''k'', pi_boards := [''b'']\<rparr>"
  have p: "dget (tr_peers tracker_a) hash_a = Some ?p" by code_simp
  have "(1::nat) = pi_retry_count ?p + 1" by (simp add: fresh_peer_def)
  from delivery_failure_backs_off [OF tracker_a_reachable p _ _ this, of 0 70 20 "''b''"]
  show ?thesis by auto
qed

text \<open>Also: after a failure, a successful delivery makes the peer known and resets its failure count,
  but not its retry time: until that has passed the peer is still left out of the delivery
  candidates of every board.\<close>

theorem success_keeps_retry_time:
  assumes "tracker_reachable n t" and p: "dget (tr_peers t) h = Some p"
    and t': "t' = record_delivery_success now2 h (record_delivery_failure now1 u h t)"
    and early: "later < pi_next_retry_at (failed_peer now1 u p)"
  shows "\<exists>q. dget (tr_peers t') h = Some q \<and> pi_path q = Known \<and> pi_retry_count q = 0 \<and>
    h \<notin> pi_hash ` set (get_lxmf_peers later b t')"
proof -
  from tracker_reachable_inv [OF assms(1)] have "tracker_inv t" by blast
  then have inv: "tracker_inv t'" unfolding t'
    using tracker_step_inv [OF tracker_step.Delivery_failure] tracker_step_inv [OF tracker_step.Delivery_success]
    by blast
  have "dget (tr_peers (record_delivery_failure now1 u h t)) h = Some (failed_peer now1 u p)"
    using modify_peer_get [OF p] by (simp add: record_delivery_failure_def)
  from modify_peer_get [OF this] obtain q where q: "dget (tr_peers t') h = Some q" "pi_path q = Known"
    "pi_retry_count q = 0" "pi_next_retry_at q = pi_next_retry_at (failed_peer now1 u p)"
    by (simp add: t' record_delivery_success_def)
  have "x \<noteq> h" if "x \<in> pi_hash ` set (get_lxmf_peers later b t')" for x
    using that lxmf_peer_entry [OF inv] q early by force
  with q show ?thesis by auto
qed

theorem success_keeps_retry_time_witness:
  "hash_a \<notin> pi_hash ` set (get_lxmf_peers 70 ''b''
     (record_delivery_success 21 hash_a (record_delivery_failure 20 0 hash_a tracker_a)))"
proof -
  let ?p = "(fresh_peer 10 hash_a)\<lparr>pi_identity := Some ''k'', pi_boards := [''b'']\<rparr>"
  have p: "dget (tr_peers tracker_a) hash_a = Some ?p" by code_simp
  have "(70::rat) < pi_next_retry_at (failed_peer 20 0 ?p)" by code_simp
  from success_keeps_retry_time [OF tracker_a_reachable p refl this] show ?thesis by blast
qed

section \<open>Expiry\<close>

lemma dget_or_index_drop:
  "dget_or (index_drop h b ix) c [] = (if c = b then set_discard h (dget_or ix c []) else dget_or ix c [])"
  by (auto simp: index_drop_def Let_def dict_laws dget_or_def set_discard_def split: option.splits if_splits)

lemma set_discard_absent: "h \<notin> set xs \<Longrightarrow> set_discard h xs = xs"
  by (auto simp: set_discard_def filter_id_conv)

lemma dget_or_fold_drop:
  "dget_or (fold (index_drop h) bs ix) c [] = (if c \<in> set bs then set_discard h (dget_or ix c []) else dget_or ix c [])"
  by (induction bs arbitrary: ix) (auto simp: dget_or_index_drop set_discard_absent)

lemma drop_peer_effect:
  assumes inv: "tracker_inv t"
  shows "tr_peers (drop_peer h t) = filter (\<lambda>e. fst e \<noteq> h) (tr_peers t) \<and>
    dget_or (tr_index (drop_peer h t)) b [] = filter (\<lambda>x. x \<noteq> h) (dget_or (tr_index t) b [])"
proof (cases "dget (tr_peers t) h")
  case None
  with tracker_inv_members [OF inv, of h b] have "h \<notin> set (dget_or (tr_index t) b [])" by auto
  with set_discard_absent have "filter (\<lambda>x. x \<noteq> h) (dget_or (tr_index t) b []) = dget_or (tr_index t) b []"
    by (metis set_discard_def)
  moreover from None have "filter (\<lambda>e. fst e \<noteq> h) (tr_peers t) = tr_peers t"
    by (auto simp: filter_id_conv map_of_eq_None_iff)
  ultimately show ?thesis using None by (simp add: drop_peer_def)
next
  case (Some p)
  have "b \<in> set (pi_boards p)" if "h \<in> set (dget_or (tr_index t) b [])"
    using tracker_inv_members [OF inv that] Some by simp
  then have "dget_or (fold (index_drop h) (pi_boards p) (tr_index t)) b [] = set_discard h (dget_or (tr_index t) b [])"
    by (metis dget_or_fold_drop set_discard_absent)
  with Some show ?thesis by (simp add: drop_peer_def dpop_filter set_discard_def)
qed

lemma drop_peers_effect:
  "tracker_inv t \<Longrightarrow>
     tr_peers (fold drop_peer hs t) = filter (\<lambda>e. fst e \<notin> set hs) (tr_peers t) \<and>
     dget_or (tr_index (fold drop_peer hs t)) b [] = filter (\<lambda>x. x \<notin> set hs) (dget_or (tr_index t) b [])"
proof (induction hs arbitrary: t)
  case Nil
  then show ?case by simp
next
  case (Cons h hs)
  from drop_peer_inv [OF Cons.prems] have "tracker_inv (drop_peer h t)" by blast
  from Cons.IH [OF this] drop_peer_effect [OF Cons.prems, of h b] show ?case by (auto intro: filter_cong)
qed

text \<open>Also: the expiry sweep removes exactly the peers not seen for 15 minutes, and it does not
  change which peers any board's selection returns at that time.\<close>

theorem sweep_removes_exactly_expired:
  assumes "tracker_reachable n t"
  shows "tr_peers (sweep_peers now t) = filter (\<lambda>(h, p). now - pi_last_seen p \<le> 900) (tr_peers t) \<and>
    get_peers now b (sweep_peers now t) = get_peers now b t"
proof
  from tracker_reachable_inv [OF assms] have inv: "tracker_inv t" by blast
  then have ok: "dict_ok (tr_peers t)" by (simp add: tracker_inv_def)
  let ?hs = "map fst (filter (\<lambda>(h, p). is_expired now p) (tr_peers t))"
  have get: "dget (tr_peers t) h = Some p" if "(h, p) \<in> set (tr_peers t)" for h p
    using dict_memD [OF ok] that by simp
  have in_hs: "fst e \<in> set ?hs \<longleftrightarrow> is_expired now (snd e)" if e: "e \<in> set (tr_peers t)" for e
  proof
    assume "fst e \<in> set ?hs"
    then obtain p where "(fst e, p) \<in> set (tr_peers t)" "is_expired now p" by auto
    with get [of "fst e" p] get [of "fst e" "snd e"] e show "is_expired now (snd e)" by simp
  qed (use e in force)
  from drop_peers_effect [OF inv, of ?hs]
  have eff: "tr_peers (sweep_peers now t) = filter (\<lambda>e. fst e \<notin> set ?hs) (tr_peers t)"
    "dget_or (tr_index (sweep_peers now t)) b [] = filter (\<lambda>x. x \<notin> set ?hs) (dget_or (tr_index t) b [])" for b
    by (simp_all add: sweep_peers_def)
  show "tr_peers (sweep_peers now t) = filter (\<lambda>(h, p). now - pi_last_seen p \<le> 900) (tr_peers t)"
    unfolding eff
  proof (rule filter_cong [OF refl])
    fix e assume "e \<in> set (tr_peers t)"
    from in_hs [OF this] show "(fst e \<notin> set ?hs) = (case e of (h, p) \<Rightarrow> now - pi_last_seen p \<le> 900)"
      by (simp only: is_expired_def PEER_EXPIRY_SECONDS_def not_less case_prod_beta)
  qed
  have "dget (filter (\<lambda>e. fst e \<notin> set ?hs) (tr_peers t)) x = dget (tr_peers t) x" if "x \<notin> set ?hs" for x
    using that dget_filter_key [of "set ?hs" "tr_peers t" x] by simp
  moreover have "is_expired now p" if "x \<in> set ?hs" "dget (tr_peers t) x = Some p" for x p
    using in_hs [of "(x, p)"] that map_of_SomeD [OF that(2)] by simp
  ultimately show "get_peers now b (sweep_peers now t) = get_peers now b t"
    unfolding get_peers_def eff by (subst filter_map_filter [where g = "dget (tr_peers t)"]) auto
qed

theorem sweep_removes_exactly_expired_witness:
  "sweep_peers 2000 tracker_a = new_tracker \<and> get_peers 2000 ''b'' (sweep_peers 2000 tracker_a) = get_peers 2000 ''b'' tracker_a"
proof
  show "sweep_peers 2000 tracker_a = new_tracker" by code_simp
  show "get_peers 2000 ''b'' (sweep_peers 2000 tracker_a) = get_peers 2000 ''b'' tracker_a"
    using sweep_removes_exactly_expired [OF tracker_a_reachable] by blast
qed

section \<open>Persistence\<close>

definition reloaded :: "(string \<Rightarrow> string option) \<Rightarrow> peer_info \<Rightarrow> peer_info" where
  "reloaded decode p =
     p\<lparr>pi_identity := Option.bind (truthy (pi_identity p)) decode,
       pi_retry_count := 0, pi_next_retry_at := 0, pi_last_direct_have_at := 0\<rparr>"

lemma peer_row_roundtrip: "peer_from_dict decode (peer_to_dict p) = reloaded decode p"
  by (simp add: peer_from_dict_def peer_to_dict_def reloaded_def)

lemma index_add_fold_frame:
  "tr_peers (fold (\<lambda>b. index_add b h) bs t) = tr_peers t \<and> tr_self (fold (\<lambda>b. index_add b h) bs t) = tr_self t"
  by (induction bs arbitrary: t) (simp_all add: index_add_def)

lemma load_rows_get:
  assumes "load_rows decode rows n t = (m, t')" and "dict_ok rows"
  shows "tr_self t' = tr_self t \<and>
    dget (tr_peers t') h = (case dget (tr_peers t) h of
        Some p \<Rightarrow> Some p
      | None \<Rightarrow> if is_self t h then None else map_option (peer_from_dict decode) (dget rows h))"
  using assms
proof (induction rows arbitrary: n t)
  case Nil
  then show ?case by (auto split: option.split)
next
  case (Cons row rows)
  obtain g r where row: "row = (g, r)" by (cases row)
  from Cons.prems(2) row have notin: "dget rows g = None" and ok: "dict_ok rows" by (simp_all add: map_of_eq_None_iff)
  show ?case
  proof (cases "is_self t g \<or> dget (tr_peers t) g \<noteq> None")
    case True
    with Cons.prems(1) row have "load_rows decode rows n t = (m, t')" by (auto split: if_splits)
    from Cons.IH [OF this ok] True notin show ?thesis by (auto simp: row split: option.splits)
  next
    case False
    let ?p = "peer_from_dict decode r"
    let ?t = "fold (\<lambda>b. index_add b g) (pi_boards ?p) (put_peer g ?p t)"
    have "load_rows decode rows (Suc n) ?t = (m, t')" using Cons.prems(1) False row by (simp add: Let_def)
    from Cons.IH [OF this ok] False notin show ?thesis
      by (auto simp: row index_add_fold_frame put_peer_def dict_laws is_self_def split: option.splits)
  qed
qed

text \<open>Also: the peer table survives a restart: loading what \<open>persist\<close> wrote into an empty table gives
  back exactly the verified peers seen in the last 15 minutes, except this node itself, with
  everything but their retry state; the identity is what decoding the stored key bytes gives.\<close>

theorem persist_load_roundtrip:
  assumes "tracker_reachable n t"
    and run: "load_peers decode (persist now t) (set_self_hash self new_tracker) = (m, t')"
  shows "dget (tr_peers t') h =
    (case dget (tr_peers t) h of
       None \<Rightarrow> None
     | Some p \<Rightarrow> if pi_verified p \<and> now - pi_last_seen p < 900 \<and> (h = [] \<or> h \<noteq> self)
                then Some (reloaded decode p) else None)"
proof -
  from tracker_reachable_inv [OF assms(1)] have ok: "dict_ok (tr_peers t)" by (simp add: tracker_inv_def)
  let ?keep = "\<lambda>p. pi_verified p \<and> now - pi_last_seen p < 900"
  let ?live = "filter (\<lambda>(h, p). ?keep p) (tr_peers t)"
  have rows: "persist now t = map (\<lambda>(h, p). (h, peer_to_dict p)) ?live" by (simp add: persist_def)
  have "dict_ok (persist now t)" unfolding rows using ok by (simp add: distinct_map_filter)
  from load_rows_get [OF run [unfolded load_peers_def] this, of h]
  have load: "dget (tr_peers t') h =
      (if h \<noteq> [] \<and> h = self then None else map_option (peer_from_dict decode) (dget (persist now t) h))"
    by (simp add: set_self_hash_def new_tracker_def is_self_def)
  have "dget ?live h = (case dget (tr_peers t) h of None \<Rightarrow> None | Some p \<Rightarrow> if ?keep p then Some p else None)"
  proof (cases "dget ?live h")
    case None
    have "\<not> ?keep p" if "dget (tr_peers t) h = Some p" for p
      using None map_of_SomeD [OF that] by (force simp: map_of_eq_None_iff)
    with None show ?thesis by (cases "dget (tr_peers t) h") auto
  next
    case (Some p)
    from dget_filter_SomeD [OF Some ok] Some show ?thesis by simp
  qed
  with load show ?thesis
    by (auto simp: rows dget_map_values peer_row_roundtrip split: option.split)
qed

definition tracker_v :: tracker where
  "tracker_v = snd (projr (register_from_message 30 hash_a (Some ''b'') None tracker_a))"

theorem persist_load_roundtrip_witness:
  "dget (tr_peers (snd (load_peers Some (persist 40 tracker_v) (set_self_hash [] new_tracker)))) hash_a =
     Some (reloaded Some (the (dget (tr_peers tracker_v) hash_a)))"
proof -
  have msg: "register_from_message 30 hash_a (Some ''b'') None tracker_a = Inr (True, tracker_v)" by code_simp
  have reach: "tracker_reachable 0 tracker_v"
    by (rule tracker_reachable.step [OF tracker_a_reachable tracker_step.Message [OF msg]])
  have only: "tr_peers tracker_v = [(hash_a, (fresh_peer 30 hash_a)\<lparr>pi_identity := Some ''k'', pi_boards := [''b''],
      pi_verified := True, pi_path := Known\<rparr>)]" by code_simp
  have "load_peers Some (persist 40 tracker_v) (set_self_hash [] new_tracker) =
      (fst (load_peers Some (persist 40 tracker_v) (set_self_hash [] new_tracker)),
       snd (load_peers Some (persist 40 tracker_v) (set_self_hash [] new_tracker)))" by simp
  from persist_load_roundtrip [OF reach this, of hash_a] show ?thesis
    by (simp add: only hash_a_def fresh_peer_def)
qed

end
