(* ===== verification/PostDb.thy ===== *)
theory PostDb
  imports Models
begin

text \<open>
  A board's database (\<open>retiboard/db/database.py\<close>): the \<open>board_config\<close> and \<open>posts\<close> tables, insertion
  with the recomputation of the thread lifecycle, the catalog and the pruning queries. A table is
  the list of its rows in rowid order; where a query leaves the order of rows open (no
  \<open>ORDER BY\<close>, or equal keys) it is that order. An integer outside 64 bits cannot be bound to a
  statement (\<^term>\<open>OverflowError\<close>). The stored JSON of \<open>encrypted_pings\<close> is the list it encodes.
  A failing operation returns the exception with the database as it is left.
\<close>

section \<open>Tables\<close>

record config_row =
  cr_board_id :: string
  cr_display_name :: string
  cr_text_only :: bool
  cr_default_ttl_seconds :: int
  cr_bump_decay_rate :: int
  cr_max_active_threads_local :: int
  cr_pow_difficulty :: int
  cr_announce_version :: int
  cr_subscribed_at :: int

record board_db =
  db_config :: "config_row list"
  db_posts :: "post list"

definition empty_db :: board_db where
  "empty_db = \<lparr>db_config = [], db_posts = []\<rparr>"

definition int64 :: "int \<Rightarrow> bool" where
  "int64 i = (- (2 ^ 63) \<le> i \<and> i < 2 ^ 63)"

definition DEFAULT_TTL_SECONDS :: int where "DEFAULT_TTL_SECONDS = 43200"
definition DEFAULT_BUMP_DECAY_RATE :: int where "DEFAULT_BUMP_DECAY_RATE = 3600"

text \<open>Python's \<open>int(x)\<close> on a float.\<close>

definition py_int :: "rat \<Rightarrow> int" where
  "py_int x = (if 0 \<le> x then \<lfloor>x\<rfloor> else \<lceil>x\<rceil>)"

section \<open>Board configuration\<close>

definition config_of :: "board \<Rightarrow> config_row" where
  "config_of b =
     \<lparr>cr_board_id = b_board_id b, cr_display_name = b_display_name b, cr_text_only = b_text_only b,
      cr_default_ttl_seconds = b_default_ttl_seconds b, cr_bump_decay_rate = b_bump_decay_rate b,
      cr_max_active_threads_local = b_max_active_threads_local b,
      cr_pow_difficulty = b_pow_difficulty b, cr_announce_version = b_announce_version b,
      cr_subscribed_at = py_int (b_subscribed_at b)\<rparr>"

definition config_bindable :: "config_row \<Rightarrow> bool" where
  "config_bindable r =
     list_all int64 [cr_default_ttl_seconds r, cr_bump_decay_rate r, cr_max_active_threads_local r,
       cr_pow_difficulty r, cr_announce_version r, cr_subscribed_at r]"

text \<open>\<open>INSERT OR REPLACE\<close> deletes the row of that board and appends the new one.\<close>

definition save_board_config :: "board \<Rightarrow> board_db \<Rightarrow> py_error + board_db" where
  "save_board_config b db =
     (let r = config_of b in
      if \<not> config_bindable r then Inl OverflowError
      else Inr (db\<lparr>db_config := filter (\<lambda>x. cr_board_id x \<noteq> cr_board_id r) (db_config db) @ [r]\<rparr>))"

definition load_board_config :: "board_db \<Rightarrow> board option" where
  "load_board_config db =
     (case db_config db of
        [] \<Rightarrow> None
      | r # _ \<Rightarrow>
          Some \<lparr>b_board_id = cr_board_id r, b_display_name = cr_display_name r,
                b_text_only = cr_text_only r, b_default_ttl_seconds = cr_default_ttl_seconds r,
                b_bump_decay_rate = cr_bump_decay_rate r,
                b_max_active_threads_local = cr_max_active_threads_local r,
                b_pow_difficulty = cr_pow_difficulty r, b_key_material = [],
                b_announce_version = cr_announce_version r, b_peer_lxmf_hash = [],
                b_subscribed_at = of_int (cr_subscribed_at r)\<rparr>)"

section \<open>Thread lifecycle\<close>

definition extend_thread_expiry :: "int \<Rightarrow> int \<Rightarrow> int \<Rightarrow> int \<Rightarrow> int" where
  "extend_thread_expiry current_expiry event_timestamp start_ttl bump_ttl =
     min (max current_expiry event_timestamp + bump_ttl) (event_timestamp + start_ttl)"

definition thread_rows :: "string \<Rightarrow> post list \<Rightarrow> post list" where
  "thread_rows tid rows = filter (\<lambda>p. p_thread_id p = tid) rows"

text \<open>One row of the replay: the pair is \<open>(thread_last_activity, thread_expiry)\<close>.\<close>

definition replay_row :: "string \<Rightarrow> int \<Rightarrow> int \<Rightarrow> int \<Rightarrow> post \<Rightarrow> int \<times> int \<Rightarrow> int \<times> int" where
  "replay_row tid op_timestamp start_ttl bump_ttl row acc =
     (if p_post_id row = tid then acc
      else if \<not> p_bump_flag row then acc
      else (let ev = max (p_timestamp row) op_timestamp
            in (max (fst acc) ev, extend_thread_expiry (snd acc) ev start_ttl bump_ttl)))"

text \<open>\<^term>\<open>None\<close> while the thread's OP is not stored.\<close>

definition thread_lifecycle :: "string \<Rightarrow> int \<Rightarrow> int \<Rightarrow> post list \<Rightarrow> (int \<times> int) option" where
  "thread_lifecycle tid start_ttl bump_ttl posts =
     (let rows = sort_key (\<lambda>p. (p_timestamp p, p_post_id p)) (thread_rows tid posts) in
      case find (\<lambda>p. p_post_id p = tid) rows of
        None \<Rightarrow> None
      | Some op_row \<Rightarrow>
          Some (fold (replay_row tid (p_timestamp op_row) start_ttl bump_ttl) rows
                  (p_timestamp op_row, p_timestamp op_row + start_ttl)))"

definition set_expiry :: "string \<Rightarrow> int \<Rightarrow> post list \<Rightarrow> post list" where
  "set_expiry tid e posts =
     map (\<lambda>p. if p_thread_id p = tid then p\<lparr>p_expiry_timestamp := e\<rparr> else p) posts"

definition set_last_activity :: "string \<Rightarrow> int \<Rightarrow> post list \<Rightarrow> post list" where
  "set_last_activity tid a posts =
     map (\<lambda>p. if p_post_id p = p_thread_id p \<and> p_thread_id p = tid
               then p\<lparr>p_thread_last_activity := a\<rparr> else p) posts"

definition recompute_lifecycle :: "string \<Rightarrow> int \<Rightarrow> int \<Rightarrow> board_db \<Rightarrow> (py_error \<times> board_db) + board_db" where
  "recompute_lifecycle tid start_ttl bump_ttl db =
     (case thread_lifecycle tid start_ttl bump_ttl (db_posts db) of
        None \<Rightarrow> Inr db
      | Some (activity, expiry) \<Rightarrow>
          (if \<not> int64 expiry then Inl (OverflowError, db)
           else Inr (db\<lparr>db_posts := set_last_activity tid activity (set_expiry tid expiry (db_posts db))\<rparr>)))"

definition config_ttls :: "board_db \<Rightarrow> int \<times> int" where
  "config_ttls db =
     (case load_board_config db of
        None \<Rightarrow> (DEFAULT_TTL_SECONDS, DEFAULT_BUMP_DECAY_RATE)
      | Some c \<Rightarrow> (b_default_ttl_seconds c, b_bump_decay_rate c))"

definition recompute_thread_lifecycle :: "string \<Rightarrow> board_db \<Rightarrow> (py_error \<times> board_db) + board_db" where
  "recompute_thread_lifecycle tid db =
     (case config_ttls db of (start_ttl, bump_ttl) \<Rightarrow> recompute_lifecycle tid start_ttl bump_ttl db)"

section \<open>Insertion and lookup\<close>

definition post_bindable :: "post \<Rightarrow> bool" where
  "post_bindable p =
     list_all int64 [p_timestamp p, p_expiry_timestamp p, p_payload_size p,
       p_attachment_payload_size p, p_attachment_count p, p_thread_last_activity p]"

definition post_exists :: "string \<Rightarrow> board_db \<Rightarrow> bool" where
  "post_exists pid db = list_ex (\<lambda>p. p_post_id p = pid) (db_posts db)"

definition get_post :: "string \<Rightarrow> board_db \<Rightarrow> post option" where
  "get_post pid db = find (\<lambda>p. p_post_id p = pid) (db_posts db)"

text \<open>The result is the argument as the call leaves it, with the stored lifecycle fields.\<close>

definition insert_post ::
  "int option \<Rightarrow> int option \<Rightarrow> post \<Rightarrow> board_db \<Rightarrow> (py_error \<times> board_db) + (post \<times> board_db)" where
  "insert_post start_opt bump_opt p db =
     (let start_ttl = (case start_opt of Some n \<Rightarrow> n | None \<Rightarrow> fst (config_ttls db));
          bump_ttl = (case bump_opt of Some n \<Rightarrow> n | None \<Rightarrow> snd (config_ttls db))
      in if \<not> post_bindable p then Inl (OverflowError, db)
         else if post_exists (p_post_id p) db then Inl (IntegrityError, db)
         else (case recompute_lifecycle (p_thread_id p) start_ttl bump_ttl (db\<lparr>db_posts := db_posts db @ [p]\<rparr>) of
                 Inl e \<Rightarrow> Inl e
               | Inr db' \<Rightarrow>
                   Inr (case get_post (p_post_id p) db' of
                          None \<Rightarrow> p
                        | Some row \<Rightarrow>
                            p\<lparr>p_expiry_timestamp := p_expiry_timestamp row,
                              p_thread_last_activity := p_thread_last_activity row,
                              p_is_abandoned := p_is_abandoned row\<rparr>,
                        db')))"

definition get_thread_posts :: "string \<Rightarrow> board_db \<Rightarrow> post list" where
  "get_thread_posts tid db = sort_key p_timestamp (thread_rows tid (db_posts db))"

definition content_hash_exists :: "string \<Rightarrow> board_db \<Rightarrow> bool" where
  "content_hash_exists h db = list_ex (\<lambda>p. p_content_hash p = h) (db_posts db)"

section \<open>Catalog\<close>

definition active_op :: "post \<Rightarrow> bool" where
  "active_op p = (is_op p \<and> \<not> p_is_abandoned p)"

definition summary_of :: "post list \<Rightarrow> post \<Rightarrow> thread_summary" where
  "summary_of posts op_row =
     \<lparr>ts_thread_id = p_thread_id op_row, ts_op_post_id = p_post_id op_row,
      ts_post_count = length (thread_rows (p_thread_id op_row) posts),
      ts_latest_post_timestamp = Max (p_timestamp ` set (thread_rows (p_thread_id op_row) posts)),
      ts_thread_last_activity = p_thread_last_activity op_row,
      ts_has_attachments = p_has_attachments op_row, ts_text_only = p_text_only op_row,
      ts_is_abandoned = p_is_abandoned op_row, ts_op_content_hash = p_content_hash op_row,
      ts_op_payload_size = p_payload_size op_row,
      ts_op_attachment_content_hash = p_attachment_content_hash op_row,
      ts_op_attachment_payload_size = p_attachment_payload_size op_row,
      ts_op_attachment_count = p_attachment_count op_row, ts_public_key = p_public_key op_row,
      ts_op_identity_hash = p_identity_hash op_row, ts_expiry_timestamp = p_expiry_timestamp op_row\<rparr>"

text \<open>SQL's \<open>LIMIT\<close>: a negative limit is none.\<close>

definition sql_limit :: "int \<Rightarrow> 'a list \<Rightarrow> 'a list" where
  "sql_limit n xs = (if n < 0 then xs else take (nat n) xs)"

definition get_catalog :: "int \<Rightarrow> board_db \<Rightarrow> thread_summary list" where
  "get_catalog limit db =
     sql_limit limit
       (sort_desc ts_thread_last_activity (map (summary_of (db_posts db)) (filter active_op (db_posts db))))"

definition get_thread_count :: "board_db \<Rightarrow> nat" where
  "get_thread_count db = length (filter active_op (db_posts db))"

section \<open>Pruning\<close>

definition abandon_threads :: "string list \<Rightarrow> board_db \<Rightarrow> board_db" where
  "abandon_threads tids db =
     db\<lparr>db_posts := map (\<lambda>p. if is_op p \<and> p_thread_id p \<in> set tids then p\<lparr>p_is_abandoned := True\<rparr> else p)
                    (db_posts db)\<rparr>"

definition mark_expired_threads :: "int \<Rightarrow> string list \<Rightarrow> board_db \<Rightarrow> string list \<times> board_db" where
  "mark_expired_threads now pinned db =
     (let expired = filter (\<lambda>t. t \<notin> set pinned)
                      (map p_thread_id (filter (\<lambda>p. active_op p \<and> p_expiry_timestamp p \<le> now) (db_posts db)))
      in (expired, if expired = [] then db else abandon_threads expired db))"

definition delete_threads_bulk :: "string list \<Rightarrow> board_db \<Rightarrow> board_db" where
  "delete_threads_bulk tids db =
     db\<lparr>db_posts := filter (\<lambda>p. p_thread_id p \<notin> set tids) (db_posts db)\<rparr>"

definition thread_hashes :: "string \<Rightarrow> post list \<Rightarrow> string list" where
  "thread_hashes tid posts =
     (let rows = thread_rows tid posts
      in map p_content_hash rows @ filter (\<lambda>h. h \<noteq> []) (map p_attachment_content_hash rows))"

definition delete_abandoned_threads :: "board_db \<Rightarrow> (string \<times> string list) list \<times> board_db" where
  "delete_abandoned_threads db =
     (let tids = remdups (map p_thread_id (filter (\<lambda>p. p_is_abandoned p \<and> is_op p) (db_posts db)));
          results = map (\<lambda>t. (t, thread_hashes t (db_posts db))) tids
      in (results, if results = [] then db else delete_threads_bulk (map fst results) db))"

definition enforce_thread_cap ::
  "int \<Rightarrow> string list \<Rightarrow> board_db \<Rightarrow> (string \<times> string list) list \<times> board_db" where
  "enforce_thread_cap max_threads pinned db =
     (let active = map p_thread_id (sort_key p_thread_last_activity (filter active_op (db_posts db)));
          unpinned = filter (\<lambda>t. t \<notin> set pinned) active
      in if int (length active) \<le> max_threads \<or> unpinned = [] then ([], db)
         else (let cull = take (nat (int (length active) - max_threads)) unpinned
               in if cull = [] then ([], db) else delete_abandoned_threads (abandon_threads cull db)))"

text \<open>One thread of \<open>get_all_active_threads_global\<close>, over the subscribed boards in name order.\<close>

record global_thread =
  gt_board_id :: string
  gt_thread_id :: string
  gt_hashes :: "string list"
  gt_total_size :: int
  gt_last_activity :: int

definition interleaved_hashes :: "string \<Rightarrow> post list \<Rightarrow> string list" where
  "interleaved_hashes tid posts =
     concat (map (\<lambda>p. filter (\<lambda>h. h \<noteq> []) [p_content_hash p, p_attachment_content_hash p])
               (thread_rows tid posts))"

definition thread_size :: "string \<Rightarrow> post list \<Rightarrow> int" where
  "thread_size tid posts =
     sum_list (map (\<lambda>p. p_payload_size p + p_attachment_payload_size p) (thread_rows tid posts))"

definition board_active_threads :: "string list \<Rightarrow> string \<Rightarrow> board_db \<Rightarrow> global_thread list" where
  "board_active_threads pinned_keys bid db =
     map (\<lambda>op_row. \<lparr>gt_board_id = bid, gt_thread_id = p_thread_id op_row,
                    gt_hashes = interleaved_hashes (p_thread_id op_row) (db_posts db),
                    gt_total_size = thread_size (p_thread_id op_row) (db_posts db),
                    gt_last_activity = p_thread_last_activity op_row\<rparr>)
       (filter (\<lambda>p. active_op p \<and> bid @ '':'' @ p_thread_id p \<notin> set pinned_keys) (db_posts db))"

definition get_all_active_threads_global ::
  "string list \<Rightarrow> (string \<times> board_db) list \<Rightarrow> global_thread list" where
  "get_all_active_threads_global pinned_keys boards =
     sort_key gt_last_activity
       (concat (map (\<lambda>(bid, db). board_active_threads pinned_keys bid db) (sort_key fst boards)))"

section \<open>Blob references\<close>

record blob_reference =
  br_post_id :: string
  br_thread_id :: string
  br_attachment :: bool
  br_expiry_timestamp :: int
  br_text_only :: bool
  br_identity_hash :: string

definition reference_of :: "bool \<Rightarrow> post \<Rightarrow> blob_reference" where
  "reference_of att p =
     \<lparr>br_post_id = p_post_id p, br_thread_id = p_thread_id p, br_attachment = att,
      br_expiry_timestamp = p_expiry_timestamp p, br_text_only = p_text_only p,
      br_identity_hash = p_identity_hash p\<rparr>"

definition get_blob_reference :: "string \<Rightarrow> board_db \<Rightarrow> blob_reference option" where
  "get_blob_reference h db =
     (case find (\<lambda>p. p_content_hash p = h) (db_posts db) of
        Some p \<Rightarrow> Some (reference_of False p)
      | None \<Rightarrow> map_option (reference_of True) (find (\<lambda>p. p_attachment_content_hash p = h) (db_posts db)))"

definition get_declared_payload_size :: "string \<Rightarrow> board_db \<Rightarrow> int option" where
  "get_declared_payload_size h db =
     (case find (\<lambda>p. p_content_hash p = h) (db_posts db) of
        Some p \<Rightarrow> Some (p_payload_size p)
      | None \<Rightarrow> map_option p_attachment_payload_size (find (\<lambda>p. p_attachment_content_hash p = h) (db_posts db)))"

end
