(* ===== verification/PostDbSafe.thy ===== *)
theory PostDbSafe
  imports PostDb
begin

text \<open>
  Properties of the post table: the lifecycle of a thread does not depend on the order in which its
  posts arrive, its expiry stays within the board's TTL window, and expiry and the thread cap
  remove whole threads, the right ones.
\<close>

section \<open>The lifecycle reads only the key fields\<close>

definition same_keys :: "post \<Rightarrow> post \<Rightarrow> bool" where
  "same_keys p q \<longleftrightarrow>
     p_post_id p = p_post_id q \<and> p_thread_id p = p_thread_id q \<and> p_timestamp p = p_timestamp q \<and>
     p_bump_flag p = p_bump_flag q"

lemma insort_key_map: "insort_key k (f x) (map f xs) = map f (insort_key (\<lambda>x. k (f x)) x xs)"
  by (induction xs) auto

lemma sort_key_map: "sort_key k (map f xs) = map f (sort_key (\<lambda>x. k (f x)) xs)"
  by (induction xs) (simp_all add: insort_key_map)

lemma insort_key_cong:
  "(\<And>y. y \<in> insert x (set xs) \<Longrightarrow> k y = k' y) \<Longrightarrow> insort_key k x xs = insort_key k' x xs"
  by (induction xs) auto

lemma sort_key_cong: "(\<And>x. x \<in> set xs \<Longrightarrow> k x = k' x) \<Longrightarrow> sort_key k xs = sort_key k' xs"
proof (induction xs)
  case (Cons x xs)
  have "insort_key k x (sort_key k' xs) = insort_key k' x (sort_key k' xs)"
    by (rule insort_key_cong) (use Cons.prems in auto)
  with Cons show ?case by simp
qed simp

lemma find_map: "find P (map f xs) = map_option f (find (\<lambda>x. P (f x)) xs)"
  by (induction xs) auto

lemma lifecycle_map:
  assumes f: "\<And>p. p \<in> set ps \<Longrightarrow> same_keys (f p) p"
  shows "thread_lifecycle tid st bp (map f ps) = thread_lifecycle tid st bp ps"
proof -
  let ?k = "\<lambda>p. (p_timestamp p, p_post_id p)"
  have rows: "thread_rows tid (map f ps) = map f (thread_rows tid ps)"
    using f by (auto simp: thread_rows_def filter_map comp_def same_keys_def intro!: arg_cong [of _ _ "map f"] filter_cong)
  have "sort_key (\<lambda>p. ?k (f p)) (thread_rows tid ps) = sort_key ?k (thread_rows tid ps)"
    using f by (intro sort_key_cong) (auto simp: thread_rows_def same_keys_def)
  then have sorted: "sort_key ?k (thread_rows tid (map f ps)) = map f (sort_key ?k (thread_rows tid ps))"
    by (simp add: rows sort_key_map)
  let ?rows = "sort_key ?k (thread_rows tid ps)"
  have mem: "same_keys (f p) p" if "p \<in> set ?rows" for p using that f by (simp add: thread_rows_def)
  have fnd: "find (\<lambda>p. p_post_id (f p) = tid) ?rows = find (\<lambda>p. p_post_id p = tid) ?rows"
    using mem by (intro find_cong) (auto simp: same_keys_def)
  have fold_eq: "fold (replay_row tid ts st bp) (map f ?rows) acc = fold (replay_row tid ts st bp) ?rows acc" for ts acc
    unfolding fold_map comp_def
    by (rule fold_cong) (use mem in \<open>auto simp: same_keys_def replay_row_def fun_eq_iff\<close>)
  show ?thesis
  proof (cases "find (\<lambda>p. p_post_id p = tid) ?rows")
    case None
    with fnd show ?thesis by (simp add: thread_lifecycle_def sorted find_map)
  next
    case (Some op_row)
    from find_SomeD [OF this] have "op_row \<in> set ?rows" by blast
    from mem [OF this] have "p_timestamp (f op_row) = p_timestamp op_row" by (simp add: same_keys_def)
    with Some fnd fold_eq show ?thesis by (simp add: thread_lifecycle_def sorted find_map)
  qed
qed

lemma lifecycle_None_iff:
  "thread_lifecycle tid st bp ps = None \<longleftrightarrow> (\<forall>p \<in> set ps. p_thread_id p = tid \<longrightarrow> p_post_id p \<noteq> tid)"
proof -
  have "thread_lifecycle tid st bp ps = None \<longleftrightarrow>
      find (\<lambda>p. p_post_id p = tid) (sort_key (\<lambda>p. (p_timestamp p, p_post_id p)) (thread_rows tid ps)) = None"
    by (simp add: thread_lifecycle_def Let_def split: option.split)
  then show ?thesis by (auto simp: find_None_iff thread_rows_def)
qed

lemma lifecycle_other_thread:
  "p_thread_id p \<noteq> tid \<Longrightarrow> thread_lifecycle tid st bp (qs @ [p]) = thread_lifecycle tid st bp qs"
  by (simp add: thread_lifecycle_def thread_rows_def)

section \<open>The closed form of a table\<close>

definition refresh :: "int \<Rightarrow> int \<Rightarrow> post \<Rightarrow> post" where
  "refresh a e p =
     (let q = p\<lparr>p_expiry_timestamp := e\<rparr> in if is_op p then q\<lparr>p_thread_last_activity := a\<rparr> else q)"

definition settled :: "int \<Rightarrow> int \<Rightarrow> post list \<Rightarrow> post \<Rightarrow> post" where
  "settled st bp ps p =
     (case thread_lifecycle (p_thread_id p) st bp ps of None \<Rightarrow> p | Some (a, e) \<Rightarrow> refresh a e p)"

lemma refresh_keys [simp]:
  "p_post_id (refresh a e p) = p_post_id p" "p_thread_id (refresh a e p) = p_thread_id p"
  "p_timestamp (refresh a e p) = p_timestamp p" "p_bump_flag (refresh a e p) = p_bump_flag p"
  by (simp_all add: refresh_def Let_def)

lemma refresh_refresh [simp]: "refresh a e (refresh b f p) = refresh a e p"
  by (simp add: refresh_def Let_def is_op_def)

lemma settled_keys [simp]: "same_keys (settled st bp ps p) p"
  by (simp add: settled_def same_keys_def split: option.split)

lemma settled_ids [simp]:
  "p_post_id (settled st bp ps p) = p_post_id p" "p_thread_id (settled st bp ps p) = p_thread_id p"
  by (simp_all add: settled_def split: option.split)

lemma update_rows:
  "set_last_activity tid a (set_expiry tid e ps) =
     map (\<lambda>p. if p_thread_id p = tid then refresh a e p else p) ps"
  by (auto simp: set_last_activity_def set_expiry_def refresh_def is_op_def Let_def)

lemma refresh_settled [simp]: "refresh a e (settled st bp ps p) = refresh a e p"
  by (simp add: settled_def split: option.split)

fun insert_all :: "int \<Rightarrow> int \<Rightarrow> post list \<Rightarrow> board_db \<Rightarrow> (py_error \<times> board_db) + board_db" where
  "insert_all st bp [] db = Inr db"
| "insert_all st bp (p # ps) db =
     (case insert_post (Some st) (Some bp) p db of
        Inl e \<Rightarrow> Inl e
      | Inr (_, db') \<Rightarrow> insert_all st bp ps db')"

lemma settled_step:
  assumes fresh: "p_post_id p \<notin> p_post_id ` set qs"
    and run: "recompute_lifecycle (p_thread_id p) st bp (db\<lparr>db_posts := map (settled st bp qs) qs @ [p]\<rparr>) = Inr db'"
  shows "db_posts db' = map (settled st bp (qs @ [p])) (qs @ [p])"
proof -
  let ?tid = "p_thread_id p"
  let ?f = "\<lambda>x. if p_post_id x = p_post_id p then x else settled st bp qs x"
  let ?rows = "map (settled st bp qs) qs @ [p]"
  have as_map: "?rows = map ?f (qs @ [p])" using fresh by (auto simp: image_iff)
  have life: "thread_lifecycle ?tid st bp ?rows = thread_lifecycle ?tid st bp (qs @ [p])"
    unfolding as_map by (rule lifecycle_map) (simp add: same_keys_def settled_def split: option.split)
  have other: "settled st bp (qs @ [p]) q = settled st bp qs q" if "p_thread_id q \<noteq> ?tid" for q
    using that by (simp add: settled_def lifecycle_other_thread)
  show ?thesis
  proof (cases "thread_lifecycle ?tid st bp (qs @ [p])")
    case None
    then have "thread_lifecycle ?tid st bp qs = None" by (auto simp: lifecycle_None_iff)
    with None have "settled st bp (qs @ [p]) q = settled st bp qs q" for q
      using other [of q] by (cases "p_thread_id q = ?tid") (auto simp: settled_def)
    moreover have "settled st bp (qs @ [p]) p = p" using None by (simp add: settled_def)
    moreover have "db_posts db' = ?rows" using run None life by (auto simp: recompute_lifecycle_def)
    ultimately show ?thesis by simp
  next
    case (Some ae)
    obtain a e where ae: "ae = (a, e)" by (cases ae)
    have new: "settled st bp (qs @ [p]) q = refresh a e q" if "p_thread_id q = ?tid" for q
      using that Some ae by (simp add: settled_def)
    from run Some ae life have "db_posts db' = map (\<lambda>q. if p_thread_id q = ?tid then refresh a e q else q) ?rows"
      by (auto simp: recompute_lifecycle_def update_rows split: if_splits)
    then show ?thesis using other new by auto
  qed
qed

lemma insert_all_closed:
  assumes "insert_all st bp ps db = Inr db'" and "db_posts db = map (settled st bp qs) qs"
    and "distinct (map p_post_id qs)"
  shows "db_posts db' = map (settled st bp (qs @ ps)) (qs @ ps) \<and> distinct (map p_post_id (qs @ ps))"
  using assms
proof (induction ps arbitrary: qs db)
  case Nil
  then show ?case by simp
next
  case (Cons p ps)
  let ?db = "db\<lparr>db_posts := db_posts db @ [p]\<rparr>"
  from Cons.prems(1) obtain r db1 where ins: "insert_post (Some st) (Some bp) p db = Inr (r, db1)"
    and rest: "insert_all st bp ps db1 = Inr db'" by (auto split: sum.splits)
  from ins have fresh: "\<not> post_exists (p_post_id p) db"
    and run: "recompute_lifecycle (p_thread_id p) st bp ?db = Inr db1"
    by (auto simp: insert_post_def split: if_splits sum.splits)
  from fresh Cons.prems(2) have notin: "p_post_id p \<notin> p_post_id ` set qs"
    by (auto simp: post_exists_def list_ex_iff)
  from settled_step [OF notin run [unfolded Cons.prems(2)]]
  have "db_posts db1 = map (settled st bp (qs @ [p])) (qs @ [p])" .
  moreover have "distinct (map p_post_id (qs @ [p]))" using Cons.prems(3) notin by simp
  ultimately show ?case using Cons.IH [OF rest, of "qs @ [p]"] by simp
qed

lemma lifecycle_perm:
  assumes "mset ps = mset qs" and "distinct (map p_post_id ps)"
  shows "thread_lifecycle tid st bp ps = thread_lifecycle tid st bp qs"
proof -
  let ?k = "\<lambda>p. (p_timestamp p, p_post_id p)"
  have mset_rows: "mset (thread_rows tid ps) = mset (thread_rows tid qs)"
    using assms(1) by (simp add: thread_rows_def mset_filter)
  have "inj_on p_post_id (set (thread_rows tid ps))"
    using assms(2) by (auto simp: thread_rows_def distinct_map intro: inj_on_subset)
  then have "inj_on ?k (set (thread_rows tid ps))" by (auto simp: inj_on_def)
  then have "sort_key ?k (thread_rows tid ps) = sort_key ?k (thread_rows tid qs)"
    using mset_rows by (intro sort_key_inj_key_eq) simp_all
  then show ?thesis by (simp add: thread_lifecycle_def)
qed

text \<open>Property C17: two nodes that receive the same posts agree, whatever the order of arrival (replies
  before their thread's first post included): they store the same rows, with the same shared expiry
  and the same bump position.\<close>

theorem arrival_order_irrelevant:
  assumes ps: "insert_all st bp ps empty_db = Inr d1" and qs: "insert_all st bp qs empty_db = Inr d2"
    and perm: "mset ps = mset qs"
  shows "mset (db_posts d1) = mset (db_posts d2) \<and> get_post pid d1 = get_post pid d2"
proof -
  have closed: "db_posts d1 = map (settled st bp ps) ps" "distinct (map p_post_id ps)"
    "db_posts d2 = map (settled st bp qs) qs"
    using insert_all_closed [OF ps, of "[]"] insert_all_closed [OF qs, of "[]"] by (simp_all add: empty_db_def)
  have "settled st bp ps p = settled st bp qs p" for p
    using lifecycle_perm [OF perm closed(2)] by (simp add: settled_def)
  then have rows: "db_posts d2 = map (settled st bp ps) qs" using closed(3) by simp
  have same: "mset (db_posts d1) = mset (db_posts d2)" using perm by (simp add: closed(1) rows)
  have ids: "distinct (map p_post_id (db_posts d1))" using closed(1,2) by (simp add: comp_def)
  then have ids2: "distinct (map p_post_id (db_posts d2))"
    using same by (metis mset_eq_imp_distinct_iff mset_map)
  have uniq: "find (\<lambda>p. p_post_id p = pid) xs = Some p"
    if "distinct (map p_post_id xs)" "p \<in> set xs" "p_post_id p = pid" for xs :: "post list" and p
    using that by (induction xs) auto
  have sets: "set (db_posts d1) = set (db_posts d2)" using same by (rule mset_eq_setD)
  have "get_post pid d1 = get_post pid d2"
  proof (cases "get_post pid d1")
    case None
    then have "get_post pid d2 = None" using sets by (simp add: get_post_def find_None_iff)
    with None show ?thesis by simp
  next
    case (Some p)
    then have "p \<in> set (db_posts d2)" "p_post_id p = pid" using sets find_SomeD [of _ "db_posts d1" p] by (auto simp: get_post_def)
    with uniq [OF ids2] Some show ?thesis by (simp add: get_post_def)
  qed
  with same show ?thesis by blast
qed

definition post_of :: "string \<Rightarrow> string \<Rightarrow> int \<Rightarrow> bool \<Rightarrow> post" where
  "post_of pid tid ts bump =
     \<lparr>p_post_id = pid, p_thread_id = tid, p_parent_id = [], p_timestamp = ts,
      p_expiry_timestamp = ts + 100, p_bump_flag = bump, p_content_hash = pid, p_payload_size = 10,
      p_attachment_content_hash = [], p_attachment_payload_size = 0, p_has_attachments = False,
      p_attachment_count = 0, p_text_only = False, p_identity_hash = [], p_pow_nonce = [],
      p_public_key = [], p_encrypted_pings = [], p_edit_signature = [], p_thread_last_activity = ts,
      p_is_abandoned = False\<rparr>"

definition op_post :: post where "op_post = post_of ''t'' ''t'' 1000 False"
definition reply_post :: post where "reply_post = post_of ''r'' ''t'' 1090 True"

definition forward_db :: board_db where
  "forward_db = projr (insert_all 100 30 [op_post, reply_post] empty_db)"
definition backward_db :: board_db where
  "backward_db = projr (insert_all 100 30 [reply_post, op_post] empty_db)"

lemma forward_run: "insert_all 100 30 [op_post, reply_post] empty_db = Inr forward_db"
  by code_simp

lemma backward_run: "insert_all 100 30 [reply_post, op_post] empty_db = Inr backward_db"
  by code_simp

theorem arrival_order_irrelevant_witness:
  "get_post ''t'' forward_db = get_post ''t'' backward_db \<and>
   map_option p_expiry_timestamp (get_post ''t'' backward_db) = Some 1130"
proof
  have "mset [op_post, reply_post] = mset [reply_post, op_post]" by simp
  from arrival_order_irrelevant [OF forward_run backward_run this]
  show "get_post ''t'' forward_db = get_post ''t'' backward_db" by blast
  show "map_option p_expiry_timestamp (get_post ''t'' backward_db) = Some 1130" by code_simp
qed

section \<open>Bounds of the lifecycle\<close>

definition bumps :: "string \<Rightarrow> post \<Rightarrow> bool" where
  "bumps tid p = (p_thread_id p = tid \<and> p_post_id p \<noteq> tid \<and> p_bump_flag p)"

lemma replay_bounds:
  assumes "sorted (map p_timestamp rows)" and "\<forall>r \<in> set rows. p_thread_id r = tid"
    and "\<forall>r \<in> set rows. a \<le> max (p_timestamp r) t0" and "e \<le> a + st" and "0 \<le> bp"
    and "fold (replay_row tid t0 st bp) rows (a, e) = (a', e')"
  shows "a \<le> a' \<and> e \<le> e' \<and> e' \<le> a' + st \<and>
    (\<forall>r \<in> set rows. bumps tid r \<longrightarrow> max (p_timestamp r) t0 \<le> a' \<and> max (p_timestamp r) t0 + min bp st \<le> e') \<and>
    (a' = a \<or> (\<exists>r \<in> set rows. bumps tid r \<and> a' = max (p_timestamp r) t0))"
  using assms
proof (induction rows arbitrary: a e)
  case Nil
  then show ?case by simp
next
  case (Cons r rows)
  show ?case
  proof (cases "bumps tid r")
    case False
    with Cons.prems(2) have "replay_row tid t0 st bp r (a, e) = (a, e)" by (auto simp: replay_row_def bumps_def)
    with Cons.IH [of a e] Cons.prems False show ?thesis by auto
  next
    case True
    let ?ev = "max (p_timestamp r) t0"
    let ?e1 = "extend_thread_expiry e ?ev st bp"
    from Cons.prems(3) have a: "a \<le> ?ev" by simp
    have step: "replay_row tid t0 st bp r (a, e) = (?ev, ?e1)"
      using True a by (simp add: replay_row_def bumps_def Let_def max_def)
    have later: "\<forall>x \<in> set rows. ?ev \<le> max (p_timestamp x) t0" using Cons.prems(1) by force
    have e1: "e \<le> ?e1" "?e1 \<le> ?ev + st" "?ev + min bp st \<le> ?e1"
      using Cons.prems(4,5) a by (auto simp: extend_thread_expiry_def)
    have run: "fold (replay_row tid t0 st bp) rows (?ev, ?e1) = (a', e')" using Cons.prems(6) step by simp
    have IH: "?ev \<le> a' \<and> ?e1 \<le> e' \<and> e' \<le> a' + st \<and>
        (\<forall>r \<in> set rows. bumps tid r \<longrightarrow> max (p_timestamp r) t0 \<le> a' \<and> max (p_timestamp r) t0 + min bp st \<le> e') \<and>
        (a' = ?ev \<or> (\<exists>r \<in> set rows. bumps tid r \<and> a' = max (p_timestamp r) t0))"
      by (rule Cons.IH [OF _ _ later e1(2) Cons.prems(5) run]) (use Cons.prems(1,2) in simp_all)
    have "a \<le> a'" "e \<le> e'" "?ev + min bp st \<le> e'" using IH a e1 by linarith+
    with IH True show ?thesis by (intro conjI) auto
  qed
qed

text \<open>Also: the expiry of a thread whose first post is stored lies between one start TTL after
  that post and one start TTL after the thread's last activity; the last activity is the time of
  the first post or of a bumping reply, none of which is later; and each bump keeps the thread
  alive for at least the bump TTL (or the start TTL, if smaller) after it.\<close>

theorem lifecycle_within_ttl:
  assumes life: "thread_lifecycle tid st bp posts = Some (a, e)" and "0 \<le> bp"
    and first: "first \<in> set posts" "p_thread_id first = tid" "p_post_id first = tid"
    and pk: "distinct (map p_post_id posts)"
  shows "p_timestamp first + st \<le> e \<and> e \<le> a + st \<and> p_timestamp first \<le> a \<and>
    (a = p_timestamp first \<or> (\<exists>r \<in> set posts. bumps tid r \<and> a = max (p_timestamp r) (p_timestamp first))) \<and>
    (\<forall>r \<in> set posts. bumps tid r \<longrightarrow> p_timestamp r \<le> a \<and> p_timestamp r + min bp st \<le> e)"
proof -
  let ?k = "\<lambda>p. (p_timestamp p, p_post_id p)"
  let ?rows = "sort_key ?k (thread_rows tid posts)"
  let ?t0 = "p_timestamp first"
  have mem: "r \<in> set ?rows \<longleftrightarrow> r \<in> set posts \<and> p_thread_id r = tid" for r by (auto simp: thread_rows_def)
  from life obtain op_row where op_row: "find (\<lambda>p. p_post_id p = tid) ?rows = Some op_row"
    and fold: "fold (replay_row tid (p_timestamp op_row) st bp) ?rows (p_timestamp op_row, p_timestamp op_row + st) = (a, e)"
    by (auto simp: thread_lifecycle_def Let_def split: option.splits)
  from find_SomeD [OF op_row] mem have "op_row \<in> set posts" "p_post_id op_row = tid" by blast+
  with first pk have eq: "op_row = first" by (auto simp: distinct_map inj_on_def)
  have "sorted (map ?k ?rows)" by (rule sorted_sort_key)
  then have "sorted_wrt (\<lambda>x y. ?k x \<le> ?k y) ?rows" by (simp add: sorted_map)
  then have sorted: "sorted (map p_timestamp ?rows)"
    unfolding sorted_map by (rule sorted_wrt_mono_rel [rotated]) auto
  have bounds: "?t0 \<le> a \<and> ?t0 + st \<le> e \<and> e \<le> a + st \<and>
      (\<forall>r \<in> set ?rows. bumps tid r \<longrightarrow> max (p_timestamp r) ?t0 \<le> a \<and> max (p_timestamp r) ?t0 + min bp st \<le> e) \<and>
      (a = ?t0 \<or> (\<exists>r \<in> set ?rows. bumps tid r \<and> a = max (p_timestamp r) ?t0))"
    by (rule replay_bounds [OF sorted _ _ _ assms(2) fold [unfolded eq]]) (simp_all add: thread_rows_def)
  have "p_timestamp r \<le> a \<and> p_timestamp r + min bp st \<le> e" if r: "r \<in> set posts" "bumps tid r" for r
  proof -
    have "r \<in> set ?rows" using r mem [of r] by (simp add: bumps_def)
    with bounds r(2) have "max (p_timestamp r) ?t0 \<le> a" "max (p_timestamp r) ?t0 + min bp st \<le> e" by blast+
    then show ?thesis by linarith
  qed
  moreover have "a = ?t0 \<or> (\<exists>r \<in> set posts. bumps tid r \<and> a = max (p_timestamp r) ?t0)"
    using bounds mem by blast
  ultimately show ?thesis using bounds by blast
qed

theorem lifecycle_within_ttl_witness:
  "thread_lifecycle ''t'' 100 30 [reply_post, op_post] = Some (1090, 1130) \<and> (1000 :: int) + 100 \<le> 1130"
proof
  show life: "thread_lifecycle ''t'' 100 30 [reply_post, op_post] = Some (1090, 1130)" by code_simp
  have "p_timestamp op_post + 100 \<le> 1130"
    using lifecycle_within_ttl [OF life, of op_post] by (simp add: op_post_def reply_post_def post_of_def)
  then show "(1000 :: int) + 100 \<le> 1130" by (simp add: op_post_def post_of_def)
qed

section \<open>Pruning\<close>

definition abandoned_ids :: "board_db \<Rightarrow> string set" where
  "abandoned_ids db = {p_thread_id p | p. p \<in> set (db_posts db) \<and> is_op p \<and> p_is_abandoned p}"

lemma thread_rows_ids: "p \<in> set (thread_rows tid posts) \<longleftrightarrow> p \<in> set posts \<and> p_thread_id p = tid"
  by (auto simp: thread_rows_def)

lemma delete_abandoned_effect:
  assumes "delete_abandoned_threads db = (res, db')"
  shows "fst ` set res = abandoned_ids db \<and>
    db_posts db' = filter (\<lambda>p. p_thread_id p \<notin> abandoned_ids db) (db_posts db) \<and>
    (\<forall>(t, hs) \<in> set res. hs = thread_hashes t (db_posts db))"
proof -
  let ?tids = "remdups (map p_thread_id (filter (\<lambda>p. p_is_abandoned p \<and> is_op p) (db_posts db)))"
  have ids: "set ?tids = abandoned_ids db" by (auto simp: abandoned_ids_def)
  have "res = fst (delete_abandoned_threads db)" and db'0: "db' = snd (delete_abandoned_threads db)"
    using assms by simp_all
  then have res: "res = map (\<lambda>t. (t, thread_hashes t (db_posts db))) ?tids"
    by (simp add: delete_abandoned_threads_def Let_def)
  have db': "db' = (if res = [] then db else delete_threads_bulk (map fst res) db)"
    unfolding db'0 res by (simp add: delete_abandoned_threads_def Let_def)
  have fst_res: "map fst res = ?tids" by (simp add: res comp_def)
  have "db_posts db' = filter (\<lambda>p. p_thread_id p \<notin> set ?tids) (db_posts db)"
  proof (cases "res = []")
    case True
    with fst_res have "set ?tids = {}" by simp
    with True db' show ?thesis by simp
  next
    case False
    with db' fst_res show ?thesis by (simp add: delete_threads_bulk_def)
  qed
  moreover have "fst ` set res = set ?tids" using fst_res by (metis list.set_map)
  ultimately show ?thesis unfolding ids by (auto simp: res)
qed

lemma abandon_rows:
  "db_posts (abandon_threads tids db) =
     map (\<lambda>p. if is_op p \<and> p_thread_id p \<in> set tids then p\<lparr>p_is_abandoned := True\<rparr> else p) (db_posts db)"
  by (simp add: abandon_threads_def)

lemma abandoned_after:
  assumes "\<forall>t \<in> set tids. \<exists>p \<in> set (db_posts db). is_op p \<and> p_thread_id p = t"
  shows "abandoned_ids (abandon_threads tids db) = abandoned_ids db \<union> set tids"
proof (intro equalityI subsetI)
  fix t assume "t \<in> abandoned_ids (abandon_threads tids db)"
  then show "t \<in> abandoned_ids db \<union> set tids"
    by (auto simp: abandoned_ids_def abandon_rows is_op_def split: if_splits)
next
  fix t assume t: "t \<in> abandoned_ids db \<union> set tids"
  then obtain p where p: "p \<in> set (db_posts db)" "is_op p" "p_thread_id p = t" "p_is_abandoned p \<or> t \<in> set tids"
    using assms by (auto simp: abandoned_ids_def)
  let ?q = "if is_op p \<and> p_thread_id p \<in> set tids then p\<lparr>p_is_abandoned := True\<rparr> else p"
  have "?q \<in> set (db_posts (abandon_threads tids db))" using p(1) by (simp add: abandon_rows)
  moreover have "is_op ?q" "p_thread_id ?q = t" "p_is_abandoned ?q" using p by (auto simp: is_op_def)
  ultimately show "t \<in> abandoned_ids (abandon_threads tids db)" unfolding abandoned_ids_def by blast
qed

text \<open>Marking threads and deleting the marked ones removes exactly their rows.\<close>

lemma delete_marked:
  assumes "\<forall>t \<in> set tids. \<exists>p \<in> set (db_posts db). is_op p \<and> p_thread_id p = t"
    and "delete_abandoned_threads (abandon_threads tids db) = (res, db')"
  shows "fst ` set res = abandoned_ids db \<union> set tids \<and>
    db_posts db' = filter (\<lambda>p. p_thread_id p \<notin> abandoned_ids db \<union> set tids) (db_posts db) \<and>
    (\<forall>(t, hs) \<in> set res. set hs = set (thread_hashes t (db_posts db)))"
proof -
  note eff = delete_abandoned_effect [OF assms(2)]
  note ids = abandoned_after [OF assms(1)]
  let ?f = "\<lambda>p. if is_op p \<and> p_thread_id p \<in> set tids then p\<lparr>p_is_abandoned := True\<rparr> else p"
  have "filter (\<lambda>p. p_thread_id p \<notin> abandoned_ids db \<union> set tids) (map ?f ps) =
      filter (\<lambda>p. p_thread_id p \<notin> abandoned_ids db \<union> set tids) ps" for ps
    by (induction ps) auto
  moreover have "set (thread_hashes t (map ?f ps)) = set (thread_hashes t ps)" for t ps
  proof -
    have "thread_rows t (map ?f ps) = map ?f (thread_rows t ps)"
      by (induction ps) (auto simp: thread_rows_def)
    moreover have "p_content_hash (?f p) = p_content_hash p"
      "p_attachment_content_hash (?f p) = p_attachment_content_hash p" for p by simp_all
    ultimately show ?thesis by (auto simp: thread_hashes_def Let_def image_iff)
  qed
  ultimately show ?thesis using eff ids by (auto simp: abandon_rows)
qed

text \<open>Property C26: one expiry cycle (mark, then delete) returns the unpinned active threads whose expiry has
  come, and leaves the table without any row of those threads and of threads marked before, every
  other row untouched; with each deleted thread it reports exactly the blob hashes of its rows.\<close>

theorem expiry_cycle_exact:
  assumes "mark_expired_threads now pinned db = (ids, db1)" and "delete_abandoned_threads db1 = (res, db2)"
  shows "set ids = {p_thread_id p | p. p \<in> set (db_posts db) \<and> active_op p \<and>
      p_expiry_timestamp p \<le> now \<and> p_thread_id p \<notin> set pinned} \<and>
    fst ` set res = abandoned_ids db \<union> set ids \<and>
    db_posts db2 = filter (\<lambda>p. p_thread_id p \<notin> abandoned_ids db \<union> set ids) (db_posts db) \<and>
    (\<forall>(t, hs) \<in> set res. set hs = set (thread_hashes t (db_posts db)))"
proof -
  have "ids = fst (mark_expired_threads now pinned db)" and db1_0: "db1 = snd (mark_expired_threads now pinned db)"
    using assms(1) by simp_all
  then have ids: "ids = filter (\<lambda>t. t \<notin> set pinned)
      (map p_thread_id (filter (\<lambda>p. active_op p \<and> p_expiry_timestamp p \<le> now) (db_posts db)))"
    by (simp add: mark_expired_threads_def Let_def)
  have db1: "db1 = (if ids = [] then db else abandon_threads ids db)"
    unfolding db1_0 ids by (simp add: mark_expired_threads_def Let_def)
  have "db1 = abandon_threads ids db" using db1 by (auto simp: abandon_threads_def)
  moreover have "\<forall>t \<in> set ids. \<exists>p \<in> set (db_posts db). is_op p \<and> p_thread_id p = t"
    by (auto simp: ids active_op_def)
  ultimately have "fst ` set res = abandoned_ids db \<union> set ids \<and>
      db_posts db2 = filter (\<lambda>p. p_thread_id p \<notin> abandoned_ids db \<union> set ids) (db_posts db) \<and>
      (\<forall>(t, hs) \<in> set res. set hs = set (thread_hashes t (db_posts db)))"
    using delete_marked assms(2) by blast
  moreover have "set ids = {p_thread_id p | p. p \<in> set (db_posts db) \<and> active_op p \<and>
      p_expiry_timestamp p \<le> now \<and> p_thread_id p \<notin> set pinned}" by (auto simp: ids)
  ultimately show ?thesis by blast
qed

theorem expiry_cycle_exact_witness:
  "fst (mark_expired_threads 1130 [] forward_db) = [''t''] \<and>
   db_posts (snd (delete_abandoned_threads (snd (mark_expired_threads 1130 [] forward_db)))) = [] \<and>
   fst ` set (fst (delete_abandoned_threads (snd (mark_expired_threads 1130 [] forward_db)))) =
     abandoned_ids forward_db \<union> {''t''}"
proof (intro conjI)
  let ?m = "mark_expired_threads 1130 [] forward_db"
  let ?d = "delete_abandoned_threads (snd ?m)"
  show ids: "fst ?m = [''t'']" by code_simp
  show "db_posts (snd ?d) = []" by code_simp
  have "?m = (fst ?m, snd ?m)" "?d = (fst ?d, snd ?d)" by simp_all
  from expiry_cycle_exact [OF this] have "fst ` set (fst ?d) = abandoned_ids forward_db \<union> set (fst ?m)" by blast
  with ids show "fst ` set (fst ?d) = abandoned_ids forward_db \<union> {''t''}" by simp
qed

section \<open>The thread cap\<close>

lemma length_filter_notin:
  "distinct xs \<Longrightarrow> set ys \<subseteq> set xs \<Longrightarrow> distinct ys \<Longrightarrow>
     length (filter (\<lambda>x. x \<notin> set ys) xs) = length xs - length ys"
  by (metis card_Diff_subset distinct_card distinct_filter finite_set set_diff_eq set_filter)

lemma length_filter_sort_key: "length (filter P (sort_key k xs)) = length (filter P xs)"
  by (metis mset_filter mset_sort size_mset)

lemma sort_key_take_le:
  assumes "x \<in> set (take n (filter P (map f (sort_key k xs))))" and "y \<in> set xs" and "P (f y)"
    and "f y \<notin> set (take n (filter P (map f (sort_key k xs))))" and "inj_on f (set xs)"
    and "z \<in> set xs" "f z = x"
  shows "k z \<le> k y"
proof -
  let ?l = "filter (P \<circ> f) (sort_key k xs)"
  have l: "filter P (map f (sort_key k xs)) = map f ?l" by (simp add: filter_map)
  from assms(1) obtain w where w: "w \<in> set (take n ?l)" "f w = x" unfolding l take_map by force
  from in_set_takeD [OF w(1)] have "w \<in> set xs" by simp
  with w(2) assms(5-7) have "w = z" by (simp add: inj_on_def)
  with w(1) have z: "z \<in> set (take n ?l)" by simp
  have "y \<in> set ?l" using assms(2,3) by simp
  moreover have "y \<notin> set (take n ?l)" using assms(4) by (auto simp: l take_map)
  ultimately have y: "y \<in> set (drop n ?l)" by (metis append_take_drop_id Un_iff set_append)
  have "sorted (map k ?l)" by (rule sorted_filter) simp
  then have "sorted (map k (take n ?l) @ map k (drop n ?l))" by (metis append_take_drop_id map_append)
  with z y show ?thesis by (auto simp: sorted_append)
qed

text \<open>Property C25: enforcing the thread cap on a table without marked threads leaves exactly
  \<open>max max_threads pinned\<close> active threads when there were more, and all otherwise; it removes whole
  threads, never a pinned one, and every removed thread was active no later than every unpinned
  active thread that is kept.\<close>

theorem thread_cap_enforced:
  assumes pk: "distinct (map p_post_id (db_posts db))" and clean: "abandoned_ids db = {}" and "0 \<le> cap"
    and run: "enforce_thread_cap cap pinned db = (res, db')"
  shows "int (get_thread_count db') =
      (if int (get_thread_count db) \<le> cap then int (get_thread_count db)
       else max cap (int (length (filter (\<lambda>p. p_thread_id p \<in> set pinned) (filter active_op (db_posts db)))))) \<and>
    db_posts db' = filter (\<lambda>p. p_thread_id p \<notin> fst ` set res) (db_posts db) \<and>
    fst ` set res \<inter> set pinned = {} \<and>
    (\<forall>p \<in> set (db_posts db). \<forall>q \<in> set (db_posts db'). active_op p \<longrightarrow> p_thread_id p \<in> fst ` set res \<longrightarrow>
       active_op q \<longrightarrow> p_thread_id q \<notin> set pinned \<longrightarrow> p_thread_last_activity p \<le> p_thread_last_activity q)"
proof -
  let ?ops = "filter active_op (db_posts db)"
  let ?active = "map p_thread_id (sort_key p_thread_last_activity ?ops)"
  let ?unpinned = "filter (\<lambda>t. t \<notin> set pinned) ?active"
  let ?cull = "take (nat (int (length ?active) - cap)) ?unpinned"
  let ?pins = "filter (\<lambda>p. p_thread_id p \<in> set pinned) ?ops"
  have inj: "inj_on p_thread_id (set ?ops)"
    using pk by (auto simp: inj_on_def active_op_def is_op_def distinct_map)
  have len: "length ?active = get_thread_count db" by (simp add: get_thread_count_def)
  have count: "length ?unpinned + length ?pins = length ?active"
  proof -
    have "length ?unpinned = length (filter (\<lambda>p. \<not> p_thread_id p \<in> set pinned) (sort_key p_thread_last_activity ?ops))"
      by (simp only: filter_map length_map comp_def)
    then have "length ?unpinned = length (filter (\<lambda>p. \<not> p_thread_id p \<in> set pinned) ?ops)"
      by (simp only: length_filter_sort_key)
    then show ?thesis using sum_length_filter_compl [of "\<lambda>p. p_thread_id p \<in> set pinned" ?ops] by simp
  qed
  show ?thesis
  proof (cases "int (length ?active) \<le> cap \<or> ?unpinned = []")
    case True
    with run have same: "res = []" "db' = db" by (simp_all add: enforce_thread_cap_def Let_def)
    moreover have "int (length ?active) = max cap (int (length ?pins))" if "\<not> int (length ?active) \<le> cap"
      using that True count by auto
    ultimately show ?thesis using len by auto
  next
    case False
    then have "?cull \<noteq> []" by (simp add: take_eq_Nil)
    with False run have del: "delete_abandoned_threads (abandon_threads ?cull db) = (res, db')"
      by (simp add: enforce_thread_cap_def Let_def)
    have cull_sub: "set ?cull \<subseteq> set ?unpinned" by (rule set_take_subset)
    have "\<forall>t \<in> set ?cull. \<exists>p \<in> set (db_posts db). is_op p \<and> p_thread_id p = t"
      using cull_sub by (auto simp: active_op_def)
    from delete_marked [OF this del] clean have removed: "fst ` set res = set ?cull"
      and rows: "db_posts db' = filter (\<lambda>p. p_thread_id p \<notin> fst ` set res) (db_posts db)" by simp_all
    have "filter active_op (db_posts db') = filter (\<lambda>p. p_thread_id p \<notin> set ?cull) ?ops"
      by (simp add: rows removed) (metis (no_types, lifting) filter_filter conj_commute)
    then have "length (filter active_op (db_posts db')) =
        length (filter (\<lambda>t. t \<notin> set ?cull) (map p_thread_id ?ops))" by (simp add: filter_map comp_def)
    also have "\<dots> = length (map p_thread_id ?ops) - length ?cull"
    proof (rule length_filter_notin)
      show "distinct (map p_thread_id ?ops)" using pk inj by (simp add: distinct_map)
      show "set ?cull \<subseteq> set (map p_thread_id ?ops)" using cull_sub by auto
      have "distinct ?active" using pk inj by (simp add: distinct_map)
      then show "distinct ?cull" by (intro distinct_take distinct_filter)
    qed
    finally have "get_thread_count db' = length ?active - length ?cull" by (simp add: get_thread_count_def)
    then have "int (get_thread_count db') = max cap (int (length ?pins))"
      using False count assms(3) by (auto simp: min_def)
    moreover have "fst ` set res \<inter> set pinned = {}" using removed cull_sub by auto
    moreover have "p_thread_last_activity p \<le> p_thread_last_activity q"
      if "p \<in> set (db_posts db)" "q \<in> set (db_posts db')" "active_op p" "p_thread_id p \<in> fst ` set res"
        "active_op q" "p_thread_id q \<notin> set pinned" for p q
      using that removed rows inj
      by (intro sort_key_take_le [of "p_thread_id p" "nat (int (length ?active) - cap)"
            "\<lambda>t. t \<notin> set pinned" p_thread_id p_thread_last_activity ?ops]) auto
    ultimately show ?thesis using rows False len by auto
  qed
qed

definition two_threads :: board_db where
  "two_threads = projr (insert_all 100 30 [op_post, reply_post, post_of ''u'' ''u'' 1200 False] empty_db)"

theorem thread_cap_enforced_witness:
  "get_thread_count (snd (enforce_thread_cap 1 [''t''] two_threads)) = 1 \<and>
   fst ` set (fst (enforce_thread_cap 1 [''t''] two_threads)) \<inter> {''t''} = {}"
proof -
  let ?e = "enforce_thread_cap 1 [''t''] two_threads"
  have pk: "distinct (map p_post_id (db_posts two_threads))" by code_simp
  have "list_all (\<lambda>p. \<not> p_is_abandoned p) (db_posts two_threads)" by code_simp
  then have clean: "abandoned_ids two_threads = {}" by (auto simp: abandoned_ids_def list_all_iff)
  have run: "?e = (fst ?e, snd ?e)" by simp
  have "fst ` set (fst ?e) \<inter> set [''t''] = {}"
    using thread_cap_enforced [OF pk clean _ run] by simp
  moreover have "get_thread_count (snd ?e) = 1" by code_simp
  ultimately show ?thesis by simp
qed

section \<open>Catalog and configuration\<close>

lemma sql_limit_prefix: "\<exists>zs. xs = sql_limit n xs @ zs"
  by (cases "n < 0") (simp_all add: sql_limit_def exI [of _ "drop (nat n) xs"])

text \<open>Also: the catalog shows active threads only, most recently active first, each with its true
  number of posts; it is as long as the limit allows, and a thread left out was active no later
  than any thread shown.\<close>

theorem catalog_shows_latest:
  assumes "s \<in> set (get_catalog n db)"
  shows "(\<exists>p \<in> set (db_posts db). active_op p \<and> s = summary_of (db_posts db) p) \<and>
    ts_post_count s = length (thread_rows (ts_thread_id s) (db_posts db)) \<and>
    sorted (rev (map ts_thread_last_activity (get_catalog n db))) \<and>
    length (get_catalog n db) = (if n < 0 then get_thread_count db else min (nat n) (get_thread_count db)) \<and>
    (\<forall>p \<in> set (db_posts db). active_op p \<longrightarrow> summary_of (db_posts db) p \<notin> set (get_catalog n db) \<longrightarrow>
       p_thread_last_activity p \<le> ts_thread_last_activity s)"
proof -
  let ?all = "map (summary_of (db_posts db)) (filter active_op (db_posts db))"
  obtain zs where zs: "sort_desc ts_thread_last_activity ?all = get_catalog n db @ zs"
    using sql_limit_prefix unfolding get_catalog_def by blast
  then have all: "set ?all = set (get_catalog n db) \<union> set zs" by (metis set_append set_sort_desc)
  have "\<exists>p \<in> set (db_posts db). active_op p \<and> s = summary_of (db_posts db) p"
    using assms all by auto
  moreover have "ts_post_count s = length (thread_rows (ts_thread_id s) (db_posts db))"
    using calculation by (auto simp: summary_of_def)
  moreover have "sorted (rev (map ts_thread_last_activity (get_catalog n db @ zs)))"
    using sorted_sort_desc [of ts_thread_last_activity ?all] zs by simp
  then have "sorted (rev (map ts_thread_last_activity (get_catalog n db)))" by (simp add: sorted_append)
  moreover have "length (get_catalog n db) = (if n < 0 then get_thread_count db else min (nat n) (get_thread_count db))"
    by (simp add: get_catalog_def sql_limit_def get_thread_count_def min.commute)
  moreover have "p_thread_last_activity p \<le> ts_thread_last_activity s"
    if "p \<in> set (db_posts db)" "active_op p" "summary_of (db_posts db) p \<notin> set (get_catalog n db)" for p
  proof -
    have "summary_of (db_posts db) p \<in> set zs" using that all by auto
    from sort_desc_append_le [OF zs assms this] show ?thesis by (simp add: summary_of_def)
  qed
  ultimately show ?thesis by blast
qed

theorem catalog_shows_latest_witness:
  "map ts_thread_id (get_catalog 1 two_threads) = [''u''] \<and>
   length (get_catalog 1 two_threads) = min 1 (get_thread_count two_threads)"
proof
  show ids: "map ts_thread_id (get_catalog 1 two_threads) = [''u'']" by code_simp
  then have "hd (get_catalog 1 two_threads) \<in> set (get_catalog 1 two_threads)" by (intro hd_in_set) auto
  from catalog_shows_latest [OF this] show "length (get_catalog 1 two_threads) = min 1 (get_thread_count two_threads)"
    by simp
qed

text \<open>Also: saving a board's configuration and loading it back gives the same configuration with
  whole-second subscription time, and never its key material or announcing peer; a configuration
  with a number outside 64 bits is refused and nothing is stored.\<close>

theorem board_config_roundtrip:
  assumes "list_all (\<lambda>r. cr_board_id r = b_board_id b) (db_config db)"
  shows "(case save_board_config b db of
      Inl e \<Rightarrow> e = OverflowError \<and> \<not> config_bindable (config_of b)
    | Inr db' \<Rightarrow>
        load_board_config db' = Some (b\<lparr>b_key_material := [], b_peer_lxmf_hash := [],
          b_subscribed_at := of_int (py_int (b_subscribed_at b))\<rparr>) \<and>
        length (db_config db') = 1 \<and> db_posts db' = db_posts db)"
proof (cases "config_bindable (config_of b)")
  case False
  then show ?thesis by (simp add: save_board_config_def Let_def)
next
  case True
  have "filter (\<lambda>x. cr_board_id x \<noteq> cr_board_id (config_of b)) (db_config db) = []"
    using assms by (simp add: filter_empty_conv list_all_iff config_of_def)
  with True show ?thesis
    by (simp add: save_board_config_def Let_def load_board_config_def) (simp add: config_of_def)
qed

definition sample_board :: board where
  "sample_board = \<lparr>b_board_id = ''b'', b_display_name = ''B'', b_text_only = False,
     b_default_ttl_seconds = 43200, b_bump_decay_rate = 3600, b_max_active_threads_local = 50,
     b_pow_difficulty = 0, b_key_material = ''secret'', b_announce_version = 2,
     b_peer_lxmf_hash = ''p'', b_subscribed_at = 5 / 2\<rparr>"

theorem board_config_roundtrip_witness:
  "map_option b_key_material (load_board_config (projr (save_board_config sample_board empty_db))) = Some []"
proof -
  have "save_board_config sample_board empty_db = Inr (projr (save_board_config sample_board empty_db))"
    by code_simp
  moreover have "list_all (\<lambda>r. cr_board_id r = b_board_id sample_board) (db_config empty_db)"
    by (simp add: empty_db_def)
  note board_config_roundtrip [OF this]
  ultimately show ?thesis by (simp split: sum.splits)
qed

end
