(* ===== verification/Stores.thy ===== *)
theory Stores
  imports Prelude
begin

text \<open>
  The contract of a keyed store, and database tables with a primary key as one implementation of
  it. A client relies on what a lookup returns after a write and, where it can, after a removal; from
  them follow the effect of bulk operations and of whole runs. \<open>inv\<close> is what every operation keeps of the state, \<open>valid\<close> singles out the keys for
  which the laws hold (every key of a table, the plain file names of a directory).
\<close>

locale write_store =
  fixes inv :: "'s \<Rightarrow> bool"
    and valid :: "'k \<Rightarrow> bool"
    and key_of :: "'e \<Rightarrow> 'k"
    and value_of :: "'e \<Rightarrow> 'v"
    and lookup :: "'k \<Rightarrow> 's \<Rightarrow> 'v option"
    and store :: "'e \<Rightarrow> 's \<Rightarrow> 's"
  assumes inv_store: "inv s \<Longrightarrow> valid (key_of e) \<Longrightarrow> inv (store e s)"
    and lookup_store: "inv s \<Longrightarrow> valid (key_of e) \<Longrightarrow> valid k \<Longrightarrow>
      lookup k (store e s) = (if k = key_of e then Some (value_of e) else lookup k s)"
begin

lemma store_then_lookup:
  "inv s \<Longrightarrow> valid (key_of e) \<Longrightarrow> lookup (key_of e) (store e s) = Some (value_of e)"
  by (simp add: lookup_store)

lemma inv_store_all: "inv s \<Longrightarrow> \<forall>e \<in> set es. valid (key_of e) \<Longrightarrow> inv (fold store es s)"
  by (induction es arbitrary: s) (auto simp: inv_store)

lemma store_all_other:
  "inv s \<Longrightarrow> valid k \<Longrightarrow> \<forall>e \<in> set es. valid (key_of e) \<Longrightarrow> k \<notin> key_of ` set es \<Longrightarrow>
     lookup k (fold store es s) = lookup k s"
  by (induction es arbitrary: s) (auto simp: lookup_store inv_store)

end

text \<open>A store whose entries can also be removed.\<close>

locale key_store = write_store inv valid key_of value_of lookup store
  for inv :: "'s \<Rightarrow> bool" and valid :: "'k \<Rightarrow> bool" and key_of :: "'e \<Rightarrow> 'k" and value_of :: "'e \<Rightarrow> 'v"
    and lookup :: "'k \<Rightarrow> 's \<Rightarrow> 'v option" and store :: "'e \<Rightarrow> 's \<Rightarrow> 's" +
  fixes remove :: "'k \<Rightarrow> 's \<Rightarrow> 's"
  assumes inv_remove: "inv s \<Longrightarrow> valid k \<Longrightarrow> inv (remove k s)"
    and lookup_remove: "inv s \<Longrightarrow> valid j \<Longrightarrow> valid k \<Longrightarrow>
      lookup k (remove j s) = (if k = j then None else lookup k s)"
begin

lemma remove_all:
  "inv s \<Longrightarrow> valid k \<Longrightarrow> \<forall>j \<in> set ks. valid j \<Longrightarrow>
     inv (fold remove ks s) \<and> lookup k (fold remove ks s) = (if k \<in> set ks then None else lookup k s)"
  by (induction ks arbitrary: s) (auto simp: lookup_remove inv_remove)

definition store_step :: "'e + 'k \<Rightarrow> 's \<Rightarrow> 's" where
  "store_step x s = (case x of Inl e \<Rightarrow> store e s | Inr k \<Rightarrow> remove k s)"

definition touches :: "'k \<Rightarrow> 'e + 'k \<Rightarrow> bool" where
  "touches k x = (case x of Inl e \<Rightarrow> key_of e = k | Inr j \<Rightarrow> j = k)"

definition all_valid :: "('e + 'k) list \<Rightarrow> bool" where
  "all_valid xs = list_all (\<lambda>x. case x of Inl e \<Rightarrow> valid (key_of e) | Inr k \<Rightarrow> valid k) xs"

lemma run_inv: "inv s \<Longrightarrow> all_valid xs \<Longrightarrow> inv (fold store_step xs s)"
  by (induction xs arbitrary: s)
    (auto simp: all_valid_def store_step_def inv_store inv_remove split: sum.splits)

text \<open>Operations on other keys do not show; the last operation on a key decides.\<close>

lemma run_untouched:
  "inv s \<Longrightarrow> valid k \<Longrightarrow> all_valid xs \<Longrightarrow> list_all (\<lambda>x. \<not> touches k x) xs \<Longrightarrow>
     lookup k (fold store_step xs s) = lookup k s"
  by (induction xs arbitrary: s)
    (auto simp: all_valid_def store_step_def touches_def lookup_store lookup_remove inv_store inv_remove
      split: sum.splits)

lemma run_last_store:
  assumes "inv s" and "valid (key_of e)" and "all_valid xs" and "all_valid ys"
    and "list_all (\<lambda>x. \<not> touches (key_of e) x) ys"
  shows "lookup (key_of e) (fold store_step (xs @ Inl e # ys) s) = Some (value_of e)"
  using run_untouched [OF _ assms(2,4,5), of "store e (fold store_step xs s)"] run_inv [OF assms(1,3)] assms(2)
  by (simp add: store_step_def lookup_store inv_store)

lemma run_last_remove:
  assumes "inv s" and "valid k" and "all_valid xs" and "all_valid ys"
    and "list_all (\<lambda>x. \<not> touches k x) ys"
  shows "lookup k (fold store_step (xs @ Inr k # ys) s) = None"
  using run_untouched [OF _ assms(2,4,5), of "remove k (fold store_step xs s)"] run_inv [OF assms(1,3)] assms(2)
  by (simp add: store_step_def lookup_remove inv_remove)

end

section \<open>Tables with a primary key\<close>

text \<open>\<open>INSERT OR REPLACE\<close>, \<open>SELECT\<close> and \<open>DELETE\<close> by primary key; rows are in rowid order.\<close>

definition upsert :: "('r \<Rightarrow> 'k) \<Rightarrow> 'r \<Rightarrow> 'r list \<Rightarrow> 'r list" where
  "upsert key row rows = filter (\<lambda>r. key r \<noteq> key row) rows @ [row]"

definition find_row :: "('r \<Rightarrow> 'k) \<Rightarrow> 'k \<Rightarrow> 'r list \<Rightarrow> 'r option" where
  "find_row key k rows = find (\<lambda>r. key r = k) rows"

definition delete_row :: "('r \<Rightarrow> 'k) \<Rightarrow> 'k \<Rightarrow> 'r list \<Rightarrow> 'r list" where
  "delete_row key k rows = filter (\<lambda>r. key r \<noteq> k) rows"

definition keyed :: "('r \<Rightarrow> 'k) \<Rightarrow> 'r list \<Rightarrow> bool" where
  "keyed key rows = distinct (map key rows)"

lemma find_append: "find P (xs @ ys) = (case find P xs of None \<Rightarrow> find P ys | Some x \<Rightarrow> Some x)"
  by (induction xs) auto

lemma find_filter_keys:
  "find (\<lambda>r. key r = k) (filter (\<lambda>r. key r \<noteq> j) rows) = (if k = j then None else find (\<lambda>r. key r = k) rows)"
  by (induction rows) auto

lemma find_row_upsert [dict_laws]:
  "find_row key k (upsert key row rows) = (if k = key row then Some row else find_row key k rows)"
  by (auto simp: find_row_def upsert_def find_append find_filter_keys split: option.split)

lemma find_row_delete [dict_laws]:
  "find_row key k (delete_row key j rows) = (if k = j then None else find_row key k rows)"
  by (simp add: find_row_def delete_row_def find_filter_keys)

lemma keyed_upsert [inv_intros]: "keyed key rows \<Longrightarrow> keyed key (upsert key row rows)"
  by (auto simp: keyed_def upsert_def distinct_map_filter)

lemma keyed_filter [inv_intros]: "keyed key rows \<Longrightarrow> keyed key (filter P rows)"
  by (simp add: keyed_def distinct_map_filter)

lemma find_row_filter_key:
  "find_row key k (filter (\<lambda>r. P (key r)) rows) = (if P k then find_row key k rows else None)"
  by (induction rows) (auto simp: find_row_def)

lemma find_row_None_iff: "find_row key k rows = None \<longleftrightarrow> k \<notin> key ` set rows"
  by (auto simp: find_row_def find_None_iff)

lemma find_row_SomeD: "find_row key k rows = Some r \<Longrightarrow> r \<in> set rows \<and> key r = k"
  unfolding find_row_def by (rule find_SomeD)

lemma find_row_mem: "keyed key rows \<Longrightarrow> find_row key (key r) rows = Some r \<longleftrightarrow> r \<in> set rows"
  unfolding find_row_def keyed_def by (induction rows) auto

end
