(* ===== verification/Control.thy ===== *)
theory Control
  imports Stores PostDb
begin

text \<open>
  Local content control and the moderation log (\<open>retiboard/db/database.py\<close>, from
  \<open>set_control\<close> on). A rule row stays when it is cleared, with \<open>is_active\<close> off; rows are in id
  order. \<open>now\<close> is \<open>int(time.time())\<close>.
\<close>

section \<open>Tables\<close>

datatype control_scope = Scope_identity | Scope_thread | Scope_post | Scope_attachment
datatype control_action = Action_block | Action_hide | Action_purge

type_synonym rule_key = "control_scope \<times> string \<times> control_action"

record rule_row =
  ru_scope :: control_scope
  ru_target :: string
  ru_action :: control_action
  ru_created_at :: int
  ru_reason :: string
  ru_active :: bool

datatype moderation_kind = Identity_ban | Attachment_ban

record action_row =
  ma_id :: nat
  ma_kind :: moderation_kind
  ma_target :: string
  ma_created_at :: int
  ma_reason :: string
  ma_active :: bool
  ma_reversed_at :: int

record target_row =
  mt_action :: nat
  mt_thread :: bool
  mt_target :: string

record control_db =
  cd_rules :: "rule_row list"
  cd_actions :: "action_row list"
  cd_targets :: "target_row list"

definition empty_control :: control_db where
  "empty_control = \<lparr>cd_rules = [], cd_actions = [], cd_targets = []\<rparr>"

definition rule_key :: "rule_row \<Rightarrow> rule_key" where
  "rule_key r = (ru_scope r, ru_target r, ru_action r)"

section \<open>Rules\<close>

text \<open>\<open>ON CONFLICT DO UPDATE\<close> keeps the row, and with it its id, in place.\<close>

definition set_control :: "int \<Rightarrow> rule_key \<Rightarrow> string \<Rightarrow> control_db \<Rightarrow> control_db" where
  "set_control now k reason c =
     (if find_row rule_key k (cd_rules c) = None then
        (case k of (sc, tg, ac) \<Rightarrow>
           c\<lparr>cd_rules := cd_rules c @ [\<lparr>ru_scope = sc, ru_target = tg, ru_action = ac,
               ru_created_at = now, ru_reason = reason, ru_active = True\<rparr>]\<rparr>)
      else c\<lparr>cd_rules := map (\<lambda>r. if rule_key r = k
               then r\<lparr>ru_created_at := now, ru_reason := reason, ru_active := True\<rparr> else r) (cd_rules c)\<rparr>)"

definition clear_control :: "rule_key \<Rightarrow> control_db \<Rightarrow> control_db" where
  "clear_control k c =
     c\<lparr>cd_rules := map (\<lambda>r. if rule_key r = k then r\<lparr>ru_active := False\<rparr> else r) (cd_rules c)\<rparr>"

definition has_control :: "rule_key \<Rightarrow> control_db \<Rightarrow> bool" where
  "has_control k c = list_ex (\<lambda>r. rule_key r = k \<and> ru_active r) (cd_rules c)"

record control_state =
  cs_blocked_identities :: "string list"
  cs_hidden_identities :: "string list"
  cs_hidden_threads :: "string list"
  cs_hidden_posts :: "string list"
  cs_purged_threads :: "string list"
  cs_purged_posts :: "string list"
  cs_banned_attachments :: "string list"

definition targets_of :: "control_scope \<Rightarrow> control_action \<Rightarrow> control_db \<Rightarrow> string list" where
  "targets_of sc ac c =
     map ru_target (filter (\<lambda>r. ru_active r \<and> ru_scope r = sc \<and> ru_action r = ac) (cd_rules c))"

definition get_control_state :: "control_db \<Rightarrow> control_state" where
  "get_control_state c =
     \<lparr>cs_blocked_identities = targets_of Scope_identity Action_block c,
      cs_hidden_identities = targets_of Scope_identity Action_hide c,
      cs_hidden_threads = targets_of Scope_thread Action_hide c,
      cs_hidden_posts = targets_of Scope_post Action_hide c,
      cs_purged_threads = targets_of Scope_thread Action_purge c,
      cs_purged_posts = targets_of Scope_post Action_purge c,
      cs_banned_attachments = targets_of Scope_attachment Action_block c\<rparr>"

definition hide_thread :: "int \<Rightarrow> string \<Rightarrow> string \<Rightarrow> control_db \<Rightarrow> control_db" where
  "hide_thread now t = set_control now (Scope_thread, t, Action_hide)"
definition unhide_thread :: "string \<Rightarrow> control_db \<Rightarrow> control_db" where
  "unhide_thread t = clear_control (Scope_thread, t, Action_hide)"
definition hide_post :: "int \<Rightarrow> string \<Rightarrow> string \<Rightarrow> control_db \<Rightarrow> control_db" where
  "hide_post now p = set_control now (Scope_post, p, Action_hide)"
definition unhide_post :: "string \<Rightarrow> control_db \<Rightarrow> control_db" where
  "unhide_post p = clear_control (Scope_post, p, Action_hide)"
definition mark_post_purged :: "int \<Rightarrow> string \<Rightarrow> string \<Rightarrow> control_db \<Rightarrow> control_db" where
  "mark_post_purged now p = set_control now (Scope_post, p, Action_purge)"
definition mark_thread_purged :: "int \<Rightarrow> string \<Rightarrow> string \<Rightarrow> control_db \<Rightarrow> control_db" where
  "mark_thread_purged now t = set_control now (Scope_thread, t, Action_purge)"
definition unpurge_post :: "string \<Rightarrow> control_db \<Rightarrow> control_db" where
  "unpurge_post p = clear_control (Scope_post, p, Action_purge)"
definition unpurge_thread :: "string \<Rightarrow> control_db \<Rightarrow> control_db" where
  "unpurge_thread t = clear_control (Scope_thread, t, Action_purge)"
definition hide_identity :: "int \<Rightarrow> string \<Rightarrow> string \<Rightarrow> control_db \<Rightarrow> control_db" where
  "hide_identity now i = set_control now (Scope_identity, i, Action_hide)"
definition unhide_identity :: "string \<Rightarrow> control_db \<Rightarrow> control_db" where
  "unhide_identity i = clear_control (Scope_identity, i, Action_hide)"
definition block_identity :: "int \<Rightarrow> string \<Rightarrow> string \<Rightarrow> control_db \<Rightarrow> control_db" where
  "block_identity now i = set_control now (Scope_identity, i, Action_block)"
definition unblock_identity :: "string \<Rightarrow> control_db \<Rightarrow> control_db" where
  "unblock_identity i = clear_control (Scope_identity, i, Action_block)"
definition ban_attachment :: "int \<Rightarrow> string \<Rightarrow> string \<Rightarrow> control_db \<Rightarrow> control_db" where
  "ban_attachment now h = set_control now (Scope_attachment, h, Action_block)"
definition unban_attachment :: "string \<Rightarrow> control_db \<Rightarrow> control_db" where
  "unban_attachment h = clear_control (Scope_attachment, h, Action_block)"

definition is_identity_blocked :: "string \<Rightarrow> control_db \<Rightarrow> bool" where
  "is_identity_blocked i c = (i \<noteq> [] \<and> has_control (Scope_identity, i, Action_block) c)"
definition is_identity_hidden :: "string \<Rightarrow> control_db \<Rightarrow> bool" where
  "is_identity_hidden i c = (i \<noteq> [] \<and> has_control (Scope_identity, i, Action_hide) c)"
definition is_attachment_banned :: "string \<Rightarrow> control_db \<Rightarrow> bool" where
  "is_attachment_banned h c = (h \<noteq> [] \<and> has_control (Scope_attachment, h, Action_block) c)"

section \<open>Moderation log\<close>

definition create_moderation_action ::
  "int \<Rightarrow> moderation_kind \<Rightarrow> string \<Rightarrow> string \<Rightarrow> control_db \<Rightarrow> nat \<times> control_db" where
  "create_moderation_action now kind target reason c =
     (let new_id = Suc (Max (insert 0 (ma_id ` set (cd_actions c))))
      in (new_id, c\<lparr>cd_actions := cd_actions c @ [\<lparr>ma_id = new_id, ma_kind = kind, ma_target = target,
            ma_created_at = now, ma_reason = reason, ma_active = True, ma_reversed_at = 0\<rparr>]\<rparr>))"

definition record_moderation_target :: "nat \<Rightarrow> bool \<Rightarrow> string \<Rightarrow> control_db \<Rightarrow> control_db" where
  "record_moderation_target aid thr target c =
     (let row = \<lparr>mt_action = aid, mt_thread = thr, mt_target = target\<rparr>
      in if row \<in> set (cd_targets c) then c else c\<lparr>cd_targets := cd_targets c @ [row]\<rparr>)"

definition tombstone_key :: "target_row \<Rightarrow> rule_key" where
  "tombstone_key t = (if mt_thread t then Scope_thread else Scope_post, mt_target t, Action_purge)"

definition targets_of_action :: "nat \<Rightarrow> control_db \<Rightarrow> target_row list" where
  "targets_of_action aid c = filter (\<lambda>t. mt_action t = aid) (cd_targets c)"

definition reverse_moderation_action :: "int \<Rightarrow> nat \<Rightarrow> control_db \<Rightarrow> nat \<times> control_db" where
  "reverse_moderation_action now aid c =
     (let ts = targets_of_action aid c;
          c1 = fold (\<lambda>t. clear_control (tombstone_key t)) ts c
      in (length ts, c1\<lparr>cd_actions := map (\<lambda>a. if ma_id a = aid
            then a\<lparr>ma_active := False, ma_reversed_at := now\<rparr> else a) (cd_actions c1)\<rparr>))"

definition get_active_moderation_action :: "moderation_kind \<Rightarrow> string \<Rightarrow> control_db \<Rightarrow> nat option" where
  "get_active_moderation_action kind target c =
     (case sort_desc ma_created_at
             (filter (\<lambda>a. ma_kind a = kind \<and> ma_target a = target \<and> ma_active a) (cd_actions c)) of
        [] \<Rightarrow> None
      | a # _ \<Rightarrow> Some (ma_id a))"

definition banned_rows :: "control_scope \<Rightarrow> control_db \<Rightarrow> (string \<times> int \<times> string) list" where
  "banned_rows sc c =
     map (\<lambda>r. (ru_target r, ru_created_at r, ru_reason r))
       (sort_desc ru_created_at
         (filter (\<lambda>r. ru_scope r = sc \<and> ru_action r = Action_block \<and> ru_active r) (cd_rules c)))"

definition get_banned_list ::
  "control_db \<Rightarrow> (string \<times> int \<times> string) list \<times> (string \<times> int \<times> string) list" where
  "get_banned_list c = (banned_rows Scope_identity c, banned_rows Scope_attachment c)"

section \<open>Post queries of the moderation operations\<close>

definition get_posts_by_identity :: "string \<Rightarrow> board_db \<Rightarrow> post list" where
  "get_posts_by_identity i db = filter (\<lambda>p. p_identity_hash p = i) (db_posts db)"

definition post_hashes :: "post \<Rightarrow> string list" where
  "post_hashes p = filter (\<lambda>h. h \<noteq> []) [p_content_hash p, p_attachment_content_hash p]"

definition get_post_blob_references :: "string \<Rightarrow> board_db \<Rightarrow> string list" where
  "get_post_blob_references pid db = (case get_post pid db of None \<Rightarrow> [] | Some p \<Rightarrow> post_hashes p)"

definition get_thread_blob_references :: "string \<Rightarrow> board_db \<Rightarrow> string list" where
  "get_thread_blob_references tid db = concat (map post_hashes (thread_rows tid (db_posts db)))"

definition delete_post_metadata :: "string \<Rightarrow> board_db \<Rightarrow> nat \<times> board_db" where
  "delete_post_metadata pid db =
     (length (filter (\<lambda>p. p_post_id p = pid) (db_posts db)),
      db\<lparr>db_posts := filter (\<lambda>p. p_post_id p \<noteq> pid) (db_posts db)\<rparr>)"

definition delete_thread_metadata :: "string \<Rightarrow> board_db \<Rightarrow> nat \<times> board_db" where
  "delete_thread_metadata tid db =
     (length (thread_rows tid (db_posts db)),
      db\<lparr>db_posts := filter (\<lambda>p. p_thread_id p \<noteq> tid) (db_posts db)\<rparr>)"

section \<open>The rules as a keyed store\<close>

definition rule_lookup :: "rule_key \<Rightarrow> control_db \<Rightarrow> unit option" where
  "rule_lookup k c = (if has_control k c then Some () else None)"

definition rule_write :: "int \<times> rule_key \<times> string \<Rightarrow> control_db \<Rightarrow> control_db" where
  "rule_write e = (case e of (now, k, reason) \<Rightarrow> set_control now k reason)"

lemma list_ex_relabel:
  assumes "\<And>r. rule_key (f r) = rule_key r" and "\<And>r. rule_key r \<noteq> k \<Longrightarrow> ru_active (f r) = ru_active r"
    and "\<And>r. rule_key r = k \<Longrightarrow> ru_active (f r) = v"
  shows "list_ex (\<lambda>r. rule_key r = j \<and> ru_active r) (map f rows) =
      (if j = k then v \<and> k \<in> rule_key ` set rows else list_ex (\<lambda>r. rule_key r = j \<and> ru_active r) rows)"
  using assms by (induction rows) auto

lemma has_control_set: "has_control j (set_control now k reason c) = (j = k \<or> has_control j c)"
proof (cases "find_row rule_key k (cd_rules c)")
  case None
  obtain sc tg ac where k: "k = (sc, tg, ac)" by (cases k)
  from None show ?thesis
    by (auto simp: has_control_def set_control_def k rule_key_def list_ex_iff)
next
  case (Some r)
  let ?f = "\<lambda>r. if rule_key r = k then r\<lparr>ru_created_at := now, ru_reason := reason, ru_active := True\<rparr> else r"
  have rules: "cd_rules (set_control now k reason c) = map ?f (cd_rules c)"
    using Some by (simp add: set_control_def)
  have "k \<in> rule_key ` set (cd_rules c)"
    using Some find_row_None_iff [of rule_key k "cd_rules c"] by simp
  then show ?thesis
    unfolding has_control_def rules
    by (subst list_ex_relabel [where k = k and v = True]) (auto simp: rule_key_def)
qed

lemma has_control_clear: "has_control j (clear_control k c) = (j \<noteq> k \<and> has_control j c)"
  unfolding has_control_def clear_control_def
  by (simp, subst list_ex_relabel [where k = k and v = False]) (auto simp: rule_key_def)

interpretation rules: key_store "\<lambda>_. True" "\<lambda>_. True" "\<lambda>(now, k, reason). k" "\<lambda>_. ()" rule_lookup rule_write clear_control
  by unfold_locales (auto simp: rule_lookup_def rule_write_def has_control_set has_control_clear)

lemma has_control_lookup: "has_control k c \<longleftrightarrow> rule_lookup k c \<noteq> None"
  by (simp add: rule_lookup_def)

lemma has_control_fold_clear: "has_control k (fold clear_control ks c) \<longleftrightarrow> k \<notin> set ks \<and> has_control k c"
  using rules.remove_all [where k = k and ks = ks and s = c] by (simp add: has_control_lookup)

section \<open>Properties\<close>

definition rule_step :: "(int \<times> rule_key \<times> string) + rule_key \<Rightarrow> control_db \<Rightarrow> control_db" where
  "rule_step x c = (case x of Inl e \<Rightarrow> rule_write e c | Inr k \<Rightarrow> clear_control k c)"

definition rule_of_step :: "(int \<times> rule_key \<times> string) + rule_key \<Rightarrow> rule_key" where
  "rule_of_step x = (case x of Inl (now, k, reason) \<Rightarrow> k | Inr k \<Rightarrow> k)"

lemma rule_step_store: "rule_step = rules.store_step"
  by (intro ext) (simp add: rule_step_def rules.store_step_def)

lemma rules_untouched: "rules.touches k x = (rule_of_step x = k)"
  by (auto simp: rules.touches_def rule_of_step_def split: sum.split prod.split)

lemma rules_all_valid: "rules.all_valid xs"
  by (auto simp: rules.all_valid_def list_all_iff split: sum.split)

text \<open>Also: the last operation on a rule decides whether it is in force, whatever was done before
  and whatever is done to other rules afterwards; hiding, blocking, purging and banning are such
  operations and their opposites clear exactly their own rule.\<close>

theorem last_rule_operation_decides:
  assumes "list_all (\<lambda>x. rule_of_step x \<noteq> k) ys"
  shows "has_control k (fold rule_step (xs @ Inl (now, k, reason) # ys) c) \<and>
    \<not> has_control k (fold rule_step (xs @ Inr k # ys) c) \<and>
    has_control k (fold rule_step ys c) = has_control k c"
  using assms rules.run_last_store [where e = "(now, k, reason)" and ys = ys and xs = xs and s = c]
    rules.run_last_remove [where k = k and ys = ys and xs = xs and s = c]
    rules.run_untouched [where k = k and xs = ys and s = c]
  by (simp_all only: has_control_lookup rule_step_store rules_untouched rules_all_valid split) simp_all

theorem last_rule_operation_decides_witness:
  "has_control (Scope_post, ''p1'', Action_hide)
     (fold rule_step ([Inr (Scope_post, ''p1'', Action_hide)] @ Inl (5, (Scope_post, ''p1'', Action_hide), ''r'') #
       [Inr (Scope_post, ''p1'', Action_purge), Inl (7, (Scope_thread, ''p1'', Action_hide), [])]) empty_control)
   \<and> is_identity_blocked ''i'' (hide_identity 3 ''i'' [] (block_identity 2 ''i'' [] empty_control))
   \<and> \<not> is_identity_blocked ''i'' (unblock_identity ''i'' (block_identity 2 ''i'' [] empty_control))"
proof (intro conjI)
  show "has_control (Scope_post, ''p1'', Action_hide)
     (fold rule_step ([Inr (Scope_post, ''p1'', Action_hide)] @ Inl (5, (Scope_post, ''p1'', Action_hide), ''r'') #
       [Inr (Scope_post, ''p1'', Action_purge), Inl (7, (Scope_thread, ''p1'', Action_hide), [])]) empty_control)"
    by (rule last_rule_operation_decides [THEN conjunct1]) (simp add: rule_of_step_def)
qed (simp_all add: is_identity_blocked_def hide_identity_def block_identity_def unblock_identity_def
      has_control_set has_control_clear)

lemma control_targets: "x \<in> set (targets_of sc ac c) \<longleftrightarrow> has_control (sc, x, ac) c"
  by (auto simp: targets_of_def has_control_def list_ex_iff rule_key_def)

text \<open>Also: the control state handed to the interface is exact: every listed target has its rule
  in force and every rule in force of a listed kind is listed.\<close>

theorem control_state_exact:
  "x \<in> set (cs_blocked_identities (get_control_state c)) \<longleftrightarrow> has_control (Scope_identity, x, Action_block) c"
  "x \<in> set (cs_hidden_identities (get_control_state c)) \<longleftrightarrow> has_control (Scope_identity, x, Action_hide) c"
  "x \<in> set (cs_hidden_threads (get_control_state c)) \<longleftrightarrow> has_control (Scope_thread, x, Action_hide) c"
  "x \<in> set (cs_hidden_posts (get_control_state c)) \<longleftrightarrow> has_control (Scope_post, x, Action_hide) c"
  "x \<in> set (cs_purged_threads (get_control_state c)) \<longleftrightarrow> has_control (Scope_thread, x, Action_purge) c"
  "x \<in> set (cs_purged_posts (get_control_state c)) \<longleftrightarrow> has_control (Scope_post, x, Action_purge) c"
  "x \<in> set (cs_banned_attachments (get_control_state c)) \<longleftrightarrow> has_control (Scope_attachment, x, Action_block) c"
  by (simp_all add: get_control_state_def control_targets)

lemma actions_fold_clear: "cd_actions (fold (\<lambda>t. clear_control (f t)) ts c) = cd_actions c"
  by (induction ts arbitrary: c) (simp_all add: clear_control_def)

lemma fold_clear_map: "fold (\<lambda>t. clear_control (f t)) ts = fold clear_control (map f ts)"
  by (intro ext) (simp add: fold_map comp_def)

lemma active_action_SomeD:
  assumes "get_active_moderation_action kind target c = Some a"
  shows "\<exists>r \<in> set (cd_actions c). ma_id r = a \<and> ma_active r \<and> ma_kind r = kind \<and> ma_target r = target"
proof -
  let ?xs = "filter (\<lambda>a. ma_kind a = kind \<and> ma_target a = target \<and> ma_active a) (cd_actions c)"
  obtain r rs where rs: "sort_desc ma_created_at ?xs = r # rs" and a: "a = ma_id r"
    using assms by (auto simp: get_active_moderation_action_def split: list.splits)
  have "r \<in> set (sort_desc ma_created_at ?xs)" by (simp add: rs)
  then show ?thesis using a by auto
qed

lemma reversal_parts:
  "fst (reverse_moderation_action now aid c) = length (targets_of_action aid c)"
  "has_control k (snd (reverse_moderation_action now aid c)) \<longleftrightarrow>
     has_control k c \<and> k \<notin> tombstone_key ` set (targets_of_action aid c)"
  "get_active_moderation_action kind target (snd (reverse_moderation_action now aid c)) \<noteq> Some aid"
proof -
  show "fst (reverse_moderation_action now aid c) = length (targets_of_action aid c)"
    by (simp add: reverse_moderation_action_def Let_def)
  have "has_control k (snd (reverse_moderation_action now aid c)) =
      has_control k (fold (\<lambda>t. clear_control (tombstone_key t)) (targets_of_action aid c) c)"
    by (simp add: reverse_moderation_action_def Let_def has_control_def)
  then show "has_control k (snd (reverse_moderation_action now aid c)) \<longleftrightarrow>
     has_control k c \<and> k \<notin> tombstone_key ` set (targets_of_action aid c)"
    by (subst (asm) fold_clear_map) (auto simp: has_control_fold_clear)
  show "get_active_moderation_action kind target (snd (reverse_moderation_action now aid c)) \<noteq> Some aid"
  proof
    assume "get_active_moderation_action kind target (snd (reverse_moderation_action now aid c)) = Some aid"
    from active_action_SomeD [OF this]
    obtain r where r: "r \<in> set (cd_actions (snd (reverse_moderation_action now aid c)))"
      "ma_id r = aid" "ma_active r" by blast
    from r(1) have "r \<in> (\<lambda>a. if ma_id a = aid then a\<lparr>ma_active := False, ma_reversed_at := now\<rparr> else a) `
        set (cd_actions (fold (\<lambda>t. clear_control (tombstone_key t)) (targets_of_action aid c) c))"
      by (simp add: reverse_moderation_action_def Let_def)
    then obtain a where "r = (if ma_id a = aid then a\<lparr>ma_active := False, ma_reversed_at := now\<rparr> else a)"
      by (rule imageE)
    with r(2,3) show False by (simp split: if_splits)
  qed
qed

text \<open>Also: reversing a moderation action lifts exactly the tombstones it recorded: their rules go
  out of force, every other rule keeps its state, the number of targets is reported, and no lookup
  returns the action as active any more.\<close>

theorem reversal_lifts_exactly_its_targets:
  "fst (reverse_moderation_action now aid c) = length (targets_of_action aid c) \<and>
   (has_control k (snd (reverse_moderation_action now aid c)) \<longleftrightarrow>
     has_control k c \<and> k \<notin> tombstone_key ` set (targets_of_action aid c)) \<and>
   get_active_moderation_action kind target (snd (reverse_moderation_action now aid c)) \<noteq> Some aid"
  by (intro conjI reversal_parts)

lemma new_action_fresh: "fst (create_moderation_action now kind target reason c) \<notin> ma_id ` set (cd_actions c)"
proof
  let ?S = "insert 0 (ma_id ` set (cd_actions c))"
  assume "fst (create_moderation_action now kind target reason c) \<in> ma_id ` set (cd_actions c)"
  then have "Suc (Max ?S) \<in> ?S" by (simp add: create_moderation_action_def Let_def)
  then have "Suc (Max ?S) \<le> Max ?S" by (intro Max_ge) auto
  then show False by simp
qed

end
