(* ===== verification/ChunkDb.thy ===== *)
theory ChunkDb
  imports Stores PostDb Chunks
begin

text \<open>
  The transfer tables of a board's database (\<open>retiboard/db/database.py\<close>, from
  \<open>save_chunk_manifest\<close> on): chunk manifests with their entries, fetch sessions, per-chunk request
  states, peer penalties and peer availability. Rows are in rowid order, integers outside 64 bits
  cannot be bound (\<^term>\<open>OverflowError\<close>), and the stored JSON of the ranges is the list it encodes.
  A failing \<open>executemany\<close> leaves the rows it has inserted, in the connection's open transaction.
\<close>

section \<open>Tables\<close>

record chunk_session =
  se_session_id :: string
  se_board_id :: string
  se_blob_hash :: string
  se_blob_kind :: blob_kind
  se_state :: string
  se_started_at :: int
  se_updated_at :: int
  se_expires_at :: int
  se_request_peer :: string

record request_row =
  rq_session_id :: string
  rq_chunk_index :: int
  rq_state :: string
  rq_assigned_peer :: string
  rq_request_id :: string
  rq_attempt_count :: int
  rq_deadline_at :: int
  rq_updated_at :: int

record penalty_row =
  pn_board_id :: string
  pn_peer :: string
  pn_timeout_count :: int
  pn_invalid_chunk_count :: int
  pn_success_count :: int
  pn_cooldown_until :: int
  pn_updated_at :: int

record availability_row =
  av_board_id :: string
  av_peer :: string
  av_blob_hash :: string
  av_chunk_count :: int
  av_complete :: bool
  av_ranges :: "(int \<times> int) list"
  av_last_seen_at :: int

record chunk_db =
  ck_manifests :: "(manifest \<times> int) list"
  ck_entries :: "manifest_entry list"
  ck_sessions :: "chunk_session list"
  ck_requests :: "request_row list"
  ck_penalties :: "penalty_row list"
  ck_availability :: "availability_row list"

definition empty_chunk_db :: chunk_db where
  "empty_chunk_db = \<lparr>ck_manifests = [], ck_entries = [], ck_sessions = [], ck_requests = [],
     ck_penalties = [], ck_availability = []\<rparr>"

text \<open>The primary keys.\<close>

definition manifest_key :: "manifest \<times> int \<Rightarrow> string" where
  "manifest_key r = mf_blob_hash (fst r)"
definition entry_key :: "manifest_entry \<Rightarrow> string \<times> nat" where
  "entry_key e = (me_blob_hash e, me_chunk_index e)"
definition request_key :: "request_row \<Rightarrow> string \<times> int" where
  "request_key r = (rq_session_id r, rq_chunk_index r)"
definition penalty_key :: "penalty_row \<Rightarrow> string \<times> string" where
  "penalty_key r = (pn_board_id r, pn_peer r)"
definition availability_key :: "availability_row \<Rightarrow> string \<times> string" where
  "availability_key r = (av_peer r, av_blob_hash r)"

section \<open>Manifests\<close>

definition manifest_bindable :: "manifest \<Rightarrow> int \<Rightarrow> bool" where
  "manifest_bindable m expires_at =
     list_all int64 [int (mf_blob_size m), mf_chunk_size m, int (mf_chunk_count m),
       mf_manifest_version m, mf_created_at m, expires_at]"

definition entry_bindable :: "manifest_entry \<Rightarrow> bool" where
  "entry_bindable e =
     list_all int64 [int (me_chunk_index e), int (me_offset e), int (me_size e)]"

text \<open>The \<open>executemany\<close> insert: the rows inserted, and the error that stopped it.\<close>

fun insert_entries :: "manifest_entry list \<Rightarrow> manifest_entry list \<Rightarrow> py_error option \<times> manifest_entry list" where
  "insert_entries [] rows = (None, rows)"
| "insert_entries (e # es) rows =
     (if \<not> entry_bindable e then (Some OverflowError, rows)
      else if entry_key e \<in> entry_key ` set rows then (Some IntegrityError, rows)
      else insert_entries es (rows @ [e]))"

definition save_chunk_manifest ::
  "manifest \<Rightarrow> manifest_entry list \<Rightarrow> int \<Rightarrow> chunk_db \<Rightarrow> (py_error \<times> chunk_db) + chunk_db" where
  "save_chunk_manifest m entries expires_at db =
     (if \<not> manifest_bindable m expires_at then Inl (OverflowError, db)
      else
        (let kept = filter (\<lambda>e. me_blob_hash e \<noteq> mf_blob_hash m) (ck_entries db);
             (err, rows) = insert_entries entries kept;
             db1 = db\<lparr>ck_manifests := upsert manifest_key (m, expires_at) (ck_manifests db),
                      ck_entries := rows\<rparr>
         in case err of Some e \<Rightarrow> Inl (e, db1) | None \<Rightarrow> Inr db1))"

definition load_chunk_manifest :: "string \<Rightarrow> chunk_db \<Rightarrow> (manifest \<times> manifest_entry list) option" where
  "load_chunk_manifest h db =
     (case find_row manifest_key h (ck_manifests db) of
        None \<Rightarrow> None
      | Some r \<Rightarrow> Some (fst r, sort_key me_chunk_index (filter (\<lambda>e. me_blob_hash e = h) (ck_entries db))))"

section \<open>Sessions and request states\<close>

definition session_bindable :: "chunk_session \<Rightarrow> bool" where
  "session_bindable s = list_all int64 [se_started_at s, se_updated_at s, se_expires_at s]"

definition put_session :: "chunk_session \<Rightarrow> chunk_db \<Rightarrow> chunk_db" where
  "put_session s db = db\<lparr>ck_sessions := upsert se_session_id s (ck_sessions db)\<rparr>"

definition save_chunk_fetch_session :: "chunk_session \<Rightarrow> chunk_db \<Rightarrow> py_error + chunk_db" where
  "save_chunk_fetch_session s db = (if session_bindable s then Inr (put_session s db) else Inl OverflowError)"

definition load_chunk_fetch_session :: "string \<Rightarrow> chunk_db \<Rightarrow> chunk_session option" where
  "load_chunk_fetch_session sid db = find_row se_session_id sid (ck_sessions db)"

definition load_latest_chunk_fetch_session_for_blob ::
  "string \<Rightarrow> string \<Rightarrow> chunk_db \<Rightarrow> chunk_session option" where
  "load_latest_chunk_fetch_session_for_blob board h db =
     (case sort_desc (\<lambda>s. (se_updated_at s, se_started_at s))
             (filter (\<lambda>s. se_board_id s = board \<and> se_blob_hash s = h) (ck_sessions db)) of
        [] \<Rightarrow> None
      | s # _ \<Rightarrow> Some s)"

definition request_bindable :: "request_row \<Rightarrow> bool" where
  "request_bindable r =
     list_all int64 [rq_chunk_index r, rq_attempt_count r, rq_deadline_at r, rq_updated_at r]"

definition put_request :: "request_row \<Rightarrow> chunk_db \<Rightarrow> chunk_db" where
  "put_request r db = db\<lparr>ck_requests := upsert request_key r (ck_requests db)\<rparr>"

definition save_chunk_request_state :: "request_row \<Rightarrow> chunk_db \<Rightarrow> py_error + chunk_db" where
  "save_chunk_request_state r db = (if request_bindable r then Inr (put_request r db) else Inl OverflowError)"

definition load_chunk_request_states :: "string \<Rightarrow> chunk_db \<Rightarrow> request_row list" where
  "load_chunk_request_states sid db =
     sort_key rq_chunk_index (filter (\<lambda>r. rq_session_id r = sid) (ck_requests db))"

definition delete_chunk_request_state :: "string \<times> int \<Rightarrow> chunk_db \<Rightarrow> chunk_db" where
  "delete_chunk_request_state k db = db\<lparr>ck_requests := delete_row request_key k (ck_requests db)\<rparr>"

section \<open>Penalties and availability\<close>

definition penalty_bindable :: "penalty_row \<Rightarrow> bool" where
  "penalty_bindable r = list_all int64 [pn_timeout_count r, pn_invalid_chunk_count r,
     pn_success_count r, pn_cooldown_until r, pn_updated_at r]"

definition put_penalty :: "penalty_row \<Rightarrow> chunk_db \<Rightarrow> chunk_db" where
  "put_penalty r db = db\<lparr>ck_penalties := upsert penalty_key r (ck_penalties db)\<rparr>"

definition upsert_chunk_peer_penalty :: "penalty_row \<Rightarrow> chunk_db \<Rightarrow> py_error + chunk_db" where
  "upsert_chunk_peer_penalty r db = (if penalty_bindable r then Inr (put_penalty r db) else Inl OverflowError)"

text \<open>No list of peers, or an empty one, means every peer of the board.\<close>

definition load_chunk_peer_penalties ::
  "string \<Rightarrow> string list option \<Rightarrow> chunk_db \<Rightarrow> (string, penalty_row) dict" where
  "load_chunk_peer_penalties board peers db =
     fold (\<lambda>r d. dput (pn_peer r) r d)
       (filter (\<lambda>r. pn_board_id r = board \<and>
            (case peers of None \<Rightarrow> True | Some ps \<Rightarrow> ps = [] \<or> pn_peer r \<in> set ps)) (ck_penalties db)) []"

definition put_availability :: "availability_row \<Rightarrow> chunk_db \<Rightarrow> chunk_db" where
  "put_availability r db = db\<lparr>ck_availability := upsert availability_key r (ck_availability db)\<rparr>"

definition upsert_peer_chunk_availability ::
  "int \<Rightarrow> string \<Rightarrow> string \<Rightarrow> string \<Rightarrow> int \<Rightarrow> bool \<Rightarrow> (int \<times> int) list \<Rightarrow> int option \<Rightarrow> chunk_db \<Rightarrow>
   py_error + chunk_db" where
  "upsert_peer_chunk_availability now board peer h chunk_count full ranges last_seen db =
     (let seen_at = (case last_seen of None \<Rightarrow> now | Some t \<Rightarrow> t)
      in if \<not> int64 chunk_count \<or> \<not> int64 seen_at then Inl OverflowError
         else Inr (put_availability \<lparr>av_board_id = board, av_peer = peer, av_blob_hash = h,
                av_chunk_count = chunk_count, av_complete = full, av_ranges = ranges,
                av_last_seen_at = seen_at\<rparr> db))"

definition load_peer_chunk_availability ::
  "string \<Rightarrow> string \<Rightarrow> chunk_db \<Rightarrow> (string, availability_row) dict" where
  "load_peer_chunk_availability board h db =
     fold (\<lambda>r d. dput (av_peer r) r d)
       (sort_desc av_last_seen_at
         (filter (\<lambda>r. av_board_id r = board \<and> av_blob_hash r = h) (ck_availability db))) []"

section \<open>Deletion by blob\<close>

definition delete_peer_chunk_availability_for_blobs :: "string list \<Rightarrow> chunk_db \<Rightarrow> nat \<times> chunk_db" where
  "delete_peer_chunk_availability_for_blobs hs db =
     (if hs = [] then (0, db)
      else (length (filter (\<lambda>r. av_blob_hash r \<in> set hs) (ck_availability db)),
            db\<lparr>ck_availability := filter (\<lambda>r. av_blob_hash r \<notin> set hs) (ck_availability db)\<rparr>))"

record deleted_counts =
  dc_manifests :: nat
  dc_sessions :: nat
  dc_request_states :: nat
  dc_availability_rows :: nat

definition delete_chunk_transfer_state_for_blobs :: "string list \<Rightarrow> chunk_db \<Rightarrow> deleted_counts \<times> chunk_db" where
  "delete_chunk_transfer_state_for_blobs hs db =
     (if hs = [] then
        (\<lparr>dc_manifests = 0, dc_sessions = 0, dc_request_states = 0, dc_availability_rows = 0\<rparr>, db)
      else
        (let session_ids = map se_session_id (filter (\<lambda>s. se_blob_hash s \<in> set hs) (ck_sessions db));
             requests = filter (\<lambda>r. rq_session_id r \<in> set session_ids) (ck_requests db);
             availability = filter (\<lambda>r. av_blob_hash r \<in> set hs) (ck_availability db)
         in (\<lparr>dc_manifests = length (filter (\<lambda>r. manifest_key r \<in> set hs) (ck_manifests db)),
              dc_sessions = length session_ids,
              dc_request_states = length requests,
              dc_availability_rows = length availability\<rparr>,
             db\<lparr>ck_requests := (if session_ids = [] then ck_requests db
                    else filter (\<lambda>r. rq_session_id r \<notin> set session_ids) (ck_requests db)),
                ck_entries := filter (\<lambda>e. me_blob_hash e \<notin> set hs) (ck_entries db),
                ck_manifests := filter (\<lambda>r. manifest_key r \<notin> set hs) (ck_manifests db),
                ck_sessions := filter (\<lambda>s. se_blob_hash s \<notin> set hs) (ck_sessions db),
                ck_availability := filter (\<lambda>r. av_blob_hash r \<notin> set hs) (ck_availability db)\<rparr>)))"

definition delete_chunk_manifests_for_blobs :: "string list \<Rightarrow> chunk_db \<Rightarrow> nat \<times> chunk_db" where
  "delete_chunk_manifests_for_blobs hs db =
     (let r = delete_chunk_transfer_state_for_blobs hs db in (dc_manifests (fst r), snd r))"

section \<open>Laws of the tables\<close>

definition lookup_request :: "string \<times> int \<Rightarrow> chunk_db \<Rightarrow> request_row option" where
  "lookup_request k db = find_row request_key k (ck_requests db)"

definition lookup_penalty :: "string \<times> string \<Rightarrow> chunk_db \<Rightarrow> penalty_row option" where
  "lookup_penalty k db = find_row penalty_key k (ck_penalties db)"

definition lookup_availability :: "string \<times> string \<Rightarrow> chunk_db \<Rightarrow> availability_row option" where
  "lookup_availability k db = find_row availability_key k (ck_availability db)"

interpretation sessions: write_store "\<lambda>_. True" "\<lambda>_. True" se_session_id "\<lambda>s. s" load_chunk_fetch_session put_session
  by unfold_locales (auto simp: load_chunk_fetch_session_def put_session_def dict_laws)

interpretation requests: key_store "\<lambda>_. True" "\<lambda>_. True" request_key "\<lambda>r. r" lookup_request put_request
    delete_chunk_request_state
  by unfold_locales
    (auto simp: lookup_request_def put_request_def delete_chunk_request_state_def dict_laws)

interpretation penalties: write_store "\<lambda>_. True" "\<lambda>_. True" penalty_key "\<lambda>r. r" lookup_penalty put_penalty
  by unfold_locales (auto simp: lookup_penalty_def put_penalty_def dict_laws)

interpretation availability: write_store "\<lambda>_. True" "\<lambda>_. True" availability_key "\<lambda>r. r" lookup_availability
    put_availability
  by unfold_locales (auto simp: lookup_availability_def put_availability_def dict_laws)

text \<open>No table has two rows of one key.\<close>

definition chunk_db_ok :: "chunk_db \<Rightarrow> bool" where
  "chunk_db_ok db = (keyed manifest_key (ck_manifests db) \<and> keyed entry_key (ck_entries db) \<and>
     keyed se_session_id (ck_sessions db) \<and> keyed request_key (ck_requests db) \<and>
     keyed penalty_key (ck_penalties db) \<and> keyed availability_key (ck_availability db))"

lemma keyed_snoc: "keyed key rows \<Longrightarrow> key r \<notin> key ` set rows \<Longrightarrow> keyed key (rows @ [r])"
  by (simp add: keyed_def)

lemma insert_entries_keyed: "keyed entry_key rows \<Longrightarrow> keyed entry_key (snd (insert_entries es rows))"
  by (induction es rows rule: insert_entries.induct) (simp_all add: keyed_snoc)

lemma insert_entries_ok:
  "list_all entry_bindable es \<Longrightarrow> keyed entry_key (rows @ es) \<Longrightarrow>
     insert_entries es rows = (None, rows @ es)"
  by (induction es arbitrary: rows) (auto simp: keyed_def)

lemma insert_entries_prefix:
  "\<exists>n. snd (insert_entries es rows) = rows @ take n es \<and> (fst (insert_entries es rows) = None \<longrightarrow> n = length es)"
proof (induction es rows rule: insert_entries.induct)
  case (1 rows)
  show ?case by simp
next
  case (2 e es rows)
  show ?case
  proof (cases "entry_bindable e \<and> entry_key e \<notin> entry_key ` set rows")
    case True
    with 2 have "\<exists>n. snd (insert_entries es (rows @ [e])) = (rows @ [e]) @ take n es \<and>
        (fst (insert_entries es (rows @ [e])) = None \<longrightarrow> n = length es)" by simp
    then obtain n where "snd (insert_entries es (rows @ [e])) = (rows @ [e]) @ take n es"
      "fst (insert_entries es (rows @ [e])) = None \<longrightarrow> n = length es" by (elim exE conjE)
    with True show ?thesis by (intro exI [of _ "Suc n"]) simp
  next
    case False
    then show ?thesis by (intro exI [of _ 0]) auto
  qed
qed

lemma save_chunk_manifest_keeps_ok:
  assumes "chunk_db_ok db"
  shows "case save_chunk_manifest m es x db of Inl (e, db') \<Rightarrow> chunk_db_ok db' | Inr db' \<Rightarrow> chunk_db_ok db'"
proof -
  have "keyed entry_key (snd (insert_entries es (filter (\<lambda>e. me_blob_hash e \<noteq> mf_blob_hash m) (ck_entries db))))"
    using assms by (auto simp: chunk_db_ok_def intro!: insert_entries_keyed inv_intros)
  then show ?thesis
    using assms by (auto simp: save_chunk_manifest_def chunk_db_ok_def Let_def case_prod_beta inv_intros split: option.split)
qed

lemma distinct_map_by: "distinct (map f xs) \<Longrightarrow> (\<And>x y. g x = g y \<Longrightarrow> f x = f y) \<Longrightarrow> distinct (map g xs)"
  unfolding distinct_map inj_on_def by blast

section \<open>Properties\<close>

text \<open>What the manifests table answers for a blob: the abstract view of it.\<close>

lemma load_after_save:
  assumes "save_chunk_manifest m es x db = Inr db'"
  shows "load_chunk_manifest h db' =
      (if h = mf_blob_hash m
       then Some (m, sort_key me_chunk_index (filter (\<lambda>e. me_blob_hash e = h) es))
       else if list_all (\<lambda>e. me_blob_hash e \<noteq> h) es then load_chunk_manifest h db
       else load_chunk_manifest h db')"
proof -
  let ?kept = "filter (\<lambda>e. me_blob_hash e \<noteq> mf_blob_hash m) (ck_entries db)"
  obtain n where n: "snd (insert_entries es ?kept) = ?kept @ take n es"
      "fst (insert_entries es ?kept) = None \<longrightarrow> n = length es"
    using insert_entries_prefix by blast
  from assms have db': "fst (insert_entries es ?kept) = None"
      "db' = db\<lparr>ck_manifests := upsert manifest_key (m, x) (ck_manifests db), ck_entries := ?kept @ es\<rparr>"
    using n by (auto simp: save_chunk_manifest_def Let_def case_prod_beta split: if_splits option.splits)
  have none: "filter (\<lambda>e. me_blob_hash e = h) es = []" if "list_all (\<lambda>e. me_blob_hash e \<noteq> h) es"
    using that by (auto simp: filter_empty_conv list_all_iff)
  show ?thesis
    unfolding db'(2) load_chunk_manifest_def
    by (auto simp: find_row_upsert manifest_key_def none conj_commute split: option.split cong: conj_cong)
qed

text \<open>Also: a saved manifest is loaded back with its entries in chunk order, exactly as saved, when
  its entries belong to its blob, are numbered apart and fit the columns; the manifests of all other
  blobs are as they were.\<close>

theorem chunk_manifest_save_load:
  assumes "manifest_bindable m x" and "list_all entry_bindable es"
    and "list_all (\<lambda>e. me_blob_hash e = mf_blob_hash m) es" and "distinct (map me_chunk_index es)"
    and "chunk_db_ok db"
  shows "\<exists>db'. save_chunk_manifest m es x db = Inr db' \<and> chunk_db_ok db' \<and>
      (\<forall>h. load_chunk_manifest h db' =
         (if h = mf_blob_hash m then Some (m, sort_key me_chunk_index es) else load_chunk_manifest h db))"
proof -
  let ?kept = "filter (\<lambda>e. me_blob_hash e \<noteq> mf_blob_hash m) (ck_entries db)"
  have "distinct (map entry_key es)"
    using assms(4) by (rule distinct_map_by) (simp add: entry_key_def)
  then have "keyed entry_key (?kept @ es)"
    using assms(3,5) by (auto simp: keyed_def chunk_db_ok_def distinct_map_filter entry_key_def list_all_iff)
  then have "insert_entries es ?kept = (None, ?kept @ es)"
    using assms(2) by (intro insert_entries_ok)
  then obtain db' where db': "save_chunk_manifest m es x db = Inr db'"
    using assms(1) by (simp add: save_chunk_manifest_def Let_def)
  have own: "filter (\<lambda>e. me_blob_hash e = mf_blob_hash m) es = es"
    using assms(3) by (simp add: filter_id_conv list_all_iff)
  have other: "list_all (\<lambda>e. me_blob_hash e \<noteq> h) es" if "h \<noteq> mf_blob_hash m" for h
    using assms(3) that by (auto simp: list_all_iff)
  have "load_chunk_manifest h db' =
      (if h = mf_blob_hash m then Some (m, sort_key me_chunk_index es) else load_chunk_manifest h db)" for h
    using load_after_save [OF db', of h] other [of h] own by (auto split: if_splits)
  moreover have "chunk_db_ok db'"
    using save_chunk_manifest_keeps_ok [OF assms(5), of m es x] db' by simp
  ultimately show ?thesis using db' by blast
qed

abbreviation sample_manifest :: manifest where
  "sample_manifest \<equiv> \<lparr>mf_manifest_version = 1, mf_board_id = ''b'', mf_post_id = ''p'', mf_thread_id = ''t'',
     mf_blob_kind = Text, mf_blob_hash = ''h'', mf_blob_size = 6, mf_chunk_size = 4, mf_chunk_count = 2,
     mf_merkle_root = None, mf_created_at = 10\<rparr>"

abbreviation sample_entry :: "nat \<Rightarrow> nat \<Rightarrow> nat \<Rightarrow> manifest_entry" where
  "sample_entry i off sz \<equiv> \<lparr>me_blob_hash = ''h'', me_chunk_index = i, me_offset = off, me_size = sz,
     me_chunk_hash = ''c''\<rparr>"

theorem chunk_manifest_save_load_witness:
  "\<exists>db'. save_chunk_manifest sample_manifest [sample_entry 1 4 2, sample_entry 0 0 4] 0 empty_chunk_db = Inr db' \<and>
     load_chunk_manifest ''h'' db' = Some (sample_manifest, [sample_entry 0 0 4, sample_entry 1 4 2]) \<and>
     load_chunk_manifest ''g'' db' = None"
proof -
  have "\<exists>db'. save_chunk_manifest sample_manifest [sample_entry 1 4 2, sample_entry 0 0 4] 0 empty_chunk_db = Inr db' \<and>
      chunk_db_ok db' \<and> (\<forall>h. load_chunk_manifest h db' = (if h = mf_blob_hash sample_manifest
        then Some (sample_manifest, sort_key me_chunk_index [sample_entry 1 4 2, sample_entry 0 0 4])
        else load_chunk_manifest h empty_chunk_db))"
    by (rule chunk_manifest_save_load)
      (simp_all add: manifest_bindable_def entry_bindable_def int64_def chunk_db_ok_def empty_chunk_db_def keyed_def)
  then show ?thesis by (auto simp: load_chunk_manifest_def empty_chunk_db_def find_row_def)
qed

text \<open>Also: a manifest naming one chunk twice is refused, and the connection is left with the new
  manifest and only the entries before the duplicate: a commit by a later operation makes the cut
  manifest visible.\<close>

theorem duplicate_entry_leaves_prefix:
  assumes "manifest_bindable m x" and "list_all entry_bindable es"
    and "list_all (\<lambda>e. me_blob_hash e = mf_blob_hash m) (es @ [d])" and "distinct (map me_chunk_index es)"
    and "entry_bindable d" and "me_chunk_index d \<in> me_chunk_index ` set es"
  shows "\<exists>db'. save_chunk_manifest m (es @ d # rest) x empty_chunk_db = Inl (IntegrityError, db') \<and>
      load_chunk_manifest (mf_blob_hash m) db' = Some (m, sort_key me_chunk_index es)"
proof -
  have k: "distinct (map entry_key es)"
    using assms(4) by (rule distinct_map_by) (simp add: entry_key_def)
  have dup: "entry_key d \<in> entry_key ` set es"
    using assms(3,6) by (auto simp: entry_key_def list_all_iff)
  have "insert_entries (es @ d # rest) rows = (Some IntegrityError, rows @ es)"
    if "keyed entry_key (rows @ es)" "entry_key d \<in> entry_key ` set (rows @ es)" for rows
    using that assms(2,5) by (induction es arbitrary: rows) (auto simp: keyed_def)
  from this [of "[]"] have "insert_entries (es @ d # rest) [] = (Some IntegrityError, es)"
    using k dup by (simp add: keyed_def)
  moreover have "filter (\<lambda>e. me_blob_hash e = mf_blob_hash m) es = es"
    using assms(3) by (simp add: filter_id_conv list_all_iff)
  ultimately show ?thesis
    using assms(1) by (simp add: save_chunk_manifest_def empty_chunk_db_def load_chunk_manifest_def
        upsert_def find_row_def manifest_key_def)
qed

theorem duplicate_entry_leaves_prefix_witness:
  "\<exists>db'. save_chunk_manifest sample_manifest [sample_entry 0 0 4, sample_entry 0 4 2] 0 empty_chunk_db =
       Inl (IntegrityError, db') \<and>
     load_chunk_manifest ''h'' db' = Some (sample_manifest, [sample_entry 0 0 4])"
  using duplicate_entry_leaves_prefix [of sample_manifest 0 "[sample_entry 0 0 4]" "sample_entry 0 4 2" "[]"]
  by (simp add: manifest_bindable_def entry_bindable_def int64_def)

definition sessions_of_blobs :: "string list \<Rightarrow> chunk_db \<Rightarrow> string set" where
  "sessions_of_blobs hs db = se_session_id ` {s \<in> set (ck_sessions db). se_blob_hash s \<in> set hs}"

abbreviation after_deletion :: "string list \<Rightarrow> chunk_db \<Rightarrow> chunk_db" where
  "after_deletion hs db \<equiv> snd (delete_chunk_transfer_state_for_blobs hs db)"

abbreviation deletion_counts :: "string list \<Rightarrow> chunk_db \<Rightarrow> deleted_counts" where
  "deletion_counts hs db \<equiv> fst (delete_chunk_transfer_state_for_blobs hs db)"

lemma after_deletion_eq:
  "after_deletion hs db = db\<lparr>
     ck_requests := filter (\<lambda>r. rq_session_id r \<notin> sessions_of_blobs hs db) (ck_requests db),
     ck_entries := filter (\<lambda>e. me_blob_hash e \<notin> set hs) (ck_entries db),
     ck_manifests := filter (\<lambda>r. manifest_key r \<notin> set hs) (ck_manifests db),
     ck_sessions := filter (\<lambda>s. se_blob_hash s \<notin> set hs) (ck_sessions db),
     ck_availability := filter (\<lambda>r. av_blob_hash r \<notin> set hs) (ck_availability db)\<rparr>"
proof -
  have ids: "set (map se_session_id (filter (\<lambda>s. se_blob_hash s \<in> set hs) (ck_sessions db))) = sessions_of_blobs hs db"
    by (simp add: sessions_of_blobs_def)
  have none: "sessions_of_blobs hs db = {}"
    if "map se_session_id (filter (\<lambda>s. se_blob_hash s \<in> set hs) (ck_sessions db)) = []"
    using that ids by (metis set_empty)
  show ?thesis
  proof (cases "hs = []")
    case True
    then show ?thesis by (simp add: delete_chunk_transfer_state_for_blobs_def sessions_of_blobs_def)
  next
    case False
    show ?thesis
    proof (cases "map se_session_id (filter (\<lambda>s. se_blob_hash s \<in> set hs) (ck_sessions db)) = []")
      case True
      from none [OF True] True False show ?thesis
        by (simp add: delete_chunk_transfer_state_for_blobs_def Let_def)
    next
      case nonempty: False
      then show ?thesis using False
        by (simp add: delete_chunk_transfer_state_for_blobs_def Let_def sessions_of_blobs_def)
    qed
  qed
qed

lemma filter_filter_if:
  "filter P (filter (\<lambda>x. f x \<notin> A) xs) = (if k \<in> A then [] else filter P xs)" if "\<And>x. P x \<Longrightarrow> f x = k"
  using that by (induction xs) auto

lemma loads_after_deletion:
  "load_chunk_manifest h (after_deletion hs db) = (if h \<in> set hs then None else load_chunk_manifest h db)"
  "load_chunk_request_states sid (after_deletion hs db) =
     (if sid \<in> sessions_of_blobs hs db then [] else load_chunk_request_states sid db)"
  "load_peer_chunk_availability b h (after_deletion hs db) =
     (if h \<in> set hs then [] else load_peer_chunk_availability b h db)"
proof -
  have e: "filter (\<lambda>e. me_blob_hash e = h) (filter (\<lambda>e. me_blob_hash e \<notin> set hs) (ck_entries db)) =
      (if h \<in> set hs then [] else filter (\<lambda>e. me_blob_hash e = h) (ck_entries db))"
    by (rule filter_filter_if) simp
  show "load_chunk_manifest h (after_deletion hs db) = (if h \<in> set hs then None else load_chunk_manifest h db)"
    unfolding after_deletion_eq load_chunk_manifest_def
    by (simp add: find_row_filter_key [of manifest_key h "\<lambda>k. k \<notin> set hs"] e
        del: filter_filter split: option.split)
  have r: "filter (\<lambda>r. rq_session_id r = sid)
        (filter (\<lambda>r. rq_session_id r \<notin> sessions_of_blobs hs db) (ck_requests db)) =
      (if sid \<in> sessions_of_blobs hs db then [] else filter (\<lambda>r. rq_session_id r = sid) (ck_requests db))"
    by (rule filter_filter_if) simp
  show "load_chunk_request_states sid (after_deletion hs db) =
     (if sid \<in> sessions_of_blobs hs db then [] else load_chunk_request_states sid db)"
    unfolding after_deletion_eq load_chunk_request_states_def by (simp del: filter_filter add: r)
  have a: "filter (\<lambda>r. av_board_id r = b \<and> av_blob_hash r = h)
        (filter (\<lambda>r. av_blob_hash r \<notin> set hs) (ck_availability db)) =
      (if h \<in> set hs then [] else filter (\<lambda>r. av_board_id r = b \<and> av_blob_hash r = h) (ck_availability db))"
    by (rule filter_filter_if) simp
  show "load_peer_chunk_availability b h (after_deletion hs db) =
     (if h \<in> set hs then [] else load_peer_chunk_availability b h db)"
    unfolding after_deletion_eq load_peer_chunk_availability_def by (simp del: filter_filter add: a sort_desc_def)
qed

lemma deletion_count_facts:
  "dc_manifests (deletion_counts hs db) + length (ck_manifests (after_deletion hs db)) = length (ck_manifests db)"
  "dc_sessions (deletion_counts hs db) + length (ck_sessions (after_deletion hs db)) = length (ck_sessions db)"
  "dc_request_states (deletion_counts hs db) + length (ck_requests (after_deletion hs db)) = length (ck_requests db)"
  "dc_availability_rows (deletion_counts hs db) + length (ck_availability (after_deletion hs db)) =
     length (ck_availability db)"
  by (auto simp: delete_chunk_transfer_state_for_blobs_def Let_def sum_length_filter_compl filter_empty_conv)

text \<open>Also: deleting the transfer state of some blobs removes exactly their manifests with entries,
  sessions, the request states of those sessions and availability rows; everything else is
  untouched, peer penalties included, and the reported counts are the numbers of rows gone.\<close>

theorem transfer_state_deleted_exactly:
  "load_chunk_manifest h (after_deletion hs db) = (if h \<in> set hs then None else load_chunk_manifest h db) \<and>
   ck_sessions (after_deletion hs db) = filter (\<lambda>s. se_blob_hash s \<notin> set hs) (ck_sessions db) \<and>
   load_chunk_request_states sid (after_deletion hs db) =
     (if sid \<in> se_session_id ` {s \<in> set (ck_sessions db). se_blob_hash s \<in> set hs} then []
      else load_chunk_request_states sid db) \<and>
   load_peer_chunk_availability b h (after_deletion hs db) =
     (if h \<in> set hs then [] else load_peer_chunk_availability b h db) \<and>
   ck_penalties (after_deletion hs db) = ck_penalties db \<and>
   dc_manifests (deletion_counts hs db) + length (ck_manifests (after_deletion hs db)) = length (ck_manifests db) \<and>
   dc_sessions (deletion_counts hs db) + length (ck_sessions (after_deletion hs db)) = length (ck_sessions db) \<and>
   dc_request_states (deletion_counts hs db) + length (ck_requests (after_deletion hs db)) = length (ck_requests db) \<and>
   dc_availability_rows (deletion_counts hs db) + length (ck_availability (after_deletion hs db)) =
     length (ck_availability db)"
  by (intro conjI deletion_count_facts loads_after_deletion loads_after_deletion(2) [unfolded sessions_of_blobs_def])
    (simp_all add: after_deletion_eq)

section \<open>Resuming a session\<close>

definition request_step :: "request_row + string \<times> int \<Rightarrow> chunk_db \<Rightarrow> chunk_db" where
  "request_step x db = (case x of Inl r \<Rightarrow> put_request r db | Inr k \<Rightarrow> delete_chunk_request_state k db)"

definition key_of_step :: "request_row + string \<times> int \<Rightarrow> string \<times> int" where
  "key_of_step x = (case x of Inl r \<Rightarrow> request_key r | Inr k \<Rightarrow> k)"

lemma request_step_store: "request_step = requests.store_step"
  by (intro ext) (simp add: request_step_def requests.store_step_def)

lemma requests_untouched: "requests.touches k x = (key_of_step x = k)"
  by (auto simp: requests.touches_def key_of_step_def split: sum.split)

lemma requests_all_valid: "requests.all_valid xs"
  by (auto simp: requests.all_valid_def list_all_iff split: sum.split)

lemma request_steps_keyed:
  "keyed request_key (ck_requests db) \<Longrightarrow> keyed request_key (ck_requests (fold request_step xs db))"
  by (induction xs arbitrary: db)
    (auto simp: request_step_def put_request_def delete_chunk_request_state_def delete_row_def inv_intros
      split: sum.split)

lemma loaded_request_iff:
  "keyed request_key (ck_requests db) \<Longrightarrow> r \<in> set (load_chunk_request_states sid db) \<longleftrightarrow>
     rq_session_id r = sid \<and> lookup_request (request_key r) db = Some r"
  by (auto simp: load_chunk_request_states_def lookup_request_def find_row_mem)

lemma distinct_indices:
  "distinct (map request_key (filter (\<lambda>r. rq_session_id r = sid) rows)) \<Longrightarrow>
     distinct (map rq_chunk_index (filter (\<lambda>r. rq_session_id r = sid) rows))"
  by (induction rows) (auto simp: request_key_def)

lemma request_states_parts:
  assumes "keyed request_key (ck_requests db)"
    and "list_all (\<lambda>x. key_of_step x \<noteq> (rq_session_id r, rq_chunk_index r)) ys"
  shows "q \<in> set (load_chunk_request_states (rq_session_id r) (fold request_step (xs @ Inl r # ys) db)) \<and>
       rq_chunk_index q = rq_chunk_index r \<longleftrightarrow> q = r"
    and "rq_chunk_index r \<notin> rq_chunk_index ` set (load_chunk_request_states (rq_session_id r)
       (fold request_step (xs @ Inr (rq_session_id r, rq_chunk_index r) # ys) db))"
    and "sorted_wrt (<) (map rq_chunk_index (load_chunk_request_states sid (fold request_step ys db)))"
proof -
  let ?k = "(rq_session_id r, rq_chunk_index r)"
  have unt: "list_all (\<lambda>x. \<not> requests.touches ?k x) ys"
    using assms(2) by (simp add: requests_untouched)
  have 1: "lookup_request ?k (fold request_step (xs @ Inl r # ys) db) = Some r"
    using requests.run_last_store [where e = r and ys = ys and xs = xs and s = db] unt
    unfolding request_step_store by (simp add: request_key_def requests_all_valid)
  have 2: "lookup_request ?k (fold request_step (xs @ Inr ?k # ys) db) = None"
    using requests.run_last_remove [where k = ?k and ys = ys and xs = xs and s = db] unt
    unfolding request_step_store by (simp add: requests_all_valid)
  note iff = loaded_request_iff [OF request_steps_keyed [OF assms(1)]]
  show "q \<in> set (load_chunk_request_states (rq_session_id r) (fold request_step (xs @ Inl r # ys) db)) \<and>
       rq_chunk_index q = rq_chunk_index r \<longleftrightarrow> q = r"
  proof (intro iffI conjI; (elim conjE)?)
    assume q: "q \<in> set (load_chunk_request_states (rq_session_id r) (fold request_step (xs @ Inl r # ys) db))"
      "rq_chunk_index q = rq_chunk_index r"
    from q(1) have s: "rq_session_id q = rq_session_id r"
      and l: "lookup_request (request_key q) (fold request_step (xs @ Inl r # ys) db) = Some q"
      unfolding iff by simp_all
    from s q(2) have "request_key q = ?k" by (simp add: request_key_def)
    with l 1 show "q = r" by simp
  next
    assume "q = r"
    then show "q \<in> set (load_chunk_request_states (rq_session_id r) (fold request_step (xs @ Inl r # ys) db))"
      unfolding iff using 1 by (simp add: request_key_def)
  qed simp
  show "rq_chunk_index r \<notin> rq_chunk_index ` set (load_chunk_request_states (rq_session_id r)
       (fold request_step (xs @ Inr ?k # ys) db))"
  proof
    assume "rq_chunk_index r \<in> rq_chunk_index ` set (load_chunk_request_states (rq_session_id r)
       (fold request_step (xs @ Inr ?k # ys) db))"
    then obtain q where q: "rq_chunk_index q = rq_chunk_index r"
      "q \<in> set (load_chunk_request_states (rq_session_id r) (fold request_step (xs @ Inr ?k # ys) db))"
      by force
    from q(2) have "rq_session_id q = rq_session_id r"
      and l: "lookup_request (request_key q) (fold request_step (xs @ Inr ?k # ys) db) = Some q"
      unfolding iff by simp_all
    with q(1) have "request_key q = ?k" by (simp add: request_key_def)
    with l 2 show False by simp
  qed
  let ?rows = "filter (\<lambda>r. rq_session_id r = sid) (ck_requests (fold request_step ys db))"
  have "distinct (map request_key ?rows)"
    using request_steps_keyed [OF assms(1), of ys] by (simp add: keyed_def distinct_map_filter)
  from distinct_indices [OF this]
  have "distinct (map rq_chunk_index (load_chunk_request_states sid (fold request_step ys db)))"
    by (simp add: load_chunk_request_states_def distinct_map)
  then show "sorted_wrt (<) (map rq_chunk_index (load_chunk_request_states sid (fold request_step ys db)))"
    by (simp add: strict_sorted_iff) (simp add: load_chunk_request_states_def)
qed

text \<open>Also: whatever sequence of saves and deletions of request states ran, a reload of the session
  finds for a chunk exactly the state saved last, nothing when it was deleted last, and lists the
  chunks in strictly increasing order.\<close>

theorem request_states_resume_last_saved:
  assumes "keyed request_key (ck_requests db)"
    and "list_all (\<lambda>x. key_of_step x \<noteq> (rq_session_id r, rq_chunk_index r)) ys"
  shows "(q \<in> set (load_chunk_request_states (rq_session_id r) (fold request_step (xs @ Inl r # ys) db)) \<and>
       rq_chunk_index q = rq_chunk_index r \<longleftrightarrow> q = r) \<and>
    rq_chunk_index r \<notin> rq_chunk_index ` set (load_chunk_request_states (rq_session_id r)
       (fold request_step (xs @ Inr (rq_session_id r, rq_chunk_index r) # ys) db)) \<and>
    sorted_wrt (<) (map rq_chunk_index (load_chunk_request_states sid (fold request_step ys db)))"
  using request_states_parts [OF assms] by blast

abbreviation sample_request :: "int \<Rightarrow> string \<Rightarrow> request_row" where
  "sample_request i st \<equiv> \<lparr>rq_session_id = ''s'', rq_chunk_index = i, rq_state = st, rq_assigned_peer = [],
     rq_request_id = [], rq_attempt_count = 0, rq_deadline_at = 0, rq_updated_at = 1\<rparr>"

theorem request_states_resume_last_saved_witness:
  "sample_request 1 ''stored'' \<in> set (load_chunk_request_states ''s''
     (fold request_step ([Inl (sample_request 1 ''missing'')] @ Inl (sample_request 1 ''stored'') #
        [Inl (sample_request 0 ''missing''), Inr (''s'', 2)]) empty_chunk_db))"
  using request_states_resume_last_saved [THEN conjunct1, of empty_chunk_db "sample_request 1 ''stored''"
      "[Inl (sample_request 0 ''missing''), Inr (''s'', 2)]" "sample_request 1 ''stored''"
      "[Inl (sample_request 1 ''missing'')]"]
  by (simp add: keyed_def empty_chunk_db_def key_of_step_def request_key_def)

end
