(* ===== verification/Payloads.thy ===== *)
theory Payloads
  imports Stores Sha256
begin

text \<open>
  The payload store (\<open>retiboard/storage/payloads.py\<close> with the directory functions of
  \<open>retiboard/db/database.py\<close>) over an explicit file system. A file system maps absolute paths, as
  lists of names, to files and directories; symbolic links, permissions and length limits are not
  modelled. Paths are joined as \<open>pathlib\<close> joins them and resolved as the system resolves them, so
  \<open>..\<close> and absolute names have their effect. A failing operation returns the exception with the
  file system as it is left.
\<close>

section \<open>File system\<close>

datatype node = Dir | File bytes

type_synonym path = "string list"
type_synonym fs = "(path, node) dict"
type_synonym 'a fs_result = "py_error \<times> fs + 'a \<times> fs"

definition node_at :: "fs \<Rightarrow> path \<Rightarrow> node option" where
  "node_at f p = (if p = [] then Some Dir else dget f p)"

text \<open>Resolution from the root: every name but the last has to be a directory.\<close>

fun walk :: "fs \<Rightarrow> path \<Rightarrow> string list \<Rightarrow> path option" where
  "walk f cur [] = Some cur"
| "walk f cur (c # cs) =
     (if node_at f cur \<noteq> Some Dir then None
      else walk f (if c = ''..'' then butlast cur else cur @ [c]) cs)"

definition resolved :: "fs \<Rightarrow> string list \<Rightarrow> (path \<times> node) option" where
  "resolved f names =
     (case walk f [] names of None \<Rightarrow> None | Some p \<Rightarrow> map_option (Pair p) (node_at f p))"

text \<open>\<open>Path.__truediv__\<close>: the right side is split at slashes, empty and \<open>.\<close> parts vanish, and an
  absolute right side replaces the left.\<close>

fun split_slash :: "string \<Rightarrow> string list" where
  "split_slash [] = [[]]"
| "split_slash (c # cs) =
     (if c = CHR ''/'' then [] # split_slash cs
      else (case split_slash cs of [] \<Rightarrow> [[c]] | p # ps \<Rightarrow> (c # p) # ps))"

definition path_parts :: "string \<Rightarrow> string list" where
  "path_parts s = filter (\<lambda>p. p \<noteq> [] \<and> p \<noteq> ''.'') (split_slash s)"

definition path_join :: "string list \<Rightarrow> string \<Rightarrow> string list" where
  "path_join base s = (if s \<noteq> [] \<and> hd s = CHR ''/'' then path_parts s else base @ path_parts s)"

definition has_children :: "fs \<Rightarrow> path \<Rightarrow> bool" where
  "has_children f p = list_ex (\<lambda>(q, _). q \<noteq> [] \<and> butlast q = p) f"

definition unlink :: "string list \<Rightarrow> fs \<Rightarrow> unit fs_result" where
  "unlink names f =
     (case resolved f names of
        None \<Rightarrow> Inl (FileNotFoundError, f)
      | Some (p, Dir) \<Rightarrow> Inl (OSError, f)
      | Some (p, File _) \<Rightarrow> Inr ((), dpop p f))"

definition rmdir :: "string list \<Rightarrow> fs \<Rightarrow> unit fs_result" where
  "rmdir names f =
     (case resolved f names of
        None \<Rightarrow> Inl (FileNotFoundError, f)
      | Some (p, File _) \<Rightarrow> Inl (OSError, f)
      | Some (p, Dir) \<Rightarrow> if p = [] \<or> has_children f p then Inl (OSError, f) else Inr ((), dpop p f))"

text \<open>\<open>Path.mkdir(parents=True, exist_ok=True)\<close>, the ancestors first.\<close>

fun make_dirs :: "fs \<Rightarrow> path \<Rightarrow> string list \<Rightarrow> (py_error \<times> fs) + path \<times> fs" where
  "make_dirs f cur [] = Inr (cur, f)"
| "make_dirs f cur (c # cs) =
     (let p = (if c = ''..'' then butlast cur else cur @ [c])
      in case node_at f p of
           Some Dir \<Rightarrow> make_dirs f p cs
         | Some (File _) \<Rightarrow> Inl (OSError, f)
         | None \<Rightarrow> make_dirs (dput p Dir f) p cs)"

definition write_bytes :: "string list \<Rightarrow> bytes \<Rightarrow> fs \<Rightarrow> unit fs_result" where
  "write_bytes names data f =
     (case walk f [] names of
        None \<Rightarrow> Inl (FileNotFoundError, f)
      | Some p \<Rightarrow>
          (case node_at f p of
             Some Dir \<Rightarrow> Inl (OSError, f)
           | _ \<Rightarrow> if node_at f (butlast p) = Some Dir then Inr ((), dput p (File data) f)
                   else Inl (FileNotFoundError, f)))"

text \<open>\<open>rename\<close> replaces a file by a file.\<close>

definition rename :: "string list \<Rightarrow> string list \<Rightarrow> fs \<Rightarrow> unit fs_result" where
  "rename src dst f =
     (case resolved f src of
        None \<Rightarrow> Inl (FileNotFoundError, f)
      | Some (p, Dir) \<Rightarrow> Inl (OSError, f)
      | Some (p, File data) \<Rightarrow>
          (case walk f [] dst of
             None \<Rightarrow> Inl (FileNotFoundError, f)
           | Some q \<Rightarrow>
               (if node_at f q = Some Dir then Inl (OSError, f)
                else if node_at f (butlast q) \<noteq> Some Dir then Inl (FileNotFoundError, f)
                else Inr ((), dput q (File data) (dpop p f)))))"

section \<open>Directories of a board\<close>

text \<open>\<open>home\<close> is \<open>BOARDS_DIR\<close>.\<close>

definition board_dir :: "path \<Rightarrow> string \<Rightarrow> string list" where
  "board_dir home board = path_join home board"
definition board_db_path :: "path \<Rightarrow> string \<Rightarrow> string list" where
  "board_db_path home board = path_join (board_dir home board) ''meta.db''"
definition board_payloads_dir :: "path \<Rightarrow> string \<Rightarrow> string list" where
  "board_payloads_dir home board = path_join (board_dir home board) ''payloads''"
definition board_chunk_cache_dir :: "path \<Rightarrow> string \<Rightarrow> string list" where
  "board_chunk_cache_dir home board = path_join (board_dir home board) ''chunk_cache''"
definition is_board_subscribed :: "path \<Rightarrow> string \<Rightarrow> fs \<Rightarrow> bool" where
  "is_board_subscribed home board f = (resolved f (board_db_path home board) \<noteq> None)"

section \<open>Payload files\<close>

definition payload_path :: "path \<Rightarrow> string \<Rightarrow> string \<Rightarrow> string list" where
  "payload_path home board h = path_join (board_payloads_dir home board) (h @ ''.bin'')"

text \<open>\<open>with_suffix(".tmp")\<close> of a name ending in \<open>.bin\<close>; the name \<open>.bin\<close> has no suffix.\<close>

definition tmp_name :: "string \<Rightarrow> string" where
  "tmp_name n = (if n = ''.bin'' then ''.bin.tmp'' else take (length n - 4) n @ ''.tmp'')"

text \<open>The handler of a failed write: \<open>tmp.unlink(missing_ok=True)\<close>, then the error is raised again.\<close>

definition abandon_write :: "py_error \<Rightarrow> string list \<Rightarrow> fs \<Rightarrow> 'a fs_result" where
  "abandon_write e tmp f =
     (case unlink tmp f of
        Inr (_, f1) \<Rightarrow> Inl (e, f1)
      | Inl (e1, f1) \<Rightarrow> Inl (if e1 = FileNotFoundError then e else e1, f1))"

definition write_payload :: "path \<Rightarrow> string \<Rightarrow> string \<Rightarrow> bytes \<Rightarrow> bool \<Rightarrow> fs \<Rightarrow> string list fs_result" where
  "write_payload home board h data verify_hash f =
     (if verify_hash \<and> sha256_hex data \<noteq> h then Inl (ValueError, f)
      else
        (let target = payload_path home board h;
             tmp = butlast target @ [tmp_name (last target)]
         in case make_dirs f [] (butlast target) of
              Inl e \<Rightarrow> Inl e
            | Inr (_, f1) \<Rightarrow>
                (case write_bytes tmp data f1 of
                   Inl (e, f2) \<Rightarrow> abandon_write e tmp f2
                 | Inr (_, f2) \<Rightarrow>
                     (case rename tmp target f2 of
                        Inl (e, f3) \<Rightarrow> abandon_write e tmp f3
                      | Inr (_, f3) \<Rightarrow> Inr (target, f3)))))"

definition read_payload :: "path \<Rightarrow> string \<Rightarrow> string \<Rightarrow> fs \<Rightarrow> py_error + bytes option" where
  "read_payload home board h f =
     (case resolved f (payload_path home board h) of
        None \<Rightarrow> Inr None
      | Some (_, Dir) \<Rightarrow> Inl OSError
      | Some (_, File data) \<Rightarrow> Inr (Some data))"

definition delete_payload :: "path \<Rightarrow> string \<Rightarrow> string \<Rightarrow> fs \<Rightarrow> bool fs_result" where
  "delete_payload home board h f =
     (case resolved f (payload_path home board h) of
        None \<Rightarrow> Inr (False, f)
      | Some _ \<Rightarrow>
          (case unlink (payload_path home board h) f of
             Inl e \<Rightarrow> Inl e
           | Inr (_, f1) \<Rightarrow> Inr (True, f1)))"

definition payload_exists :: "path \<Rightarrow> string \<Rightarrow> string \<Rightarrow> fs \<Rightarrow> bool" where
  "payload_exists home board h f = (resolved f (payload_path home board h) \<noteq> None)"

text \<open>The size a file system reports for a directory is not modelled.\<close>

definition get_payload_size :: "path \<Rightarrow> string \<Rightarrow> string \<Rightarrow> fs \<Rightarrow> nat option" where
  "get_payload_size home board h f =
     (case resolved f (payload_path home board h) of
        Some (_, File data) \<Rightarrow> Some (length data)
      | _ \<Rightarrow> None)"

text \<open>The two bulk deletions: each counts the deletions that found something, and stops at an error.\<close>

fun delete_bulk :: "(string \<Rightarrow> fs \<Rightarrow> bool fs_result) \<Rightarrow> string list \<Rightarrow> nat \<Rightarrow> fs \<Rightarrow> nat fs_result" where
  "delete_bulk del [] n f = Inr (n, f)"
| "delete_bulk del (h # hs) n f =
     (case del h f of
        Inl e \<Rightarrow> Inl e
      | Inr (found, f1) \<Rightarrow> delete_bulk del hs (if found then Suc n else n) f1)"

definition delete_payloads_bulk :: "path \<Rightarrow> string \<Rightarrow> string list \<Rightarrow> fs \<Rightarrow> nat fs_result" where
  "delete_payloads_bulk home board hs f = delete_bulk (delete_payload home board) hs 0 f"

section \<open>Chunk cache\<close>

definition chunk_cache_dir :: "path \<Rightarrow> string \<Rightarrow> string \<Rightarrow> string list" where
  "chunk_cache_dir home board h = path_join (board_chunk_cache_dir home board) h"
definition chunk_assembly_path :: "path \<Rightarrow> string \<Rightarrow> string \<Rightarrow> string list" where
  "chunk_assembly_path home board h = path_join (chunk_cache_dir home board h) ''assembly.tmp''"

definition below :: "path \<Rightarrow> path \<Rightarrow> bool" where
  "below d p = (length d < length p \<and> take (length d) p = d)"

text \<open>\<open>sorted(cache_dir.rglob('*'), reverse=True)\<close>, as paths relative to the directory.\<close>

definition descendants :: "fs \<Rightarrow> path \<Rightarrow> path list" where
  "descendants f d = rev (sort (map (\<lambda>(p, _). drop (length d) p) (filter (\<lambda>(p, _). below d p) f)))"

fun delete_children :: "string list \<Rightarrow> path list \<Rightarrow> fs \<Rightarrow> unit fs_result" where
  "delete_children cache [] f = Inr ((), f)"
| "delete_children cache (rel # rels) f =
     (case resolved f (cache @ rel) of
        None \<Rightarrow> delete_children cache rels f
      | Some (p, File _) \<Rightarrow> delete_children cache rels (dpop p f)
      | Some (p, Dir) \<Rightarrow>
          (case rmdir (cache @ rel) f of
             Inl e \<Rightarrow> Inl e
           | Inr (_, f1) \<Rightarrow> delete_children cache rels f1))"

definition delete_chunk_cache :: "path \<Rightarrow> string \<Rightarrow> string \<Rightarrow> fs \<Rightarrow> bool fs_result" where
  "delete_chunk_cache home board h f =
     (let cache = chunk_cache_dir home board h
      in case resolved f cache of
           None \<Rightarrow> Inr (False, f)
         | Some (d, _) \<Rightarrow>
             (case delete_children cache (descendants f d) f of
                Inl e \<Rightarrow> Inl e
              | Inr (_, f1) \<Rightarrow>
                  (case rmdir cache f1 of Inl e \<Rightarrow> Inl e | Inr (_, f2) \<Rightarrow> Inr (True, f2))))"

definition delete_chunk_cache_bulk :: "path \<Rightarrow> string \<Rightarrow> string list \<Rightarrow> fs \<Rightarrow> nat fs_result" where
  "delete_chunk_cache_bulk home board hs f = delete_bulk (delete_chunk_cache home board) hs 0 f"

end
