(* ===== verification/PayloadsSafe.thy ===== *)
theory PayloadsSafe
  imports Payloads
begin

text \<open>
  Properties of the payload store: resolution of clean paths, the payload files of a board as a
  keyed store, the exact effect of deleting a chunk cache, and what a hash that is not a plain name
  does to both.
\<close>

section \<open>Well-formed file systems\<close>

definition clean :: "string list \<Rightarrow> bool" where
  "clean p = list_all (\<lambda>c. c \<noteq> ''..'') p"

definition entry_ok :: "fs \<Rightarrow> path \<Rightarrow> bool" where
  "entry_ok f p = (p \<noteq> [] \<and> clean p \<and> node_at f (butlast p) = Some Dir)"

definition fs_ok :: "fs \<Rightarrow> bool" where
  "fs_ok f = (dict_ok f \<and> list_all (entry_ok f) (map fst f))"

lemma fs_okD: "fs_ok f \<Longrightarrow> dget f p = Some n \<Longrightarrow> entry_ok f p"
  by (auto simp: fs_ok_def list_all_iff dest!: map_of_SomeD)

lemma fs_ok_parent: "fs_ok f \<Longrightarrow> node_at f p = Some n \<Longrightarrow> p \<noteq> [] \<Longrightarrow> node_at f (butlast p) = Some Dir"
  using fs_okD [of f p n] by (auto simp: node_at_def entry_ok_def)

lemma fs_ok_clean: "fs_ok f \<Longrightarrow> node_at f p = Some n \<Longrightarrow> clean p"
  using fs_okD [of f p n] by (cases p) (auto simp: node_at_def entry_ok_def clean_def)

lemma fs_ok_prefix:
  "fs_ok f \<Longrightarrow> node_at f (p @ q) = Some n \<Longrightarrow> q \<noteq> [] \<Longrightarrow> node_at f p = Some Dir"
proof (induction q arbitrary: n rule: rev_induct)
  case Nil
  then show ?case by simp
next
  case (snoc x q)
  have parent: "node_at f (p @ q) = Some Dir"
    using fs_ok_parent [OF snoc.prems(1,2)] by (simp add: butlast_append)
  show ?case
  proof (cases "q = []")
    case True
    with parent show ?thesis by simp
  next
    case False
    with snoc.IH [OF snoc.prems(1) parent] show ?thesis by simp
  qed
qed

lemma walk_append:
  "walk f cur (xs @ ys) = (case walk f cur xs of None \<Rightarrow> None | Some p \<Rightarrow> walk f p ys)"
  by (induction xs arbitrary: cur) auto

lemma walk_clean_Some: "clean q \<Longrightarrow> walk f cur q = Some r \<Longrightarrow> r = cur @ q"
proof (induction q arbitrary: cur)
  case (Cons a q)
  then have "walk f (cur @ [a]) q = Some r" and "clean q" by (auto simp: clean_def split: if_splits)
  with Cons.IH show ?case by fastforce
qed simp

lemma walk_clean:
  assumes "fs_ok f" and "clean q" and "q \<noteq> []" and "node_at f (cur @ butlast q) = Some Dir"
  shows "walk f cur q = Some (cur @ q)"
  using assms(2-4)
proof (induction q arbitrary: cur)
  case Nil
  then show ?case by simp
next
  case (Cons c q)
  have cur: "node_at f cur = Some Dir"
    using fs_ok_prefix [OF assms(1), of cur "butlast (c # q)" Dir] Cons.prems(3)
    by (cases "butlast (c # q) = []") auto
  show ?case
  proof (cases "q = []")
    case True
    with cur Cons.prems(1) show ?thesis by (simp add: clean_def)
  next
    case False
    with cur Cons.prems Cons.IH [of "cur @ [c]"] show ?thesis by (simp add: clean_def)
  qed
qed

lemma resolved_clean:
  assumes "fs_ok f" and "clean p"
  shows "resolved f p = map_option (Pair p) (node_at f p)"
proof (cases "node_at f p")
  case None
  then show ?thesis
    using walk_clean_Some [OF assms(2), of f "[]"] by (auto simp: resolved_def split: option.split)
next
  case (Some n)
  have "walk f [] p = Some p"
  proof (cases "p = []")
    case False
    with walk_clean [OF assms False, of "[]"] fs_ok_parent [OF assms(1) Some False] show ?thesis by simp
  qed simp
  with Some show ?thesis by (simp add: resolved_def)
qed

lemma has_children_iff:
  "fs_ok f \<Longrightarrow> has_children f p \<longleftrightarrow> (\<exists>x. node_at f (p @ [x]) \<noteq> None)"
proof
  assume "has_children f p"
  then obtain q n where "(q, n) \<in> set f" "q \<noteq> []" "butlast q = p"
    by (auto simp: has_children_def list_ex_iff)
  then show "\<exists>x. node_at f (p @ [x]) \<noteq> None"
    by (intro exI [of _ "last q"]) (auto simp: node_at_def map_of_eq_None_iff image_iff intro!: bexI)
next
  assume "\<exists>x. node_at f (p @ [x]) \<noteq> None"
  then obtain x n where "dget f (p @ [x]) = Some n" by (auto simp: node_at_def)
  then have "(p @ [x], n) \<in> set f" by (rule map_of_SomeD)
  then show "has_children f p" by (auto simp: has_children_def list_ex_iff intro!: bexI [of _ "(p @ [x], n)"])
qed

lemma file_no_children: "fs_ok f \<Longrightarrow> node_at f p = Some (File d) \<Longrightarrow> \<not> has_children f p"
  using fs_ok_parent [of f "p @ [_]"] by (fastforce simp: has_children_iff)

lemma node_at_dpop: "p \<noteq> [] \<Longrightarrow> node_at (dpop p f) q = (if q = p then None else node_at f q)"
  by (auto simp: node_at_def dict_laws)

lemma node_at_dput: "p \<noteq> [] \<Longrightarrow> node_at (dput p n f) q = (if q = p then Some n else node_at f q)"
  by (auto simp: node_at_def dict_laws)

lemma fs_ok_dpop:
  assumes "fs_ok f" and "\<not> has_children f p"
  shows "fs_ok (dpop p f)"
proof -
  have "entry_ok (dpop p f) q" if "(q, n) \<in> set (dpop p f)" for q n
  proof -
    from that have q: "(q, n) \<in> set f" "q \<noteq> p" by (auto simp: dpop_filter)
    with assms(1) have ok: "entry_ok f q" by (auto simp: fs_ok_def list_all_iff)
    with q assms(2) have "butlast q \<noteq> p" by (auto simp: has_children_def list_ex_iff entry_ok_def)
    with ok show ?thesis by (auto simp: entry_ok_def node_at_def dict_laws)
  qed
  with assms(1) show ?thesis by (auto simp: fs_ok_def list_all_iff)
qed

lemma fs_ok_dput:
  assumes "fs_ok f" and "entry_ok f p" and "n = Dir \<or> \<not> has_children f p"
  shows "fs_ok (dput p n f)"
proof -
  have "entry_ok (dput p n f) q" if "dget (dput p n f) q = Some m" for q m
  proof -
    from that have ok: "entry_ok f q"
      using assms(1,2) fs_okD [of f q m] by (auto simp: dict_laws split: if_splits)
    show ?thesis
    proof (cases "butlast q = p")
      case True
      have "n = Dir"
      proof (rule ccontr)
        assume "n \<noteq> Dir"
        with assms(3) have nc: "\<not> has_children f p" by simp
        have "q \<noteq> p" using ok True by (cases q rule: rev_cases) (auto simp: entry_ok_def)
        with that have "(q, m) \<in> set f" by (auto simp: dict_laws dest!: map_of_SomeD)
        with nc ok True show False by (auto simp: has_children_def list_ex_iff entry_ok_def)
      qed
      with ok True show ?thesis by (auto simp: entry_ok_def node_at_def dict_laws)
    next
      case False
      with ok show ?thesis by (auto simp: entry_ok_def node_at_def dict_laws)
    qed
  qed
  moreover have d: "dict_ok (dput p n f)" using assms(1) by (simp add: fs_ok_def)
  moreover have "dget (dput p n f) q = Some m" if "(q, m) \<in> set (dput p n f)" for q m
    using d that by (rule map_of_is_SomeI)
  ultimately show ?thesis unfolding fs_ok_def list_all_iff by auto
qed

lemma mem_node: "(p, n) \<in> set f \<Longrightarrow> node_at f p \<noteq> None"
  by (auto simp: node_at_def dest: weak_map_of_SomeI)

lemma node_mem: "node_at f p \<noteq> None \<Longrightarrow> p = [] \<or> p \<in> fst ` set f"
  using map_of_eq_None_iff [of f p] by (auto simp: node_at_def)

section \<open>Deleting a tree\<close>

lemma list_less_snoc: "(xs :: 'a::linorder list) < xs @ [x]"
  by (induction xs) simp_all

lemma below_iff: "below d p \<longleftrightarrow> (\<exists>rel. rel \<noteq> [] \<and> p = d @ rel)"
proof
  assume "below d p"
  then show "\<exists>rel. rel \<noteq> [] \<and> p = d @ rel"
    by (intro exI [of _ "drop (length d) p"]) (auto simp: below_def, metis append_take_drop_id)
qed (auto simp: below_def)

text \<open>The paths of a directory's tree, deepest parts last in order: deleting from the end of that order
  never meets a directory that still has something in it.\<close>

definition lists_tree :: "fs \<Rightarrow> path \<Rightarrow> path list \<Rightarrow> bool" where
  "lists_tree f d rels = (distinct rels \<and> sorted (rev rels) \<and>
     (\<forall>rel. rel \<in> set rels \<longleftrightarrow> rel \<noteq> [] \<and> node_at f (d @ rel) \<noteq> None))"

lemma lists_tree_descendants: "fs_ok f \<Longrightarrow> lists_tree f d (descendants f d)"
proof -
  assume ok: "fs_ok f"
  have inj: "inj_on (drop (length d)) {p. below d p}"
    by (auto simp: inj_on_def below_iff)
  have d: "map (\<lambda>(p, _). drop (length d) p) (filter (\<lambda>(p, _). below d p) f) =
      map (drop (length d)) (filter (below d) (map fst f))"
    by (induction f) auto
  have "distinct (map (drop (length d)) (filter (below d) (map fst f)))"
    using ok inj by (auto simp: fs_ok_def distinct_map inj_on_def)
  moreover have "rel \<in> set (descendants f d) \<longleftrightarrow> rel \<noteq> [] \<and> node_at f (d @ rel) \<noteq> None" for rel
  proof -
    have "rel \<in> set (descendants f d) \<longleftrightarrow> (\<exists>p \<in> fst ` set f. below d p \<and> rel = drop (length d) p)"
      by (simp only: descendants_def d) auto
    also have "\<dots> \<longleftrightarrow> rel \<noteq> [] \<and> d @ rel \<in> fst ` set f"
      unfolding below_iff by (metis append_eq_conv_conj)
    also have "\<dots> \<longleftrightarrow> rel \<noteq> [] \<and> node_at f (d @ rel) \<noteq> None"
      using node_mem [of f "d @ rel"] mem_node [of "d @ rel" _ f] by auto
    finally show ?thesis .
  qed
  ultimately show ?thesis by (simp add: lists_tree_def descendants_def d)
qed

lemma lists_tree_step:
  assumes "lists_tree f d (rel # rels)"
  shows "\<not> has_children f (d @ rel) \<or> \<not> fs_ok f" and "lists_tree (dpop (d @ rel) f) d rels"
proof -
  have max: "r \<le> rel" if "r \<in> set (rel # rels)" for r
    using that assms by (auto simp: lists_tree_def sorted_append)
  have "\<not> has_children f (d @ rel)" if "fs_ok f"
  proof
    assume "has_children f (d @ rel)"
    then have "\<exists>x. node_at f (d @ (rel @ [x])) \<noteq> None"
      unfolding has_children_iff [OF that] by simp
    then obtain x where "node_at f (d @ (rel @ [x])) \<noteq> None" ..
    then have "rel @ [x] \<in> set (rel # rels)" using assms by (auto simp: lists_tree_def)
    from max [OF this] list_less_snoc [of rel x] show False by simp
  qed
  then show "\<not> has_children f (d @ rel) \<or> \<not> fs_ok f" by blast
  have "rel \<noteq> []" using assms by (auto simp: lists_tree_def)
  then show "lists_tree (dpop (d @ rel) f) d rels"
    using assms by (auto simp: lists_tree_def sorted_append node_at_dpop)
qed

lemma delete_children_tree:
  assumes "fs_ok f" and "clean d" and "lists_tree f d rels"
  shows "delete_children d rels f = Inr ((), filter (\<lambda>(p, _). \<not> below d p) f)"
  using assms
proof (induction rels arbitrary: f)
  case Nil
  have "\<not> below d p" if "(p, n) \<in> set f" for p n
  proof
    assume "below d p"
    then obtain rel where "rel \<noteq> []" "p = d @ rel" by (auto simp: below_iff)
    with mem_node [OF that] Nil.prems(3) show False by (auto simp: lists_tree_def)
  qed
  then have "filter (\<lambda>(p, _). \<not> below d p) f = f" by (auto simp: filter_id_conv)
  then show ?case by simp
next
  case (Cons rel rels)
  let ?p = "d @ rel"
  note step = lists_tree_step [OF Cons.prems(3)]
  have nc: "\<not> has_children f ?p" using step(1) Cons.prems(1) by blast
  from Cons.prems(3) obtain n where n: "node_at f ?p = Some n" "rel \<noteq> []" by (auto simp: lists_tree_def)
  have "resolved f ?p = Some (?p, n)"
    using resolved_clean [OF Cons.prems(1) fs_ok_clean [OF Cons.prems(1) n(1)]] n(1) by simp
  then have "delete_children d (rel # rels) f = delete_children d rels (dpop ?p f)"
    using nc n(2) by (cases n) (simp_all add: rmdir_def)
  also have "\<dots> = Inr ((), filter (\<lambda>(p, _). \<not> below d p) (dpop ?p f))"
    using fs_ok_dpop [OF Cons.prems(1) nc] Cons.prems(2) step(2) by (rule Cons.IH)
  also have "filter (\<lambda>(p, _). \<not> below d p) (dpop ?p f) = filter (\<lambda>(p, _). \<not> below d p) f"
  proof -
    have "below d ?p" using n(2) by (auto simp: below_iff)
    then show ?thesis unfolding dpop_filter filter_filter by (intro filter_cong) auto
  qed
  finally show ?case .
qed

text \<open>Names without slashes or dots-only parts, the shape of a SHA-256 digest or a board id.\<close>

definition plain_name :: "string \<Rightarrow> bool" where
  "plain_name s = (s \<noteq> [] \<and> s \<noteq> ''.'' \<and> s \<noteq> ''..'' \<and> CHR ''/'' \<notin> set s)"

lemma split_slash_plain: "CHR ''/'' \<notin> set s \<Longrightarrow> split_slash s = [s]"
  by (induction s) auto

lemma path_join_plain: "plain_name s \<Longrightarrow> path_join base s = base @ [s]"
  by (cases s) (auto simp: plain_name_def path_join_def path_parts_def split_slash_plain)

lemma chunk_cache_dir_plain:
  "plain_name board \<Longrightarrow> plain_name h \<Longrightarrow> chunk_cache_dir home board h = home @ [board, ''chunk_cache'', h]"
  by (simp add: chunk_cache_dir_def board_chunk_cache_dir_def board_dir_def path_join_plain plain_name_def)

lemma clean_append [simp]: "clean (p @ q) = (clean p \<and> clean q)"
  by (simp add: clean_def)

lemma clean_cache: "clean home \<Longrightarrow> plain_name board \<Longrightarrow> plain_name h \<Longrightarrow> clean (home @ [board, ''chunk_cache'', h])"
  by (simp add: clean_def plain_name_def)

lemma fs_ok_subtree:
  assumes "fs_ok f"
  shows "fs_ok (filter (\<lambda>(p, _). \<not> below d p) f)"
proof -
  have get: "dget (filter (\<lambda>(p, _). \<not> below d p) f) p = (if below d p then None else dget f p)" for p
    by (induction f) auto
  have "entry_ok (filter (\<lambda>(p, _). \<not> below d p) f) p" if "(p, n) \<in> set f" "\<not> below d p" for p n
  proof -
    from that(1) assms have ok: "entry_ok f p" by (auto simp: fs_ok_def list_all_iff)
    have "\<not> below d (butlast p)"
    proof
      assume "below d (butlast p)"
      then obtain rel where "butlast p = d @ rel" "rel \<noteq> []" by (auto simp: below_iff)
      then have "p = d @ (rel @ [last p])" using ok by (metis append.assoc append_butlast_last_id entry_ok_def)
      with that(2) show False by (auto simp: below_iff)
    qed
    with ok show ?thesis by (auto simp: entry_ok_def node_at_def get)
  qed
  with assms show ?thesis by (auto simp: fs_ok_def list_all_iff)
qed

text \<open>What the deletion does whenever the cache path, as joined, has no \<open>..\<close> part.\<close>

lemma in_tree_iff: "take (length d) p = d \<longleftrightarrow> p = d \<or> below d p"
proof
  assume t: "take (length d) p = d"
  then show "p = d \<or> below d p"
    using append_take_drop_id [of "length d" p] unfolding below_iff t by (metis append_Nil2)
qed (auto simp: below_iff)

lemma delete_tree_exact:
  assumes "fs_ok f" and "clean d" and "d \<noteq> []" and d: "chunk_cache_dir home board h = d"
    and "node_at f d = Some Dir"
  shows "delete_chunk_cache home board h f = Inr (True, filter (\<lambda>(p, _). take (length d) p \<noteq> d) f)"
proof -
  let ?g = "filter (\<lambda>(p, _). \<not> below d p) f"
  have del: "delete_children d (descendants f d) f = Inr ((), ?g)"
    using assms(1,2) lists_tree_descendants [OF assms(1)] by (rule delete_children_tree)
  have ok: "fs_ok ?g" using assms(1) by (rule fs_ok_subtree)
  have get: "node_at ?g p = (if below d p then None else node_at f p)" for p
    by (induction f) (auto simp: node_at_def below_def)
  have "\<not> has_children ?g d"
    unfolding has_children_iff [OF ok] get by (simp add: below_def)
  moreover have "\<not> below d d" by (simp add: below_def)
  ultimately have "rmdir d ?g = Inr ((), dpop d ?g)"
    using resolved_clean [OF ok assms(2)] assms(3,5) by (simp add: rmdir_def get)
  then have "delete_chunk_cache home board h f = Inr (True, dpop d ?g)"
    using del assms(5) by (simp add: delete_chunk_cache_def d resolved_clean [OF assms(1,2)] Let_def)
  also have "dpop d ?g = filter (\<lambda>(p, _). take (length d) p \<noteq> d) f"
    unfolding dpop_filter filter_filter by (rule filter_cong) (auto simp: in_tree_iff)
  finally show ?thesis .
qed

lemma delete_tree_absent:
  assumes "fs_ok f" and "clean d" and d: "chunk_cache_dir home board h = d" and "node_at f d = None"
  shows "delete_chunk_cache home board h f = Inr (False, filter (\<lambda>(p, _). take (length d) p \<noteq> d) f)"
proof -
  have "take (length d) p \<noteq> d" if "(p, n) \<in> set f" for p n
  proof
    assume "take (length d) p = d"
    then obtain rel where rel: "p = d @ rel" by (metis append_take_drop_id)
    from mem_node [OF that] obtain m where m: "node_at f (d @ rel) = Some m" unfolding rel by auto
    with fs_ok_prefix [OF assms(1) m] assms(4) show False by (cases "rel = []") auto
  qed
  then have "filter (\<lambda>(p, _). take (length d) p \<noteq> d) f = f" by (auto simp: filter_id_conv)
  with assms(4) show ?thesis
    by (simp add: delete_chunk_cache_def d resolved_clean [OF assms(1,2)] Let_def)
qed

text \<open>Also: deleting the chunk cache of a plainly named blob removes its directory with everything
  below it, files and directories in whatever nesting, and nothing else of the file system; it
  reports whether there was one and never fails.\<close>

theorem chunk_cache_deleted_exactly:
  assumes "fs_ok f" and "clean home" and "plain_name board" and "plain_name h"
    and "node_at f (home @ [board, ''chunk_cache'', h]) \<in> {None, Some Dir}"
  shows "delete_chunk_cache home board h f =
    Inr (node_at f (home @ [board, ''chunk_cache'', h]) \<noteq> None,
      filter (\<lambda>(p, _). take (length home + 3) p \<noteq> home @ [board, ''chunk_cache'', h]) f)"
proof -
  let ?d = "home @ [board, ''chunk_cache'', h]"
  have d: "chunk_cache_dir home board h = ?d" using assms(3,4) by (rule chunk_cache_dir_plain)
  have cl: "clean ?d" using assms(2-4) by (rule clean_cache)
  have len: "length ?d = length home + 3" by simp
  show ?thesis
    using delete_tree_exact [OF assms(1) cl _ d] delete_tree_absent [OF assms(1) cl d] assms(5)
    unfolding len by auto
qed

abbreviation sample_fs :: fs where
  "sample_fs \<equiv> [([''h''], Dir), ([''h'', ''b''], Dir), ([''h'', ''b'', ''chunk_cache''], Dir),
     ([''h'', ''b'', ''chunk_cache'', ''x''], Dir), ([''h'', ''b'', ''chunk_cache'', ''x'', ''d''], Dir),
     ([''h'', ''b'', ''chunk_cache'', ''x'', ''d'', ''0.part''], File [1]),
     ([''h'', ''b'', ''chunk_cache'', ''x'', ''assembly.tmp''], File [2]),
     ([''h'', ''b'', ''chunk_cache'', ''y''], Dir), ([''h'', ''b'', ''payloads''], Dir)]"

theorem chunk_cache_deleted_exactly_witness:
  "delete_chunk_cache [''h''] ''b'' ''x'' sample_fs =
     Inr (True, [([''h''], Dir), ([''h'', ''b''], Dir), ([''h'', ''b'', ''chunk_cache''], Dir),
       ([''h'', ''b'', ''chunk_cache'', ''y''], Dir), ([''h'', ''b'', ''payloads''], Dir)])"
  using chunk_cache_deleted_exactly [of sample_fs "[''h'']" "''b''" "''x''"]
  by (simp add: fs_ok_def entry_ok_def clean_def plain_name_def node_at_def)

text \<open>Also: the blob hash is joined into the path unchecked. An absolute hash makes the deletion
  remove that whole tree wherever it lies, and an empty one removes the chunk caches of every blob
  of the board.\<close>

theorem unchecked_hash_deletes_elsewhere:
  assumes "fs_ok f" and "clean home" and "plain_name board"
    and "clean (path_parts (CHR ''/'' # rest))" and "path_parts (CHR ''/'' # rest) \<noteq> []"
    and "node_at f (path_parts (CHR ''/'' # rest)) = Some Dir"
    and "node_at f (home @ [board, ''chunk_cache'']) = Some Dir"
  shows "delete_chunk_cache home board (CHR ''/'' # rest) f =
      Inr (True, filter (\<lambda>(p, _). take (length (path_parts (CHR ''/'' # rest))) p \<noteq> path_parts (CHR ''/'' # rest)) f) \<and>
    delete_chunk_cache home board [] f =
      Inr (True, filter (\<lambda>(p, _). take (length home + 2) p \<noteq> home @ [board, ''chunk_cache'']) f)"
proof
  have "chunk_cache_dir home board (CHR ''/'' # rest) = path_parts (CHR ''/'' # rest)"
    by (simp add: chunk_cache_dir_def path_join_def)
  from delete_tree_exact [OF assms(1,4,5) this assms(6)]
  show "delete_chunk_cache home board (CHR ''/'' # rest) f =
      Inr (True, filter (\<lambda>(p, _). take (length (path_parts (CHR ''/'' # rest))) p \<noteq> path_parts (CHR ''/'' # rest)) f)" .
  let ?d = "home @ [board, ''chunk_cache'']"
  have d: "chunk_cache_dir home board [] = ?d"
    using assms(3) by (simp add: chunk_cache_dir_def board_chunk_cache_dir_def board_dir_def path_join_plain
        plain_name_def) (simp add: path_join_def path_parts_def)
  have "clean ?d" using assms(2,3) by (simp add: clean_def plain_name_def)
  from delete_tree_exact [OF assms(1) this _ d assms(7)]
  show "delete_chunk_cache home board [] f =
      Inr (True, filter (\<lambda>(p, _). take (length home + 2) p \<noteq> home @ [board, ''chunk_cache'']) f)" by simp
qed

theorem unchecked_hash_deletes_elsewhere_witness:
  "delete_chunk_cache [''h''] ''b'' ''/h/b/payloads'' sample_fs =
     Inr (True, filter (\<lambda>(p, _). p \<noteq> [''h'', ''b'', ''payloads'']) sample_fs) \<and>
   delete_chunk_cache [''h''] ''b'' [] sample_fs =
     Inr (True, [([''h''], Dir), ([''h'', ''b''], Dir), ([''h'', ''b'', ''payloads''], Dir)])"
  using unchecked_hash_deletes_elsewhere [of sample_fs "[''h'']" "''b''" "''h/b/payloads''"]
  by (simp add: fs_ok_def entry_ok_def clean_def plain_name_def node_at_def path_parts_def)

section \<open>Payload files as a content-addressed store\<close>

abbreviation payloads_of :: "path \<Rightarrow> string \<Rightarrow> path" where
  "payloads_of home board \<equiv> home @ [board, ''payloads'']"

text \<open>The payload directory is there and holds no directories.\<close>

definition payload_inv :: "path \<Rightarrow> string \<Rightarrow> fs \<Rightarrow> bool" where
  "payload_inv home board f = (clean home \<and> plain_name board \<and> fs_ok f \<and>
     node_at f (payloads_of home board) = Some Dir \<and>
     list_all (\<lambda>(p, n). n = Dir \<longrightarrow> butlast p \<noteq> payloads_of home board) f)"

lemma no_dir_in_payloads:
  assumes "fs_ok f" and "d \<noteq> []"
  shows "list_all (\<lambda>(p, n). n = Dir \<longrightarrow> butlast p \<noteq> d) f \<longleftrightarrow> (\<forall>x. node_at f (d @ [x]) \<noteq> Some Dir)"
proof
  assume l: "list_all (\<lambda>(p, n). n = Dir \<longrightarrow> butlast p \<noteq> d) f"
  show "\<forall>x. node_at f (d @ [x]) \<noteq> Some Dir"
  proof (intro allI notI)
    fix x assume "node_at f (d @ [x]) = Some Dir"
    then have "(d @ [x], Dir) \<in> set f" by (auto simp: node_at_def dest: map_of_SomeD)
    with l show False by (auto simp: list_all_iff)
  qed
next
  assume r: "\<forall>x. node_at f (d @ [x]) \<noteq> Some Dir"
  have "butlast p \<noteq> d" if "(p, Dir) \<in> set f" for p
  proof
    assume b: "butlast p = d"
    have "entry_ok f p" "dict_ok f" using assms(1) that by (auto simp: fs_ok_def list_all_iff)
    then have "p = d @ [last p]" "dget f p = Some Dir"
      using b that by (auto simp: entry_ok_def intro: map_of_is_SomeI)
    with r show False by (metis node_at_def Nil_is_append_conv not_Cons_self2)
  qed
  then show "list_all (\<lambda>(p, n). n = Dir \<longrightarrow> butlast p \<noteq> d) f" by (auto simp: list_all_iff)
qed

lemma payload_invD:
  assumes "payload_inv home board f"
  shows "clean home" "plain_name board" "fs_ok f" "node_at f (payloads_of home board) = Some Dir"
    "node_at f (payloads_of home board @ [x]) \<noteq> Some Dir" "clean (payloads_of home board)"
  using assms no_dir_in_payloads [of f "payloads_of home board"]
  by (auto simp: payload_inv_def clean_def plain_name_def)

lemma payload_invI:
  assumes "clean home" and "plain_name board" and "fs_ok f" and "node_at f (payloads_of home board) = Some Dir"
    and "\<And>x. node_at f (payloads_of home board @ [x]) \<noteq> Some Dir"
  shows "payload_inv home board f"
  using assms no_dir_in_payloads [of f "payloads_of home board"] by (auto simp: payload_inv_def)

lemma plain_suffix: "plain_name h \<Longrightarrow> plain_name (h @ ''.bin'') \<and> plain_name (h @ ''.tmp'')"
  by (auto simp: plain_name_def append_eq_Cons_conv)

lemma payload_path_plain:
  "plain_name board \<Longrightarrow> plain_name h \<Longrightarrow> payload_path home board h = payloads_of home board @ [h @ ''.bin'']"
  using plain_suffix [of h]
  by (simp add: payload_path_def board_payloads_dir_def board_dir_def path_join_plain plain_name_def [of "''payloads''"])

lemma tmp_name_plain: "plain_name h \<Longrightarrow> tmp_name (h @ ''.bin'') = h @ ''.tmp''"
  by (auto simp: tmp_name_def plain_name_def)

lemma make_dirs_existing:
  "fs_ok f \<Longrightarrow> clean q \<Longrightarrow> node_at f (cur @ q) = Some Dir \<Longrightarrow> make_dirs f cur q = Inr (cur @ q, f)"
proof (induction q arbitrary: cur)
  case (Cons c q)
  have "node_at f (cur @ [c]) = Some Dir"
    using fs_ok_prefix [OF Cons.prems(1), of "cur @ [c]" q Dir] Cons.prems(3) by (cases "q = []") auto
  with Cons show ?case by (simp add: clean_def)
qed simp

lemma clean_in_payloads:
  "payload_inv home board f \<Longrightarrow> plain_name x \<Longrightarrow> clean (payloads_of home board @ [x])"
  using payload_invD(6) [of home board f] by (simp add: clean_def plain_name_def)

text \<open>Creating, replacing or removing a file of the payload directory keeps the invariant.\<close>

lemma payload_inv_dput:
  assumes "payload_inv home board f" and "plain_name x"
  shows "payload_inv home board (dput (payloads_of home board @ [x]) (File d) f)"
proof (rule payload_invI)
  note inv = payload_invD [OF assms(1)]
  let ?p = "payloads_of home board @ [x]"
  have entry: "entry_ok f ?p"
    using inv(4) clean_in_payloads [OF assms] by (simp add: entry_ok_def butlast_append)
  have nc: "\<not> has_children f ?p"
  proof (cases "node_at f ?p")
    case None
    then show ?thesis
      unfolding has_children_iff [OF inv(3)] using fs_ok_prefix [OF inv(3), of ?p "[_]"] by fastforce
  next
    case (Some n)
    with inv(5) file_no_children [OF inv(3)] show ?thesis by (cases n) auto
  qed
  show "fs_ok (dput ?p (File d) f)" using inv(3) entry nc by (intro fs_ok_dput) auto
qed (use payload_invD [OF assms(1)] in \<open>auto simp: node_at_dput\<close>)

lemma payload_inv_dpop:
  assumes "payload_inv home board f" and "node_at f (payloads_of home board @ [x]) = Some n"
  shows "payload_inv home board (dpop (payloads_of home board @ [x]) f)"
proof (rule payload_invI)
  note inv = payload_invD [OF assms(1)]
  have "\<not> has_children f (payloads_of home board @ [x])"
    using inv(5) assms(2) file_no_children [OF inv(3)] by (cases n) auto
  with inv(3) show "fs_ok (dpop (payloads_of home board @ [x]) f)" by (rule fs_ok_dpop)
qed (use payload_invD [OF assms(1)] in \<open>auto simp: node_at_dpop\<close>)

lemma resolved_payload:
  assumes "payload_inv home board f" and "plain_name x"
  shows "resolved f (payloads_of home board @ [x]) =
     map_option (Pair (payloads_of home board @ [x])) (node_at f (payloads_of home board @ [x]))"
  using payload_invD(3) [OF assms(1)] clean_in_payloads [OF assms] by (rule resolved_clean)

lemma walk_payload:
  assumes "payload_inv home board f" and "plain_name x"
  shows "walk f [] (payloads_of home board @ [x]) = Some (payloads_of home board @ [x])"
  using walk_clean [OF payload_invD(3) [OF assms(1)] clean_in_payloads [OF assms], of "[]"]
    payload_invD(4) [OF assms(1)] by (simp add: butlast_append)

lemma write_payload_ok:
  assumes inv: "payload_inv home board f" and h: "plain_name h" and "verify \<Longrightarrow> sha256_hex data = h"
  shows "write_payload home board h data verify f =
     Inr (payloads_of home board @ [h @ ''.bin''],
       dput (payloads_of home board @ [h @ ''.bin'']) (File data)
         (dpop (payloads_of home board @ [h @ ''.tmp''])
           (dput (payloads_of home board @ [h @ ''.tmp'']) (File data) f)))"
proof -
  let ?d = "payloads_of home board"
  let ?tmp = "?d @ [h @ ''.tmp'']" and ?tgt = "?d @ [h @ ''.bin'']"
  let ?f1 = "dput ?tmp (File data) f"
  note i = payload_invD [OF inv]
  note pl = plain_suffix [OF h]
  have i1: "payload_inv home board ?f1" using inv pl by (intro payload_inv_dput) auto
  have dirs: "make_dirs f [] ?d = Inr (?d, f)"
    using make_dirs_existing [OF i(3) i(6), of "[]"] i(4) by simp
  have w: "write_bytes ?tmp data f = Inr ((), ?f1)"
    using walk_payload [OF inv, of "h @ ''.tmp''"] pl i(4,5)
    by (auto simp: write_bytes_def butlast_append split: option.split node.split)
  have "rename ?tmp ?tgt ?f1 = Inr ((), dput ?tgt (File data) (dpop ?tmp ?f1))"
    using resolved_payload [OF i1, of "h @ ''.tmp''"] walk_payload [OF i1, of "h @ ''.bin''"] pl
      i(4) i(5) [of "h @ ''.bin''"] by (simp add: rename_def node_at_dput butlast_append)
  moreover have "payload_path home board h = ?tgt" using i(2) h by (rule payload_path_plain)
  ultimately show ?thesis
    using dirs w tmp_name_plain [OF h] assms(3) by (auto simp: write_payload_def Let_def butlast_append)
qed

definition payload_lookup :: "path \<Rightarrow> string \<Rightarrow> string \<Rightarrow> fs \<Rightarrow> bytes option" where
  "payload_lookup home board h f =
     (case read_payload home board h f of Inr r \<Rightarrow> r | Inl _ \<Rightarrow> None)"

definition result_fs :: "'a fs_result \<Rightarrow> fs" where
  "result_fs r = (case r of Inl (_, f) \<Rightarrow> f | Inr (_, f) \<Rightarrow> f)"

definition payload_put :: "path \<Rightarrow> string \<Rightarrow> bytes \<Rightarrow> fs \<Rightarrow> fs" where
  "payload_put home board d f = result_fs (write_payload home board (sha256_hex d) d True f)"

definition payload_drop :: "path \<Rightarrow> string \<Rightarrow> string \<Rightarrow> fs \<Rightarrow> fs" where
  "payload_drop home board h f = result_fs (delete_payload home board h f)"

lemma payload_lookup_node:
  assumes "payload_inv home board f" and "plain_name h"
  shows "payload_lookup home board h f =
      (case node_at f (payloads_of home board @ [h @ ''.bin'']) of Some (File d) \<Rightarrow> Some d | _ \<Rightarrow> None)"
  using resolved_payload [OF assms(1), of "h @ ''.bin''"] plain_suffix [OF assms(2)]
    payload_invD(2,5) [OF assms(1)] payload_path_plain [of board h home] assms(2)
  by (auto simp: payload_lookup_def read_payload_def split: option.split node.split)

lemma payload_put_eq:
  assumes "payload_inv home board f" and "plain_name (sha256_hex d)"
  shows "payload_put home board d f =
       dput (payloads_of home board @ [sha256_hex d @ ''.bin'']) (File d)
         (dpop (payloads_of home board @ [sha256_hex d @ ''.tmp''])
           (dput (payloads_of home board @ [sha256_hex d @ ''.tmp'']) (File d) f))"
  using write_payload_ok [OF assms, of True] by (simp add: payload_put_def result_fs_def)

lemma payload_drop_eq:
  assumes "payload_inv home board f" and "plain_name h"
  shows "payload_drop home board h f =
       (if node_at f (payloads_of home board @ [h @ ''.bin'']) = None then f
        else dpop (payloads_of home board @ [h @ ''.bin'']) f)"
  using resolved_payload [OF assms(1), of "h @ ''.bin''"] plain_suffix [OF assms(2)]
    payload_invD(2,5) [OF assms(1)] payload_path_plain [of board h home] assms(2)
  by (auto simp: payload_drop_def result_fs_def delete_payload_def unlink_def split: option.split node.split)

interpretation payloads: key_store "payload_inv home board" plain_name sha256_hex "\<lambda>d. d"
    "payload_lookup home board" "payload_put home board" "payload_drop home board" for home board
proof
  fix f e k j
  assume inv: "payload_inv home board f"
  show "payload_inv home board (payload_put home board e f)" if e: "plain_name (sha256_hex e)"
    unfolding payload_put_eq [OF inv e] using inv plain_suffix [OF e]
    by (intro payload_inv_dput payload_inv_dpop [where n = "File e"]) (auto simp: node_at_dput)
  then show "payload_lookup home board k (payload_put home board e f) =
      (if k = sha256_hex e then Some e else payload_lookup home board k f)"
    if e: "plain_name (sha256_hex e)" and k: "plain_name k"
    using e payload_lookup_node [OF _ k, of home board] inv
    by (simp add: payload_put_eq [OF inv e] node_at_dput node_at_dpop)
  have d: "payload_inv home board (payload_drop home board i f)" if "plain_name i" for i
    using that inv payload_inv_dpop [OF inv] by (auto simp: payload_drop_eq [OF inv])
  then show "plain_name k \<Longrightarrow> payload_inv home board (payload_drop home board k f)" .
  show "payload_lookup home board k (payload_drop home board j f) =
      (if k = j then None else payload_lookup home board k f)" if j: "plain_name j" and k: "plain_name k"
    unfolding payload_lookup_node [OF d [OF j] k] payload_lookup_node [OF inv k]
    unfolding payload_drop_eq [OF inv j] by (simp add: node_at_dpop)
qed

lemma set_hexdigest: "set (hexdigest bs) \<subseteq> set hex_digits"
proof -
  have "set (hex_byte b) \<subseteq> set hex_digits" for b :: "8 word"
  proof -
    have "unat b div 16 < length hex_digits" "unat b mod 16 < length hex_digits"
      using unat_byte_lt [of b] by (simp_all add: hex_digits_def)
    from nth_mem [OF this(1)] nth_mem [OF this(2)] show ?thesis by (simp add: hex_byte_def)
  qed
  then show ?thesis by (auto simp: hexdigest_def)
qed

lemma plain_digest: "plain_name (sha256_hex d)"
proof -
  have "set (sha256_hex d) \<subseteq> set hex_digits" unfolding sha256_hex_def by (rule set_hexdigest)
  then have "CHR ''/'' \<notin> set (sha256_hex d)" by (auto simp: hex_digits_def)
  moreover have "sha256_hex d \<noteq> x" if "length x \<noteq> 64" for x using that length_sha256_hex by metis
  ultimately show ?thesis by (simp add: plain_name_def)
qed

section \<open>What a run of writes and deletions leaves\<close>

definition payload_step :: "path \<Rightarrow> string \<Rightarrow> bytes + string \<Rightarrow> fs \<Rightarrow> fs" where
  "payload_step home board x f =
     (case x of Inl d \<Rightarrow> payload_put home board d f | Inr h \<Rightarrow> payload_drop home board h f)"

definition hash_of_step :: "bytes + string \<Rightarrow> string" where
  "hash_of_step x = (case x of Inl d \<Rightarrow> sha256_hex d | Inr h \<Rightarrow> h)"

lemma payload_step_store: "payload_step home board = payloads.store_step home board"
  by (intro ext) (simp add: payload_step_def payloads.store_step_def)

lemma payloads_untouched: "payloads.touches k x = (hash_of_step x = k)"
  by (auto simp: payloads.touches_def hash_of_step_def split: sum.split)

lemma payloads_all_valid: "payloads.all_valid xs = list_all (\<lambda>x. plain_name (hash_of_step x)) xs"
  unfolding payloads.all_valid_def
  by (rule arg_cong2 [where f = list_all]) (auto simp: hash_of_step_def plain_digest split: sum.split)

lemma read_payload_lookup:
  assumes "payload_inv home board f" and "plain_name h"
  shows "read_payload home board h f = Inr (payload_lookup home board h f)"
  using resolved_payload [OF assms(1), of "h @ ''.bin''"] plain_suffix [OF assms(2)]
    payload_invD(2,5) [OF assms(1)] payload_path_plain [of board h home] assms(2)
  by (auto simp: payload_lookup_def read_payload_def split: option.split node.split)

text \<open>Property C24: a board's payload directory is a content-addressed store. After any run of verified
  writes and deletions under plain names, reading a hash gives the blob last written under it if
  nothing deleted it since, and nothing after a deletion; a blob that does not hash to its name is
  refused and changes nothing.\<close>

theorem payload_store_content_addressed:
  assumes "payload_inv home board f" and "list_all (\<lambda>x. plain_name (hash_of_step x)) (xs @ ys)"
    and "list_all (\<lambda>x. hash_of_step x \<noteq> h) ys" and "plain_name h"
  shows "(sha256_hex d = h \<longrightarrow>
        read_payload home board h (fold (payload_step home board) (xs @ Inl d # ys) f) = Inr (Some d)) \<and>
    read_payload home board h (fold (payload_step home board) (xs @ Inr h # ys) f) = Inr None \<and>
    (sha256_hex d \<noteq> h \<longrightarrow> write_payload home board h d True f = Inl (ValueError, f))"
proof -
  have v: "payloads.all_valid xs" "payloads.all_valid ys"
    using assms(2) by (simp_all add: payloads_all_valid)
  have u: "list_all (\<lambda>x. \<not> payloads.touches h x) ys" using assms(3) by (simp add: payloads_untouched)
  have inv: "payload_inv home board (fold (payload_step home board) (xs @ z # ys) f)"
    if "plain_name (hash_of_step z)" for z
    unfolding payload_step_store using that assms(2)
    by (intro payloads.run_inv assms(1)) (simp add: payloads_all_valid)
  have "read_payload home board h (fold (payload_step home board) (xs @ Inl d # ys) f) = Inr (Some d)"
    if "sha256_hex d = h"
    using read_payload_lookup [OF inv assms(4), of "Inl d"] that assms(4)
      payloads.run_last_store [where e = d, OF assms(1) _ v] u
    by (simp add: payload_step_store hash_of_step_def)
  moreover have "read_payload home board h (fold (payload_step home board) (xs @ Inr h # ys) f) = Inr None"
    using read_payload_lookup [OF inv assms(4), of "Inr h"] assms(4)
      payloads.run_last_remove [OF assms(1,4) v u]
    by (simp add: payload_step_store hash_of_step_def)
  ultimately show ?thesis by (simp add: write_payload_def)
qed

theorem payload_store_content_addressed_witness:
  "read_payload [''h''] ''b'' (sha256_hex [1]) (fold (payload_step [''h''] ''b'')
     ([Inr ''y''] @ Inl [1] # [Inr ''z'']) sample_fs) = Inr (Some [1])"
proof -
  have "sha256_hex [1] \<noteq> ''z''" by (rule notI, drule arg_cong [where f = length]) simp
  then show ?thesis
    using payload_store_content_addressed [of "[''h'']" "''b''" sample_fs "[Inr ''y'']" "[Inr ''z'']"
        "sha256_hex [1]" "[1]"] plain_digest [of "[1]"]
    by (simp add: payload_inv_def fs_ok_def entry_ok_def clean_def node_at_def hash_of_step_def
        plain_name_def [of "''y''"] plain_name_def [of "''z''"] plain_name_def [of "''b''"])
qed

section \<open>Bulk deletion\<close>

abbreviation cache_of :: "path \<Rightarrow> string \<Rightarrow> string \<Rightarrow> path" where
  "cache_of home board h \<equiv> home @ [board, ''chunk_cache'', h]"

lemma delete_payload_run:
  assumes "payload_inv home board f" and "plain_name h"
  shows "\<exists>found. delete_payload home board h f = Inr (found, payload_drop home board h f)"
  using resolved_payload [OF assms(1), of "h @ ''.bin''"] plain_suffix [OF assms(2)]
    payload_invD(2,5) [OF assms(1)] payload_path_plain [of board h home] assms(2)
  by (auto simp: payload_drop_def result_fs_def delete_payload_def unlink_def split: option.split node.split)

lemma payloads_bulk_run:
  "payload_inv home board f \<Longrightarrow> list_all plain_name hs \<Longrightarrow>
     \<exists>m. delete_bulk (delete_payload home board) hs n f = Inr (m, fold (payload_drop home board) hs f)"
proof (induction hs arbitrary: n f)
  case (Cons h hs)
  from delete_payload_run [of home board f h] Cons.prems obtain found
    where h: "delete_payload home board h f = Inr (found, payload_drop home board h f)" by auto
  have "payload_inv home board (payload_drop home board h f)"
    using Cons.prems payloads.inv_remove by auto
  with Cons.IH [of "payload_drop home board h f" "if found then Suc n else n"] Cons.prems h
  show ?case by simp
qed simp

definition outside_caches :: "path \<Rightarrow> string \<Rightarrow> string list \<Rightarrow> path \<Rightarrow> bool" where
  "outside_caches home board hs p = list_all (\<lambda>h. take (length home + 3) p \<noteq> cache_of home board h) hs"

lemma dget_filter_path: "dget (filter (\<lambda>(p, _). P p) f) q = (if P q then dget f q else None)"
  by (induction f) auto

lemma node_at_filter:
  "node_at (filter (\<lambda>(p, _). P p) f) q = (if q = [] then Some Dir else if P q then node_at f q else None)"
  by (simp add: node_at_def dget_filter_path)

lemma fs_ok_filter:
  assumes "fs_ok f" and "\<And>p. P p \<Longrightarrow> butlast p = [] \<or> P (butlast p)"
  shows "fs_ok (filter (\<lambda>(p, _). P p) f)"
  using assms unfolding fs_ok_def list_all_iff entry_ok_def node_at_filter
  by (auto simp: dict_ok_filter)

lemma outside_caches_butlast: "outside_caches home board hs p \<Longrightarrow> outside_caches home board hs (butlast p)"
proof -
  have "take (length home + 3) p = d" if t: "take (length home + 3) (butlast p) = d" and "length d = length home + 3" for d
  proof (cases p rule: rev_cases)
    case (snoc xs x)
    from that snoc have "length home + 3 \<le> length xs" by (auto simp: min_def split: if_splits)
    with t snoc show ?thesis by simp
  qed (use that in auto)
  from this [of "cache_of home board _"] show "outside_caches home board hs p \<Longrightarrow> ?thesis"
    by (fastforce simp: outside_caches_def list_all_iff)
qed

lemma payload_inv_outside:
  assumes "payload_inv home board f"
  shows "payload_inv home board (filter (\<lambda>(p, _). outside_caches home board hs p) f)"
proof (rule payload_invI)
  show "fs_ok (filter (\<lambda>(p, _). outside_caches home board hs p) f)"
    by (rule fs_ok_filter [OF payload_invD(3) [OF assms]]) (simp add: outside_caches_butlast)
  have "outside_caches home board hs (payloads_of home board)"
    by (simp add: outside_caches_def list_all_iff)
  then show "node_at (filter (\<lambda>(p, _). outside_caches home board hs p) f) (payloads_of home board) = Some Dir"
    using payload_invD(4) [OF assms] by (simp add: node_at_filter)
qed (use payload_invD [OF assms] in \<open>auto simp: node_at_filter\<close>)

lemma cache_bulk_run:
  assumes "payload_inv home board f" and "list_all plain_name hs"
    and "list_all (\<lambda>h. node_at f (cache_of home board h) \<in> {None, Some Dir}) hs"
  shows "\<exists>m. delete_bulk (delete_chunk_cache home board) hs n f =
      Inr (m, filter (\<lambda>(p, _). outside_caches home board hs p) f)"
  using assms
proof (induction hs arbitrary: n f)
  case Nil
  then show ?case by (simp add: outside_caches_def case_prod_beta)
next
  case (Cons h hs)
  let ?f1 = "filter (\<lambda>(p, _). outside_caches home board [h] p) f"
  have "filter (\<lambda>(p, _). take (length home + 3) p \<noteq> cache_of home board h) f = ?f1"
    by (simp add: outside_caches_def)
  with chunk_cache_deleted_exactly [of f home board h] Cons.prems payload_invD(1-3) [OF Cons.prems(1)]
  have h: "delete_chunk_cache home board h f = Inr (node_at f (cache_of home board h) \<noteq> None, ?f1)" by simp
  have "\<exists>m. delete_bulk (delete_chunk_cache home board) hs k ?f1 =
      Inr (m, filter (\<lambda>(p, _). outside_caches home board hs p) ?f1)" for k
    using Cons.prems payload_inv_outside [OF Cons.prems(1), of "[h]"]
    by (intro Cons.IH) (auto simp: list_all_iff node_at_filter)
  moreover have "filter (\<lambda>(p, _). outside_caches home board hs p) ?f1 =
      filter (\<lambda>(p, _). outside_caches home board (h # hs) p) f"
    unfolding filter_filter by (rule filter_cong) (auto simp: outside_caches_def)
  ultimately show ?case using h by simp
qed

lemma payload_drops_caches:
  "payload_inv home board f \<Longrightarrow> list_all plain_name hs \<Longrightarrow>
     node_at (fold (payload_drop home board) hs f) (cache_of home board h) = node_at f (cache_of home board h)"
proof (induction hs arbitrary: f)
  case (Cons x xs)
  have "payload_inv home board (payload_drop home board x f)"
    using Cons.prems payloads.inv_remove by auto
  then have "node_at (fold (payload_drop home board) xs (payload_drop home board x f)) (cache_of home board h) =
      node_at (payload_drop home board x f) (cache_of home board h)"
    using Cons.prems by (intro Cons.IH) auto
  also have "\<dots> = node_at f (cache_of home board h)"
    using Cons.prems by (simp add: payload_drop_eq node_at_dpop)
  finally show ?case by simp
qed simp

lemma payload_drops:
  assumes "payload_inv home board f" and "list_all plain_name hs"
  shows "payload_inv home board (fold (payload_drop home board) hs f)"
    and "plain_name h \<Longrightarrow> payload_lookup home board h (fold (payload_drop home board) hs f) =
      (if h \<in> set hs then None else payload_lookup home board h f)"
proof -
  have plain: "\<forall>h \<in> set hs. plain_name h" using assms(2) by (simp add: list_all_iff)
  show "payload_inv home board (fold (payload_drop home board) hs f)"
    using payloads.remove_all [OF assms(1) plain_digest plain] by blast
  show "plain_name h \<Longrightarrow> payload_lookup home board h (fold (payload_drop home board) hs f) =
      (if h \<in> set hs then None else payload_lookup home board h f)"
    using payloads.remove_all [OF assms(1) _ plain, of h] by blast
qed

lemma outside_lookup:
  assumes "payload_inv home board f" and "plain_name h"
  shows "payload_lookup home board h (filter (\<lambda>(p, _). outside_caches home board hs p) f) =
    payload_lookup home board h f"
proof -
  have "outside_caches home board hs (payloads_of home board @ [h @ ''.bin''])"
    by (simp add: outside_caches_def list_all_iff)
  then show ?thesis
    by (simp add: payload_lookup_node [OF payload_inv_outside [OF assms(1)] assms(2)]
        payload_lookup_node [OF assms] node_at_filter)
qed

lemma outside_cache_node:
  "node_at (filter (\<lambda>(p, _). outside_caches home board hs p) f) (cache_of home board h) =
     (if h \<in> set hs then None else node_at f (cache_of home board h))"
  by (auto simp: node_at_filter outside_caches_def list_all_iff)

text \<open>Deleting the payload files and the caches of some blobs, in the purge's order and in the pruner's.\<close>

definition files_gone :: "path \<Rightarrow> string \<Rightarrow> string list \<Rightarrow> fs \<Rightarrow> fs \<Rightarrow> bool" where
  "files_gone home board hs f f' = (payload_inv home board f' \<and>
     (\<forall>h. plain_name h \<longrightarrow> read_payload home board h f' =
        (if h \<in> set hs then Inr None else read_payload home board h f)) \<and>
     (\<forall>h. node_at f' (cache_of home board h) = (if h \<in> set hs then None else node_at f (cache_of home board h))))"

lemma blob_files_deleted:
  assumes "payload_inv home board f" and "list_all plain_name hs"
    and "list_all (\<lambda>h. node_at f (cache_of home board h) \<in> {None, Some Dir}) hs"
  shows "\<exists>k f1 m f2. delete_payloads_bulk home board hs f = Inr (k, f1) \<and>
      delete_chunk_cache_bulk home board hs f1 = Inr (m, f2) \<and> files_gone home board hs f f2"
    and "\<exists>k f1 m f2. delete_chunk_cache_bulk home board hs f = Inr (k, f1) \<and>
      delete_payloads_bulk home board hs f1 = Inr (m, f2) \<and> files_gone home board hs f f2"
proof -
  let ?P = "fold (payload_drop home board) hs"
  let ?C = "filter (\<lambda>(p, _). outside_caches home board hs p)"
  have gone: "files_gone home board hs f f2"
    if "payload_inv home board f2"
      and "\<And>h. plain_name h \<Longrightarrow> payload_lookup home board h f2 = (if h \<in> set hs then None else payload_lookup home board h f)"
      and "\<And>h. node_at f2 (cache_of home board h) = (if h \<in> set hs then None else node_at f (cache_of home board h))"
    for f2
    using that read_payload_lookup [OF that(1)] read_payload_lookup [OF assms(1)] by (simp add: files_gone_def)
  note drops = payload_drops [OF assms(1,2)] and outside = payload_inv_outside [OF assms(1), of hs]
  note caches = payload_drops_caches [OF assms(1,2)]
  have dirs: "list_all (\<lambda>h. node_at (?P f) (cache_of home board h) \<in> {None, Some Dir}) hs"
    using assms(3) by (simp only: caches)
  obtain k where 1: "delete_payloads_bulk home board hs f = Inr (k, ?P f)"
    using payloads_bulk_run [OF assms(1,2)] unfolding delete_payloads_bulk_def by blast
  obtain m where 2: "delete_chunk_cache_bulk home board hs (?P f) = Inr (m, ?C (?P f))"
    using cache_bulk_run [OF drops(1) assms(2) dirs] unfolding delete_chunk_cache_bulk_def by blast
  have "files_gone home board hs f (?C (?P f))"
    by (rule gone) (simp_all add: payload_inv_outside drops outside_lookup outside_cache_node caches)
  with 1 2 show "\<exists>k f1 m f2. delete_payloads_bulk home board hs f = Inr (k, f1) \<and>
      delete_chunk_cache_bulk home board hs f1 = Inr (m, f2) \<and> files_gone home board hs f f2" by blast
  obtain k where 3: "delete_chunk_cache_bulk home board hs f = Inr (k, ?C f)"
    using cache_bulk_run [OF assms] unfolding delete_chunk_cache_bulk_def by blast
  obtain m where 4: "delete_payloads_bulk home board hs (?C f) = Inr (m, ?P (?C f))"
    using payloads_bulk_run [OF outside assms(2)] unfolding delete_payloads_bulk_def by blast
  have "files_gone home board hs f (?P (?C f))"
    by (rule gone) (simp_all add: payload_drops [OF outside assms(2)] outside_lookup [OF assms(1)]
        payload_drops_caches [OF outside assms(2)] outside_cache_node)
  with 3 4 show "\<exists>k f1 m f2. delete_chunk_cache_bulk home board hs f = Inr (k, f1) \<and>
      delete_payloads_bulk home board hs f1 = Inr (m, f2) \<and> files_gone home board hs f f2" by blast
qed

end
