(* ===== verification/Sessions.thy ===== *)
theory Sessions
  imports ChunkDb Control Payloads Scheduler
begin

text \<open>
  A node's stored and in-memory state, the batcher of chunk-state writes (\<open>retiboard/db/batcher.py\<close>)
  and the registry of pending chunk sessions (\<open>retiboard/sync/payload_fetch.py\<close>). Event objects that
  only wake waiting coroutines, and the locks around single operations, carry no state here.
\<close>

section \<open>Batcher\<close>

record batcher =
  bt_board_id :: string
  bt_max_pending :: nat
  bt_max_interval :: time
  bt_chunk_states :: "request_row list"
  bt_peer_penalties :: "penalty_row list"
  bt_last_flush_at :: time

definition new_batcher :: "time \<Rightarrow> string \<Rightarrow> batcher" where
  "new_batcher now board = \<lparr>bt_board_id = board, bt_max_pending = 20, bt_max_interval = 2,
     bt_chunk_states = [], bt_peer_penalties = [], bt_last_flush_at = now\<rparr>"

definition queue_chunk_state :: "request_row \<Rightarrow> batcher \<Rightarrow> batcher" where
  "queue_chunk_state r b = b\<lparr>bt_chunk_states := bt_chunk_states b @ [r]\<rparr>"

definition queue_peer_penalty :: "penalty_row \<Rightarrow> batcher \<Rightarrow> batcher" where
  "queue_peer_penalty r b = b\<lparr>bt_peer_penalties := bt_peer_penalties b @ [r]\<rparr>"

definition pending_count :: "batcher \<Rightarrow> nat" where
  "pending_count b = length (bt_chunk_states b) + length (bt_peer_penalties b)"

definition should_flush :: "time \<Rightarrow> batcher \<Rightarrow> bool" where
  "should_flush now b =
     (if pending_count b \<ge> bt_max_pending b then True
      else pending_count b > 0 \<and> now - bt_last_flush_at b \<ge> bt_max_interval b)"

text \<open>\<open>executemany\<close> of an upsert: rows before one that cannot be bound stay written.\<close>

fun put_many :: "('r \<Rightarrow> bool) \<Rightarrow> ('r \<Rightarrow> chunk_db \<Rightarrow> chunk_db) \<Rightarrow> 'r list \<Rightarrow> chunk_db \<Rightarrow> py_error option \<times> chunk_db" where
  "put_many ok put [] db = (None, db)"
| "put_many ok put (r # rs) db = (if ok r then put_many ok put rs (put r db) else (Some OverflowError, db))"

text \<open>On an error the queues are restored, so the batcher is as it was.\<close>

definition flush :: "time \<Rightarrow> batcher \<Rightarrow> chunk_db \<Rightarrow> (py_error \<times> batcher \<times> chunk_db) + (nat \<times> batcher \<times> chunk_db)" where
  "flush now b db =
     (if pending_count b = 0 then Inr (0, b, db)
      else (case put_many request_bindable put_request (bt_chunk_states b) db of
              (Some e, db1) \<Rightarrow> Inl (e, b, db1)
            | (None, db1) \<Rightarrow>
                (case put_many penalty_bindable put_penalty (bt_peer_penalties b) db1 of
                   (Some e, db2) \<Rightarrow> Inl (e, b, db2)
                 | (None, db2) \<Rightarrow>
                     Inr (pending_count b,
                       b\<lparr>bt_chunk_states := [], bt_peer_penalties := [], bt_last_flush_at := now\<rparr>, db2))))"

section \<open>Node state\<close>

record pending_session =
  pe_session_id :: string
  pe_board_id :: string
  pe_blob_hash :: string
  pe_blob_kind :: string
  pe_assigned_peer :: string
  pe_batcher :: "batcher option"

record registry =
  rg_sessions :: "(string, pending_session) dict"
  rg_by_blob :: "(string, string) dict"

record board_store =
  bs_db :: board_db
  bs_control :: control_db
  bs_chunks :: chunk_db

record peer_node =
  nd_boards :: "(string, board_store) dict"
  nd_fs :: fs
  nd_registry :: registry
  nd_scheduler :: scheduler

definition empty_store :: board_store where
  "empty_store = \<lparr>bs_db = empty_db, bs_control = empty_control, bs_chunks = empty_chunk_db\<rparr>"

definition store_of :: "peer_node \<Rightarrow> string \<Rightarrow> board_store" where
  "store_of n board = dget_or (nd_boards n) board empty_store"

definition put_store :: "string \<Rightarrow> board_store \<Rightarrow> peer_node \<Rightarrow> peer_node" where
  "put_store board st n = n\<lparr>nd_boards := dput board st (nd_boards n)\<rparr>"

section \<open>Registry of pending chunk sessions\<close>

definition register_pending_chunk_session ::
  "string \<Rightarrow> string \<Rightarrow> string \<Rightarrow> string \<Rightarrow> string option \<Rightarrow> string \<Rightarrow> registry \<Rightarrow> pending_session \<times> registry" where
  "register_pending_chunk_session board h kind peer session_id uuid rg =
     (case (case dget (rg_by_blob rg) h of
              Some sid \<Rightarrow> if sid = [] then None else dget (rg_sessions rg) sid
            | None \<Rightarrow> None) of
        Some s \<Rightarrow> (s, rg)
      | None \<Rightarrow>
          (let sid = (case session_id of Some i \<Rightarrow> str_or i uuid | None \<Rightarrow> uuid);
               s = \<lparr>pe_session_id = sid, pe_board_id = board, pe_blob_hash = h, pe_blob_kind = kind,
                    pe_assigned_peer = peer, pe_batcher = None\<rparr>
           in (s, rg\<lparr>rg_sessions := dput sid s (rg_sessions rg), rg_by_blob := dput h sid (rg_by_blob rg)\<rparr>)))"

definition get_pending_chunk_session :: "string \<Rightarrow> registry \<Rightarrow> pending_session option" where
  "get_pending_chunk_session sid rg = dget (rg_sessions rg) sid"

definition get_pending_chunk_session_by_blob :: "string \<Rightarrow> registry \<Rightarrow> pending_session option" where
  "get_pending_chunk_session_by_blob h rg =
     (case dget (rg_by_blob rg) h of
        None \<Rightarrow> None
      | Some sid \<Rightarrow> if sid = [] then None else dget (rg_sessions rg) sid)"

definition pop_session :: "string \<Rightarrow> registry \<Rightarrow> pending_session option \<times> registry" where
  "pop_session h rg =
     (let rg1 = rg\<lparr>rg_by_blob := dpop h (rg_by_blob rg)\<rparr>
      in case dget (rg_by_blob rg) h of
           None \<Rightarrow> (None, rg1)
         | Some sid \<Rightarrow>
             (if sid = [] then (None, rg1)
              else (dget (rg_sessions rg) sid, rg1\<lparr>rg_sessions := dpop sid (rg_sessions rg)\<rparr>)))"

text \<open>A failing flush is logged and dropped.\<close>

definition flush_session :: "time \<Rightarrow> pending_session \<Rightarrow> peer_node \<Rightarrow> peer_node" where
  "flush_session now s n =
     (case pe_batcher s of
        None \<Rightarrow> n
      | Some b \<Rightarrow>
          (let st = store_of n (bt_board_id b)
           in case flush now b (bs_chunks st) of
                Inl (_, _, db) \<Rightarrow> put_store (bt_board_id b) (st\<lparr>bs_chunks := db\<rparr>) n
              | Inr (_, _, db) \<Rightarrow> put_store (bt_board_id b) (st\<lparr>bs_chunks := db\<rparr>) n))"

definition cancel_pending_chunk_session :: "time \<Rightarrow> string \<Rightarrow> peer_node \<Rightarrow> peer_node" where
  "cancel_pending_chunk_session now h n =
     (let (popped, rg) = pop_session h (nd_registry n);
          n1 = n\<lparr>nd_registry := rg\<rparr>
      in case popped of
           None \<Rightarrow> n1
         | Some s \<Rightarrow>
             flush_session now s
               (n1\<lparr>nd_scheduler := unregister_session (pe_session_id s)
                     (release_session_requests (pe_session_id s) (nd_scheduler n1))\<rparr>))"

text \<open>\<open>finish_pending_chunk_session\<close> does the same and then sets the completion event.\<close>

definition finish_pending_chunk_session :: "time \<Rightarrow> string \<Rightarrow> peer_node \<Rightarrow> peer_node" where
  "finish_pending_chunk_session now h n =
     (let (popped, rg) = pop_session h (nd_registry n);
          n1 = n\<lparr>nd_registry := rg\<rparr>
      in case popped of
           None \<Rightarrow> n1
         | Some s \<Rightarrow>
             flush_session now s
               (n1\<lparr>nd_scheduler := unregister_session (pe_session_id s)
                     (release_session_requests (pe_session_id s) (nd_scheduler n1))\<rparr>))"

section \<open>Properties\<close>

lemma put_many_ok: "list_all ok rs \<Longrightarrow> put_many ok put rs db = (None, fold put rs db)"
  by (induction rs arbitrary: db) auto

lemma put_many_bad:
  "list_all ok rs \<Longrightarrow> \<not> ok r \<Longrightarrow> put_many ok put (rs @ r # rest) db = (Some OverflowError, fold put rs db)"
  by (induction rs arbitrary: db) auto

lemma flush_equals_single_saves_eq:
  "list_all request_bindable (bt_chunk_states b) \<Longrightarrow> list_all penalty_bindable (bt_peer_penalties b) \<Longrightarrow>
     0 < pending_count b \<Longrightarrow> flush now b db = Inr (pending_count b,
        b\<lparr>bt_chunk_states := [], bt_peer_penalties := [], bt_last_flush_at := now\<rparr>,
        fold put_penalty (bt_peer_penalties b) (fold put_request (bt_chunk_states b) db))"
  by (simp add: flush_def put_many_ok)

text \<open>Also: flushing the batcher leaves the database as if every queued record had been saved on
  its own in queue order, empties the queues and reports their length; a record that cannot be
  bound raises, and the queues keep everything for the next attempt.\<close>

theorem flush_equals_single_saves:
  "(list_all request_bindable (bt_chunk_states b) \<and> list_all penalty_bindable (bt_peer_penalties b) \<and> 0 < pending_count b \<longrightarrow>
      flush now b db = Inr (pending_count b,
        b\<lparr>bt_chunk_states := [], bt_peer_penalties := [], bt_last_flush_at := now\<rparr>,
        fold put_penalty (bt_peer_penalties b) (fold put_request (bt_chunk_states b) db))) \<and>
   (list_all request_bindable rs \<and> \<not> request_bindable r \<and> bt_chunk_states b = rs @ r # rest \<longrightarrow>
      flush now b db = Inl (OverflowError, b, fold put_request rs db)) \<and>
   (pending_count b = 0 \<longrightarrow> flush now b db = Inr (0, b, db))"
  by (auto simp: flush_def put_many_ok put_many_bad pending_count_def)

theorem flush_equals_single_saves_witness:
  "flush 5 (queue_chunk_state (sample_request 2 ''stored'') (queue_chunk_state (sample_request 1 ''missing'') (new_batcher 0 ''b'')))
     empty_chunk_db = Inr (2, (new_batcher 0 ''b'')\<lparr>bt_last_flush_at := 5\<rparr>,
       put_request (sample_request 2 ''stored'') (put_request (sample_request 1 ''missing'') empty_chunk_db))"
  using flush_equals_single_saves [of "queue_chunk_state (sample_request 2 ''stored'')
      (queue_chunk_state (sample_request 1 ''missing'') (new_batcher 0 ''b''))" 5 empty_chunk_db]
  by (simp add: queue_chunk_state_def new_batcher_def pending_count_def request_bindable_def int64_def)

text \<open>Registry consistency: a blob maps to a registered session of that blob, under its own id.\<close>

definition registry_ok :: "registry \<Rightarrow> bool" where
  "registry_ok rg = (dict_ok (rg_sessions rg) \<and> dict_ok (rg_by_blob rg) \<and>
     list_all (\<lambda>(sid, s). sid \<noteq> [] \<and> pe_session_id s = sid \<and> dget (rg_by_blob rg) (pe_blob_hash s) = Some sid) (rg_sessions rg) \<and>
     list_all (\<lambda>(h, sid). map_option pe_blob_hash (dget (rg_sessions rg) sid) = Some h) (rg_by_blob rg))"

lemma list_all_dict: "dict_ok d \<Longrightarrow> list_all (\<lambda>(k, v). P k v) d \<longleftrightarrow> (\<forall>k v. dget d k = Some v \<longrightarrow> P k v)"
proof -
  assume "dict_ok d"
  have "list_all (\<lambda>(k, v). P k v) d \<longleftrightarrow> (\<forall>k v. (k, v) \<in> set d \<longrightarrow> P k v)" by (auto simp: list_all_iff)
  then show ?thesis by (simp only: dict_memD [OF \<open>dict_ok d\<close>])
qed

lemma registry_ok_iff:
  "registry_ok rg \<longleftrightarrow> dict_ok (rg_sessions rg) \<and> dict_ok (rg_by_blob rg) \<and>
     (\<forall>sid s. dget (rg_sessions rg) sid = Some s \<longrightarrow>
        sid \<noteq> [] \<and> pe_session_id s = sid \<and> dget (rg_by_blob rg) (pe_blob_hash s) = Some sid) \<and>
     (\<forall>h sid. dget (rg_by_blob rg) h = Some sid \<longrightarrow> (\<exists>s. dget (rg_sessions rg) sid = Some s \<and> pe_blob_hash s = h))"
proof (cases "dict_ok (rg_sessions rg) \<and> dict_ok (rg_by_blob rg)")
  case True
  then show ?thesis
    unfolding registry_ok_def list_all_dict [OF True [THEN conjunct1]] list_all_dict [OF True [THEN conjunct2]]
    by (simp only: map_option_eq_Some)
qed (auto simp: registry_ok_def)

text \<open>Also: the registry of pending chunk sessions keeps one session per blob: registering a blob
  under a fresh id gives its session, an already registered blob gives the session it has, and
  closing a blob's session removes that one and no other; blob index and sessions stay consistent.\<close>

theorem registry_consistent:
  assumes "registry_ok rg" and "sid \<noteq> []" and "dget (rg_sessions rg) sid = None"
  shows "registry_ok (snd (register_pending_chunk_session board h kind peer None sid rg)) \<and>
    registry_ok (snd (pop_session h rg)) \<and>
    get_pending_chunk_session_by_blob g (snd (register_pending_chunk_session board h kind peer None sid rg)) =
      (if g = h then Some (fst (register_pending_chunk_session board h kind peer None sid rg))
       else get_pending_chunk_session_by_blob g rg) \<and>
    (get_pending_chunk_session_by_blob h rg \<noteq> None \<longrightarrow>
      fst (register_pending_chunk_session board h kind peer None sid rg) =
        the (get_pending_chunk_session_by_blob h rg)) \<and>
    fst (pop_session h rg) = get_pending_chunk_session_by_blob h rg \<and>
    get_pending_chunk_session_by_blob g (snd (pop_session h rg)) =
      (if g = h then None else get_pending_chunk_session_by_blob g rg)"
proof (cases "dget (rg_by_blob rg) h")
  case None
  have new: "register_pending_chunk_session board h kind peer None sid rg =
      (let s = \<lparr>pe_session_id = sid, pe_board_id = board, pe_blob_hash = h, pe_blob_kind = kind,
                pe_assigned_peer = peer, pe_batcher = None\<rparr>
       in (s, rg\<lparr>rg_sessions := dput sid s (rg_sessions rg), rg_by_blob := dput h sid (rg_by_blob rg)\<rparr>))"
    using None by (simp add: register_pending_chunk_session_def)
  have pop: "pop_session h rg = (None, rg\<lparr>rg_by_blob := dpop h (rg_by_blob rg)\<rparr>)"
    using None by (simp add: pop_session_def Let_def)
  have unused: "dget (rg_by_blob rg) g \<noteq> Some sid" for g
    using assms(1,3) unfolding registry_ok_iff by force
  have reg: "registry_ok (snd (register_pending_chunk_session board h kind peer None sid rg))"
    using assms None unused unfolding registry_ok_iff new Let_def by (auto simp: dict_laws)
  have popped: "registry_ok (rg\<lparr>rg_by_blob := dpop h (rg_by_blob rg)\<rparr>)"
    using assms(1) None unfolding registry_ok_iff by (auto simp: dict_laws)
  have "dget (rg_by_blob rg) g = Some i \<Longrightarrow> i \<noteq> sid" for i using unused by blast
  then show ?thesis
    using reg popped assms None unfolding new pop Let_def
    by (auto simp: get_pending_chunk_session_by_blob_def dict_laws split: option.split)
next
  case (Some old)
  with assms(1) obtain s where s: "dget (rg_sessions rg) old = Some s" "pe_blob_hash s = h" "old \<noteq> []"
    unfolding registry_ok_iff by blast
  have keep: "register_pending_chunk_session board h kind peer None sid rg = (s, rg)"
    using Some s by (simp add: register_pending_chunk_session_def)
  have pop: "pop_session h rg =
      (Some s, rg\<lparr>rg_by_blob := dpop h (rg_by_blob rg), rg_sessions := dpop old (rg_sessions rg)\<rparr>)"
    using Some s by (simp add: pop_session_def Let_def)
  have other: "g = h" if "dget (rg_by_blob rg) g = Some old" for g
    using that s assms(1) unfolding registry_ok_iff by (metis option.inject)
  have popped: "registry_ok (snd (pop_session h rg))"
    unfolding registry_ok_iff pop snd_conv
  proof (intro conjI allI impI)
    fix i t assume "dget (rg_sessions (rg\<lparr>rg_by_blob := dpop h (rg_by_blob rg), rg_sessions := dpop old (rg_sessions rg)\<rparr>)) i = Some t"
    then have t: "i \<noteq> old" "dget (rg_sessions rg) i = Some t" by (simp_all add: dict_laws split: if_splits)
    with assms(1) have ok: "i \<noteq> []" "pe_session_id t = i" "dget (rg_by_blob rg) (pe_blob_hash t) = Some i"
      unfolding registry_ok_iff by blast+
    then have "pe_blob_hash t \<noteq> h" using Some t(1) by force
    with ok show "i \<noteq> []" "pe_session_id t = i" "dget (rg_by_blob (rg\<lparr>rg_by_blob := dpop h (rg_by_blob rg),
        rg_sessions := dpop old (rg_sessions rg)\<rparr>)) (pe_blob_hash t) = Some i"
      by (simp_all add: dict_laws)
  next
    fix k i assume "dget (rg_by_blob (rg\<lparr>rg_by_blob := dpop h (rg_by_blob rg), rg_sessions := dpop old (rg_sessions rg)\<rparr>)) k = Some i"
    then have k: "k \<noteq> h" "dget (rg_by_blob rg) k = Some i" by (simp_all add: dict_laws split: if_splits)
    with assms(1) obtain t where "dget (rg_sessions rg) i = Some t" "pe_blob_hash t = k"
      unfolding registry_ok_iff by blast
    moreover have "i \<noteq> old" using other k by blast
    ultimately show "\<exists>t. dget (rg_sessions (rg\<lparr>rg_by_blob := dpop h (rg_by_blob rg),
        rg_sessions := dpop old (rg_sessions rg)\<rparr>)) i = Some t \<and> pe_blob_hash t = k"
      by (simp add: dict_laws)
  qed (use assms(1) in \<open>simp_all add: registry_ok_iff\<close>)
  have "get_pending_chunk_session_by_blob g (snd (pop_session h rg)) =
      (if g = h then None else get_pending_chunk_session_by_blob g rg)"
    using other [of g] unfolding pop
    by (auto simp: get_pending_chunk_session_by_blob_def dict_laws split: option.split)
  then show ?thesis
    using popped keep pop Some s assms(1) by (simp add: get_pending_chunk_session_by_blob_def)
qed

theorem registry_consistent_witness:
  "map_option pe_board_id (get_pending_chunk_session_by_blob ''h''
     (snd (register_pending_chunk_session ''b'' ''h'' ''text'' ''p'' None ''s1'' \<lparr>rg_sessions = [], rg_by_blob = []\<rparr>))) = Some ''b''"
  using registry_consistent [of "\<lparr>rg_sessions = [], rg_by_blob = []\<rparr>" "''s1''" "''b''" "''h''" "''text''" "''p''" "''h''"]
  by (simp add: registry_ok_def) (simp add: register_pending_chunk_session_def Let_def)

end
