(* ===== verification/Policy.thy ===== *)
theory Policy
  imports Control
begin

text \<open>
  Moderation decisions (\<open>retiboard/moderation/policy.py\<close>): whether a post is admitted or passed on and
  whether a blob is served. The checks run in the source's order and the first that fails names the
  reason.
\<close>

record moderation_decision =
  md_allowed :: bool
  md_reason :: "string option"

definition allowed :: moderation_decision where
  "allowed = \<lparr>md_allowed = True, md_reason = None\<rparr>"

definition denied :: "string \<Rightarrow> moderation_decision" where
  "denied reason = \<lparr>md_allowed = False, md_reason = Some reason\<rparr>"

definition is_thread_hidden :: "string \<Rightarrow> control_db \<Rightarrow> bool" where
  "is_thread_hidden t c = (t \<noteq> [] \<and> has_control (Scope_thread, t, Action_hide) c)"
definition is_post_hidden :: "string \<Rightarrow> control_db \<Rightarrow> bool" where
  "is_post_hidden p c = (p \<noteq> [] \<and> has_control (Scope_post, p, Action_hide) c)"
definition is_thread_purged :: "string \<Rightarrow> control_db \<Rightarrow> bool" where
  "is_thread_purged t c = (t \<noteq> [] \<and> has_control (Scope_thread, t, Action_purge) c)"
definition is_post_purged :: "string \<Rightarrow> control_db \<Rightarrow> bool" where
  "is_post_purged p c = (p \<noteq> [] \<and> has_control (Scope_post, p, Action_purge) c)"

definition should_reject_post :: "post \<Rightarrow> control_db \<Rightarrow> moderation_decision" where
  "should_reject_post p c =
     (if is_identity_blocked (p_identity_hash p) c then denied ''blocked_identity''
      else if is_thread_purged (p_thread_id p) c then denied ''purged_thread''
      else if is_post_purged (p_post_id p) c then denied ''purged_post''
      else allowed)"

definition should_replicate_post :: "post \<Rightarrow> control_db \<Rightarrow> moderation_decision" where
  "should_replicate_post p c =
     (if p_is_abandoned p then denied ''abandoned''
      else (let d = should_reject_post p c in if \<not> md_allowed d then d else allowed))"

definition should_serve_blob :: "string \<Rightarrow> board_db \<Rightarrow> control_db \<Rightarrow> moderation_decision" where
  "should_serve_blob h db c =
     (case get_blob_reference h db of
        None \<Rightarrow> denied ''not_found''
      | Some r \<Rightarrow>
          (if br_identity_hash r \<noteq> [] \<and> is_identity_blocked (br_identity_hash r) c then denied ''withheld_local_policy''
           else if br_attachment r \<and> is_attachment_banned h c then denied ''withheld_local_policy''
           else if br_attachment r \<and> br_text_only r then denied ''policy_rejected''
           else if br_thread_id r \<noteq> [] \<and> is_thread_purged (br_thread_id r) c then denied ''withheld_local_policy''
           else if br_post_id r \<noteq> [] \<and> is_post_purged (br_post_id r) c then denied ''withheld_local_policy''
           else allowed))"

section \<open>Properties\<close>

lemma identity_block_control: "is_identity_blocked i c \<longleftrightarrow> i \<noteq> [] \<and> has_control (Scope_identity, i, Action_block) c"
  by (simp add: is_identity_blocked_def)

lemmas decision_defs = should_reject_post_def should_replicate_post_def allowed_def denied_def
  is_thread_purged_def is_post_purged_def identity_block_control

lemma rejected_iff:
  "\<not> md_allowed (should_reject_post p c) \<longleftrightarrow>
     is_identity_blocked (p_identity_hash p) c \<or> is_thread_purged (p_thread_id p) c \<or> is_post_purged (p_post_id p) c"
  by (simp add: decision_defs)

text \<open>Also: once an identity is blocked or a thread or post is purged, its posts are refused at
  admission and not replicated, and no operation on other rules changes that; only the opposite
  operation on the same rule lifts it, and then that rule alone no longer refuses anything.\<close>

theorem moderation_rule_enforced:
  assumes "list_all (\<lambda>x. rule_of_step x \<noteq> k) ys"
    and "k = (Scope_identity, p_identity_hash p, Action_block) \<and> p_identity_hash p \<noteq> [] \<or>
      k = (Scope_thread, p_thread_id p, Action_purge) \<and> p_thread_id p \<noteq> [] \<or>
      k = (Scope_post, p_post_id p, Action_purge) \<and> p_post_id p \<noteq> []"
  shows "\<not> md_allowed (should_reject_post p (fold rule_step (xs @ Inl (now, k, reason) # ys) c)) \<and>
    \<not> md_allowed (should_replicate_post p (fold rule_step (xs @ Inl (now, k, reason) # ys) c)) \<and>
    should_reject_post p (clear_control k (set_control now k reason c)) =
      should_reject_post p (clear_control k c)"
proof -
  let ?c = "fold rule_step (xs @ Inl (now, k, reason) # ys) c"
  have "has_control k ?c"
    using assms(1) rules.run_last_store [where e = "(now, k, reason)" and ys = ys and xs = xs and s = c]
    by (simp add: has_control_lookup rule_step_store rules_untouched rules_all_valid)
  then have rej: "\<not> md_allowed (should_reject_post p ?c)"
    using assms(2) unfolding rejected_iff by (auto simp: decision_defs)
  then have "\<not> md_allowed (should_replicate_post p ?c)"
    by (simp add: should_replicate_post_def Let_def denied_def)
  moreover have "should_reject_post p (clear_control k (set_control now k reason c)) =
      should_reject_post p (clear_control k c)"
    by (simp add: decision_defs has_control_set has_control_clear)
  ultimately show ?thesis using rej by blast
qed

abbreviation sample_post :: "string \<Rightarrow> string \<Rightarrow> string \<Rightarrow> string \<Rightarrow> string \<Rightarrow> post" where
  "sample_post pid tid ident h att \<equiv> \<lparr>p_post_id = pid, p_thread_id = tid, p_parent_id = [], p_timestamp = 5,
     p_expiry_timestamp = 100, p_bump_flag = True, p_content_hash = h, p_payload_size = 1,
     p_attachment_content_hash = att, p_attachment_payload_size = 0, p_has_attachments = False,
     p_attachment_count = 0, p_text_only = False, p_identity_hash = ident, p_pow_nonce = [],
     p_public_key = [], p_encrypted_pings = [], p_edit_signature = [], p_thread_last_activity = 5,
     p_is_abandoned = False\<rparr>"

theorem moderation_rule_enforced_witness:
  "\<not> md_allowed (should_reject_post (sample_post ''p'' ''t'' ''i'' ''h'' [])
      (fold rule_step ([] @ Inl (1, (Scope_thread, ''t'', Action_purge), []) # [Inr (Scope_post, ''p'', Action_purge)]) empty_control)) \<and>
   md_allowed (should_reject_post (sample_post ''p'' ''t'' ''i'' ''h'' []) empty_control)"
  using moderation_rule_enforced [of "(Scope_thread, ''t'', Action_purge)" "[Inr (Scope_post, ''p'', Action_purge)]"
      "sample_post ''p'' ''t'' ''i'' ''h'' []" "[]" 1 "[]" empty_control]
  by (simp add: rule_of_step_def) (simp add: decision_defs has_control_def empty_control_def)

text \<open>Also: a blob is served exactly when a post of the board declares it and the first such
  post's author is not blocked, its thread and the post itself are not purged, and, where the post
  declares it as its attachment, the hash is not banned and the post is not text only.\<close>

theorem blob_served_iff:
  "md_allowed (should_serve_blob h db c) \<longleftrightarrow>
     (\<exists>r. get_blob_reference h db = Some r \<and>
        \<not> is_identity_blocked (br_identity_hash r) c \<and>
        \<not> is_thread_purged (br_thread_id r) c \<and> \<not> is_post_purged (br_post_id r) c \<and>
        \<not> (br_attachment r \<and> (is_attachment_banned h c \<or> br_text_only r)))"
  by (auto simp: should_serve_blob_def decision_defs split: option.split)

text \<open>Also: an attachment ban has no effect on serving the banned bytes once any post of the board
  names their hash as its text blob, which a post by anyone can do.\<close>

theorem attachment_ban_bypassed:
  assumes "h \<in> p_content_hash ` set (db_posts db)"
  shows "should_serve_blob h db (ban_attachment now h reason c) = should_serve_blob h db c"
proof -
  from assms obtain p where "find (\<lambda>p. p_content_hash p = h) (db_posts db) = Some p"
    by (cases "find (\<lambda>p. p_content_hash p = h) (db_posts db)") (auto simp: find_None_iff)
  then have "get_blob_reference h db = Some (reference_of False p)"
    by (simp add: get_blob_reference_def)
  then show ?thesis
    by (simp add: should_serve_blob_def reference_of_def decision_defs ban_attachment_def has_control_set)
qed

theorem attachment_ban_bypassed_witness:
  "md_reason (should_serve_blob ''bad'' \<lparr>db_config = [], db_posts = [sample_post ''p'' ''t'' ''i'' ''h'' ''bad'']\<rparr>
      (ban_attachment 1 ''bad'' [] empty_control)) = Some ''withheld_local_policy'' \<and>
   md_allowed (should_serve_blob ''bad'' \<lparr>db_config = [], db_posts = [sample_post ''p'' ''t'' ''i'' ''h'' ''bad'',
      sample_post ''q'' ''u'' ''j'' ''bad'' []]\<rparr> (ban_attachment 1 ''bad'' [] empty_control))"
proof
  show "md_reason (should_serve_blob ''bad'' \<lparr>db_config = [], db_posts = [sample_post ''p'' ''t'' ''i'' ''h'' ''bad'']\<rparr>
      (ban_attachment 1 ''bad'' [] empty_control)) = Some ''withheld_local_policy''"
    by code_simp
  have "md_allowed (should_serve_blob ''bad'' \<lparr>db_config = [], db_posts = [sample_post ''p'' ''t'' ''i'' ''h'' ''bad'',
      sample_post ''q'' ''u'' ''j'' ''bad'' []]\<rparr> empty_control)" by code_simp
  then show "md_allowed (should_serve_blob ''bad'' \<lparr>db_config = [], db_posts = [sample_post ''p'' ''t'' ''i'' ''h'' ''bad'',
      sample_post ''q'' ''u'' ''j'' ''bad'' []]\<rparr> (ban_attachment 1 ''bad'' [] empty_control))"
    by (subst attachment_ban_bypassed) simp_all
qed

end
