(* ===== verification/Purge.thy ===== *)
theory Purge
  imports Sessions Policy
begin

text \<open>
  The purge cascades (\<open>retiboard/moderation/purge.py\<close>) on a node: the rows of the board's database,
  the payload files and chunk caches, the transfer state, the pending session of every blob, and
  last the deny tombstone. A failing file operation raises and leaves the node as it is then, with
  no tombstone. \<open>home\<close> is the boards directory; \<open>now\<close> is the clock.
\<close>

record purge_result =
  pr_deleted_posts :: nat
  pr_deleted_payload_blobs :: nat
  pr_deleted_chunk_caches :: nat
  pr_chunk_state :: deleted_counts
  pr_scope :: string
  pr_target :: string
  pr_purged_post_ids :: "string list"

definition no_counts :: deleted_counts where
  "no_counts = \<lparr>dc_manifests = 0, dc_sessions = 0, dc_request_states = 0, dc_availability_rows = 0\<rparr>"

definition add_counts :: "deleted_counts \<Rightarrow> deleted_counts \<Rightarrow> deleted_counts" where
  "add_counts a b = \<lparr>dc_manifests = dc_manifests a + dc_manifests b, dc_sessions = dc_sessions a + dc_sessions b,
     dc_request_states = dc_request_states a + dc_request_states b,
     dc_availability_rows = dc_availability_rows a + dc_availability_rows b\<rparr>"

definition add_results :: "purge_result \<Rightarrow> purge_result \<Rightarrow> purge_result" where
  "add_results a b =
     \<lparr>pr_deleted_posts = pr_deleted_posts a + pr_deleted_posts b,
      pr_deleted_payload_blobs = pr_deleted_payload_blobs a + pr_deleted_payload_blobs b,
      pr_deleted_chunk_caches = pr_deleted_chunk_caches a + pr_deleted_chunk_caches b,
      pr_chunk_state = add_counts (pr_chunk_state a) (pr_chunk_state b),
      pr_scope = pr_scope a, pr_target = pr_target a,
      pr_purged_post_ids = pr_purged_post_ids a @ pr_purged_post_ids b\<rparr>"

definition empty_result :: "string \<Rightarrow> string \<Rightarrow> purge_result" where
  "empty_result scope target =
     \<lparr>pr_deleted_posts = 0, pr_deleted_payload_blobs = 0, pr_deleted_chunk_caches = 0,
      pr_chunk_state = no_counts, pr_scope = scope, pr_target = target, pr_purged_post_ids = []\<rparr>"

definition on_fs :: "(fs \<Rightarrow> 'a fs_result) \<Rightarrow> peer_node \<Rightarrow> ('a, peer_node) run" where
  "on_fs g n = (case g (nd_fs n) of
     Inl (e, f) \<Rightarrow> Inl (e, n\<lparr>nd_fs := f\<rparr>) | Inr (x, f) \<Rightarrow> Inr (x, n\<lparr>nd_fs := f\<rparr>))"

definition on_store :: "string \<Rightarrow> (board_store \<Rightarrow> 'a \<times> board_store) \<Rightarrow> peer_node \<Rightarrow> 'a \<times> peer_node" where
  "on_store board g n = (let r = g (store_of n board) in (fst r, put_store board (snd r) n))"

text \<open>The common part: files and caches, then the transfer state, then the pending sessions.\<close>

definition purge_blobs ::
  "time \<Rightarrow> path \<Rightarrow> string \<Rightarrow> string list \<Rightarrow> peer_node \<Rightarrow> (nat \<times> nat \<times> deleted_counts, peer_node) run" where
  "purge_blobs now home board hs n =
     bind_run (on_fs (delete_payloads_bulk home board hs) n) (\<lambda>blobs n1.
     bind_run (on_fs (delete_chunk_cache_bulk home board hs) n1) (\<lambda>caches n2.
       (let (counts, n3) = on_store board (\<lambda>st.
              (let r = delete_chunk_transfer_state_for_blobs hs (bs_chunks st)
               in (fst r, st\<lparr>bs_chunks := snd r\<rparr>))) n2
        in Inr ((blobs, caches, counts), fold (cancel_pending_chunk_session now) hs n3))))"

definition purge_thread ::
  "time \<Rightarrow> path \<Rightarrow> string \<Rightarrow> string \<Rightarrow> string \<Rightarrow> peer_node \<Rightarrow> (purge_result, peer_node) run" where
  "purge_thread now home board tid reason n =
     (let db = bs_db (store_of n board);
          purged_ids = map p_post_id (thread_rows tid (db_posts db));
          hs = get_thread_blob_references tid db;
          (deleted, n1) = on_store board (\<lambda>st.
            (let r = delete_thread_metadata tid (bs_db st) in (fst r, st\<lparr>bs_db := snd r\<rparr>))) n
      in bind_run (purge_blobs now home board hs n1) (\<lambda>(blobs, caches, counts) n2.
           Inr (\<lparr>pr_deleted_posts = deleted, pr_deleted_payload_blobs = blobs, pr_deleted_chunk_caches = caches,
                  pr_chunk_state = counts, pr_scope = ''thread'', pr_target = tid, pr_purged_post_ids = purged_ids\<rparr>,
             snd (on_store board (\<lambda>st. ((), st\<lparr>bs_control := mark_thread_purged \<lfloor>now\<rfloor> tid reason (bs_control st)\<rparr>)) n2))))"

definition recompute_on :: "string \<Rightarrow> string \<Rightarrow> peer_node \<Rightarrow> (unit, peer_node) run" where
  "recompute_on board tid n =
     (let st = store_of n board
      in case recompute_thread_lifecycle tid (bs_db st) of
           Inl (e, db) \<Rightarrow> Inl (e, put_store board (st\<lparr>bs_db := db\<rparr>) n)
         | Inr db \<Rightarrow> Inr ((), put_store board (st\<lparr>bs_db := db\<rparr>) n))"

text \<open>Purging an OP purges its thread.\<close>

definition purge_post ::
  "time \<Rightarrow> path \<Rightarrow> string \<Rightarrow> string \<Rightarrow> string \<Rightarrow> peer_node \<Rightarrow> (purge_result, peer_node) run" where
  "purge_post now home board pid reason n =
     (let db = bs_db (store_of n board); row = get_post pid db
      in if (case row of Some p \<Rightarrow> p_post_id p = p_thread_id p | None \<Rightarrow> False)
         then purge_thread now home board (p_thread_id (the row)) reason n
         else
           (let hs = get_post_blob_references pid db;
                (deleted, n1) = on_store board (\<lambda>st.
                  (let r = delete_post_metadata pid (bs_db st) in (fst r, st\<lparr>bs_db := snd r\<rparr>))) n
            in bind_run (purge_blobs now home board hs n1) (\<lambda>(blobs, caches, counts) n2.
               bind_run (case row of Some p \<Rightarrow> recompute_on board (p_thread_id p) n2 | None \<Rightarrow> Inr ((), n2)) (\<lambda>_ n3.
                 Inr (\<lparr>pr_deleted_posts = deleted, pr_deleted_payload_blobs = blobs,
                        pr_deleted_chunk_caches = caches, pr_chunk_state = counts, pr_scope = ''post'',
                        pr_target = pid, pr_purged_post_ids = (if deleted > 0 then [pid] else [])\<rparr>,
                   snd (on_store board (\<lambda>st. ((), st\<lparr>bs_control := mark_post_purged \<lfloor>now\<rfloor> pid reason (bs_control st)\<rparr>)) n3))))))"

text \<open>The two passes of an identity purge, each purge recorded under the action. A Python set of
  thread ids is walked in an order the program does not choose: \<open>order\<close>.\<close>

fun purge_all ::
  "(string \<Rightarrow> peer_node \<Rightarrow> (purge_result, peer_node) run) \<Rightarrow> (string \<Rightarrow> peer_node \<Rightarrow> peer_node) \<Rightarrow>
   string list \<Rightarrow> purge_result \<Rightarrow> peer_node \<Rightarrow> (purge_result, peer_node) run" where
  "purge_all purge rec [] acc n = Inr (acc, n)"
| "purge_all purge rec (x # xs) acc n =
     bind_run (purge x n) (\<lambda>r n1. purge_all purge rec xs (add_results acc r) (rec x n1))"

definition record_target :: "string \<Rightarrow> nat \<Rightarrow> bool \<Rightarrow> string \<Rightarrow> peer_node \<Rightarrow> peer_node" where
  "record_target board aid thr x n =
     snd (on_store board (\<lambda>st. ((), st\<lparr>bs_control := record_moderation_target aid thr x (bs_control st)\<rparr>)) n)"

definition purge_identity ::
  "(string list \<Rightarrow> string list) \<Rightarrow> time \<Rightarrow> path \<Rightarrow> string \<Rightarrow> string \<Rightarrow> string \<Rightarrow> peer_node \<Rightarrow>
   (nat \<times> purge_result, peer_node) run" where
  "purge_identity order now home board ident reason n =
     (let posts = get_posts_by_identity ident (bs_db (store_of n board));
          (aid, n1) = on_store board (\<lambda>st.
            (let r = create_moderation_action \<lfloor>now\<rfloor> Identity_ban ident reason (bs_control st)
             in (fst r, st\<lparr>bs_control := snd r\<rparr>))) n;
          ops = order (remdups (map p_thread_id (filter (\<lambda>p. p_post_id p = p_thread_id p) posts)));
          replies = remdups (map p_post_id (filter (\<lambda>p. p_thread_id p \<notin> set ops) posts))
      in bind_run (purge_all (\<lambda>t. purge_thread now home board t reason) (record_target board aid True)
                     ops (empty_result ''identity'' ident) n1) (\<lambda>acc n2.
         bind_run (purge_all (\<lambda>p. purge_post now home board p reason) (record_target board aid False)
                     replies acc n2) (\<lambda>acc2 n3. Inr ((aid, acc2), n3))))"

end
