(* ===== verification/PurgeSafe.thy ===== *)
theory PurgeSafe
  imports Purge PayloadsSafe
begin

text \<open>
  Properties of the purge: it removes everything a thread or post has on the node and the target
  stays refused; what it leaves behind when a blob's session still has queued writes, and what it
  takes from other posts that share a blob.
\<close>

section \<open>What closing pending sessions leaves alone\<close>

lemma store_of_put: "store_of (put_store b st n) c = (if c = b then st else store_of n c)"
  by (simp add: store_of_def put_store_def dict_laws)

lemma store_of_fields [simp]:
  "store_of (n\<lparr>nd_fs := f\<rparr>) c = store_of n c"
  "store_of (n\<lparr>nd_registry := rg\<rparr>) c = store_of n c"
  "store_of (n\<lparr>nd_scheduler := sc\<rparr>) c = store_of n c"
  by (simp_all add: store_of_def)

lemma put_store_fields [simp]:
  "nd_fs (put_store b st n) = nd_fs n" "nd_registry (put_store b st n) = nd_registry n"
  by (simp_all add: put_store_def)

definition same_transfer :: "chunk_db \<Rightarrow> chunk_db \<Rightarrow> bool" where
  "same_transfer a b = (ck_manifests a = ck_manifests b \<and> ck_entries a = ck_entries b \<and>
     ck_sessions a = ck_sessions b \<and> ck_availability a = ck_availability b)"

lemma same_transfer_refl: "same_transfer a a"
  by (simp add: same_transfer_def)

lemma same_transfer_trans: "same_transfer a b \<Longrightarrow> same_transfer b c \<Longrightarrow> same_transfer a c"
  by (simp add: same_transfer_def)

lemma put_many_frame:
  "(\<And>r d. same_transfer (put r d) d) \<Longrightarrow> same_transfer (snd (put_many ok put rs db)) db"
proof (induction rs arbitrary: db)
  case (Cons r rs)
  have "same_transfer (snd (put_many ok put rs (put r db))) db"
    using Cons.IH [OF Cons.prems] Cons.prems by (rule same_transfer_trans)
  then show ?case by (simp add: same_transfer_refl)
qed (simp add: same_transfer_refl)

lemma put_rows_frame: "same_transfer (put_request r d) d" "same_transfer (put_penalty p d) d"
  by (simp_all add: same_transfer_def put_request_def put_penalty_def)

definition flushed_db :: "time \<Rightarrow> batcher \<Rightarrow> chunk_db \<Rightarrow> chunk_db" where
  "flushed_db now b db = (case flush now b db of Inl (_, _, d) \<Rightarrow> d | Inr (_, _, d) \<Rightarrow> d)"

lemma flushed_db_frame: "same_transfer (flushed_db now b db) db"
proof -
  obtain e1 d1 where 1: "put_many request_bindable put_request (bt_chunk_states b) db = (e1, d1)" by force
  obtain e2 d2 where 2: "put_many penalty_bindable put_penalty (bt_peer_penalties b) d1 = (e2, d2)" by force
  have "same_transfer d1 db"
    using put_many_frame [of put_request, OF put_rows_frame(1), of request_bindable "bt_chunk_states b" db] 1 by simp
  moreover have "same_transfer d2 d1"
    using put_many_frame [of put_penalty, OF put_rows_frame(2), of penalty_bindable "bt_peer_penalties b" d1] 2 by simp
  ultimately show ?thesis
    by (auto simp: flushed_db_def flush_def 1 2 same_transfer_def split: option.split)
qed

lemma flush_session_eq:
  "flush_session now s n = (case pe_batcher s of None \<Rightarrow> n | Some b \<Rightarrow>
     put_store (bt_board_id b) ((store_of n (bt_board_id b))\<lparr>bs_chunks :=
       flushed_db now b (bs_chunks (store_of n (bt_board_id b)))\<rparr>) n)"
  by (auto simp: flush_session_def flushed_db_def Let_def split: option.split sum.split)

text \<open>Files, posts, rules, and all transfer rows but request states and penalties stay.\<close>

definition same_but_queued :: "peer_node \<Rightarrow> peer_node \<Rightarrow> bool" where
  "same_but_queued m n = (nd_fs m = nd_fs n \<and> (\<forall>c. bs_db (store_of m c) = bs_db (store_of n c) \<and>
     bs_control (store_of m c) = bs_control (store_of n c) \<and>
     same_transfer (bs_chunks (store_of m c)) (bs_chunks (store_of n c))))"

lemma same_but_queued_trans: "same_but_queued a b \<Longrightarrow> same_but_queued b c \<Longrightarrow> same_but_queued a c"
  unfolding same_but_queued_def using same_transfer_trans by fastforce

lemma cancel_frame: "same_but_queued (cancel_pending_chunk_session now h n) n"
  by (auto simp: cancel_pending_chunk_session_def flush_session_eq same_but_queued_def store_of_put
      flushed_db_frame same_transfer_refl Let_def split: prod.split option.split)

lemma cancel_all_frame: "same_but_queued (fold (cancel_pending_chunk_session now) hs n) n"
proof (induction hs arbitrary: n)
  case (Cons h hs)
  show ?case using same_but_queued_trans [OF Cons.IH cancel_frame] by simp
qed (simp add: same_but_queued_def same_transfer_refl)

lemma same_transfer_manifest: "same_transfer a b \<Longrightarrow> load_chunk_manifest h a = load_chunk_manifest h b"
  by (simp add: same_transfer_def load_chunk_manifest_def split: option.split)

section \<open>The blobs\<close>

definition deletable :: "path \<Rightarrow> string \<Rightarrow> string list \<Rightarrow> fs \<Rightarrow> bool" where
  "deletable home board hs f = (payload_inv home board f \<and> list_all plain_name hs \<and>
     list_all (\<lambda>h. node_at f (cache_of home board h) \<in> {None, Some Dir}) hs)"

definition blobs_gone :: "path \<Rightarrow> string \<Rightarrow> string list \<Rightarrow> peer_node \<Rightarrow> bool" where
  "blobs_gone home board hs n = list_all (\<lambda>h. read_payload home board h (nd_fs n) = Inr None \<and>
     node_at (nd_fs n) (cache_of home board h) = None \<and>
     load_chunk_manifest h (bs_chunks (store_of n board)) = None \<and>
     list_all (\<lambda>s. se_blob_hash s \<noteq> h) (ck_sessions (bs_chunks (store_of n board)))) hs"

lemma purge_blobs_run:
  assumes "deletable home board hs (nd_fs n)"
  shows "\<exists>blobs caches counts n'. purge_blobs now home board hs n = Inr ((blobs, caches, counts), n') \<and>
      blobs_gone home board hs n' \<and> payload_inv home board (nd_fs n') \<and>
      (\<forall>h. plain_name h \<and> h \<notin> set hs \<longrightarrow> read_payload home board h (nd_fs n') = read_payload home board h (nd_fs n)) \<and>
      (\<forall>c. bs_db (store_of n' c) = bs_db (store_of n c) \<and> bs_control (store_of n' c) = bs_control (store_of n c))"
proof -
  from assms blob_files_deleted(1) [of home board "nd_fs n" hs] obtain k f1 m f2 where
    f: "delete_payloads_bulk home board hs (nd_fs n) = Inr (k, f1)"
      "delete_chunk_cache_bulk home board hs f1 = Inr (m, f2)" "payload_inv home board f2"
    and reads: "\<And>h. plain_name h \<Longrightarrow> read_payload home board h f2 =
         (if h \<in> set hs then Inr None else read_payload home board h (nd_fs n))"
    and caches: "\<And>h. h \<in> set hs \<Longrightarrow> node_at f2 (cache_of home board h) = None"
    unfolding deletable_def files_gone_def by fastforce
  let ?st = "store_of n board"
  let ?r = "delete_chunk_transfer_state_for_blobs hs (bs_chunks ?st)"
  let ?n3 = "put_store board (?st\<lparr>bs_chunks := snd ?r\<rparr>) (n\<lparr>nd_fs := f2\<rparr>)"
  let ?n' = "fold (cancel_pending_chunk_session now) hs ?n3"
  have run: "purge_blobs now home board hs n = Inr ((k, m, fst ?r), ?n')"
    using f by (simp add: purge_blobs_def on_fs_def on_store_def Let_def)
  have frame: "same_but_queued ?n' ?n3" by (rule cancel_all_frame)
  then have fs: "nd_fs ?n' = f2"
    and dbs: "\<And>c. bs_db (store_of ?n' c) = bs_db (store_of n c) \<and> bs_control (store_of ?n' c) = bs_control (store_of n c)"
    and tr: "same_transfer (bs_chunks (store_of ?n' board)) (snd ?r)"
    by (auto simp: same_but_queued_def store_of_put split: if_splits)
  have "load_chunk_manifest h (bs_chunks (store_of ?n' board)) = None" if "h \<in> set hs" for h
    using same_transfer_manifest [OF tr, of h] loads_after_deletion(1) [of h hs "bs_chunks ?st"] that by simp
  moreover have "list_all (\<lambda>s. se_blob_hash s \<noteq> h) (ck_sessions (bs_chunks (store_of ?n' board)))" if "h \<in> set hs" for h
    using tr that by (auto simp: same_transfer_def after_deletion_eq list_all_iff)
  moreover have "read_payload home board h f2 = Inr None" if "h \<in> set hs" for h
    using that reads [of h] assms by (auto simp: deletable_def list_all_iff)
  ultimately have "blobs_gone home board hs ?n'"
    using caches by (auto simp: blobs_gone_def fs list_all_iff)
  moreover have "\<forall>h. plain_name h \<and> h \<notin> set hs \<longrightarrow> read_payload home board h (nd_fs ?n') = read_payload home board h (nd_fs n)"
    using reads by (simp add: fs)
  ultimately show ?thesis using run f(3) fs dbs by (intro exI conjI) auto
qed


abbreviation sample_node :: peer_node where
  "sample_node \<equiv> \<lparr>nd_boards = [(''b'', empty_store\<lparr>bs_db := \<lparr>db_config = [],
       db_posts = [sample_post ''t'' ''t'' ''i'' ''x'' [], sample_post ''p'' ''t'' ''j'' ''y'' [],
         sample_post ''q'' ''u'' ''j'' ''y'' []]\<rparr>\<rparr>)],
     nd_fs = sample_fs, nd_registry = \<lparr>rg_sessions = [], rg_by_blob = []\<rparr>, nd_scheduler = new_scheduler\<rparr>"

lemma sample_store: "bs_db (store_of sample_node ''b'') = \<lparr>db_config = [],
    db_posts = [sample_post ''t'' ''t'' ''i'' ''x'' [], sample_post ''p'' ''t'' ''j'' ''y'' [],
      sample_post ''q'' ''u'' ''j'' ''y'' []]\<rparr>"
  by (simp add: store_of_def dget_or_def)

lemma sample_deletable: "deletable [''h''] ''b'' [''x'', ''y''] (nd_fs sample_node)"
  by (simp add: deletable_def payload_inv_def fs_ok_def entry_ok_def clean_def plain_name_def node_at_def)


section \<open>A single post\<close>

lemma set_expiry_ids: "map p_post_id (set_expiry t e ps) = map p_post_id ps"
  by (induction ps) (auto simp: set_expiry_def)

lemma set_last_activity_ids: "map p_post_id (set_last_activity t a ps) = map p_post_id ps"
  by (induction ps) (auto simp: set_last_activity_def)

lemma recompute_ids:
  "recompute_thread_lifecycle tid db = Inr db' \<Longrightarrow> map p_post_id (db_posts db') = map p_post_id (db_posts db)"
  by (auto simp: recompute_thread_lifecycle_def recompute_lifecycle_def set_expiry_ids set_last_activity_ids
      split: option.splits prod.splits if_splits)

text \<open>Also: purging a reply removes its row, files, caches and transfer state, recomputes the
  lifecycle of its thread over the remaining posts, and refuses the post from then on. A post that
  shares one of its blobs stays listed although its payload file is gone: files are deleted without
  counting references.\<close>

theorem purge_reply_effect:
  assumes "deletable home board (post_hashes p) (nd_fs n)"
    and "get_post pid (bs_db (store_of n board)) = Some p" and "p_post_id p \<noteq> p_thread_id p"
    and "recompute_thread_lifecycle (p_thread_id p) (snd (delete_post_metadata pid (bs_db (store_of n board)))) = Inr db'"
  shows "\<exists>r n'. purge_post now home board pid reason n = Inr (r, n') \<and>
      bs_db (store_of n' board) = db' \<and> \<not> post_exists pid db' \<and>
      blobs_gone home board (post_hashes p) n' \<and>
      (pid \<noteq> [] \<longrightarrow> \<not> md_allowed (should_reject_post p (bs_control (store_of n' board)))) \<and>
      (\<forall>q \<in> set (db_posts (bs_db (store_of n board))). p_post_id q \<noteq> pid \<longrightarrow> post_exists (p_post_id q) db' \<and>
         (\<forall>h \<in> set (post_hashes q) \<inter> set (post_hashes p). read_payload home board h (nd_fs n') = Inr None))"
proof -
  let ?st = "store_of n board"
  let ?d = "delete_post_metadata pid (bs_db ?st)"
  let ?n1 = "put_store board (?st\<lparr>bs_db := snd ?d\<rparr>) n"
  have hs: "get_post_blob_references pid (bs_db ?st) = post_hashes p"
    using assms(2) by (simp add: get_post_blob_references_def)
  have "deletable home board (post_hashes p) (nd_fs ?n1)" using assms(1) by simp
  from purge_blobs_run [OF this, of now] obtain k m cn n2 where
    b: "purge_blobs now home board (post_hashes p) ?n1 = Inr ((k, m, cn), n2)" "blobs_gone home board (post_hashes p) n2"
    "\<forall>c. bs_db (store_of n2 c) = bs_db (store_of ?n1 c) \<and> bs_control (store_of n2 c) = bs_control (store_of ?n1 c)"
    by blast
  let ?n3 = "put_store board ((store_of n2 board)\<lparr>bs_db := db'\<rparr>) n2"
  have "bs_db (store_of n2 board) = snd ?d" using b(3) by (simp add: store_of_put)
  then have re: "recompute_on board (p_thread_id p) n2 = Inr ((), ?n3)"
    using assms(4) by (simp add: recompute_on_def Let_def)
  let ?c = "mark_post_purged \<lfloor>now\<rfloor> pid reason (bs_control (store_of ?n3 board))"
  let ?n' = "put_store board ((store_of ?n3 board)\<lparr>bs_control := ?c\<rparr>) ?n3"
  have run: "\<exists>r. purge_post now home board pid reason n = Inr (r, ?n')"
    using b(1) re assms(2,3) by (simp add: purge_post_def hs on_store_def Let_def case_prod_beta)
  have ids: "map p_post_id (db_posts db') = map p_post_id (db_posts (snd ?d))"
    using assms(4) by (rule recompute_ids)
  have ex: "post_exists x db' \<longleftrightarrow> x \<in> set (map p_post_id (db_posts (snd ?d)))" for x
    unfolding ids [symmetric] by (auto simp: post_exists_def list_ex_iff)
  have gone: "blobs_gone home board (post_hashes p) ?n'"
    using b(2) by (simp add: blobs_gone_def store_of_put)
  have pid: "p_post_id p = pid" using assms(2) by (auto simp: get_post_def dest: find_SomeD)
  have rej: "pid \<noteq> [] \<longrightarrow> \<not> md_allowed (should_reject_post p (bs_control (store_of ?n' board)))"
    by (simp add: rejected_iff is_post_purged_def mark_post_purged_def has_control_set store_of_put pid)
  have shared: "read_payload home board h (nd_fs ?n') = Inr None" if "h \<in> set (post_hashes p)" for h
    using gone that by (simp add: blobs_gone_def list_all_iff)
  have "\<not> post_exists pid db'" by (auto simp: ex delete_post_metadata_def)
  moreover have "post_exists (p_post_id q) db'" if "q \<in> set (db_posts (bs_db ?st))" "p_post_id q \<noteq> pid" for q
    using that by (auto simp: ex delete_post_metadata_def)
  moreover have "bs_db (store_of ?n' board) = db'" by (simp add: store_of_put)
  ultimately show ?thesis using run gone rej shared by blast
qed

theorem purge_reply_effect_witness:
  "\<exists>r n'. purge_post 7 [''h''] ''b'' ''p'' [] sample_node = Inr (r, n') \<and> blobs_gone [''h''] ''b'' [''y''] n' \<and>
     post_exists ''q'' (bs_db (store_of n' ''b'')) \<and> read_payload [''h''] ''b'' ''y'' (nd_fs n') = Inr None"
proof -
  let ?p = "sample_post ''p'' ''t'' ''j'' ''y'' []"
  let ?db = "snd (delete_post_metadata ''p'' (bs_db (store_of sample_node ''b'')))"
  have p: "get_post ''p'' (bs_db (store_of sample_node ''b'')) = Some ?p"
    by (simp only: sample_store) (simp add: get_post_def)
  have "\<not> isl (recompute_thread_lifecycle ''t'' ?db)" by (simp only: sample_store) code_simp
  then obtain db' where r: "recompute_thread_lifecycle ''t'' ?db = Inr db'"
    by (cases "recompute_thread_lifecycle ''t'' ?db") auto
  have hs: "post_hashes ?p = [''y'']" by (simp add: post_hashes_def)
  have d: "deletable [''h''] ''b'' (post_hashes ?p) (nd_fs sample_node)"
    using sample_deletable by (simp add: hs deletable_def)
  have q: "sample_post ''q'' ''u'' ''j'' ''y'' [] \<in> set (db_posts (bs_db (store_of sample_node ''b'')))"
    by (simp only: sample_store) simp
  from purge_reply_effect [OF d p, of db' 7 "[]"] r
  obtain x n' where "purge_post 7 [''h''] ''b'' ''p'' [] sample_node = Inr (x, n')"
    "bs_db (store_of n' ''b'') = db'" "blobs_gone [''h''] ''b'' [''y''] n'"
    and o: "\<forall>q \<in> set (db_posts (bs_db (store_of sample_node ''b''))). p_post_id q \<noteq> ''p'' \<longrightarrow> post_exists (p_post_id q) db' \<and>
         (\<forall>h \<in> set (post_hashes q) \<inter> set (post_hashes ?p). read_payload [''h''] ''b'' h (nd_fs n') = Inr None)"
    unfolding hs by auto
  moreover from o [THEN bspec, OF q]
  have "post_exists ''q'' db'" "read_payload [''h''] ''b'' ''y'' (nd_fs n') = Inr None" by (simp_all add: post_hashes_def)
  ultimately show ?thesis by blast
qed

section \<open>Queued writes of a purged blob\<close>

lemma fold_put_frame: "ck_requests (fold put_penalty ps db) = ck_requests db"
  by (induction ps arbitrary: db) (simp_all add: put_penalty_def)

text \<open>Also: the purge deletes the transfer state before it closes the blob's pending session, and
  closing flushes the writes the session has queued: the last queued request state comes back into
  the database although its session row is gone, and no later deletion by blob finds it.\<close>

theorem purge_revives_queued_states:
  assumes "deletable home board [h] (nd_fs n)"
    and "get_pending_chunk_session_by_blob h (nd_registry n) = Some s" and "pe_batcher s = Some b"
    and "bt_board_id b = board" and "bt_chunk_states b = rs @ [r]"
    and "list_all request_bindable (bt_chunk_states b)" and "list_all penalty_bindable (bt_peer_penalties b)"
  shows "\<exists>x n'. purge_blobs now home board [h] n = Inr (x, n') \<and>
      list_all (\<lambda>c. se_blob_hash c \<noteq> h) (ck_sessions (bs_chunks (store_of n' board))) \<and>
      r \<in> set (ck_requests (bs_chunks (store_of n' board)))"
proof -
  from purge_blobs_run [OF assms(1), of now] obtain k m cn n' where
    run: "purge_blobs now home board [h] n = Inr ((k, m, cn), n')" and gone: "blobs_gone home board [h] n'"
    by blast
  obtain f where n': "n' = cancel_pending_chunk_session now h f" and reg: "nd_registry f = nd_registry n"
    using run unfolding purge_blobs_def on_fs_def on_store_def Let_def
    by (auto simp: bind_run_def split: sum.splits prod.splits)
  from assms(2) obtain rg where pop: "pop_session h (nd_registry f) = (Some s, rg)"
    by (auto simp: get_pending_chunk_session_by_blob_def pop_session_def reg Let_def split: option.splits if_splits)
  let ?db = "bs_chunks (store_of f board)"
  have "flushed_db now b ?db = fold put_penalty (bt_peer_penalties b) (fold put_request (bt_chunk_states b) ?db)"
    using flush_equals_single_saves_eq [of b now ?db] assms(5-7) by (simp add: flushed_db_def pending_count_def)
  also have "ck_requests \<dots> = upsert request_key r (ck_requests (fold put_request rs ?db))"
    by (simp add: fold_put_frame assms(5) put_request_def)
  finally have "r \<in> set (ck_requests (flushed_db now b ?db))" by (simp add: upsert_def)
  then have "r \<in> set (ck_requests (bs_chunks (store_of n' board)))"
    by (simp add: n' cancel_pending_chunk_session_def pop Let_def flush_session_eq assms(3,4) store_of_put)
  then show ?thesis using run gone by (auto simp: blobs_gone_def)
qed

abbreviation queued_node :: peer_node where
  "queued_node \<equiv> sample_node\<lparr>nd_registry := \<lparr>rg_sessions = [(''s'', \<lparr>pe_session_id = ''s'', pe_board_id = ''b'',
       pe_blob_hash = ''x'', pe_blob_kind = ''text'', pe_assigned_peer = [],
       pe_batcher = Some (queue_chunk_state (sample_request 0 ''stored'') (new_batcher 0 ''b''))\<rparr>)],
     rg_by_blob = [(''x'', ''s'')]\<rparr>\<rparr>"

theorem purge_revives_queued_states_witness:
  "\<exists>x n'. purge_blobs 7 [''h''] ''b'' [''x''] queued_node = Inr (x, n') \<and>
     sample_request 0 ''stored'' \<in> set (ck_requests (bs_chunks (store_of n' ''b'')))"
proof -
  have d: "deletable [''h''] ''b'' [''x''] (nd_fs queued_node)"
    using sample_deletable by (simp add: deletable_def)
  show ?thesis
    using purge_revives_queued_states [OF d, of "\<lparr>pe_session_id = ''s'', pe_board_id = ''b'',
       pe_blob_hash = ''x'', pe_blob_kind = ''text'', pe_assigned_peer = [],
       pe_batcher = Some (queue_chunk_state (sample_request 0 ''stored'') (new_batcher 0 ''b''))\<rparr>"
       "queue_chunk_state (sample_request 0 ''stored'') (new_batcher 0 ''b'')" "[]" "sample_request 0 ''stored''" 7]
    by (fastforce simp: get_pending_chunk_session_by_blob_def queue_chunk_state_def new_batcher_def
        request_bindable_def int64_def)
qed

end
