(* ===== verification/Settings.thy ===== *)
theory Settings
  imports Json
begin

text \<open>
  Node-wide settings (\<open>retiboard/settings.py\<close>): the settings dictionary, its file, and the
  sanitised keys of pinned threads. The file holds the dictionary last saved; a file that does not
  parse, or does not hold an object, is \<^term>\<open>None\<close>.
\<close>

type_synonym settings_dict = "(string, json) dict"

record settings =
  st_data :: settings_dict
  st_file :: "settings_dict option"

definition DEFAULT_SETTINGS :: settings_dict where
  "DEFAULT_SETTINGS = [(''global_storage_limit_mb'', JInt 1024), (''pinned_threads'', JArr [])]"

text \<open>\<open>str.strip()\<close> of an ASCII string.\<close>

definition strip_space :: "char \<Rightarrow> bool" where
  "strip_space c = (let k = of_char c :: nat in 9 \<le> k \<and> k \<le> 13 \<or> 28 \<le> k \<and> k \<le> 32)"

definition strip :: "string \<Rightarrow> string" where
  "strip s = rev (dropWhile strip_space (rev (dropWhile strip_space s)))"

text \<open>The accumulator is both \<open>seen\<close> and \<open>normalized\<close>.\<close>

fun normalize_items :: "json list \<Rightarrow> string list \<Rightarrow> string list" where
  "normalize_items [] acc = acc"
| "normalize_items (JStr s # items) acc =
     (let key = strip s
      in if key = [] \<or> CHR '':'' \<notin> set key \<or> key \<in> set acc then normalize_items items acc
         else normalize_items items (acc @ [key]))"
| "normalize_items (_ # items) acc = normalize_items items acc"

definition normalize_pinned_thread_keys :: "json \<Rightarrow> string list" where
  "normalize_pinned_thread_keys v = (case v of JArr items \<Rightarrow> normalize_items items [] | _ \<Rightarrow> [])"

definition dict_update :: "settings_dict \<Rightarrow> settings_dict \<Rightarrow> settings_dict" where
  "dict_update d delta = fold (\<lambda>(k, v). dput k v) delta d"

definition pinned_json :: "json \<Rightarrow> json" where
  "pinned_json v = JArr (map JStr (normalize_pinned_thread_keys v))"

definition load_settings :: "settings_dict option \<Rightarrow> settings" where
  "load_settings disk =
     (let d = (case disk of None \<Rightarrow> DEFAULT_SETTINGS | Some x \<Rightarrow> dict_update DEFAULT_SETTINGS x)
      in \<lparr>st_data = dput ''pinned_threads'' (pinned_json (dget_or d ''pinned_threads'' (JArr []))) d, st_file = disk\<rparr>)"

definition save_settings :: "settings \<Rightarrow> settings" where
  "save_settings s = s\<lparr>st_file := Some (st_data s)\<rparr>"

definition get_setting :: "string \<Rightarrow> json \<Rightarrow> settings \<Rightarrow> json" where
  "get_setting k def s = dget_or (st_data s) k def"

definition set_setting :: "string \<Rightarrow> json \<Rightarrow> settings \<Rightarrow> settings" where
  "set_setting k v s =
     save_settings (s\<lparr>st_data := dput k (if k = ''pinned_threads'' then pinned_json v else v) (st_data s)\<rparr>)"

definition update_settings :: "settings_dict \<Rightarrow> settings \<Rightarrow> settings" where
  "update_settings delta s =
     (let delta' = (case dget delta ''pinned_threads'' of
                      None \<Rightarrow> delta
                    | Some v \<Rightarrow> dput ''pinned_threads'' (pinned_json v) delta)
      in save_settings (s\<lparr>st_data := dict_update (st_data s) delta'\<rparr>))"

definition get_pinned_thread_keys :: "settings \<Rightarrow> string list" where
  "get_pinned_thread_keys s = normalize_pinned_thread_keys (dget_or (st_data s) ''pinned_threads'' (JArr []))"

section \<open>Properties\<close>

lemma strip_strip [simp]: "strip (strip s) = strip s"
proof -
  let ?a = "dropWhile strip_space s"
  let ?b = "dropWhile strip_space (rev ?a)"
  have "dropWhile strip_space (rev ?b) = rev ?b"
  proof (cases "rev ?b")
    case (Cons c cs)
    have "\<exists>xs. rev ?a = xs @ ?b" by (metis takeWhile_dropWhile_id)
    then obtain xs where "?a = rev ?b @ rev xs" by (metis rev_append rev_rev_ident)
    with Cons have "hd ?a = c" "?a \<noteq> []" by auto
    with hd_dropWhile [of strip_space s] have "\<not> strip_space c" by auto
    with Cons show ?thesis by simp
  next
    case Nil
    show ?thesis unfolding Nil by simp
  qed
  then show ?thesis by (simp add: strip_def)
qed

definition pin_key_ok :: "string \<Rightarrow> bool" where
  "pin_key_ok k = (strip k = k \<and> k \<noteq> [] \<and> CHR '':'' \<in> set k)"

lemma normalize_items_ok:
  "distinct acc \<and> list_all pin_key_ok acc \<Longrightarrow>
     distinct (normalize_items items acc) \<and> list_all pin_key_ok (normalize_items items acc)"
  by (induction items acc rule: normalize_items.induct) (auto simp: pin_key_ok_def Let_def)

lemma normalize_items_fixed:
  "distinct (acc @ keys) \<Longrightarrow> list_all pin_key_ok keys \<Longrightarrow> normalize_items (map JStr keys) acc = acc @ keys"
  by (induction keys arbitrary: acc) (auto simp: pin_key_ok_def Let_def)

lemma normalize_idem:
  "normalize_pinned_thread_keys (pinned_json v) = normalize_pinned_thread_keys v"
proof (cases v)
  case (JArr items)
  then show ?thesis
    using normalize_items_ok [of "[]" items] normalize_items_fixed [of "[]" "normalize_items items []"]
    by (simp add: normalize_pinned_thread_keys_def pinned_json_def)
qed (simp_all add: normalize_pinned_thread_keys_def pinned_json_def)

lemma dict_update_get: "dict_ok delta \<Longrightarrow> dget (dict_update d delta) k =
    (case dget delta k of None \<Rightarrow> dget d k | Some v \<Rightarrow> Some v)"
proof (induction delta arbitrary: d)
  case (Cons p delta)
  obtain a b where p: "p = (a, b)" by (cases p)
  with Cons.prems have "dict_ok delta" "dget delta a = None" by (auto simp: map_of_eq_None_iff)
  with Cons.IH [of "dput a b d"] p show ?case
    by (auto simp: dict_update_def dict_laws split: option.splits)
qed (simp add: dict_update_def)

text \<open>Also: pinned-thread keys are sanitised wherever they enter: whatever value is set or loaded
  from disk, the keys read back are distinct, stripped and of the form board:thread; they survive a
  restart unchanged; and sanitising them again changes nothing.\<close>

theorem pinned_keys_sanitised:
  assumes "dict_ok (st_data s)"
  shows "get_pinned_thread_keys (set_setting ''pinned_threads'' v s) = normalize_pinned_thread_keys v \<and>
    get_pinned_thread_keys (load_settings (st_file (set_setting k v s))) = get_pinned_thread_keys (set_setting k v s) \<and>
    distinct (get_pinned_thread_keys s) \<and> list_all pin_key_ok (get_pinned_thread_keys s) \<and>
    normalize_pinned_thread_keys (JArr (map JStr (get_pinned_thread_keys s))) = get_pinned_thread_keys s"
proof -
  have idem: "normalize_pinned_thread_keys (JArr (map JStr (normalize_pinned_thread_keys x))) =
      normalize_pinned_thread_keys x" for x
    using normalize_idem [of x] by (simp add: pinned_json_def)
  have "get_pinned_thread_keys (load_settings (st_file t)) = get_pinned_thread_keys t"
    if "dict_ok (st_data t)" and "st_file t = Some (st_data t)" for t
    using that dict_update_get [OF that(1), of DEFAULT_SETTINGS "''pinned_threads''"]
    by (auto simp: load_settings_def get_pinned_thread_keys_def dict_laws dget_or_def normalize_idem
        DEFAULT_SETTINGS_def split: option.split)
  from this [of "set_setting k v s"] assms
  have "get_pinned_thread_keys (load_settings (st_file (set_setting k v s))) = get_pinned_thread_keys (set_setting k v s)"
    by (simp add: set_setting_def save_settings_def)
  moreover have "distinct (normalize_pinned_thread_keys x) \<and> list_all pin_key_ok (normalize_pinned_thread_keys x)" for x
    using normalize_items_ok [of "[]"] by (cases x) (auto simp: normalize_pinned_thread_keys_def)
  ultimately show ?thesis
    by (simp add: set_setting_def save_settings_def get_pinned_thread_keys_def dict_laws normalize_idem idem)
qed

theorem pinned_keys_sanitised_witness:
  "get_pinned_thread_keys (set_setting ''pinned_threads''
      (JArr [JStr '' b:t '', JInt 3, JStr ''x'', JStr ''b:t'', JStr ''b:u'']) (load_settings None)) = [''b:t'', ''b:u'']"
proof -
  have "get_pinned_thread_keys (set_setting ''pinned_threads''
      (JArr [JStr '' b:t '', JInt 3, JStr ''x'', JStr ''b:t'', JStr ''b:u'']) (load_settings None)) =
    normalize_pinned_thread_keys (JArr [JStr '' b:t '', JInt 3, JStr ''x'', JStr ''b:t'', JStr ''b:u''])"
    by (rule pinned_keys_sanitised [THEN conjunct1]) (simp add: load_settings_def DEFAULT_SETTINGS_def)
  also have "\<dots> = [''b:t'', ''b:u'']" by code_simp
  finally show ?thesis .
qed

end
