(* ===== verification/Pruner.thy ===== *)
theory Pruner
  imports Purge Settings
begin

text \<open>
  The pruning cycle (\<open>retiboard/pruning/pruner.py\<close>) on a node: expiry, deletion and the thread cap of
  each board, then the storage quota over all boards. \<open>home\<close> is the boards directory, \<open>keys\<close> the
  pinned-thread keys of the settings. The log output and the elapsed time are not modelled.
\<close>

section \<open>Helpers\<close>

record prune_result =
  pq_boards_scanned :: nat
  pq_threads_abandoned :: nat
  pq_threads_deleted :: nat
  pq_threads_capped :: nat
  pq_threads_quota_pruned :: nat
  pq_payloads_deleted :: nat
  pq_errors :: nat

definition no_prune :: prune_result where
  "no_prune = \<lparr>pq_boards_scanned = 0, pq_threads_abandoned = 0, pq_threads_deleted = 0,
     pq_threads_capped = 0, pq_threads_quota_pruned = 0, pq_payloads_deleted = 0, pq_errors = 0\<rparr>"

definition starts_with :: "string \<Rightarrow> string \<Rightarrow> bool" where
  "starts_with pre s = (take (length pre) s = pre)"

definition pinned_thread_ids :: "string \<Rightarrow> string list \<Rightarrow> string list" where
  "pinned_thread_ids board keys =
     (let prefix = board @ '':'' in map (drop (length prefix)) (filter (starts_with prefix) keys))"

definition subdirs :: "fs \<Rightarrow> path \<Rightarrow> string list" where
  "subdirs f d = sort (map last (filter (\<lambda>p. p \<noteq> [] \<and> butlast p = d \<and> node_at f p = Some Dir) (map fst f)))"

text \<open>The boards of a scan: directories with a \<open>meta.db\<close>, in name order.\<close>

definition scanned_boards :: "path \<Rightarrow> fs \<Rightarrow> string list" where
  "scanned_boards home f =
     (if node_at f home = None then []
      else filter (\<lambda>b. node_at f (home @ [b, ''meta.db'']) \<noteq> None) (subdirs f home))"

text \<open>The directories \<open>open_board_db\<close> creates when they are missing.\<close>

definition open_board_dirs :: "path \<Rightarrow> string \<Rightarrow> fs \<Rightarrow> unit fs_result" where
  "open_board_dirs home board f =
     (case make_dirs f [] (board_dir home board) of
        Inl e \<Rightarrow> Inl e
      | Inr (_, f1) \<Rightarrow>
          (case make_dirs f1 [] (board_payloads_dir home board) of
             Inl e \<Rightarrow> Inl e
           | Inr (_, f2) \<Rightarrow>
               (case make_dirs f2 [] (board_chunk_cache_dir home board) of
                  Inl e \<Rightarrow> Inl e
                | Inr (_, f3) \<Rightarrow> Inr ((), f3))))"

definition drop_transfer_state :: "string \<Rightarrow> string list \<Rightarrow> peer_node \<Rightarrow> peer_node" where
  "drop_transfer_state board hs n =
     snd (on_store board (\<lambda>st. ((), st\<lparr>bs_chunks := snd (delete_chunk_manifests_for_blobs hs (bs_chunks st))\<rparr>)) n)"

section \<open>One board\<close>

text \<open>The blobs of deleted threads: transfer state, caches, payload files, counting the last.\<close>

fun drop_thread_files ::
  "path \<Rightarrow> string \<Rightarrow> (string \<times> string list) list \<Rightarrow> nat \<Rightarrow> peer_node \<Rightarrow> (nat, peer_node) run" where
  "drop_thread_files home board [] k n = Inr (k, n)"
| "drop_thread_files home board ((tid, hs) # ts) k n =
     bind_run (on_fs (delete_chunk_cache_bulk home board hs) (drop_transfer_state board hs n)) (\<lambda>_ n1.
     bind_run (on_fs (delete_payloads_bulk home board hs) n1) (\<lambda>m n2.
       drop_thread_files home board ts (k + m) n2))"

definition prune_board ::
  "int \<Rightarrow> path \<Rightarrow> string list \<Rightarrow> string \<Rightarrow> peer_node \<Rightarrow> (prune_result, peer_node) run" where
  "prune_board now home keys board n0 =
     bind_run (on_fs (open_board_dirs home board) n0) (\<lambda>_ n.
       (case load_board_config (bs_db (store_of n board)) of
          None \<Rightarrow> Inr (no_prune\<lparr>pq_boards_scanned := 1\<rparr>, n)
        | Some config \<Rightarrow>
            (let pinned = pinned_thread_ids board keys;
                 (marked, n1) = on_store board (\<lambda>st.
                   (let r = mark_expired_threads now pinned (bs_db st) in (fst r, st\<lparr>bs_db := snd r\<rparr>))) n;
                 (deleted, n2) = on_store board (\<lambda>st.
                   (let r = delete_abandoned_threads (bs_db st) in (fst r, st\<lparr>bs_db := snd r\<rparr>))) n1
             in bind_run (drop_thread_files home board deleted 0 n2) (\<lambda>k n3.
                  (let (capped, n4) = on_store board (\<lambda>st.
                         (let r = enforce_thread_cap (b_max_active_threads_local config) pinned (bs_db st)
                          in (fst r, st\<lparr>bs_db := snd r\<rparr>))) n3
                   in bind_run (drop_thread_files home board capped k n4) (\<lambda>k2 n5.
                        Inr (no_prune\<lparr>pq_boards_scanned := 1, pq_threads_abandoned := length marked,
                          pq_threads_deleted := length deleted, pq_threads_capped := length capped,
                          pq_payloads_deleted := k2\<rparr>, n5)))))))"

section \<open>The storage quota\<close>

definition ends_with_bin :: "string \<Rightarrow> bool" where
  "ends_with_bin s = (4 \<le> length s \<and> drop (length s - 4) s = ''.bin'')"

text \<open>Files \<open>*.bin\<close> of a payload directory and files inside the directories of a chunk cache.\<close>

definition counts_for_quota :: "path \<Rightarrow> path \<Rightarrow> bool" where
  "counts_for_quota home p =
     (let rel = drop (length home) p
      in take (length home) p = home \<and>
         (length rel = 3 \<and> rel ! 1 = ''payloads'' \<and> ends_with_bin (rel ! 2) \<or>
          4 \<le> length rel \<and> rel ! 1 = ''chunk_cache''))"

definition storage_used :: "path \<Rightarrow> fs \<Rightarrow> nat" where
  "storage_used home f =
     sum_list (map (\<lambda>(p, n). case n of Dir \<Rightarrow> 0 | File d \<Rightarrow> if counts_for_quota home p then length d else 0) f)"

text \<open>Oldest threads first, until enough declared bytes are marked.\<close>

fun select_oldest :: "int \<Rightarrow> int \<Rightarrow> global_thread list \<Rightarrow> global_thread list" where
  "select_oldest need pruned [] = []"
| "select_oldest need pruned (t # ts) =
     (if pruned \<ge> need then [] else t # select_oldest need (pruned + gt_total_size t) ts)"

definition group_by_board :: "global_thread list \<Rightarrow> (string, global_thread list) dict" where
  "group_by_board ts = fold (\<lambda>t d. dput (gt_board_id t) (dget_or d (gt_board_id t) [] @ [t]) d) ts []"

fun prune_groups ::
  "path \<Rightarrow> (string, global_thread list) dict \<Rightarrow> nat \<Rightarrow> peer_node \<Rightarrow> (nat, peer_node) run" where
  "prune_groups home [] k n = Inr (k, n)"
| "prune_groups home ((board, ts) # rest) k n =
     (let hs = concat (map gt_hashes ts)
      in bind_run (on_fs (open_board_dirs home board) n) (\<lambda>_ n0.
         (let n1 = snd (on_store board (\<lambda>st. ((), st\<lparr>bs_db := delete_threads_bulk (map gt_thread_id ts) (bs_db st)\<rparr>)) n0)
          in bind_run (on_fs (delete_chunk_cache_bulk home board hs) (drop_transfer_state board hs n1)) (\<lambda>_ n2.
             bind_run (on_fs (delete_payloads_bulk home board hs) n2) (\<lambda>m n3.
               prune_groups home rest (k + m) n3)))))"

text \<open>The configured limit in bytes; a value that is not a number cannot be compared with one. The
  float \<open>limit_bytes * 0.9\<close> is read exactly.\<close>

definition limit_of :: "settings \<Rightarrow> py_error + int" where
  "limit_of s = (case get_setting ''global_storage_limit_mb'' (JInt 1024) s of
     JInt i \<Rightarrow> Inr (i * 1024 * 1024) | JBool b \<Rightarrow> Inr ((if b then 1 else 0) * 1024 * 1024) | _ \<Rightarrow> Inl TypeError)"

definition enforce_global_quota :: "path \<Rightarrow> settings \<Rightarrow> peer_node \<Rightarrow> (prune_result, peer_node) run" where
  "enforce_global_quota home s n =
     (case limit_of s of
        Inl e \<Rightarrow> Inl (e, n)
      | Inr limit \<Rightarrow>
          (let total = int (storage_used home (nd_fs n))
           in if total \<le> limit then Inr (no_prune, n)
              else
                (let threads = get_all_active_threads_global (get_pinned_thread_keys s)
                       (map (\<lambda>b. (b, bs_db (store_of n b))) (scanned_boards home (nd_fs n)));
                     need = total - py_int (of_int limit * 9 / 10);
                     chosen = select_oldest need 0 threads
                 in bind_run (prune_groups home (group_by_board chosen) 0 n) (\<lambda>k n1.
                      Inr (no_prune\<lparr>pq_threads_quota_pruned := length chosen, pq_payloads_deleted := k\<rparr>, n1)))))"

section \<open>The cycle\<close>

text \<open>An exception while pruning one board is counted and the scan goes on.\<close>

fun prune_scan :: "int \<Rightarrow> path \<Rightarrow> string list \<Rightarrow> string list \<Rightarrow> prune_result \<Rightarrow> peer_node \<Rightarrow> prune_result \<times> peer_node" where
  "prune_scan now home keys [] acc n = (acc, n)"
| "prune_scan now home keys (b # bs) acc n =
     (let acc1 = acc\<lparr>pq_boards_scanned := Suc (pq_boards_scanned acc)\<rparr>
      in case prune_board now home keys b n of
           Inl (_, n1) \<Rightarrow> prune_scan now home keys bs (acc1\<lparr>pq_errors := Suc (pq_errors acc1)\<rparr>) n1
         | Inr (r, n1) \<Rightarrow>
             prune_scan now home keys bs
               (acc1\<lparr>pq_threads_abandoned := pq_threads_abandoned acc1 + pq_threads_abandoned r,
                     pq_threads_deleted := pq_threads_deleted acc1 + pq_threads_deleted r,
                     pq_threads_capped := pq_threads_capped acc1 + pq_threads_capped r,
                     pq_payloads_deleted := pq_payloads_deleted acc1 + pq_payloads_deleted r\<rparr>) n1)"

definition prune_all_boards :: "int \<Rightarrow> path \<Rightarrow> settings \<Rightarrow> peer_node \<Rightarrow> prune_result \<times> peer_node" where
  "prune_all_boards now home s n =
     (if node_at (nd_fs n) home = None then (no_prune, n)
      else
        (let (acc, n1) = prune_scan now home (get_pinned_thread_keys s) (scanned_boards home (nd_fs n)) no_prune n
         in case enforce_global_quota home s n1 of
              Inl (_, n2) \<Rightarrow> (acc, n2)
            | Inr (q, n2) \<Rightarrow>
                (acc\<lparr>pq_threads_quota_pruned := pq_threads_quota_pruned q,
                     pq_payloads_deleted := pq_payloads_deleted acc + pq_payloads_deleted q\<rparr>, n2)))"

end
