(* ===== verification/PrunerSafe.thy ===== *)
theory PrunerSafe
  imports Pruner PurgeSafe PostDbSafe
begin

text \<open>
  Properties of the pruner: a cycle of one board removes whole threads with everything they have on
  the node and keeps the rest, pinned threads included, and the storage quota takes the oldest
  threads it needs and no more.
\<close>

section \<open>Files and transfer state of deleted threads\<close>

definition emptied :: "path \<Rightarrow> string \<Rightarrow> string list \<Rightarrow> peer_node \<Rightarrow> peer_node \<Rightarrow> bool" where
  "emptied home board hs n n' = (files_gone home board hs (nd_fs n) (nd_fs n') \<and>
     (\<forall>h. load_chunk_manifest h (bs_chunks (store_of n' board)) =
        (if h \<in> set hs then None else load_chunk_manifest h (bs_chunks (store_of n board)))) \<and>
     ck_sessions (bs_chunks (store_of n' board)) =
       filter (\<lambda>s. se_blob_hash s \<notin> set hs) (ck_sessions (bs_chunks (store_of n board))))"

definition same_rows :: "peer_node \<Rightarrow> peer_node \<Rightarrow> bool" where
  "same_rows n n' = (\<forall>c. bs_db (store_of n' c) = bs_db (store_of n c) \<and> bs_control (store_of n' c) = bs_control (store_of n c))"

lemma emptied_cong:
  "nd_fs m = nd_fs n \<Longrightarrow> bs_chunks (store_of m board) = bs_chunks (store_of n board) \<Longrightarrow>
     emptied home board hs m n' = emptied home board hs n n'"
  by (simp add: emptied_def)

lemma emptied_cong':
  "nd_fs m = nd_fs n \<Longrightarrow> bs_chunks (store_of m board) = bs_chunks (store_of n board) \<Longrightarrow>
     emptied home board hs n' m = emptied home board hs n' n"
  by (simp add: emptied_def)

lemma emptied_refl: "payload_inv home board (nd_fs n) \<Longrightarrow> emptied home board [] n n"
  by (simp add: emptied_def files_gone_def)

lemma emptied_trans:
  assumes "emptied home board hs n n1" and "emptied home board hs' n1 n2"
  shows "emptied home board (hs @ hs') n n2"
  using assms unfolding emptied_def files_gone_def by auto

lemma emptied_deletable:
  "emptied home board hs n n' \<Longrightarrow> deletable home board hs' (nd_fs n) \<Longrightarrow> deletable home board hs' (nd_fs n')"
  by (auto simp: emptied_def files_gone_def deletable_def list_all_iff)

lemma emptied_blobs_gone:
  "emptied home board hs n n' \<Longrightarrow> list_all plain_name hs \<Longrightarrow> set hs' \<subseteq> set hs \<Longrightarrow> blobs_gone home board hs' n'"
  by (auto simp: emptied_def files_gone_def blobs_gone_def list_all_iff)

lemma drop_blobs_run:
  assumes "deletable home board hs (nd_fs n)"
  shows "\<exists>k n1 m n2. on_fs (delete_chunk_cache_bulk home board hs) (drop_transfer_state board hs n) = Inr (k, n1) \<and>
      on_fs (delete_payloads_bulk home board hs) n1 = Inr (m, n2) \<and> emptied home board hs n n2 \<and>
      same_rows n n2"
proof -
  from assms blob_files_deleted(2) [of home board "nd_fs n" hs] obtain k f1 m f2 where
    f: "delete_chunk_cache_bulk home board hs (nd_fs n) = Inr (k, f1)"
      "delete_payloads_bulk home board hs f1 = Inr (m, f2)" "files_gone home board hs (nd_fs n) f2"
    unfolding deletable_def by blast
  let ?n0 = "drop_transfer_state board hs n"
  have n0: "?n0 = put_store board ((store_of n board)\<lparr>bs_chunks := after_deletion hs (bs_chunks (store_of n board))\<rparr>) n"
    by (simp add: drop_transfer_state_def on_store_def delete_chunk_manifests_for_blobs_def Let_def)
  have "on_fs (delete_chunk_cache_bulk home board hs) ?n0 = Inr (k, ?n0\<lparr>nd_fs := f1\<rparr>)"
    using f(1) by (simp add: on_fs_def n0)
  moreover have "on_fs (delete_payloads_bulk home board hs) (?n0\<lparr>nd_fs := f1\<rparr>) = Inr (m, ?n0\<lparr>nd_fs := f2\<rparr>)"
    using f(2) by (simp add: on_fs_def)
  moreover have "ck_sessions (after_deletion hs db) = filter (\<lambda>s. se_blob_hash s \<notin> set hs) (ck_sessions db)" for db
    by (simp add: after_deletion_eq)
  then have "emptied home board hs n (?n0\<lparr>nd_fs := f2\<rparr>)"
    using f(3) by (simp add: emptied_def n0 store_of_put loads_after_deletion(1))
  moreover have "same_rows n (?n0\<lparr>nd_fs := f2\<rparr>)"
    by (simp add: same_rows_def n0 store_of_put)
  ultimately show ?thesis by blast
qed

lemma drop_thread_files_run:
  assumes "deletable home board (concat (map snd ts)) (nd_fs n)"
  shows "\<exists>k' n'. drop_thread_files home board ts k n = Inr (k', n') \<and>
      emptied home board (concat (map snd ts)) n n' \<and> same_rows n n'"
  using assms
proof (induction ts arbitrary: k n)
  case Nil
  then show ?case by (simp add: emptied_refl deletable_def same_rows_def)
next
  case (Cons t ts)
  obtain tid hs where t: "t = (tid, hs)" by (cases t)
  have parts: "deletable home board hs (nd_fs n)" "deletable home board (concat (map snd ts)) (nd_fs n)"
    using Cons.prems by (auto simp: t deletable_def)
  from drop_blobs_run [OF parts(1)] obtain i n1 m n2 where
    run: "on_fs (delete_chunk_cache_bulk home board hs) (drop_transfer_state board hs n) = Inr (i, n1)"
      "on_fs (delete_payloads_bulk home board hs) n1 = Inr (m, n2)" and e: "emptied home board hs n n2"
      and s: "same_rows n n2"
    by blast
  from Cons.IH [OF emptied_deletable [OF e parts(2)], of "k + m"] obtain k' n' where
    "drop_thread_files home board ts (k + m) n2 = Inr (k', n')" "emptied home board (concat (map snd ts)) n2 n'"
    "same_rows n2 n'"
    by blast
  with run s emptied_trans [OF e] show ?case by (fastforce simp: t same_rows_def)
qed

section \<open>A cycle of one board\<close>

lemma join_board: "payload_inv home board f \<Longrightarrow> board_dir home board = home @ [board] \<and>
    board_payloads_dir home board = payloads_of home board \<and>
    board_chunk_cache_dir home board = home @ [board, ''chunk_cache'']"
  using payload_invD(2) [of home board f]
  by (simp add: board_dir_def board_payloads_dir_def board_chunk_cache_dir_def path_join_plain
      plain_name_def [of "''payloads''"] plain_name_def [of "''chunk_cache''"])

lemma open_existing:
  assumes "payload_inv home board f" and "node_at f (home @ [board, ''chunk_cache'']) = Some Dir"
  shows "open_board_dirs home board f = Inr ((), f)"
proof -
  note inv = payload_invD [OF assms(1)]
  have "clean (home @ [board])" "clean (home @ [board, ''chunk_cache''])"
    using inv(1,2) by (auto simp: clean_def plain_name_def)
  moreover have "node_at f (home @ [board]) = Some Dir"
    using fs_ok_prefix [OF inv(3), of "home @ [board]" "[''payloads'']"] inv(4) by simp
  ultimately show ?thesis
    using make_dirs_existing [OF inv(3), of _ "[]"] assms(2) inv(4,6)
    by (simp add: open_board_dirs_def join_board [OF assms(1)])
qed

definition board_hashes :: "post list \<Rightarrow> string list" where
  "board_hashes ps = map p_content_hash ps @ filter (\<lambda>h. h \<noteq> []) (map p_attachment_content_hash ps)"

lemma thread_hashes_sub: "set (thread_hashes t ps) \<subseteq> set (board_hashes ps)"
  by (auto simp: thread_hashes_def thread_rows_def board_hashes_def Let_def)

lemma thread_hashes_post: "p \<in> set ps \<Longrightarrow>
    set (post_hashes p) \<subseteq> set (thread_hashes (p_thread_id p) ps)"
  by (auto simp: post_hashes_def thread_hashes_def thread_rows_def Let_def split: if_splits)

lemma deletable_sub: "deletable home board hs f \<Longrightarrow> set hs' \<subseteq> set hs \<Longrightarrow> deletable home board hs' f"
  by (auto simp: deletable_def list_all_iff)

text \<open>The two steps on the posts: what one expiry and one cap enforcement delete together.\<close>

definition due_ids :: "int \<Rightarrow> string list \<Rightarrow> board_db \<Rightarrow> string set" where
  "due_ids now pinned db = abandoned_ids db \<union> {p_thread_id p | p. p \<in> set (db_posts db) \<and> active_op p \<and>
     p_expiry_timestamp p \<le> now \<and> p_thread_id p \<notin> set pinned}"

lemma due_ids_filter: "due_ids now pinned db = p_thread_id ` set (filter (\<lambda>p. is_op p \<and>
    (p_is_abandoned p \<or> p_expiry_timestamp p \<le> now \<and> p_thread_id p \<notin> set pinned)) (db_posts db))"
  by (auto simp: due_ids_def abandoned_ids_def active_op_def)

definition pruned_rows :: "int \<Rightarrow> int \<Rightarrow> string list \<Rightarrow> board_db \<Rightarrow> string set \<Rightarrow> board_db \<Rightarrow> bool" where
  "pruned_rows now cap pinned db gone db' = (
     db_posts db' = filter (\<lambda>p. p_thread_id p \<notin> gone) (db_posts db) \<and>
     due_ids now pinned db \<subseteq> gone \<and> gone \<inter> set pinned \<subseteq> abandoned_ids db \<and>
     (int (length (filter (\<lambda>p. active_op p \<and> p_thread_id p \<notin> due_ids now pinned db) (db_posts db))) \<le> cap \<longrightarrow>
        gone = due_ids now pinned db) \<and>
     int (get_thread_count db') \<le> max cap (int (length (filter (\<lambda>p. p_thread_id p \<in> set pinned) (filter active_op (db_posts db))))))"

lemma thread_hashes_filter:
  assumes "t \<notin> A"
  shows "thread_hashes t (filter (\<lambda>p. p_thread_id p \<notin> A) ps) = thread_hashes t ps"
proof -
  have "thread_rows t (filter (\<lambda>p. p_thread_id p \<notin> A) ps) = thread_rows t ps"
    unfolding thread_rows_def filter_filter by (rule filter_cong) (use assms in auto)
  then show ?thesis by (simp add: thread_hashes_def)
qed

lemma cap_hashes:
  assumes "enforce_thread_cap cap pinned db = (res, db')" and "abandoned_ids db = {}" and "(t, hs) \<in> set res"
  shows "set hs = set (thread_hashes t (db_posts db)) \<and> (\<exists>p \<in> set (db_posts db). p_thread_id p = t)"
proof -
  from assms(1,3) obtain cull where run: "delete_abandoned_threads (abandon_threads cull db) = (res, db')"
    and cull: "set cull \<subseteq> set (map p_thread_id (sort_key p_thread_last_activity (filter active_op (db_posts db))))"
    by (fastforce simp: enforce_thread_cap_def Let_def split: if_splits dest: in_set_takeD)
  from cull have ops: "\<forall>t \<in> set cull. \<exists>p \<in> set (db_posts db). is_op p \<and> p_thread_id p = t"
    by (auto simp: active_op_def)
  note eff = delete_marked [OF ops run]
  have "t \<in> fst ` set res" using assms(3) by force
  with eff assms(2) have "t \<in> set cull" by simp
  moreover have "set hs = set (thread_hashes t (db_posts db))" using eff assms(3) by blast
  ultimately show ?thesis using ops by auto
qed

lemma length_filter_mono: "(\<And>x. P x \<Longrightarrow> Q x) \<Longrightarrow> length (filter P xs) \<le> length (filter Q xs)"
  by (induction xs) (auto simp: le_SucI)

lemma rows_pruned:
  assumes pk: "distinct (map p_post_id (db_posts db))" and cap: "0 \<le> cap"
    and m: "mark_expired_threads now pinned db = (ids, db1)" and d: "delete_abandoned_threads db1 = (del, db2)"
    and c: "enforce_thread_cap cap pinned db2 = (capped, db3)"
  shows "pruned_rows now cap pinned db (fst ` set del \<union> fst ` set capped) db3 \<and>
    (\<forall>(t, hs) \<in> set del \<union> set capped. set hs = set (thread_hashes t (db_posts db)))"
proof -
  note e = expiry_cycle_exact [OF m d]
  then have rows2: "db_posts db2 = filter (\<lambda>p. p_thread_id p \<notin> fst ` set del) (db_posts db)" by simp
  have pk2: "distinct (map p_post_id (db_posts db2))" using pk by (simp add: rows2 distinct_map_filter)
  have "abandoned_ids db \<subseteq> fst ` set del" using e by auto
  then have clean2: "abandoned_ids db2 = {}" by (auto simp: abandoned_ids_def rows2)
  note k = thread_cap_enforced [OF pk2 clean2 cap c]
  let ?gone = "fst ` set del \<union> fst ` set capped"
  have rows3: "db_posts db3 = filter (\<lambda>p. p_thread_id p \<notin> ?gone) (db_posts db)"
    using k by (simp add: rows2 conj_commute)
  have "length (filter (\<lambda>p. p_thread_id p \<in> set pinned) (filter active_op (db_posts db2))) \<le>
      length (filter (\<lambda>p. p_thread_id p \<in> set pinned) (filter active_op (db_posts db)))"
    by (simp add: rows2) (rule length_filter_mono, simp)
  then have "int (get_thread_count db3) \<le> max cap (int (length (filter (\<lambda>p. p_thread_id p \<in> set pinned)
      (filter active_op (db_posts db)))))"
    using k by (auto split: if_splits)
  moreover have "?gone \<inter> set pinned \<subseteq> abandoned_ids db" using e k by auto
  moreover have due: "fst ` set del = due_ids now pinned db" using e by (simp add: due_ids_def)
  moreover have "capped = []"
    if "int (length (filter (\<lambda>p. active_op p \<and> p_thread_id p \<notin> due_ids now pinned db) (db_posts db))) \<le> cap"
    using that c by (simp add: enforce_thread_cap_def Let_def rows2 due conj_commute split: if_splits)
  ultimately have "pruned_rows now cap pinned db ?gone db3"
    unfolding pruned_rows_def by (intro conjI) (simp_all add: rows3)
  moreover have "set hs = set (thread_hashes t (db_posts db))" if "(t, hs) \<in> set capped" for t hs
  proof -
    from cap_hashes [OF c clean2 that] have hs: "set hs = set (thread_hashes t (db_posts db2))"
      and "\<exists>p \<in> set (db_posts db2). p_thread_id p = t" by auto
    then have "t \<notin> fst ` set del" by (auto simp: rows2)
    then show ?thesis unfolding hs rows2 by (simp add: thread_hashes_filter)
  qed
  ultimately show ?thesis using e by blast
qed


abbreviation prunable_node :: peer_node where
  "prunable_node \<equiv> sample_node\<lparr>nd_boards := [(''b'', empty_store\<lparr>bs_db := \<lparr>db_config = [config_of sample_board],
       db_posts = [sample_post ''t'' ''t'' ''i'' ''x'' [], sample_post ''p'' ''t'' ''j'' ''y'' [],
         (sample_post ''v'' ''v'' ''j'' ''z'' [])\<lparr>p_expiry_timestamp := 300\<rparr>]\<rparr>\<rparr>)]\<rparr>"

lemma prunable_store: "bs_db (store_of prunable_node ''b'') = \<lparr>db_config = [config_of sample_board],
    db_posts = [sample_post ''t'' ''t'' ''i'' ''x'' [], sample_post ''p'' ''t'' ''j'' ''y'' [],
      (sample_post ''v'' ''v'' ''j'' ''z'' [])\<lparr>p_expiry_timestamp := 300\<rparr>]\<rparr>"
  by (simp add: store_of_def dget_or_def)


section \<open>The storage quota\<close>

text \<open>The threads chosen are the shortest run of oldest threads that declares the bytes needed.\<close>

lemma select_oldest_prefix:
  "\<exists>rest. ts = select_oldest need pruned ts @ rest \<and>
     (rest = [] \<or> need \<le> pruned + sum_list (map gt_total_size (select_oldest need pruned ts)))"
proof (induction ts arbitrary: pruned)
  case (Cons t ts)
  from Cons.IH [of "pruned + gt_total_size t"] show ?case by (auto simp: add.assoc)
qed simp

lemma select_oldest_needed:
  "select_oldest need pruned ts = xs @ y # ys \<Longrightarrow> pruned + sum_list (map gt_total_size xs) < need"
proof (induction ts arbitrary: pruned xs)
  case (Cons t ts)
  then show ?case
    by (cases xs) (auto split: if_splits simp: add.assoc dest: Cons.IH)
qed simp

definition oldest_enough :: "string list \<Rightarrow> global_thread list \<Rightarrow> int \<Rightarrow> global_thread list \<Rightarrow> bool" where
  "oldest_enough pins threads need chosen = (
     (\<exists>k. chosen = take k threads) \<and>
     (\<forall>t \<in> set chosen. gt_board_id t @ '':'' @ gt_thread_id t \<notin> set pins) \<and>
     (\<forall>t \<in> set chosen. \<forall>u \<in> set threads. u \<notin> set chosen \<longrightarrow> gt_last_activity t \<le> gt_last_activity u) \<and>
     (chosen = threads \<or> need \<le> sum_list (map gt_total_size chosen)) \<and>
     (chosen = [] \<or> sum_list (map gt_total_size (butlast chosen)) < need))"

lemma select_oldest_enough:
  assumes "threads = get_all_active_threads_global pins boards"
  shows "oldest_enough pins threads need (select_oldest need 0 threads)"
proof -
  let ?chosen = "select_oldest need 0 threads"
  obtain rest where rest: "threads = ?chosen @ rest" "rest = [] \<or> need \<le> sum_list (map gt_total_size ?chosen)"
    using select_oldest_prefix [of threads need 0] by auto
  have "?chosen = take (length ?chosen) threads" by (subst (2) rest(1)) simp
  moreover have "\<forall>t \<in> set threads. gt_board_id t @ '':'' @ gt_thread_id t \<notin> set pins"
    by (auto simp: assms get_all_active_threads_global_def board_active_threads_def)
  then have "\<forall>t \<in> set ?chosen. gt_board_id t @ '':'' @ gt_thread_id t \<notin> set pins"
    by (subst (asm) rest(1)) simp
  moreover have "sorted (map gt_last_activity threads)"
    by (simp add: assms get_all_active_threads_global_def)
  then have "sorted (map gt_last_activity (?chosen @ rest))" using rest(1) by simp
  then have "\<forall>t \<in> set ?chosen. \<forall>u \<in> set rest. gt_last_activity t \<le> gt_last_activity u"
    by (auto simp: sorted_append)
  moreover have "u \<in> set rest" if "u \<in> set threads" "u \<notin> set ?chosen" for u
    using that by (subst (asm) rest(1)) simp
  moreover have "?chosen = threads \<or> need \<le> sum_list (map gt_total_size ?chosen)" using rest by auto
  moreover have "?chosen = [] \<or> sum_list (map gt_total_size (butlast ?chosen)) < need"
    using select_oldest_needed [of need 0 threads "butlast ?chosen" "last ?chosen" "[]"] by (cases "?chosen = []") simp_all
  ultimately show ?thesis unfolding oldest_enough_def by blast
qed

lemma group_by_board_of: "dget_or (group_by_board ts) b [] = filter (\<lambda>t. gt_board_id t = b) ts"
proof -
  have "dget_or (fold (\<lambda>t d. dput (gt_board_id t) (dget_or d (gt_board_id t) [] @ [t]) d) ts d) b [] =
      dget_or d b [] @ filter (\<lambda>t. gt_board_id t = b) ts" for d
    by (induction ts arbitrary: d) (auto simp: dget_or_dput)
  from this [of "[]"] show ?thesis by (simp add: group_by_board_def dget_or_def)
qed

lemma group_by_board_dict: "dict_ok (group_by_board ts)"
proof -
  have "dict_ok d \<Longrightarrow> dict_ok (fold (\<lambda>t d. dput (gt_board_id t) (dget_or d (gt_board_id t) [] @ [t]) d) ts d)" for d
    by (induction ts arbitrary: d) auto
  then show ?thesis by (simp add: group_by_board_def)
qed

lemma on_fs_rows: "on_fs g n = Inr (x, n') \<Longrightarrow> bs_db (store_of n' c) = bs_db (store_of n c)"
  by (auto simp: on_fs_def split: sum.splits prod.splits)

lemma drop_transfer_rows: "bs_db (store_of (drop_transfer_state b hs n) c) = bs_db (store_of n c)"
  by (simp add: drop_transfer_state_def on_store_def store_of_put)

lemma prune_groups_rows:
  "prune_groups home gs k n = Inr (k', n') \<Longrightarrow> dict_ok gs \<Longrightarrow>
     db_posts (bs_db (store_of n' c)) =
       filter (\<lambda>p. p_thread_id p \<notin> gt_thread_id ` set (dget_or gs c [])) (db_posts (bs_db (store_of n c)))"
proof (induction gs arbitrary: k n)
  case Nil
  then show ?case by (simp add: dget_or_def)
next
  case (Cons g gs)
  obtain b ts where g: "g = (b, ts)" by (cases g)
  from Cons.prems(1) obtain n0 n2 m n3 x where
    o: "on_fs (open_board_dirs home b) n = Inr ((), n0)"
    and d: "on_fs (delete_chunk_cache_bulk home b (concat (map gt_hashes ts))) (drop_transfer_state b (concat (map gt_hashes ts))
        (snd (on_store b (\<lambda>st. ((), st\<lparr>bs_db := delete_threads_bulk (map gt_thread_id ts) (bs_db st)\<rparr>)) n0))) = Inr (x, n2)"
    and e: "on_fs (delete_payloads_bulk home b (concat (map gt_hashes ts))) n2 = Inr (m, n3)"
    and r: "prune_groups home gs (k + m) n3 = Inr (k', n')"
    by (auto simp: g Let_def bind_run_def split: sum.splits prod.splits)
  have n3: "bs_db (store_of n3 c) =
      (if c = b then delete_threads_bulk (map gt_thread_id ts) (bs_db (store_of n c)) else bs_db (store_of n c))"
    by (simp add: on_fs_rows [OF e] on_fs_rows [OF d] drop_transfer_rows on_store_def store_of_put on_fs_rows [OF o])
  from Cons.prems(2) have gs: "dict_ok gs" "b \<notin> fst ` set gs" by (auto simp: g)
  from gs(2) have "dget gs b = None" by (simp add: map_of_eq_None_iff)
  then show ?case
    unfolding Cons.IH [OF r gs(1)] n3 by (auto simp: g dget_or_def delete_threads_bulk_def intro: filter_cong)
qed

text \<open>Property C27: while the files use no more than the limit the quota changes nothing. Above it the
  threads chosen are the oldest unpinned active ones over all boards, as few as declare the excess
  and a tenth of the limit (their declared sizes count, not the bytes they take); when the run
  succeeds, exactly their posts are gone from every board.\<close>

theorem quota_takes_oldest:
  assumes "limit_of s = Inr limit"
  shows "(int (storage_used home (nd_fs n)) \<le> limit \<longrightarrow> enforce_global_quota home s n = Inr (no_prune, n)) \<and>
    (limit < int (storage_used home (nd_fs n)) \<longrightarrow>
      (\<exists>chosen. oldest_enough (get_pinned_thread_keys s)
           (get_all_active_threads_global (get_pinned_thread_keys s)
              (map (\<lambda>b. (b, bs_db (store_of n b))) (scanned_boards home (nd_fs n))))
           (int (storage_used home (nd_fs n)) - py_int (of_int limit * 9 / 10)) chosen \<and>
         (\<forall>r n'. enforce_global_quota home s n = Inr (r, n') \<longrightarrow> pq_threads_quota_pruned r = length chosen \<and>
            (\<forall>c. db_posts (bs_db (store_of n' c)) = filter (\<lambda>p. p_thread_id p \<notin>
               gt_thread_id ` set (filter (\<lambda>t. gt_board_id t = c) chosen)) (db_posts (bs_db (store_of n c)))))))"
proof (intro conjI impI)
  assume "int (storage_used home (nd_fs n)) \<le> limit"
  then show "enforce_global_quota home s n = Inr (no_prune, n)"
    by (simp add: enforce_global_quota_def assms)
next
  assume over: "limit < int (storage_used home (nd_fs n))"
  define threads where "threads = get_all_active_threads_global (get_pinned_thread_keys s)
      (map (\<lambda>b. (b, bs_db (store_of n b))) (scanned_boards home (nd_fs n)))"
  define need where "need = int (storage_used home (nd_fs n)) - py_int (of_int limit * 9 / 10)"
  let ?chosen = "select_oldest need 0 threads"
  have run: "\<exists>k. prune_groups home (group_by_board ?chosen) 0 n = Inr (k, n') \<and> pq_threads_quota_pruned r = length ?chosen"
    if "enforce_global_quota home s n = Inr (r, n')" for r n'
    using that over unfolding enforce_global_quota_def assms
    by (auto simp: Let_def bind_run_def threads_def [symmetric] need_def [symmetric] split: sum.splits)
  have "pq_threads_quota_pruned r = length ?chosen \<and>
      (\<forall>c. db_posts (bs_db (store_of n' c)) = filter (\<lambda>p. p_thread_id p \<notin>
         gt_thread_id ` set (filter (\<lambda>t. gt_board_id t = c) ?chosen)) (db_posts (bs_db (store_of n c))))"
    if "enforce_global_quota home s n = Inr (r, n')" for r n'
    using run [OF that] prune_groups_rows [OF _ group_by_board_dict] by (auto simp: group_by_board_of)
  with select_oldest_enough [OF threads_def, of need] show "\<exists>chosen. oldest_enough (get_pinned_thread_keys s)
           (get_all_active_threads_global (get_pinned_thread_keys s)
              (map (\<lambda>b. (b, bs_db (store_of n b))) (scanned_boards home (nd_fs n))))
           (int (storage_used home (nd_fs n)) - py_int (of_int limit * 9 / 10)) chosen \<and>
         (\<forall>r n'. enforce_global_quota home s n = Inr (r, n') \<longrightarrow> pq_threads_quota_pruned r = length chosen \<and>
            (\<forall>c. db_posts (bs_db (store_of n' c)) = filter (\<lambda>p. p_thread_id p \<notin>
               gt_thread_id ` set (filter (\<lambda>t. gt_board_id t = c) chosen)) (db_posts (bs_db (store_of n c)))))"
    unfolding threads_def need_def by blast
qed

definition quota_settings :: settings where
  "quota_settings = load_settings (Some [(''global_storage_limit_mb'', JInt 0)])"

definition quota_node :: peer_node where
  "quota_node = prunable_node\<lparr>nd_fs := ([''h'', ''b'', ''meta.db''], File []) # sample_fs\<rparr>"

definition quota_threads :: "global_thread list" where
  "quota_threads = [\<lparr>gt_board_id = ''b'', gt_thread_id = ''t'', gt_hashes = [''x'', ''y''], gt_total_size = 2, gt_last_activity = 5\<rparr>,
     \<lparr>gt_board_id = ''b'', gt_thread_id = ''v'', gt_hashes = [''z''], gt_total_size = 1, gt_last_activity = 5\<rparr>]"

lemma quota_run:
  "limit_of quota_settings = Inr 0" "storage_used [''h''] (nd_fs quota_node) = 2"
  "get_all_active_threads_global (get_pinned_thread_keys quota_settings)
     (map (\<lambda>b. (b, bs_db (store_of quota_node b))) (scanned_boards [''h''] (nd_fs quota_node))) = quota_threads"
  "\<not> isl (enforce_global_quota [''h''] quota_settings quota_node)"
  by code_simp+

theorem quota_takes_oldest_witness:
  "\<exists>r n'. enforce_global_quota [''h''] quota_settings quota_node = Inr (r, n') \<and> pq_threads_quota_pruned r = 1 \<and>
     map p_post_id (db_posts (bs_db (store_of n' ''b''))) = [''v'']"
proof -
  from quota_run(4) obtain r n' where run: "enforce_global_quota [''h''] quota_settings quota_node = Inr (r, n')"
    by (cases "enforce_global_quota [''h''] quota_settings quota_node") auto
  have need: "int 2 - py_int (of_int 0 * 9 / 10) = 2" by (simp add: py_int_def)
  note quota = quota_takes_oldest [OF quota_run(1), of "[''h'']" quota_node, unfolded quota_run(2,3) need]
  from quota [THEN conjunct2, THEN mp] run obtain chosen where
    c: "oldest_enough (get_pinned_thread_keys quota_settings) quota_threads 2 chosen"
    and r: "pq_threads_quota_pruned r = length chosen"
      "db_posts (bs_db (store_of n' ''b'')) = filter (\<lambda>p. p_thread_id p \<notin>
         gt_thread_id ` set (filter (\<lambda>t. gt_board_id t = ''b'') chosen)) (db_posts (bs_db (store_of quota_node ''b'')))"
    by fastforce
  obtain k where k: "chosen = take k quota_threads" using c by (auto simp: oldest_enough_def)
  have chosen: "chosen = [hd quota_threads]"
  proof (cases k)
    case 0
    then show ?thesis using c k by (simp add: oldest_enough_def quota_threads_def)
  next
    case (Suc j)
    then show ?thesis using c k by (cases j) (simp_all add: oldest_enough_def quota_threads_def)
  qed
  have "db_posts (bs_db (store_of quota_node ''b'')) = db_posts (bs_db (store_of prunable_node ''b''))"
    by (simp only: quota_node_def store_of_fields)
  with r(2) have "map p_post_id (db_posts (bs_db (store_of n' ''b''))) = [''v'']"
    unfolding chosen prunable_store by (simp add: quota_threads_def)
  with run r(1) chosen show ?thesis by (intro exI [of _ r] exI [of _ n'] conjI) simp_all
qed

end
