(* ===== verification/Receiver.thy ===== *)
theory Receiver
  imports Pruner Pow Peers
begin

text \<open>
  Reception of post metadata (\<open>retiboard/sync/receiver.py\<close>, \<open>handle_incoming_metadata\<close>): the checks on
  a wire dictionary, the post built from it, and the handler with its effect on the node and the
  peer table. A failing step inside the handler is caught and reads as a rejection; its connection
  is closed without a commit, so the board is as before. The broadcast to local clients and the
  replication to peers that follow a stored post send messages only. \<open>home\<close> is the boards directory,
  \<open>max_payload\<close> the transport's payload limit, \<open>src\<close> the sender's hash and \<open>ident\<close> its identity, passed
  in or recalled.
\<close>

section \<open>Reading numbers\<close>

definition truthy_json :: "json \<Rightarrow> bool" where
  "truthy_json v = (case v of
     JNull \<Rightarrow> False | JBool b \<Rightarrow> b | JInt i \<Rightarrow> i \<noteq> 0 | JStr s \<Rightarrow> s \<noteq> [] | JArr vs \<Rightarrow> vs \<noteq> [] | JObj kvs \<Rightarrow> kvs \<noteq> [])"

text \<open>Python's \<open>int(s)\<close>: digits, single underscores between them, a sign and surrounding space; a
  string of more than 4300 digits is refused.\<close>

definition is_digit :: "char \<Rightarrow> bool" where
  "is_digit c = (let k = of_char c :: nat in 48 \<le> k \<and> k \<le> 57)"

fun digits_value :: "bool \<Rightarrow> nat \<Rightarrow> string \<Rightarrow> nat option" where
  "digits_value after acc [] = (if after then Some acc else None)"
| "digits_value after acc (c # cs) =
     (if is_digit c then digits_value True (10 * acc + (of_char c - 48)) cs
      else if c = CHR ''_'' \<and> after then digits_value False acc cs
      else None)"

definition int_of_str :: "string \<Rightarrow> py_error + int" where
  "int_of_str s =
     (let t = strip s;
          (neg, ds) = (case t of [] \<Rightarrow> (False, [])
                       | c # cs \<Rightarrow> if c = CHR ''-'' then (True, cs) else if c = CHR ''+'' then (False, cs) else (False, t))
      in if 4300 < length (filter is_digit ds) then Inl ValueError
         else (case digits_value False 0 ds of
                 None \<Rightarrow> Inl ValueError
               | Some k \<Rightarrow> Inr (if neg then - int k else int k)))"

text \<open>\<open>int(d.get(k, 0) or 0)\<close>.\<close>

definition wire_number :: "wire \<Rightarrow> string \<Rightarrow> py_error + int" where
  "wire_number md k =
     (let v = dget_or md k (JInt 0)
      in if \<not> truthy_json v then Inr 0
         else (case v of
                 JInt i \<Rightarrow> Inr i
               | JBool b \<Rightarrow> Inr 1
               | JStr s \<Rightarrow> int_of_str s
               | _ \<Rightarrow> Inl TypeError))"

definition size_fields :: "wire \<Rightarrow> py_error + int \<times> int \<times> int" where
  "size_fields md =
     bindE (wire_number md ''payload_size'') (\<lambda>ps.
     bindE (wire_number md ''attachment_payload_size'') (\<lambda>as.
     bindE (wire_number md ''attachment_count'') (\<lambda>ac. Inr (ps, as, ac))))"

section \<open>Checks\<close>

definition pow_defaults :: wire where
  "pow_defaults =
     [(''post_id'', JStr []), (''thread_id'', JStr []), (''parent_id'', JStr []), (''timestamp'', JInt 0),
      (''bump_flag'', JBool False), (''content_hash'', JStr []), (''payload_size'', JInt 0),
      (''attachment_content_hash'', JStr []), (''attachment_payload_size'', JInt 0),
      (''has_attachments'', JBool False), (''attachment_count'', JInt 0), (''text_only'', JBool False),
      (''identity_hash'', JStr []), (''public_key'', JStr []), (''encrypted_pings'', JArr []),
      (''edit_signature'', JStr [])]"

definition pow_fields_of :: "wire \<Rightarrow> wire" where
  "pow_fields_of md = map (\<lambda>(k, dflt). (k, dget_or md k dflt)) pow_defaults"

definition stamp_identity :: "string option \<Rightarrow> wire \<Rightarrow> wire" where
  "stamp_identity src md =
     (case truthy src of
        None \<Rightarrow> md
      | Some h \<Rightarrow> if truthy_json (dget_or md ''identity_hash'' JNull) then md
                  else dput ''identity_hash'' (JStr h) md)"

definition sizes_acceptable :: "int \<Rightarrow> bool \<Rightarrow> int \<Rightarrow> int \<Rightarrow> int \<Rightarrow> bool" where
  "sizes_acceptable max_payload declared ps as ac =
     (if ps \<le> 0 then False
      else if declared \<and> ac \<le> 0 then False
      else if \<not> declared \<and> ac \<noteq> 0 then False
      else if declared \<and> as \<le> 0 then False
      else if ps > max_payload then False
      else \<not> as > max_payload)"

definition post_of_wire :: "int \<Rightarrow> board \<Rightarrow> wire \<Rightarrow> int \<Rightarrow> int \<Rightarrow> int \<Rightarrow> py_error + post" where
  "post_of_wire now config md ps as ac =
     bindE (opt_int md ''timestamp'' now) (\<lambda>ts.
     bindE (opt_int md ''thread_last_activity'' 0) (\<lambda>tla.
     bindE (req_str md ''post_id'') (\<lambda>pid.
     bindE (req_str md ''thread_id'') (\<lambda>tid.
     bindE (opt_str md ''parent_id'' []) (\<lambda>par.
     bindE (opt_bool md ''bump_flag'' False) (\<lambda>bump.
     bindE (req_str md ''content_hash'') (\<lambda>ch.
     bindE (opt_str md ''attachment_content_hash'' []) (\<lambda>ah.
     bindE (opt_bool md ''has_attachments'' False) (\<lambda>has.
     bindE (opt_bool md ''text_only'' False) (\<lambda>txt.
     bindE (opt_str md ''identity_hash'' []) (\<lambda>idh.
     bindE (opt_str md ''pow_nonce'' []) (\<lambda>nonce.
     bindE (opt_str md ''public_key'' []) (\<lambda>pk.
     bindE (opt_str md ''edit_signature'' []) (\<lambda>sig.
     Inr \<lparr>p_post_id = pid, p_thread_id = tid, p_parent_id = par, p_timestamp = ts,
          p_expiry_timestamp = ts + b_default_ttl_seconds config, p_bump_flag = bump,
          p_content_hash = ch, p_payload_size = ps, p_attachment_content_hash = ah,
          p_attachment_payload_size = as, p_has_attachments = has, p_attachment_count = ac,
          p_text_only = txt, p_identity_hash = idh, p_pow_nonce = nonce, p_public_key = pk,
          p_encrypted_pings = pings_of (dget md ''encrypted_pings''), p_edit_signature = sig,
          p_thread_last_activity = (if pid = tid then max tla ts else tla),
          p_is_abandoned = False\<rparr>))))))))))))))"

text \<open>From the proof of work to the built post; \<^term>\<open>None\<close> is a rejection.\<close>

definition metadata_checks :: "int \<Rightarrow> int \<Rightarrow> board \<Rightarrow> wire \<Rightarrow> py_error + post option" where
  "metadata_checks now max_payload config md =
     bindE (opt_str md ''pow_nonce'' []) (\<lambda>nonce.
     if \<not> verify_pow (pow_fields_of md) nonce (b_pow_difficulty config) then Inr None
     else bindE (opt_bool md ''has_attachments'' False) (\<lambda>has.
     if b_text_only config \<and> has then Inr None
     else bindE (opt_int md ''timestamp'' 0) (\<lambda>ts.
     if ts < now - b_default_ttl_seconds config then Inr None
     else if ts > now + 3600 then Inr None
     else (case size_fields md of
             Inl e \<Rightarrow> Inr None
           | Inr (ps, as, ac) \<Rightarrow>
               bindE (opt_str md ''attachment_content_hash'' []) (\<lambda>ah.
               if \<not> sizes_acceptable max_payload (has \<or> ah \<noteq> [] \<or> as \<noteq> 0) ps as ac then Inr None
               else bindE (post_of_wire now config md ps as ac) (\<lambda>p. Inr (Some p)))))))"

section \<open>The handler\<close>

definition track_source ::
  "time \<Rightarrow> string \<Rightarrow> string option \<Rightarrow> string option \<Rightarrow> tracker option \<Rightarrow> py_error + tracker option" where
  "track_source now board src ident tr =
     (case (tr, truthy src) of
        (Some t, Some h) \<Rightarrow> map_sum id (\<lambda>r. Some (snd r)) (register_from_message now h (Some board) ident t)
      | _ \<Rightarrow> Inr tr)"

definition handle_incoming_metadata ::
  "time \<Rightarrow> path \<Rightarrow> int \<Rightarrow> wire \<Rightarrow> string \<Rightarrow> string option \<Rightarrow> string option \<Rightarrow> tracker option \<Rightarrow> peer_node \<Rightarrow>
   (bool \<times> tracker option, peer_node) run" where
  "handle_incoming_metadata now home max_payload md board src ident tr n =
     (case opt_str md ''post_id'' [] of
        Inl e \<Rightarrow> Inl (e, n)
      | Inr pid \<Rightarrow>
          (if pid = [] then Inr ((False, tr), n)
           else if \<not> is_board_subscribed home board (nd_fs n) then Inr ((False, tr), n)
           else bind_run (on_fs (open_board_dirs home board) n) (\<lambda>_ n1.
             (let st = store_of n1 board
              in case load_board_config (bs_db st) of
                   None \<Rightarrow> Inr ((False, tr), n1)
                 | Some config \<Rightarrow>
                     (if post_exists pid (bs_db st) then Inr ((False, tr), n1)
                      else (case metadata_checks \<lfloor>now\<rfloor> max_payload config (stamp_identity src md) of
                              Inl _ \<Rightarrow> Inr ((False, tr), n1)
                            | Inr None \<Rightarrow> Inr ((False, tr), n1)
                            | Inr (Some p) \<Rightarrow>
                                (if \<not> md_allowed (should_reject_post p (bs_control st)) then Inr ((False, tr), n1)
                                 else (case insert_post (Some (b_default_ttl_seconds config))
                                               (Some (b_bump_decay_rate config)) p (bs_db st) of
                                         Inl _ \<Rightarrow> Inr ((False, tr), n1)
                                       | Inr (_, db) \<Rightarrow>
                                           (let n2 = put_store board (st\<lparr>bs_db := db\<rparr>) n1
                                            in case track_source now board src ident tr of
                                                 Inl _ \<Rightarrow> Inr ((False, tr), n2)
                                               | Inr tr' \<Rightarrow> Inr ((True, tr'), n2))))))))))"

end
