(* ===== verification/ReceiverSafe.thy ===== *)
theory ReceiverSafe
  imports Receiver PrunerSafe PeersSafe
begin

text \<open>
  Properties of metadata reception: what every stored post satisfies, that a rejection changes
  nothing, which metadata is accepted, and that purged content is not readmitted.
\<close>

section \<open>The checks\<close>

lemma bindE_eq: "bindE r f = Inr y \<longleftrightarrow> (\<exists>x. r = Inr x \<and> f x = Inr y)"
  by (cases r) (auto simp: bindE_def)

lemma sizes_acceptable_iff: "sizes_acceptable m d ps as ac \<longleftrightarrow> 0 < ps \<and> ps \<le> m \<and> as \<le> m \<and>
    (if d then 0 < ac \<and> 0 < as else ac = 0)"
  by (auto simp: sizes_acceptable_def)

definition declares_attachment :: "post \<Rightarrow> bool" where
  "declares_attachment p = (p_has_attachments p \<or> p_attachment_content_hash p \<noteq> [] \<or> p_attachment_payload_size p \<noteq> 0)"

text \<open>What the checks guarantee of a post they let through.\<close>

definition well_checked :: "int \<Rightarrow> int \<Rightarrow> board \<Rightarrow> wire \<Rightarrow> post \<Rightarrow> bool" where
  "well_checked now m config md p = (
     verify_pow (pow_fields_of md) (p_pow_nonce p) (b_pow_difficulty config) \<and>
     \<not> (b_text_only config \<and> p_has_attachments p) \<and>
     now - b_default_ttl_seconds config \<le> p_timestamp p \<and> p_timestamp p \<le> now + 3600 \<and>
     p_expiry_timestamp p = p_timestamp p + b_default_ttl_seconds config \<and>
     0 < p_payload_size p \<and> p_payload_size p \<le> m \<and> p_attachment_payload_size p \<le> m \<and>
     (if declares_attachment p then 0 < p_attachment_count p \<and> 0 < p_attachment_payload_size p
      else p_attachment_count p = 0) \<and>
     dget md ''post_id'' = Some (JStr (p_post_id p)) \<and> dget md ''thread_id'' = Some (JStr (p_thread_id p)) \<and>
     opt_str md ''identity_hash'' [] = Inr (p_identity_hash p) \<and> \<not> p_is_abandoned p)"

lemma as_str_Inr [simp]: "as_str v = Inr s \<longleftrightarrow> v = JStr s"
  by (cases v) auto

lemma req_str_Inr: "req_str md k = Inr s \<longleftrightarrow> dget md k = Some (JStr s)"
  by (simp add: require_def split: option.split)

lemma checks_pass:
  assumes "metadata_checks now m config md = Inr (Some p)" and "0 \<le> now" "0 \<le> b_default_ttl_seconds config"
  shows "well_checked now m config md p"
proof -
  from assms(1) obtain nonce has ts ps as ac ah where
    c: "opt_str md ''pow_nonce'' [] = Inr nonce" "verify_pow (pow_fields_of md) nonce (b_pow_difficulty config)"
      "opt_bool md ''has_attachments'' False = Inr has" "\<not> (b_text_only config \<and> has)"
      "opt_int md ''timestamp'' 0 = Inr ts" "\<not> ts < now - b_default_ttl_seconds config" "\<not> ts > now + 3600"
      "opt_str md ''attachment_content_hash'' [] = Inr ah"
      "sizes_acceptable m (has \<or> ah \<noteq> [] \<or> as \<noteq> 0) ps as ac"
    and p: "post_of_wire now config md ps as ac = Inr p"
    by (auto simp: metadata_checks_def bindE_eq split: if_splits sum.splits)
  from p c have f: "p_pow_nonce p = nonce" "p_has_attachments p = has" "p_payload_size p = ps"
      "p_attachment_payload_size p = as" "p_attachment_count p = ac" "p_attachment_content_hash p = ah"
      "opt_int md ''timestamp'' now = Inr (p_timestamp p)"
      "p_expiry_timestamp p = p_timestamp p + b_default_ttl_seconds config"
      "dget md ''post_id'' = Some (JStr (p_post_id p))" "dget md ''thread_id'' = Some (JStr (p_thread_id p))"
      "opt_str md ''identity_hash'' [] = Inr (p_identity_hash p)" "\<not> p_is_abandoned p"
    by (auto simp: post_of_wire_def bindE_eq req_str_Inr)
  have "now - b_default_ttl_seconds config \<le> p_timestamp p \<and> p_timestamp p \<le> now + 3600"
    using c(5-7) f(7) assms(2,3) by (auto simp: optional_def split: option.splits)
  with c f show ?thesis by (simp add: well_checked_def sizes_acceptable_iff declares_attachment_def)
qed

section \<open>Storing\<close>

lemma recompute_lifecycle_ids:
  "recompute_lifecycle tid st bp db = Inr db' \<Longrightarrow> map p_post_id (db_posts db') = map p_post_id (db_posts db)"
  by (auto simp: recompute_lifecycle_def set_expiry_ids set_last_activity_ids split: option.splits prod.splits if_splits)

lemma insert_ids:
  "insert_post a b p db = Inr (q, db') \<Longrightarrow> map p_post_id (db_posts db') = map p_post_id (db_posts db) @ [p_post_id p]"
  by (auto simp: insert_post_def Let_def split: if_splits sum.splits dest: recompute_lifecycle_ids)

lemma exists_ids: "post_exists x db \<longleftrightarrow> x \<in> set (map p_post_id (db_posts db))"
  by (auto simp: post_exists_def list_ex_iff)

lemma opened_rows: "on_fs (open_board_dirs home board) n = Inr ((), n1) \<Longrightarrow> store_of n1 c = store_of n c"
  by (auto simp: on_fs_def split: sum.splits prod.splits)

text \<open>The handler's outcomes: stored, or stored but the sender could not be registered, or as before.\<close>

lemma handler_outcome:
  assumes "handle_incoming_metadata now home m md board src ident tr n = Inr ((ok, tr'), n')"
  shows "(\<not> ok \<and> tr' = tr \<and> (\<forall>c. store_of n' c = store_of n c)) \<or>
    (\<exists>config p q db. load_board_config (bs_db (store_of n board)) = Some config \<and>
       is_board_subscribed home board (nd_fs n) \<and>
       metadata_checks \<lfloor>now\<rfloor> m config (stamp_identity src md) = Inr (Some p) \<and>
       md_allowed (should_reject_post p (bs_control (store_of n board))) \<and>
       insert_post (Some (b_default_ttl_seconds config)) (Some (b_bump_decay_rate config)) p
         (bs_db (store_of n board)) = Inr (q, db) \<and>
       (\<forall>c. store_of n' c = (if c = board then (store_of n board)\<lparr>bs_db := db\<rparr> else store_of n c)) \<and>
       (if ok then track_source now board src ident tr = Inr tr'
        else tr' = tr \<and> isl (track_source now board src ident tr)))"
proof -
  from assms obtain pid where pid: "opt_str md ''post_id'' [] = Inr pid"
    by (auto simp: handle_incoming_metadata_def split: sum.splits)
  show ?thesis
  proof (cases "pid = [] \<or> \<not> is_board_subscribed home board (nd_fs n)")
    case True
    with assms pid have "\<not> ok \<and> tr' = tr \<and> n' = n" by (cases "pid = []") (simp_all add: handle_incoming_metadata_def)
    then show ?thesis by blast
  next
    case sub: False
    then obtain n1 where o: "on_fs (open_board_dirs home board) n = Inr ((), n1)"
      using assms pid by (cases "on_fs (open_board_dirs home board) n") (auto simp: handle_incoming_metadata_def)
    note st = opened_rows [OF o]
    show ?thesis
    proof (cases "load_board_config (bs_db (store_of n board))")
      case None
      with assms pid sub o st show ?thesis by (auto simp: handle_incoming_metadata_def)
    next
      case (Some config)
      show ?thesis
      proof (cases "post_exists pid (bs_db (store_of n board)) \<or>
          (\<forall>p. metadata_checks \<lfloor>now\<rfloor> m config (stamp_identity src md) = Inr (Some p) \<longrightarrow>
             \<not> md_allowed (should_reject_post p (bs_control (store_of n board))) \<or>
             isl (insert_post (Some (b_default_ttl_seconds config)) (Some (b_bump_decay_rate config)) p
               (bs_db (store_of n board))))")
        case True
        with assms pid sub o st Some show ?thesis
          by (auto simp: handle_incoming_metadata_def Let_def split: if_splits sum.splits option.splits)
      next
        case False
        then obtain p q db where p: "metadata_checks \<lfloor>now\<rfloor> m config (stamp_identity src md) = Inr (Some p)"
          "md_allowed (should_reject_post p (bs_control (store_of n board)))"
          "insert_post (Some (b_default_ttl_seconds config)) (Some (b_bump_decay_rate config)) p
             (bs_db (store_of n board)) = Inr (q, db)"
          by (auto simp: isl_def) (metis obj_sumE prod.exhaust)
        with assms pid sub o st Some False show ?thesis
          by (auto simp: handle_incoming_metadata_def Let_def store_of_put split: sum.splits)
      qed
    qed
  qed
qed

section \<open>Properties of reception\<close>


lemma tracked:
  assumes "pred_option tracker_inv tr"
  shows "\<not> isl (track_source now board src ident tr)"
proof -
  have "\<exists>r. register_from_message now h (Some board) ident t = Inr r" if "tracker_inv t" for h t
    using register_with_ok [OF that good_message [where h = h and board = "Some board" and now = now and ident = ident]]
    unfolding register_from_message_def by metis
  note reg = this
  show ?thesis
  proof (cases "tr = None \<or> truthy src = None")
    case True
    then show ?thesis by (auto simp: track_source_def split: option.split)
  next
    case False
    then obtain t h where th: "tr = Some t" "truthy src = Some h" by auto
    with reg [of t h] assms obtain r where "register_from_message now h (Some board) ident t = Inr r" by auto
    with th show ?thesis by (simp add: track_source_def)
  qed
qed

text \<open>Also: on a node with a consistent peer table a rejection leaves every table of every board
  and the peer table as they were, whatever the metadata holds.\<close>

theorem rejection_changes_nothing:
  assumes "handle_incoming_metadata now home m md board src ident tr n = Inr ((False, tr'), n')"
    and "pred_option tracker_inv tr"
  shows "tr' = tr \<and> (\<forall>c. store_of n' c = store_of n c)"
  using handler_outcome [OF assms(1)] tracked [OF assms(2), of now board src ident] by auto

text \<open>Property C11: once a thread is purged no metadata of it gets in again, from any peer and at any
  time, until its tombstone is lifted: the handler refuses it and the posts stay as the purge left
  them.\<close>

theorem purged_thread_not_readmitted:
  assumes "purge_thread t home board tid reason n = Inr (r, n1)" and "tid \<noteq> []"
    and "dget md ''thread_id'' = Some (JStr tid)"
    and "handle_incoming_metadata now home m md board src ident tr n1 = Inr ((ok, tr'), n2)"
  shows "\<not> ok \<and> (\<forall>c. store_of n2 c = store_of n1 c)"
proof -
  obtain c where "bs_control (store_of n1 board) = mark_thread_purged \<lfloor>t\<rfloor> tid reason c"
    using assms(1) by (auto simp: purge_thread_def on_store_def Let_def bind_run_def store_of_put split: sum.splits prod.splits)
  then have rej: "\<not> md_allowed (should_reject_post p (bs_control (store_of n1 board)))" if "p_thread_id p = tid" for p
    using assms(2) that by (simp add: rejected_iff is_thread_purged_def mark_thread_purged_def has_control_set)
  have "p_thread_id p = tid" if "metadata_checks k m config (stamp_identity src md) = Inr (Some p)" for k config p
  proof -
    have "dget (stamp_identity src md) ''thread_id'' = Some (JStr tid)"
      using assms(3) by (simp add: stamp_identity_def dict_laws split: option.split)
    moreover from that have "req_str (stamp_identity src md) ''thread_id'' = Inr (p_thread_id p)"
      by (auto simp: metadata_checks_def post_of_wire_def bindE_eq split: if_splits sum.splits)
    ultimately show ?thesis by (simp add: req_str_Inr)
  qed
  with rej handler_outcome [OF assms(4)] show ?thesis by blast
qed

text \<open>Also: the board's text-only flag is checked against the flag \<open>has_attachments\<close> alone: metadata
  that leaves it out is treated exactly as on a board that allows attachments, whatever attachment
  hash, size and count it declares.\<close>

theorem text_only_flag_bypassed:
  assumes "dget md ''has_attachments'' = None \<or> dget md ''has_attachments'' = Some (JBool False)"
  shows "metadata_checks now m (config\<lparr>b_text_only := True\<rparr>) md = metadata_checks now m (config\<lparr>b_text_only := False\<rparr>) md"
proof -
  have "opt_bool md ''has_attachments'' False = Inr False" using assms by (auto simp: optional_def)
  moreover have "post_of_wire now (config\<lparr>b_text_only := True\<rparr>) md = post_of_wire now (config\<lparr>b_text_only := False\<rparr>) md"
    by (intro ext) (simp add: post_of_wire_def)
  ultimately show ?thesis
    by (cases "size_fields md") (auto simp: metadata_checks_def cong: if_cong)
qed

definition sample_metadata :: wire where
  "sample_metadata = [(''post_id'', JStr ''n''), (''thread_id'', JStr ''t''), (''timestamp'', JInt 150),
     (''content_hash'', JStr ''c''), (''payload_size'', JInt 10), (''attachment_content_hash'', JStr ''a''),
     (''attachment_payload_size'', JStr '' 20 ''), (''attachment_count'', JInt 1), (''bump_flag'', JBool True)]"

lemma sample_checks:
  "map_sum id (map_option p_attachment_content_hash)
     (metadata_checks 200 1000 (sample_board\<lparr>b_text_only := False\<rparr>) sample_metadata) = Inr (Some ''a'')"
  by code_simp

theorem text_only_flag_bypassed_witness:
  "map_sum id (map_option p_attachment_content_hash)
     (metadata_checks 200 1000 (sample_board\<lparr>b_text_only := True\<rparr>) sample_metadata) = Inr (Some ''a'')"
proof -
  have "dget sample_metadata ''has_attachments'' = None" by code_simp
  with text_only_flag_bypassed [of sample_metadata 200 1000 sample_board] sample_checks show ?thesis by simp
qed

definition open_node :: peer_node where
  "open_node = prunable_node\<lparr>nd_fs := ([''h'', ''b'', ''meta.db''], File []) # sample_fs\<rparr>"

lemma open_node_fs:
  "payload_inv [''h''] ''b'' (nd_fs open_node)" "node_at (nd_fs open_node) ([''h''] @ [''b'', ''chunk_cache'']) = Some Dir"
  "is_board_subscribed [''h''] ''b'' (nd_fs open_node)"
  "on_fs (open_board_dirs [''h''] ''b'') open_node = Inr ((), open_node)"
proof -
  show fs: "payload_inv [''h''] ''b'' (nd_fs open_node)" "node_at (nd_fs open_node) ([''h''] @ [''b'', ''chunk_cache'']) = Some Dir"
    by (simp_all add: open_node_def payload_inv_def fs_ok_def entry_ok_def clean_def plain_name_def node_at_def)
  show "is_board_subscribed [''h''] ''b'' (nd_fs open_node)" by code_simp
  show "on_fs (open_board_dirs [''h''] ''b'') open_node = Inr ((), open_node)"
    using open_existing [OF fs] by (simp add: on_fs_def)
qed

lemma open_node_run:
  "map_sum id (fst \<circ> fst) (handle_incoming_metadata 200 [''h''] 1000 sample_metadata ''b'' (Some ''s'') None None open_node) =
     Inr True"
  "map_sum id (fst \<circ> fst) (handle_incoming_metadata 200 [''h''] 9 sample_metadata ''b'' (Some ''s'') None None open_node) =
     Inr False"
  "\<forall>c. load_board_config (bs_db (store_of open_node ''b'')) = Some c \<longrightarrow> 0 \<le> b_default_ttl_seconds c"
  by (code_simp, code_simp) (simp add: open_node_def store_of_def dget_or_def load_board_config_def config_of_def sample_board_def)


theorem rejection_changes_nothing_witness:
  "\<exists>tr' n'. handle_incoming_metadata 200 [''h''] 9 sample_metadata ''b'' (Some ''s'') None None open_node =
      Inr ((False, tr'), n') \<and> store_of n' ''b'' = store_of open_node ''b''"
proof -
  from open_node_run(2) obtain tr' n' where
    run: "handle_incoming_metadata 200 [''h''] 9 sample_metadata ''b'' (Some ''s'') None None open_node = Inr ((False, tr'), n')"
    by (cases "handle_incoming_metadata 200 [''h''] 9 sample_metadata ''b'' (Some ''s'') None None open_node") auto
  with rejection_changes_nothing [OF run] show ?thesis by simp
qed

lemma purged_run:
  "\<not> isl (purge_thread 7 [''h''] ''b'' ''t'' [] open_node)"
  "case purge_thread 7 [''h''] ''b'' ''t'' [] open_node of Inl _ \<Rightarrow> False
   | Inr (r, n1) \<Rightarrow> \<not> isl (handle_incoming_metadata 200 [''h''] 1000 sample_metadata ''b'' (Some ''s'') None None n1)"
  by code_simp+

theorem purged_thread_not_readmitted_witness:
  "\<exists>r n1 tr' n2. purge_thread 7 [''h''] ''b'' ''t'' [] open_node = Inr (r, n1) \<and>
     handle_incoming_metadata 200 [''h''] 1000 sample_metadata ''b'' (Some ''s'') None None n1 = Inr ((False, tr'), n2) \<and>
     store_of n2 ''b'' = store_of n1 ''b''"
proof -
  let ?h = "handle_incoming_metadata 200 [''h''] 1000 sample_metadata ''b'' (Some ''s'') None None"
  from purged_run(1) obtain r n1 where p: "purge_thread 7 [''h''] ''b'' ''t'' [] open_node = Inr (r, n1)"
    by (cases "purge_thread 7 [''h''] ''b'' ''t'' [] open_node") auto
  with purged_run(2) obtain ok tr' n2 where h: "?h n1 = Inr ((ok, tr'), n2)" by (cases "?h n1") auto
  have "dget sample_metadata ''thread_id'' = Some (JStr ''t'')" by code_simp
  with purged_thread_not_readmitted [OF p _ _ h] have "\<not> ok" "store_of n2 ''b'' = store_of n1 ''b''" by simp_all
  with p h show ?thesis by (cases ok) auto
qed

section \<open>A post from an honest sender\<close>

text \<open>The post a receiver builds from a post's own wire dictionary.\<close>

definition received :: "board \<Rightarrow> post \<Rightarrow> post" where
  "received config p = p\<lparr>p_expiry_timestamp := p_timestamp p + b_default_ttl_seconds config,
     p_thread_last_activity := (if is_op p then max (p_thread_last_activity p) (p_timestamp p) else p_thread_last_activity p),
     p_is_abandoned := False\<rparr>"

lemma wire_number_int: "dget md k = Some (JInt i) \<Longrightarrow> wire_number md k = Inr i"
  by (simp add: wire_number_def dget_or_def truthy_json_def)

lemma honest_sizes: "size_fields (post_to_dict p) =
    Inr (p_payload_size p, p_attachment_payload_size p, p_attachment_count p)"
  by (simp add: size_fields_def wire_number_int post_to_dict_def)

lemma honest_post: "post_of_wire now config (post_to_dict p) (p_payload_size p) (p_attachment_payload_size p)
    (p_attachment_count p) = Inr (received config p)"
  by (simp add: post_of_wire_def post_to_dict_def optional_def require_def pings_of_def received_def is_op_def)

lemma honest_pow: "verify_pow (pow_fields_of (post_to_dict p)) nonce d = verify_pow (post_to_dict p) nonce d"
  by (rule verify_pow_cong) (auto simp: POW_FIELDS_def pow_fields_of_def pow_defaults_def post_to_dict_def dget_or_def)

text \<open>What the board's rules and its configuration ask of a post, on the values of its sender.\<close>

definition acceptable :: "int \<Rightarrow> int \<Rightarrow> board \<Rightarrow> control_db \<Rightarrow> post \<Rightarrow> bool" where
  "acceptable now m config c p \<longleftrightarrow>
     p_post_id p \<noteq> [] \<and> p_identity_hash p \<noteq> [] \<and>
     verify_pow (post_to_dict p) (p_pow_nonce p) (b_pow_difficulty config) \<and>
     \<not> (b_text_only config \<and> p_has_attachments p) \<and>
     now - b_default_ttl_seconds config \<le> p_timestamp p \<and> p_timestamp p \<le> now + 3600 \<and>
     0 < p_payload_size p \<and> p_payload_size p \<le> m \<and> p_attachment_payload_size p \<le> m \<and>
     (if declares_attachment p then 0 < p_attachment_count p \<and> 0 < p_attachment_payload_size p
      else p_attachment_count p = 0) \<and>
     md_allowed (should_reject_post p c)"

text \<open>A node whose board directory is in place and whose database has the board's configuration.\<close>

definition serving :: "path \<Rightarrow> string \<Rightarrow> board \<Rightarrow> peer_node \<Rightarrow> bool" where
  "serving home board config n \<longleftrightarrow>
     payload_inv home board (nd_fs n) \<and> node_at (nd_fs n) (home @ [board, ''chunk_cache'']) = Some Dir \<and>
     is_board_subscribed home board (nd_fs n) \<and> load_board_config (bs_db (store_of n board)) = Some config"

lemma serving_open: "serving home board config n \<Longrightarrow> on_fs (open_board_dirs home board) n = Inr ((), n)"
  using open_existing [of home board "nd_fs n"] by (simp add: serving_def on_fs_def)

lemma honest_run:
  assumes "serving home board config n" and "acceptable \<lfloor>now\<rfloor> m config (bs_control (store_of n board)) p"
    and "\<not> post_exists (p_post_id p) (bs_db (store_of n board))"
    and "insert_post (Some (b_default_ttl_seconds config)) (Some (b_bump_decay_rate config)) (received config p)
      (bs_db (store_of n board)) = Inr (q, db)"
    and "pred_option tracker_inv tr"
  obtains tr' where "track_source now board src ident tr = Inr tr'"
    and "handle_incoming_metadata now home m (post_to_dict p) board src ident tr n =
      Inr ((True, tr'), put_store board ((store_of n board)\<lparr>bs_db := db\<rparr>) n)"
proof -
  let ?md = "post_to_dict p"
  have acc: "p_post_id p \<noteq> []" "p_identity_hash p \<noteq> []"
    "verify_pow (post_to_dict p) (p_pow_nonce p) (b_pow_difficulty config)" "md_allowed (should_reject_post p (bs_control (store_of n board)))"
    using assms(2) by (simp_all add: acceptable_def)
  have get: "opt_str ?md ''post_id'' [] = Inr (p_post_id p)" "opt_str ?md ''pow_nonce'' [] = Inr (p_pow_nonce p)"
    "opt_bool ?md ''has_attachments'' False = Inr (p_has_attachments p)" "opt_int ?md ''timestamp'' 0 = Inr (p_timestamp p)"
    "opt_str ?md ''attachment_content_hash'' [] = Inr (p_attachment_content_hash p)"
    by (simp_all add: post_to_dict_def optional_def)
  have stamp: "stamp_identity src ?md = ?md"
    using acc(2) by (simp add: stamp_identity_def post_to_dict_def dget_or_def truthy_json_def split: option.split)
  have "metadata_checks \<lfloor>now\<rfloor> m config ?md = Inr (Some (received config p))"
    using assms(2) by (simp add: metadata_checks_def get honest_sizes honest_post honest_pow acceptable_def
        sizes_acceptable_iff declares_attachment_def)
  moreover note serving_open [OF assms(1)]
  moreover have "should_reject_post (received config p) c = should_reject_post p c" for c
    by (simp add: should_reject_post_def received_def)
  moreover obtain tr' where tr': "track_source now board src ident tr = Inr tr'"
    using tracked [OF assms(5)] by (auto simp: isl_def) (metis obj_sumE)
  ultimately have "handle_incoming_metadata now home m ?md board src ident tr n =
      Inr ((True, tr'), put_store board ((store_of n board)\<lparr>bs_db := db\<rparr>) n)"
    using assms(1,3,4) acc(1,4) by (simp add: handle_incoming_metadata_def serving_def get stamp)
  with tr' show thesis by (rule that)
qed

text \<open>Also: a post sent as its own wire dictionary, with its author and a proof of work over it, and
  within the rules of the board, is stored by a node that is subscribed, with the author, ids, hashes
  and sizes it was sent with; only its expiry, activity and abandonment are the receiver's own.\<close>

theorem honest_post_accepted:
  assumes "serving home board config n" and "acceptable \<lfloor>now\<rfloor> m config (bs_control (store_of n board)) p"
    and "\<not> post_exists (p_post_id p) (bs_db (store_of n board))"
    and "insert_post (Some (b_default_ttl_seconds config)) (Some (b_bump_decay_rate config)) (received config p)
      (bs_db (store_of n board)) = Inr (q, db)"
    and "pred_option tracker_inv tr"
  shows "\<exists>tr' n'. handle_incoming_metadata now home m (post_to_dict p) board src ident tr n = Inr ((True, tr'), n') \<and>
      bs_db (store_of n' board) = db \<and> nd_fs n' = nd_fs n"
  by (rule honest_run [OF assms, where src = src and ident = ident]) (auto simp: store_of_put)

theorem honest_post_accepted_witness:
  "\<exists>tr' n'. handle_incoming_metadata 200 [''h''] 1000 (post_to_dict (sample_post ''n'' ''t'' ''i'' ''c'' [])) ''b'' None None None
      open_node = Inr ((True, tr'), n') \<and> post_exists ''n'' (bs_db (store_of n' ''b''))"
proof -
  let ?p = "sample_post ''n'' ''t'' ''i'' ''c'' []"
  let ?config = "sample_board\<lparr>b_key_material := [], b_peer_lxmf_hash := [], b_subscribed_at := 2\<rparr>"
  let ?st = "store_of open_node ''b''"
  have rows: "load_board_config (bs_db ?st) = Some ?config" "\<not> post_exists ''n'' (bs_db ?st)"
    "md_allowed (should_reject_post ?p (bs_control ?st))"
    "map_sum id (\<lambda>(q, db). post_exists ''n'' db) (insert_post (Some 43200) (Some 3600) (received ?config ?p) (bs_db ?st)) = Inr True"
    by code_simp+
  then obtain q db where ins: "insert_post (Some 43200) (Some 3600) (received ?config ?p) (bs_db ?st) = Inr (q, db)"
    and ex: "post_exists ''n'' db"
    by (cases "insert_post (Some 43200) (Some 3600) (received ?config ?p) (bs_db ?st)") auto
  have "\<exists>tr' n'. handle_incoming_metadata 200 [''h''] 1000 (post_to_dict ?p) ''b'' None None None open_node =
      Inr ((True, tr'), n') \<and> bs_db (store_of n' ''b'') = db \<and> nd_fs n' = nd_fs open_node"
    by (rule honest_post_accepted [where config = ?config and q = q])
      (use rows open_node_fs ins in \<open>simp_all add: serving_def acceptable_def sample_board_def verify_pow_def declares_attachment_def\<close>)
  with ex show ?thesis by blast
qed

end
