(* ===== verification/Gossip.thy ===== *)
theory Gossip
  imports Receiver
begin

text \<open>
  Gossip between peers: the HAVE packet and its comparison with the local boards
  (\<open>retiboard/sync/have.py\<close>), the handler of a received HAVE (\<open>sync/have_handler.py\<close>) and the delta
  batches (\<open>sync/delta.py\<close>). Packets are JSON values before \<open>json.dumps\<close> and after \<open>json.loads\<close>; the
  text form is \<^const>\<open>dumps\<close>. A running engine with its peer tracker is assumed; what a handler
  sends is returned as a list of actions.
\<close>

section \<open>Building a HAVE packet\<close>

definition HAVE_MAX_THREADS_NORMAL :: int where "HAVE_MAX_THREADS_NORMAL = 20"
definition HAVE_MAX_THREADS_LORA :: int where "HAVE_MAX_THREADS_LORA = 10"
definition MAX_HAVE_THREADS_IN_PACKET :: nat where "MAX_HAVE_THREADS_IN_PACKET = 250"
definition MAX_DELTA_BATCH_SIZE :: nat where "MAX_DELTA_BATCH_SIZE = 50"
definition DELTA_MAX_RECORDS :: nat where "DELTA_MAX_RECORDS = 50"
definition DELTA_MAX_BYTES :: nat where "DELTA_MAX_BYTES = 16384"

text \<open>The catalog threads whose OP may be replicated; both sides of a comparison use it.\<close>

definition shareable :: "board_store \<Rightarrow> thread_summary \<Rightarrow> bool" where
  "shareable st t =
     (case get_post (ts_op_post_id t) (bs_db st) of
        None \<Rightarrow> False
      | Some op_row \<Rightarrow> md_allowed (should_replicate_post op_row (bs_control st)))"

definition thread_json :: "thread_summary \<Rightarrow> json" where
  "thread_json t = JObj [(''thread_id'', JStr (ts_thread_id t)),
     (''latest_post_timestamp'', JInt (ts_latest_post_timestamp t)), (''post_count'', JInt (int (ts_post_count t)))]"

definition pex_json :: "string \<times> string option \<Rightarrow> json" where
  "pex_json e = JObj [(''h'', JStr (fst e)), (''i'', case snd e of None \<Rightarrow> JNull | Some i \<Rightarrow> JStr i)]"

definition have_packet :: "string \<Rightarrow> bool \<Rightarrow> (string \<times> string option) list \<Rightarrow> board_store \<Rightarrow> wire option" where
  "have_packet board low pex st =
     (let catalog = get_catalog (if low then HAVE_MAX_THREADS_LORA else HAVE_MAX_THREADS_NORMAL) (bs_db st);
          shared = filter (shareable st) catalog
      in if catalog = [] then None
         else if shared = [] then None
         else Some ([(''board_id'', JStr board), (''active_threads'', JArr (map thread_json shared))] @
                    (if \<not> low \<and> pex \<noteq> [] then [(''pex'', JArr (map pex_json pex))] else [])))"

definition build_have_packet ::
  "(nat \<Rightarrow> peer_info list \<Rightarrow> peer_info list) \<Rightarrow> time \<Rightarrow> path \<Rightarrow> string \<Rightarrow> bool \<Rightarrow> tracker option \<Rightarrow> peer_node \<Rightarrow>
   (wire option, peer_node) run" where
  "build_have_packet sample now home board low tr n =
     bind_run (on_fs (open_board_dirs home board) n) (\<lambda>_ n1.
       Inr (have_packet board low (case tr of None \<Rightarrow> [] | Some t \<Rightarrow> get_pex_peers sample now board 3 t)
              (store_of n1 board), n1))"

definition serialize_have :: "wire \<Rightarrow> bytes" where
  "serialize_have d = utf8 (dumps False (JObj d))"

section \<open>Reading a HAVE packet\<close>

text \<open>Truncation of \<open>active_threads\<close>; \<open>len\<close> of a number raises, slicing an object raises.\<close>

definition cap_threads :: "json \<Rightarrow> py_error + json" where
  "cap_threads v = (case v of
     JArr vs \<Rightarrow> Inr (JArr (take MAX_HAVE_THREADS_IN_PACKET vs))
   | JStr s \<Rightarrow> Inr (JStr (take MAX_HAVE_THREADS_IN_PACKET s))
   | JObj kvs \<Rightarrow> if length kvs > MAX_HAVE_THREADS_IN_PACKET then Inl TypeError else Inr v
   | _ \<Rightarrow> Inl TypeError)"

definition parse_have :: "json \<Rightarrow> py_error + wire option" where
  "parse_have v = (case v of
     JObj d \<Rightarrow>
       (case dget d ''active_threads'' of
          None \<Rightarrow> Inr None
        | Some ts \<Rightarrow> bindE (cap_threads ts) (\<lambda>ts'. Inr (Some (dput ''active_threads'' ts' d))))
   | _ \<Rightarrow> Inr None)"

definition is_have_packet :: "json option \<Rightarrow> bool" where
  "is_have_packet v = (case v of Some (JObj d) \<Rightarrow> dget d ''active_threads'' \<noteq> None | _ \<Rightarrow> False)"

text \<open>Iterating a JSON value: an array, the characters of a string, the keys of an object.\<close>

definition items_of :: "json \<Rightarrow> py_error + json list" where
  "items_of v = (case v of
     JArr vs \<Rightarrow> Inr vs | JStr s \<Rightarrow> Inr (map (\<lambda>c. JStr [c]) s) | JObj kvs \<Rightarrow> Inr (map (JStr \<circ> fst) kvs) | _ \<Rightarrow> Inl TypeError)"

fun as_obj :: "json \<Rightarrow> py_error + wire" where
  "as_obj (JObj d) = Inr d"
| "as_obj _ = Inl TypeError"

record stale_thread =
  sl_thread_id :: string
  sl_since :: int
  sl_known :: int

definition local_threads :: "board_store \<Rightarrow> (string, int \<times> int) dict" where
  "local_threads st =
     fold (\<lambda>t m. dput (ts_thread_id t) (ts_latest_post_timestamp t, int (ts_post_count t)) m)
       (filter (shareable st) (get_catalog 100 (bs_db st))) []"

definition stale_entry :: "(string, int \<times> int) dict \<Rightarrow> string \<Rightarrow> int \<Rightarrow> int \<Rightarrow> stale_thread option" where
  "stale_entry m tid ts cnt =
     (case dget m tid of
        None \<Rightarrow> Some \<lparr>sl_thread_id = tid, sl_since = 0, sl_known = 0\<rparr>
      | Some (lts, lcnt) \<Rightarrow>
          (if ts > lts \<or> cnt > lcnt
           then Some \<lparr>sl_thread_id = tid, sl_since = (if cnt > lcnt \<and> ts \<le> lts then 0 else lts), sl_known = lcnt\<rparr>
           else None))"

fun compare_threads :: "(string, int \<times> int) dict \<Rightarrow> json list \<Rightarrow> stale_thread list \<Rightarrow> py_error + stale_thread list" where
  "compare_threads m [] acc = Inr acc"
| "compare_threads m (r # rs) acc =
     bindE (as_obj r) (\<lambda>d.
     bindE (opt_str d ''thread_id'' []) (\<lambda>tid.
     if tid = [] then compare_threads m rs acc
     else bindE (opt_int d ''latest_post_timestamp'' 0) (\<lambda>ts.
          bindE (opt_int d ''post_count'' 0) (\<lambda>cnt.
          (let acc' = acc @ (case stale_entry m tid ts cnt of None \<Rightarrow> [] | Some s \<Rightarrow> [s])
           in if length acc' \<ge> MAX_DELTA_BATCH_SIZE then Inr acc' else compare_threads m rs acc')))))"

definition compare_have_to_local ::
  "path \<Rightarrow> wire \<Rightarrow> string \<Rightarrow> peer_node \<Rightarrow> (stale_thread list, peer_node) run" where
  "compare_have_to_local home have_dict board n =
     bind_run (on_fs (open_board_dirs home board) n) (\<lambda>_ n1.
       (case bindE (items_of (dget_or have_dict ''active_threads'' (JArr [])))
               (\<lambda>rs. compare_threads (local_threads (store_of n1 board)) rs []) of
          Inl e \<Rightarrow> Inl (e, n1)
        | Inr stale \<Rightarrow> Inr (stale, n1)))"

definition get_have_interval :: "bool \<Rightarrow> int \<times> int" where
  "get_have_interval low = (if low then (1800, 3600) else (300, 900))"

section \<open>Delta batches\<close>

record delta_response =
  dr_board_id :: string
  dr_thread_id :: string
  dr_metadata :: "wire list"
  dr_more :: bool

definition record_size :: "post \<Rightarrow> nat" where
  "record_size p = length (utf8 (dumps False (JObj (post_to_dict p))))"

lemma record_size_text [code]: "record_size p = length (dumps False (JObj (post_to_dict p)))"
  by (simp add: record_size_def)

text \<open>A record has the keys of the post's wire dictionary, in its order.\<close>

fun delta_batch :: "control_db \<Rightarrow> post list \<Rightarrow> wire list \<Rightarrow> nat \<Rightarrow> wire list \<times> bool" where
  "delta_batch c [] acc used = (acc, False)"
| "delta_batch c (p # ps) acc used =
     (if \<not> md_allowed (should_replicate_post p c) then delta_batch c ps acc used
      else if length acc \<ge> DELTA_MAX_RECORDS then (acc, True)
      else if used + record_size p > DELTA_MAX_BYTES then (acc, True)
      else delta_batch c ps (acc @ [post_to_dict p]) (used + record_size p))"

definition delta_rows :: "string \<Rightarrow> int \<Rightarrow> board_db \<Rightarrow> post list" where
  "delta_rows tid since db =
     sort_key p_timestamp (filter (\<lambda>p. p_thread_id p = tid \<and> p_timestamp p > since \<and> \<not> p_is_abandoned p) (db_posts db))"

definition build_delta_response ::
  "path \<Rightarrow> string \<Rightarrow> string \<Rightarrow> int \<Rightarrow> peer_node \<Rightarrow> (delta_response, peer_node) run" where
  "build_delta_response home board tid since n =
     (if \<not> is_board_subscribed home board (nd_fs n)
      then Inr (\<lparr>dr_board_id = board, dr_thread_id = tid, dr_metadata = [], dr_more = False\<rparr>, n)
      else bind_run (on_fs (open_board_dirs home board) n) (\<lambda>_ n1.
        (let (records, more) = delta_batch (bs_control (store_of n1 board))
               (delta_rows tid since (bs_db (store_of n1 board))) [] 0
         in Inr (\<lparr>dr_board_id = board, dr_thread_id = tid, dr_metadata = records, dr_more = more\<rparr>, n1))))"

fun store_records ::
  "time \<Rightarrow> path \<Rightarrow> int \<Rightarrow> string \<Rightarrow> string option \<Rightarrow> string option \<Rightarrow> wire list \<Rightarrow> nat \<Rightarrow> tracker option \<Rightarrow> peer_node \<Rightarrow>
   (nat \<times> tracker option, peer_node) run" where
  "store_records now home m board src ident [] k tr n = Inr ((k, tr), n)"
| "store_records now home m board src ident (md # mds) k tr n =
     bind_run (handle_incoming_metadata now home m md board src ident tr n) (\<lambda>r n1.
       store_records now home m board src ident mds (if fst r then Suc k else k) (snd r) n1)"

definition process_delta_response ::
  "time \<Rightarrow> path \<Rightarrow> int \<Rightarrow> delta_response \<Rightarrow> string option \<Rightarrow> string option \<Rightarrow> tracker option \<Rightarrow> peer_node \<Rightarrow>
   (nat \<times> tracker option, peer_node) run" where
  "process_delta_response now home m r src ident tr n =
     (if \<not> is_board_subscribed home (dr_board_id r) (nd_fs n) then Inr ((0, tr), n)
      else store_records now home m (dr_board_id r) src ident (dr_metadata r) 0 tr n)"

section \<open>Handling a HAVE\<close>

datatype gossip_action =
    Request_delta string "string option" string stale_thread
  | Push_announce string string

text \<open>The peer a delta request goes to: a HAVE from a board announce names the board's destination,
  so the peer is looked up by its identity (\<open>ident_hash\<close>).\<close>

definition resolve_have_peer ::
  "(string \<Rightarrow> string) \<Rightarrow> time \<Rightarrow> bool \<Rightarrow> string option \<Rightarrow> string option \<Rightarrow> string \<Rightarrow> tracker \<Rightarrow>
   py_error + string option \<times> string option \<times> tracker" where
  "resolve_have_peer ident_hash now from_board src ident board t =
     (case (from_board, ident) of
        (True, Some i) \<Rightarrow>
          (case find (\<lambda>p. case pi_identity p of None \<Rightarrow> False | Some j \<Rightarrow> ident_hash j = ident_hash i) (get_peers now board t) of
             Some p \<Rightarrow> Inr (Some (pi_hash p), pi_identity p, t)
           | None \<Rightarrow>
               (case truthy src of
                  None \<Rightarrow> Inr (None, ident, t)
                | Some h \<Rightarrow> map_sum id (\<lambda>r. (None, ident, snd r)) (register_from_announce now board h ident None t)))
      | _ \<Rightarrow>
          (case truthy src of
             None \<Rightarrow> Inr (None, ident, t)
           | Some h \<Rightarrow>
               (if ident \<noteq> None
                then map_sum id (\<lambda>r. (Some h, ident, snd r)) (register_from_announce now board h ident None t)
                else map_sum id (\<lambda>t'. (Some h, ident, t')) (see_peer now board h ident t))))"

text \<open>Peer exchange. \<open>decode\<close> is the third-party identity constructor; an entry that fails is skipped.\<close>

fun pex_entries ::
  "(string \<Rightarrow> py_error + string option) \<Rightarrow> time \<Rightarrow> string \<Rightarrow> json list \<Rightarrow> tracker \<Rightarrow> py_error + tracker" where
  "pex_entries decode now board [] t = Inr t"
| "pex_entries decode now board (e # es) t =
     bindE (as_obj e) (\<lambda>d.
       (let h = dget_or d ''h'' JNull; i = dget_or d ''i'' JNull
        in if \<not> truthy_json h \<or> \<not> truthy_json i then pex_entries decode now board es t
           else (case (h, i) of
                   (JStr hs, JStr ihex) \<Rightarrow>
                     (case decode ihex of
                        Inl _ \<Rightarrow> pex_entries decode now board es t
                      | Inr x \<Rightarrow>
                          (case register_from_announce now board hs x None t of
                             Inl _ \<Rightarrow> pex_entries decode now board es t
                           | Inr (_, t') \<Rightarrow> pex_entries decode now board es t'))
                 | _ \<Rightarrow> pex_entries decode now board es t)))"

definition handle_have_announcement ::
  "(string \<Rightarrow> py_error + string option) \<Rightarrow> (string \<Rightarrow> string) \<Rightarrow> time \<Rightarrow> path \<Rightarrow> string list \<Rightarrow> json \<Rightarrow>
   bool \<Rightarrow> string option \<Rightarrow> string option \<Rightarrow> tracker \<Rightarrow> peer_node \<Rightarrow>
   (nat \<times> gossip_action list \<times> tracker, peer_node) run" where
  "handle_have_announcement decode ident_hash now home known v from_board src ident t n =
     (case parse_have v of
        Inl e \<Rightarrow> Inl (e, n)
      | Inr None \<Rightarrow> Inr ((0, [], t), n)
      | Inr (Some d) \<Rightarrow>
          (case opt_str d ''board_id'' [] of
             Inl e \<Rightarrow> Inl (e, n)
           | Inr board \<Rightarrow>
               (if board = [] then Inr ((0, [], t), n)
                else if \<not> is_board_subscribed home board (nd_fs n)
                then (case src of
                        None \<Rightarrow> Inr ((0, [], t), n)
                      | Some h \<Rightarrow>
                          (if board \<in> set known then Inr ((0, [], t), n)
                           else (case (if ident = None then Inr t
                                       else map_sum id snd (register_from_announce now board h ident None t)) of
                                   Inl e \<Rightarrow> Inl (e, n)
                                 | Inr t' \<Rightarrow> Inr ((0, [Push_announce h board], t'), n))))
                else (case bindE (resolve_have_peer ident_hash now from_board src ident board t) (\<lambda>(peer, who, t1).
                             (let pex = dget_or d ''pex'' (JArr [])
                              in bindE (if truthy_json pex then bindE (items_of pex) (\<lambda>es. pex_entries decode now board es t1)
                                        else Inr t1) (\<lambda>t2. Inr (peer, who, t2)))) of
                        Inl e \<Rightarrow> Inl (e, n)
                      | Inr (peer, who, t2) \<Rightarrow>
                          bind_run (compare_have_to_local home d board n) (\<lambda>stale n1.
                            Inr ((length stale,
                                  (case peer of None \<Rightarrow> [] | Some h \<Rightarrow> map (Request_delta h who board) stale), t2), n1))))))"

end
