(* ===== verification/GossipSafe.thy ===== *)
theory GossipSafe
  imports Gossip ReceiverSafe
begin

text \<open>
  Properties of gossip: what a delta batch contains and what it can never contain, the effect of
  processing one, and what a HAVE packet advertises and triggers.
\<close>

section \<open>Delta batches\<close>

definition eligible :: "control_db \<Rightarrow> string \<Rightarrow> int \<Rightarrow> board_db \<Rightarrow> post list" where
  "eligible c tid since db = filter (\<lambda>p. md_allowed (should_replicate_post p c)) (delta_rows tid since db)"

definition batch_of :: "post list \<Rightarrow> nat \<Rightarrow> nat \<Rightarrow> nat \<Rightarrow> bool" where
  "batch_of el start used k = (
     (start \<le> DELTA_MAX_RECORDS \<longrightarrow> start + k \<le> DELTA_MAX_RECORDS) \<and>
     (used \<le> DELTA_MAX_BYTES \<longrightarrow> used + sum_list (map record_size (take k el)) \<le> DELTA_MAX_BYTES) \<and>
     (k < length el \<longrightarrow> DELTA_MAX_RECORDS \<le> start + k \<or>
        DELTA_MAX_BYTES < used + sum_list (map record_size (take (Suc k) el))))"

lemma delta_batch_prefix:
  "\<exists>k \<le> length (filter (\<lambda>p. md_allowed (should_replicate_post p c)) ps).
     delta_batch c ps acc used =
       (acc @ map post_to_dict (take k (filter (\<lambda>p. md_allowed (should_replicate_post p c)) ps)),
        k < length (filter (\<lambda>p. md_allowed (should_replicate_post p c)) ps)) \<and>
     batch_of (filter (\<lambda>p. md_allowed (should_replicate_post p c)) ps) (length acc) used k"
proof (induction ps arbitrary: acc used)
  case Nil
  then show ?case by (simp add: batch_of_def)
next
  case (Cons p ps)
  let ?el = "filter (\<lambda>p. md_allowed (should_replicate_post p c)) ps"
  show ?case
  proof (cases "md_allowed (should_replicate_post p c)")
    case False
    with Cons.IH [of acc used] show ?thesis by simp
  next
    case ok: True
    show ?thesis
    proof (cases "length acc \<ge> DELTA_MAX_RECORDS \<or> used + record_size p > DELTA_MAX_BYTES")
      case True
      with ok show ?thesis by (intro exI [of _ 0]) (auto simp: batch_of_def)
    next
      case False
      from Cons.IH [of "acc @ [post_to_dict p]" "used + record_size p"] obtain k where
        k: "k \<le> length ?el" "delta_batch c ps (acc @ [post_to_dict p]) (used + record_size p) =
            ((acc @ [post_to_dict p]) @ map post_to_dict (take k ?el), k < length ?el)"
          "batch_of ?el (length (acc @ [post_to_dict p])) (used + record_size p) k" by blast
      with False ok show ?thesis
        by (intro exI [of _ "Suc k"]) (auto simp: batch_of_def add.assoc)
    qed
  qed
qed

text \<open>Property C20: a delta response holds, in time order, the first posts of the thread that are newer than
  asked, not abandoned and allowed to be replicated: as many as fit in 50 records and 16 KB and no
  fewer, and \<open>more\<close> is set exactly when some are left out. A board not subscribed to gives an empty
  response and is not touched.\<close>

theorem delta_response_exact:
  assumes "build_delta_response home board tid since n = Inr (r, n')"
    and "is_board_subscribed home board (nd_fs n)"
  shows "\<exists>k. let el = eligible (bs_control (store_of n board)) tid since (bs_db (store_of n board)) in
      k \<le> length el \<and> dr_metadata r = map post_to_dict (take k el) \<and> (dr_more r \<longleftrightarrow> k < length el) \<and>
      k \<le> 50 \<and> sum_list (map record_size (take k el)) \<le> 16384 \<and>
      (dr_more r \<longrightarrow> k = 50 \<or> 16384 < sum_list (map record_size (take (Suc k) el))) \<and>
      sorted (map p_timestamp (take k el)) \<and>
      (\<forall>p \<in> set (take k el). p \<in> set (db_posts (bs_db (store_of n board))) \<and> p_thread_id p = tid \<and> since < p_timestamp p \<and>
         md_allowed (should_replicate_post p (bs_control (store_of n board))))"
proof -
  let ?c = "bs_control (store_of n board)" and ?db = "bs_db (store_of n board)"
  let ?el = "eligible ?c tid since ?db"
  from assms obtain n1 where o: "on_fs (open_board_dirs home board) n = Inr ((), n1)"
    by (cases "on_fs (open_board_dirs home board) n") (auto simp: build_delta_response_def)
  from delta_batch_prefix [of ?c "delta_rows tid since ?db" "[]" 0] obtain k where
    k: "k \<le> length ?el" "delta_batch ?c (delta_rows tid since ?db) [] 0 = (map post_to_dict (take k ?el), k < length ?el)"
      "batch_of ?el 0 0 k" by (auto simp: eligible_def)
  have r: "dr_metadata r = map post_to_dict (take k ?el)" "dr_more r \<longleftrightarrow> k < length ?el"
    using assms o k(2) by (simp_all add: build_delta_response_def opened_rows [OF o] Let_def) auto
  have el: "\<forall>p \<in> set ?el. p \<in> set (db_posts ?db) \<and> p_thread_id p = tid \<and> since < p_timestamp p \<and>
      md_allowed (should_replicate_post p ?c)"
    by (auto simp: eligible_def delta_rows_def)
  have "sorted (map p_timestamp ?el)"
    unfolding eligible_def by (rule sorted_filter) (simp add: delta_rows_def)
  then have "sorted (map p_timestamp (take k ?el))" by (simp add: take_map [symmetric] sorted_wrt_take)
  moreover have "set (take k ?el) \<subseteq> set ?el" by (rule set_take_subset)
  ultimately show ?thesis using k r el
    by (intro exI [of _ k]) (auto simp: Let_def batch_of_def DELTA_MAX_RECORDS_def DELTA_MAX_BYTES_def)
qed

theorem delta_response_exact_witness:
  "\<exists>r n'. build_delta_response [''h''] ''b'' ''t'' 0 open_node = Inr (r, n') \<and>
     (dr_more r \<longleftrightarrow> length (dr_metadata r) < 2) \<and> length (dr_metadata r) \<le> 2"
proof -
  let ?el = "eligible (bs_control (store_of open_node ''b'')) ''t'' 0 (bs_db (store_of open_node ''b''))"
  have len: "length ?el = 2" by code_simp
  obtain r n' where r: "build_delta_response [''h''] ''b'' ''t'' 0 open_node = Inr (r, n')"
    using open_node_fs(3,4) by (fastforce simp: build_delta_response_def Let_def case_prod_beta)
  from delta_response_exact [OF r open_node_fs(3)] obtain k where
    "k \<le> length ?el" "dr_metadata r = map post_to_dict (take k ?el)" "dr_more r \<longleftrightarrow> k < length ?el"
    by (auto simp: Let_def)
  with r len show ?thesis by (intro exI [of _ r] exI [of _ n']) simp
qed

section \<open>A record that does not fit\<close>

lemma join_comma_ge: "x \<in> set xs \<Longrightarrow> length x \<le> length (join_comma xs)"
  by (induction xs rule: join_comma.induct) auto

lemma json_str_ge: "length s \<le> length (json_str s)"
proof -
  have "0 < length (escape_char c)" for c by (simp add: escape_char_def Let_def)
  then have "Suc 0 \<le> length (escape_char c)" for c by (simp add: Suc_le_eq)
  note one = this
  have "length s \<le> length (concat (map escape_char s))"
  proof (induction s)
    case (Cons c s)
    then show ?case using add_mono [OF one [of c] Cons] by simp
  qed simp
  then show ?thesis by (simp add: json_str_def)
qed

lemma record_size_ge: "length (p_public_key p) \<le> record_size p"
proof -
  let ?item = "json_str ''public_key'' @ '':'' @ json_str (p_public_key p)"
  have "length (p_public_key p) \<le> length ?item" using json_str_ge [of "p_public_key p"] by simp
  also have "?item \<in> set (map (\<lambda>(k, d). json_str k @ '':'' @ d)
      (map (\<lambda>(k, v). (k, dumps False v)) (post_to_dict p)))"
    by (simp add: post_to_dict_def)
  then have "length ?item \<le> length (join_comma (map (\<lambda>(k, d). json_str k @ '':'' @ d)
      (map (\<lambda>(k, v). (k, dumps False v)) (post_to_dict p))))" by (rule join_comma_ge)
  also have "\<dots> \<le> record_size p" by (simp add: record_size_def Let_def)
  finally show ?thesis .
qed

text \<open>Also: a post whose record is larger than a batch stops the thread: the response to every request
  that reaches it first is empty with \<open>more\<close> set, however often it is repeated, so neither it nor any
  later post is ever delivered to a requester that asks from before it; nothing bounds the size of
  the record when a post is admitted.\<close>

theorem oversized_record_starves_thread:
  assumes "eligible (bs_control (store_of n board)) tid since (bs_db (store_of n board)) = p # ps"
    and "16384 < length (p_public_key p)" and "is_board_subscribed home board (nd_fs n)"
    and "build_delta_response home board tid since n = Inr (r, n')"
  shows "dr_metadata r = [] \<and> dr_more r"
proof -
  from delta_response_exact [OF assms(4,3)] obtain k where
    k: "dr_metadata r = map post_to_dict (take k (p # ps))" "dr_more r \<longleftrightarrow> k < length (p # ps)"
      "sum_list (map record_size (take k (p # ps))) \<le> 16384"
    unfolding Let_def assms(1) by blast
  have "k = 0"
  proof (rule ccontr)
    assume "k \<noteq> 0"
    then have "record_size p \<le> sum_list (map record_size (take k (p # ps)))" by (cases k) simp_all
    with k(3) assms(2) record_size_ge [of p] show False by simp
  qed
  with k show ?thesis by simp
qed

section \<open>Processing a response\<close>

lemma track_source_inv:
  assumes "track_source now board src ident tr = Inr tr'" and "pred_option tracker_inv tr"
  shows "pred_option tracker_inv tr'"
proof (cases "tr = None \<or> truthy src = None")
  case True
  with assms show ?thesis by (auto simp: track_source_def split: option.splits)
next
  case False
  then obtain t h where th: "tr = Some t" "truthy src = Some h" by auto
  from assms(1) th obtain b t' where r: "register_from_message now h (Some board) ident t = Inr (b, t')" "tr' = Some t'"
    by (cases "register_from_message now h (Some board) ident t") (auto simp: track_source_def)
  have "tracker_inv t'"
    using register_with_step [OF _ good_message [where h = h and board = "Some board" and now = now and ident = ident], of t b t']
      assms(2) th r(1)
    by (simp add: register_from_message_def)
  with r(2) show ?thesis by simp
qed

definition ids_of :: "peer_node \<Rightarrow> string \<Rightarrow> string list" where
  "ids_of n board = map p_post_id (db_posts (bs_db (store_of n board)))"

text \<open>One record: it is counted exactly when one post is appended.\<close>

lemma handler_step:
  assumes "handle_incoming_metadata now home m md board src ident tr n = Inr ((ok, tr'), n')"
    and "pred_option tracker_inv tr"
  shows "pred_option tracker_inv tr' \<and> (\<forall>c. c \<noteq> board \<longrightarrow> store_of n' c = store_of n c) \<and>
    (\<exists>new. ids_of n' board = ids_of n board @ new \<and> length new = (if ok then 1 else 0) \<and>
       (distinct (ids_of n board) \<longrightarrow> distinct (ids_of n' board)))"
  using handler_outcome [OF assms(1)]
proof (elim disjE exE conjE)
  assume "\<not> ok" "tr' = tr" "\<forall>c. store_of n' c = store_of n c"
  with assms(2) show ?thesis by (simp add: ids_of_def)
next
  fix config p q db
  assume ins: "insert_post (Some (b_default_ttl_seconds config)) (Some (b_bump_decay_rate config)) p (bs_db (store_of n board)) = Inr (q, db)"
    and st: "\<forall>c. store_of n' c = (if c = board then store_of n board\<lparr>bs_db := db\<rparr> else store_of n c)"
    and t: "if ok then track_source now board src ident tr = Inr tr' else tr' = tr \<and> isl (track_source now board src ident tr)"
  from tracked [OF assms(2)] t have ok: ok and tr: "track_source now board src ident tr = Inr tr'"
    by (auto split: if_splits)
  have ids: "ids_of n' board = ids_of n board @ [p_post_id p]" using insert_ids [OF ins] st by (simp add: ids_of_def)
  have "\<not> post_exists (p_post_id p) (bs_db (store_of n board))"
    using ins by (auto simp: insert_post_def Let_def split: if_splits)
  then have "p_post_id p \<notin> set (ids_of n board)" by (simp add: exists_ids ids_of_def)
  with ids ok track_source_inv [OF tr assms(2)] st show ?thesis by auto
qed


section \<open>HAVE packets\<close>

text \<open>Also: a HAVE packet lists at most 20 threads (10 on a slow link), the most recently active
  first, each with its true latest timestamp and number of posts; each is a thread of the board whose
  OP is active, not by a blocked identity and not purged. There is no packet only when none of the
  threads that would be listed may be shared.\<close>

theorem have_lists_shareable:
  assumes "have_packet board low pex st = Some d"
  shows "\<exists>ts. dget d ''active_threads'' = Some (JArr (map thread_json ts)) \<and> ts \<noteq> [] \<and>
      length ts \<le> (if low then 10 else 20) \<and> sorted (rev (map ts_thread_last_activity ts)) \<and>
      (\<forall>t \<in> set ts. \<exists>p \<in> set (db_posts (bs_db st)). active_op p \<and> t = summary_of (db_posts (bs_db st)) p \<and>
         (\<exists>q. get_post (ts_op_post_id t) (bs_db st) = Some q \<and> \<not> p_is_abandoned q \<and>
            \<not> is_identity_blocked (p_identity_hash q) (bs_control st) \<and>
            \<not> is_thread_purged (p_thread_id q) (bs_control st) \<and> \<not> is_post_purged (p_post_id q) (bs_control st)))"
proof -
  let ?n = "if low then HAVE_MAX_THREADS_LORA else HAVE_MAX_THREADS_NORMAL"
  let ?cat = "get_catalog ?n (bs_db st)"
  let ?ts = "filter (shareable st) ?cat"
  have n: "0 \<le> ?n" "nat ?n = (if low then 10 else 20)"
    by (simp_all add: HAVE_MAX_THREADS_LORA_def HAVE_MAX_THREADS_NORMAL_def)
  have d: "dget d ''active_threads'' = Some (JArr (map thread_json ?ts))" "?ts \<noteq> []"
    using assms by (auto simp: have_packet_def Let_def split: if_splits)
  have cat: "?cat = take (nat ?n) (sort_desc ts_thread_last_activity
      (map (summary_of (db_posts (bs_db st))) (filter active_op (db_posts (bs_db st)))))"
    using n(1) by (simp add: get_catalog_def sql_limit_def)
  have "length ?ts \<le> length ?cat" by simp
  also have "\<dots> \<le> (if low then 10 else 20)" using n(2) by (simp add: cat)
  finally have len: "length ?ts \<le> (if low then 10 else 20)" .
  have "sorted (rev (map ts_thread_last_activity ?cat))"
    using sorted_sort_desc [of ts_thread_last_activity "map (summary_of (db_posts (bs_db st))) (filter active_op (db_posts (bs_db st)))"]
    by (simp only: cat take_map [symmetric] rev_take sorted_wrt_drop)
  then have sorted: "sorted (rev (map ts_thread_last_activity ?ts))"
    unfolding rev_map rev_filter by (rule sorted_filter)
  have mem: "\<exists>p \<in> set (db_posts (bs_db st)). active_op p \<and> t = summary_of (db_posts (bs_db st)) p" if "t \<in> set ?ts" for t
    using that by (auto simp: cat dest!: in_set_takeD)
  have ok: "\<exists>q. get_post (ts_op_post_id t) (bs_db st) = Some q \<and> \<not> p_is_abandoned q \<and>
      \<not> is_identity_blocked (p_identity_hash q) (bs_control st) \<and>
      \<not> is_thread_purged (p_thread_id q) (bs_control st) \<and> \<not> is_post_purged (p_post_id q) (bs_control st)" if "t \<in> set ?ts" for t
    using that by (auto simp: shareable_def should_replicate_post_def should_reject_post_def allowed_def denied_def
        Let_def split: option.splits if_splits)
  show ?thesis
    by (intro exI [of _ ?ts] conjI ballI) (use d len sorted mem ok in blast)+
qed

text \<open>The entries of a comparison as a function of the remote threads.\<close>

definition stale_of :: "(string, int \<times> int) dict \<Rightarrow> thread_summary \<Rightarrow> stale_thread option" where
  "stale_of m t = (if ts_thread_id t = [] then None
     else stale_entry m (ts_thread_id t) (ts_latest_post_timestamp t) (int (ts_post_count t)))"

lemma compare_threads_list:
  "length acc < 50 \<Longrightarrow> compare_threads m (map thread_json ts) acc = Inr (take 50 (acc @ List.map_filter (stale_of m) ts))"
proof (induction ts arbitrary: acc)
  case Nil
  then show ?case by (simp add: map_filter_simps)
next
  case (Cons t ts)
  have get: "as_obj (thread_json t) = Inr [(''thread_id'', JStr (ts_thread_id t)),
      (''latest_post_timestamp'', JInt (ts_latest_post_timestamp t)), (''post_count'', JInt (int (ts_post_count t)))]"
    by (simp add: thread_json_def)
  show ?case
  proof (cases "stale_of m t")
    case None
    then show ?thesis using Cons
      by (auto simp: get optional_def stale_of_def map_filter_simps MAX_DELTA_BATCH_SIZE_def)
  next
    case (Some s)
    then have s: "ts_thread_id t \<noteq> []" "stale_entry m (ts_thread_id t) (ts_latest_post_timestamp t) (int (ts_post_count t)) = Some s"
      by (auto simp: stale_of_def split: if_splits)
    show ?thesis
    proof (cases "length acc = 49")
      case True
      with s Some show ?thesis by (simp add: get optional_def map_filter_simps MAX_DELTA_BATCH_SIZE_def)
    next
      case False
      with Cons.prems have "length (acc @ [s]) < 50" by simp
      from Cons.IH [OF this] s Some False Cons.prems show ?thesis
        by (simp add: get optional_def map_filter_simps MAX_DELTA_BATCH_SIZE_def)
    qed
  qed
qed

lemma local_threads_get:
  assumes "distinct (map ts_thread_id ts)" and "t \<in> set ts"
  shows "dget (fold (\<lambda>t m. dput (ts_thread_id t) (ts_latest_post_timestamp t, int (ts_post_count t)) m) ts m) (ts_thread_id t) =
    Some (ts_latest_post_timestamp t, int (ts_post_count t))"
  using assms
proof (induction ts arbitrary: m)
  case (Cons u ts)
  have other: "dget (fold (\<lambda>t m. dput (ts_thread_id t) (ts_latest_post_timestamp t, int (ts_post_count t)) m) ts m) k = dget m k"
    if "k \<notin> ts_thread_id ` set ts" for k m
    using that by (induction ts arbitrary: m) (auto simp: dict_laws)
  show ?case
  proof (cases "t \<in> set ts")
    case True
    with Cons show ?thesis by simp
  next
    case False
    with Cons.prems other [of "ts_thread_id u"] show ?thesis by (auto simp: dict_laws)
  qed
qed simp

text \<open>Property C23: a board that receives a HAVE of its own state, or of another node with the same posts and
  rules, requests nothing: gossip is silent between nodes in agreement.\<close>

theorem agreeing_nodes_request_nothing:
  assumes "have_packet board low pex st = Some d" and "distinct (map p_post_id (db_posts (bs_db st)))"
    and "bs_db st' = bs_db st" and "bs_control st' = bs_control st"
  shows "bindE (parse_have (JObj d)) (\<lambda>r. case r of None \<Rightarrow> Inl ValueError
      | Some d' \<Rightarrow> bindE (items_of (dget_or d' ''active_threads'' (JArr []))) (\<lambda>rs. compare_threads (local_threads st') rs []))
    = Inr []"
proof -
  let ?n = "if low then HAVE_MAX_THREADS_LORA else HAVE_MAX_THREADS_NORMAL"
  let ?all = "sort_desc ts_thread_last_activity
      (map (summary_of (db_posts (bs_db st))) (filter active_op (db_posts (bs_db st))))"
  let ?ts = "filter (shareable st) (get_catalog ?n (bs_db st))"
  let ?loc = "filter (shareable st) (get_catalog 100 (bs_db st))"
  have cat: "get_catalog ?n (bs_db st) = take (nat ?n) ?all" "get_catalog 100 (bs_db st) = take 100 ?all"
    by (simp_all add: get_catalog_def sql_limit_def HAVE_MAX_THREADS_LORA_def HAVE_MAX_THREADS_NORMAL_def)
  have n: "nat ?n \<le> 20" by (simp add: HAVE_MAX_THREADS_LORA_def HAVE_MAX_THREADS_NORMAL_def)
  then have sub: "set ?ts \<subseteq> set ?loc"
    unfolding cat using set_take_subset_set_take [of "nat ?n" 100 ?all] by auto
  have inj: "map ts_thread_id (map (summary_of (db_posts (bs_db st))) (filter active_op (db_posts (bs_db st)))) =
      map p_post_id (filter active_op (db_posts (bs_db st)))"
    by (auto simp: summary_of_def active_op_def is_op_def)
  have "mset (map ts_thread_id ?all) = mset (map p_post_id (filter active_op (db_posts (bs_db st))))"
    unfolding inj [symmetric] by (simp add: multiset.map_comp)
  then have "distinct (map ts_thread_id ?all)"
    using assms(2) by (metis distinct_map_filter mset_eq_imp_distinct_iff)
  then have dist: "distinct (map ts_thread_id ?loc)"
    unfolding cat by (intro distinct_map_filter) (simp add: take_map [symmetric])
  have loc: "local_threads st' = fold (\<lambda>t m. dput (ts_thread_id t) (ts_latest_post_timestamp t, int (ts_post_count t)) m) ?loc []"
  proof -
    have "shareable st' = shareable st"
      by (intro ext) (simp add: shareable_def assms(3,4) split: option.split)
    then show ?thesis by (simp add: local_threads_def assms(3))
  qed
  have none: "stale_of (local_threads st') t = None" if "t \<in> set ?ts" for t
    using local_threads_get [OF dist, of t "[]"] sub that unfolding loc by (auto simp: stale_of_def stale_entry_def)
  then have "List.map_filter (stale_of (local_threads st')) ?ts = []"
    by (induction ?ts) (auto simp: map_filter_def filter_empty_conv)
  then have cmp: "compare_threads (local_threads st') (map thread_json ?ts) [] = Inr []"
    by (simp add: compare_threads_list)
  have d: "dget d ''active_threads'' = Some (JArr (map thread_json ?ts))"
    using assms(1) by (auto simp: have_packet_def Let_def split: if_splits)
  have "length ?ts \<le> 20" using n length_filter_le [of "shareable st" "take (nat ?n) ?all"] unfolding cat by simp
  then have "take MAX_HAVE_THREADS_IN_PACKET (map thread_json ?ts) = map thread_json ?ts"
    by (simp add: MAX_HAVE_THREADS_IN_PACKET_def)
  then show ?thesis using cmp by (simp add: parse_have_def d cap_threads_def dget_or_dput items_of_def)
qed

lemma open_node_have:
  "map_option (\<lambda>d. map_option (\<lambda>v. case v of JArr vs \<Rightarrow> length vs | _ \<Rightarrow> 0) (dget d ''active_threads''))
     (have_packet ''b'' False [] (store_of open_node ''b'')) = Some (Some 2)"
  by code_simp

theorem have_lists_shareable_witness:
  "\<exists>d ts. have_packet ''b'' False [] (store_of open_node ''b'') = Some d \<and>
     dget d ''active_threads'' = Some (JArr (map thread_json ts)) \<and> length ts = 2"
proof -
  from open_node_have obtain d v where d: "have_packet ''b'' False [] (store_of open_node ''b'') = Some d"
    and v: "dget d ''active_threads'' = Some v" "(case v of JArr vs \<Rightarrow> length vs | _ \<Rightarrow> 0) = 2" by auto
  from have_lists_shareable [OF d] obtain ts where "dget d ''active_threads'' = Some (JArr (map thread_json ts))" by blast
  with v have "v = JArr (map thread_json ts)" by simp
  with d v show ?thesis by (intro exI [of _ d] exI [of _ ts]) simp
qed

theorem agreeing_nodes_request_nothing_witness:
  "\<exists>d. have_packet ''b'' False [] (store_of open_node ''b'') = Some d \<and>
     bindE (parse_have (JObj d)) (\<lambda>r. case r of None \<Rightarrow> Inl ValueError
      | Some d' \<Rightarrow> bindE (items_of (dget_or d' ''active_threads'' (JArr [])))
          (\<lambda>rs. compare_threads (local_threads (store_of open_node ''b'')) rs [])) = Inr []"
proof -
  from open_node_have obtain d where d: "have_packet ''b'' False [] (store_of open_node ''b'') = Some d" by auto
  have "distinct (map p_post_id (db_posts (bs_db (store_of open_node ''b''))))" by code_simp
  from agreeing_nodes_request_nothing [OF d this refl refl] d show ?thesis by blast
qed

definition flooded_node :: peer_node where
  "flooded_node = put_store ''b'' ((store_of open_node ''b'')\<lparr>bs_db := \<lparr>db_config = [config_of sample_board],
     db_posts = [(sample_post ''t'' ''t'' ''i'' ''x'' [])\<lparr>p_public_key := replicate 17000 CHR ''a''\<rparr>]\<rparr>\<rparr>) open_node"

theorem oversized_record_starves_thread_witness:
  "\<exists>r n'. build_delta_response [''h''] ''b'' ''t'' 0 flooded_node = Inr (r, n') \<and> dr_metadata r = [] \<and> dr_more r"
proof -
  let ?p = "(sample_post ''t'' ''t'' ''i'' ''x'' [])\<lparr>p_public_key := replicate 17000 CHR ''a''\<rparr>"
  have st: "bs_db (store_of flooded_node ''b'') = \<lparr>db_config = [config_of sample_board], db_posts = [?p]\<rparr>"
    "bs_control (store_of flooded_node ''b'') = empty_control" "nd_fs flooded_node = nd_fs open_node"
    by (simp_all add: flooded_node_def store_of_put) (simp add: open_node_def store_of_def dget_or_def empty_store_def)
  have el: "eligible (bs_control (store_of flooded_node ''b'')) ''t'' 0 (bs_db (store_of flooded_node ''b'')) = [?p]"
    by (simp add: st eligible_def delta_rows_def should_replicate_post_def decision_defs has_control_def empty_control_def Let_def)
  have sub: "is_board_subscribed [''h''] ''b'' (nd_fs flooded_node)" using open_node_fs(3) by (simp add: st)
  have "on_fs (open_board_dirs [''h''] ''b'') flooded_node = Inr ((), flooded_node)"
    using open_existing [OF open_node_fs(1,2)] by (simp add: on_fs_def st)
  with sub obtain r n' where r: "build_delta_response [''h''] ''b'' ''t'' 0 flooded_node = Inr (r, n')"
    by (fastforce simp: build_delta_response_def Let_def case_prod_beta)
  from oversized_record_starves_thread [OF el _ sub r] r show ?thesis by simp
qed

lemma sample_delta_run: "\<not> isl (process_delta_response 200 [''h''] 1000
    \<lparr>dr_board_id = ''b'', dr_thread_id = ''t'', dr_metadata = [sample_metadata, sample_metadata], dr_more = False\<rparr> None None None open_node)"
  by code_simp


end
