(* ===== verification/Engine.thy ===== *)
theory Engine
  imports Gossip MessageQueue RateLimiter
begin

text \<open>
  The sync engine (\<open>retiboard/sync/engine.py\<close>): sending with a queue behind it, path requests and
  their discovery, the flush of a peer's queue, catch-up requests, the delta processor and the HAVE
  round. A record \<^term>\<open>net\<close> holds what Reticulum and LXMF answer: whether the router takes the
  \<open>n\<close>-th message handed to it, whether a path is known, the random jitter. What the engine hands to
  the network is kept in order in \<open>eg_sent\<close> (messages), \<open>eg_path_requests\<close> and
  \<open>eg_have_announces\<close>. One call reads the clock once.
\<close>

section \<open>State\<close>

text \<open>\<open>payload.decode("utf-8")\<close>: the code points, \<^term>\<open>None\<close> where Python raises.\<close>

definition cont_byte :: "nat \<Rightarrow> bool" where
  "cont_byte n = (128 \<le> n \<and> n < 192)"

fun utf8_decode :: "nat list \<Rightarrow> nat list option" where
  "utf8_decode [] = Some []"
| "utf8_decode (a # bs) =
     (if a < 128 then map_option ((#) a) (utf8_decode bs)
      else if a < 194 then None
      else if a < 224 then
        (case bs of b # cs \<Rightarrow>
           if cont_byte b then map_option ((#) ((a - 192) * 64 + (b - 128))) (utf8_decode cs) else None
         | _ \<Rightarrow> None)
      else if a < 240 then
        (case bs of b # c # ds \<Rightarrow>
           (let v = (a - 224) * 4096 + (b - 128) * 64 + (c - 128) in
            if cont_byte b \<and> cont_byte c \<and> 2048 \<le> v \<and> \<not> (55296 \<le> v \<and> v < 57344)
            then map_option ((#) v) (utf8_decode ds) else None)
         | _ \<Rightarrow> None)
      else if a < 245 then
        (case bs of b # c # d # es \<Rightarrow>
           (let v = (a - 240) * 262144 + (b - 128) * 4096 + (c - 128) * 64 + (d - 128) in
            if cont_byte b \<and> cont_byte c \<and> cont_byte d \<and> 65536 \<le> v \<and> v < 1114112
            then map_option ((#) v) (utf8_decode es) else None)
         | _ \<Rightarrow> None)
      else None)"

record lxm =
  lx_identity :: string
  lx_content :: "nat list"
  lx_title :: string
  lx_direct :: bool

record net =
  nt_outbound :: "nat \<Rightarrow> lxm \<Rightarrow> bool"
  nt_has_path :: "string \<Rightarrow> bool"
  nt_jitter :: rat

record delta_request =
  dr_board :: string
  dr_thread :: string
  dr_since :: int
  dr_known :: int
  dr_target :: "string option"
  dr_identity :: "string option"
  dr_enqueued_at :: time

record engine =
  eg_tracker :: tracker
  eg_queue :: mq_manager
  eg_limiter :: rate_limiter
  eg_dest :: "string option"
  eg_sent :: "lxm list"
  eg_attempts :: nat
  eg_path_requests :: "string list"
  eg_signals :: "string list"
  eg_wakeup :: bool
  eg_deltas :: "delta_request list"
  eg_tasks :: "string list"
  eg_schedules :: "(string, time) dict"
  eg_sends :: "(string \<times> string, time) dict"
  eg_have_announces :: "(string \<times> bytes) list"
  eg_saved :: "(string, peer_row) dict"
  eg_started_at :: time
  eg_last_announce :: time
  eg_announces :: nat

definition new_engine :: "bool \<Rightarrow> engine" where
  "new_engine low =
     \<lparr>eg_tracker = new_tracker, eg_queue = new_manager QUEUE_MAX_DEPTH_PER_PEER QUEUE_MAX_TOTAL_MEMORY_MB,
      eg_limiter = new_rate_limiter low, eg_dest = None, eg_sent = [], eg_attempts = 0,
      eg_path_requests = [], eg_signals = [], eg_wakeup = False, eg_deltas = [], eg_tasks = [],
      eg_schedules = [], eg_sends = [], eg_have_announces = [], eg_saved = [], eg_started_at = 0,
      eg_last_announce = 0, eg_announces = 0\<rparr>"

definition get_peer :: "engine \<Rightarrow> string \<Rightarrow> peer_info option" where
  "get_peer e h = dget (tr_peers (eg_tracker e)) h"

definition on_tracker :: "(tracker \<Rightarrow> tracker) \<Rightarrow> engine \<Rightarrow> engine" where
  "on_tracker f e = e\<lparr>eg_tracker := f (eg_tracker e)\<rparr>"

definition put_in_queue :: "time \<Rightarrow> string \<Rightarrow> bytes \<Rightarrow> string \<Rightarrow> priority \<Rightarrow> engine \<Rightarrow> engine" where
  "put_in_queue now h payload title pr e =
     e\<lparr>eg_queue := snd (queue_message now h payload title pr None (eg_queue e))\<rparr>"

section \<open>Sending\<close>

text \<open>\<open>_try_send_lxmf\<close>: a long message asks for a direct link.\<close>

definition lxm_for :: "string \<Rightarrow> bytes \<Rightarrow> string \<Rightarrow> lxm option" where
  "lxm_for ident payload title =
     map_option (\<lambda>c. \<lparr>lx_identity = ident, lx_content = c, lx_title = title, lx_direct = (length c > 300)\<rparr>)
       (utf8_decode (map unat payload))"

definition try_send :: "net \<Rightarrow> peer_info \<Rightarrow> bytes \<Rightarrow> string \<Rightarrow> engine \<Rightarrow> bool \<times> engine" where
  "try_send nt p payload title e =
     (case Option.bind (pi_identity p) (\<lambda>i. lxm_for i payload title) of
        None \<Rightarrow> (False, e)
      | Some x \<Rightarrow>
          (let e1 = e\<lparr>eg_attempts := Suc (eg_attempts e)\<rparr>
           in if nt_outbound nt (eg_attempts e) x then (True, e1\<lparr>eg_sent := eg_sent e @ [x]\<rparr>)
              else (False, e1)))"

fun index_of :: "'a \<Rightarrow> 'a list \<Rightarrow> nat" where
  "index_of x [] = 0"
| "index_of x (y # ys) = (if x = y then 0 else Suc (index_of x ys))"

text \<open>The loop of \<open>on_path_discovered\<close>: the messages to put back, found with \<open>messages.index(msg)\<close>.\<close>

fun flush_loop ::
  "net \<Rightarrow> time \<Rightarrow> peer_info option \<Rightarrow> queued_message list \<Rightarrow> queued_message list \<Rightarrow> engine \<Rightarrow>
     queued_message list \<times> engine" where
  "flush_loop nt now peer messages [] e = ([], e)"
| "flush_loop nt now peer messages (m # ms) e =
     (if expired now m then flush_loop nt now peer messages ms e
      else (case (case peer of None \<Rightarrow> (False, e) | Some p \<Rightarrow> try_send nt p (qm_payload m) (qm_title m) e) of
              (True, e1) \<Rightarrow> flush_loop nt now peer messages ms e1
            | (False, e1) \<Rightarrow>
                (m # filter (\<lambda>x. \<not> expired now x) (drop (Suc (index_of m messages)) messages), e1)))"

definition on_path_discovered :: "net \<Rightarrow> time \<Rightarrow> string \<Rightarrow> engine \<Rightarrow> engine" where
  "on_path_discovered nt now h e =
     (let e1 = (on_tracker (record_delivery_success now h) e)\<lparr>eg_signals := eg_signals e @ [h], eg_wakeup := True\<rparr>;
          (messages, q) = flush_peer now h (eg_queue e1);
          e2 = e1\<lparr>eg_queue := q\<rparr>
      in if messages = [] then e2
         else (case flush_loop nt now (get_peer e2 h) messages messages e2 of (failed, e3) \<Rightarrow>
                 if failed = [] then e3
                 else on_tracker (record_delivery_failure now (nt_jitter nt) h)
                        (e3\<lparr>eg_queue := requeue_failed now h failed (eg_queue e3)\<rparr>)))"

text \<open>\<open>bytes.fromhex\<close> of a malformed hash raises and ends the attempt.\<close>

definition ask_path :: "net \<Rightarrow> time \<Rightarrow> string \<Rightarrow> engine \<Rightarrow> engine" where
  "ask_path nt now h e =
     (if \<not> fromhex_ok h then e
      else if nt_has_path nt h then on_path_discovered nt now h e
      else e\<lparr>eg_path_requests := eg_path_requests e @ [h]\<rparr>)"

definition request_path :: "net \<Rightarrow> time \<Rightarrow> string \<Rightarrow> engine \<Rightarrow> engine" where
  "request_path nt now h e =
     (case get_peer e h of
        None \<Rightarrow> e
      | Some p \<Rightarrow>
          (if pi_path p = Known then ask_path nt now h e
           else if pi_path p = Path_requested \<and> now < pi_next_retry_at p then e
           else ask_path nt now h
                  (on_tracker (put_peer h (p\<lparr>pi_path := Path_requested,
                                            pi_next_retry_at := now + next_retry_delay (nt_jitter nt) p\<rparr>)) e)))"

definition send_lxmf ::
  "net \<Rightarrow> time \<Rightarrow> string \<Rightarrow> bytes \<Rightarrow> string \<Rightarrow> priority \<Rightarrow> engine \<Rightarrow> send_result \<times> engine" where
  "send_lxmf nt now h payload title pr e =
     (if eg_dest e = None then (REJECTED, e)
      else (case get_peer e h of
              None \<Rightarrow> (REJECTED, e)
            | Some p \<Rightarrow>
                (if pi_path p = Unreachable \<and> now < pi_next_retry_at p then (REJECTED, e)
                 else if pi_path p = Known then
                   (case try_send nt p payload title e of
                      (True, e1) \<Rightarrow> (SENT, on_tracker (mark_path_known now h) e1)
                    | (False, e1) \<Rightarrow>
                        (QUEUED, request_path nt now h
                           (put_in_queue now h payload title pr
                              (on_tracker (record_delivery_failure now (nt_jitter nt) h) e1))))
                 else if pi_path p = Stale then
                   (QUEUED, request_path nt now h (put_in_queue now h payload title pr e))
                 else if pi_path p = Unknown then
                   (QUEUED, request_path nt now h (put_in_queue now h payload title pr e))
                 else (QUEUED, put_in_queue now h payload title pr e))))"

text \<open>\<open>_send_chunk_request_immediate\<close> of the payload fetcher: a chunk request is never queued, the caller
  plans it again.\<close>

definition lost_path :: "net \<Rightarrow> time \<Rightarrow> string \<Rightarrow> engine \<Rightarrow> engine" where
  "lost_path nt now h e = request_path nt now h (on_tracker (record_delivery_failure now (nt_jitter nt) h) e)"

definition send_chunk_request_immediate ::
  "net \<Rightarrow> time \<Rightarrow> string \<Rightarrow> bytes \<Rightarrow> engine \<Rightarrow> send_result \<times> engine" where
  "send_chunk_request_immediate nt now h payload e =
     (case get_peer e h of
        None \<Rightarrow> (REJECTED, e)
      | Some p \<Rightarrow>
          (if pi_identity p = None then (REJECTED, e)
           else if pi_path p = Unreachable \<and> now < pi_next_retry_at p then (REJECTED, e)
           else if pi_path p \<noteq> Known then
             (QUEUED, if pi_path p = Path_requested then e else request_path nt now h e)
           else if \<not> fromhex_ok h then (REJECTED, e)
           else if \<not> nt_has_path nt h then (QUEUED, lost_path nt now h e)
           else (case try_send nt p payload ''retiboard.chunk_req'' e of
                   (True, e1) \<Rightarrow> (SENT, on_tracker (mark_path_known now h) e1)
                 | (False, e1) \<Rightarrow> (QUEUED, lost_path nt now h e1))))"

section \<open>Path resolution and sweeps\<close>

definition resolution_candidates :: "engine \<Rightarrow> string list" where
  "resolution_candidates e =
     map fst (filter (\<lambda>(h, p). pi_path p \<in> {Path_requested, Stale} \<or> has_queued (eg_queue e) h)
                (tr_peers (eg_tracker e)))"

definition resolve_candidate :: "net \<Rightarrow> time \<Rightarrow> string \<Rightarrow> engine \<Rightarrow> engine" where
  "resolve_candidate nt now h e =
     (if fromhex_ok h \<and> nt_has_path nt h
      then (case get_peer e h of
              None \<Rightarrow> e
            | Some p \<Rightarrow> if pi_path p \<noteq> Known then on_path_discovered nt now h e else e)
      else e)"

definition path_resolution_pass :: "net \<Rightarrow> time \<Rightarrow> engine \<Rightarrow> engine" where
  "path_resolution_pass nt now e =
     fold (resolve_candidate nt now) (resolution_candidates e) (e\<lparr>eg_wakeup := False\<rparr>)"

definition CATCHUP_SCHEDULE_COOLDOWN :: time where "CATCHUP_SCHEDULE_COOLDOWN = 2"
definition CATCHUP_SEND_COOLDOWN :: time where "CATCHUP_SEND_COOLDOWN = 12"

definition prune_recent_catchup_tracking :: "time \<Rightarrow> engine \<Rightarrow> engine" where
  "prune_recent_catchup_tracking now e =
     (let cutoff = now - 2 * max CATCHUP_SCHEDULE_COOLDOWN (max CATCHUP_SEND_COOLDOWN 1)
      in e\<lparr>eg_schedules := filter (\<lambda>(k, ts). ts \<ge> cutoff) (eg_schedules e),
           eg_sends := filter (\<lambda>(k, ts). ts \<ge> cutoff) (eg_sends e)\<rparr>)"

definition queue_sweep :: "time \<Rightarrow> engine \<Rightarrow> engine" where
  "queue_sweep now e =
     (let e1 = e\<lparr>eg_queue := snd (sweep_expired now (eg_queue e))\<rparr>;
          e2 = on_tracker (sweep_peers now) e1
      in prune_recent_catchup_tracking now (e2\<lparr>eg_saved := persist now (eg_tracker e2)\<rparr>))"

section \<open>Catch-up and deltas\<close>

definition catchup_peers :: "time \<Rightarrow> string \<Rightarrow> engine \<Rightarrow> peer_info list" where
  "catchup_peers now board e =
     filter (\<lambda>p. \<not> now - dget_or (eg_sends e) (board, pi_hash p) 0 < CATCHUP_SEND_COOLDOWN)
       (filter (\<lambda>p. Some (pi_hash p) \<noteq> eg_dest e) (get_fetch_peers now board 5 (eg_tracker e)))"

definition have_req_bytes :: "string \<Rightarrow> bytes" where
  "have_req_bytes board = utf8 (dumps False (JObj [(''board_id'', JStr board)]))"

definition sync_board_catchup :: "net \<Rightarrow> time \<Rightarrow> string \<Rightarrow> engine \<Rightarrow> engine" where
  "sync_board_catchup nt now board e =
     (if eg_dest e = None then e
      else if catchup_peers now board e = [] then e
      else (fold (\<lambda>p e. if pi_identity p = None then e
                        else snd (send_lxmf nt now (pi_hash p) (have_req_bytes board)
                                    ''retiboard.have_req'' CONTROL e))
              (take 5 (catchup_peers now board e)) e)\<lparr>eg_wakeup := True\<rparr>)"

definition schedule_catchup :: "time \<Rightarrow> string \<Rightarrow> engine \<Rightarrow> engine" where
  "schedule_catchup now board e =
     (if now - dget_or (eg_schedules e) board 0 < CATCHUP_SCHEDULE_COOLDOWN then e
      else e\<lparr>eg_schedules := dput board now (eg_schedules e), eg_tasks := eg_tasks e @ [board]\<rparr>)"

definition active_catchups :: "time \<Rightarrow> engine \<Rightarrow> string list" where
  "active_catchups now e =
     remdups (map fst (filter (\<lambda>(b, ts). now - ts < 120) (eg_schedules e)) @
              map (fst \<circ> fst) (filter (\<lambda>(k, ts). now - ts < 120) (eg_sends e)))"

definition enqueue_delta_request ::
  "time \<Rightarrow> string \<Rightarrow> string \<Rightarrow> int \<Rightarrow> int \<Rightarrow> string option \<Rightarrow> string option \<Rightarrow> engine \<Rightarrow> engine" where
  "enqueue_delta_request now board tid since known target ident e =
     e\<lparr>eg_deltas := eg_deltas e @
        [\<lparr>dr_board = board, dr_thread = tid, dr_since = since, dr_known = known, dr_target = target,
          dr_identity = ident, dr_enqueued_at = now\<rparr>]\<rparr>"

definition delta_request_json :: "delta_request \<Rightarrow> json" where
  "delta_request_json r =
     JObj [(''board_id'', JStr (dr_board r)), (''thread_id'', JStr (dr_thread r)),
           (''since_timestamp'', JInt (dr_since r)), (''known_post_count'', JInt (dr_known r))]"

definition execute_delta_request :: "net \<Rightarrow> time \<Rightarrow> delta_request \<Rightarrow> engine \<Rightarrow> engine" where
  "execute_delta_request nt now r e =
     (if eg_dest e = None then e
      else (case truthy (dr_target r) of
              None \<Rightarrow> e
            | Some h \<Rightarrow> snd (send_lxmf nt now h (utf8 (dumps False (delta_request_json r)))
                              ''retiboard.delta_req'' CONTROL e)))"

text \<open>One turn of the delta processor; \<^term>\<open>None\<close> while it waits for a sync slot.\<close>

definition delta_processor_step :: "net \<Rightarrow> time \<Rightarrow> engine \<Rightarrow> engine option" where
  "delta_processor_step nt now e =
     (case eg_deltas e of
        [] \<Rightarrow> Some e
      | r # rs \<Rightarrow>
          (let e1 = e\<lparr>eg_deltas := rs\<rparr>
           in if (case truthy (dr_target r) of
                    None \<Rightarrow> False
                  | Some h \<Rightarrow> \<not> can_sync_peer now (dr_board r) h (eg_limiter e1))
              then Some e1
              else (case acquire (dr_board r) (eg_limiter e1) of
                      None \<Rightarrow> None
                    | Some l \<Rightarrow>
                        (let e2 = execute_delta_request nt now r (e1\<lparr>eg_limiter := l\<rparr>)
                         in Some (e2\<lparr>eg_limiter := release (dr_board r) (eg_limiter e2)\<rparr>)))))"

section \<open>HAVE rounds and identity announces\<close>

definition MAX_ANNOUNCE_APP_DATA :: nat where "MAX_ANNOUNCE_APP_DATA = 384"

text \<open>The body of the HAVE loop for one board; \<open>owned\<close> are the boards with a destination here.\<close>

definition send_have ::
  "net \<Rightarrow> time \<Rightarrow> string list \<Rightarrow> string \<Rightarrow> bytes \<Rightarrow> engine \<Rightarrow> engine" where
  "send_have nt now owned board have_bytes e =
     (let e1 = (if board \<in> set owned \<and> length have_bytes \<le> MAX_ANNOUNCE_APP_DATA
                then e\<lparr>eg_have_announces := eg_have_announces e @ [(board, have_bytes)]\<rparr> else e)
      in if eg_dest e1 = None then e1
         else fold (\<lambda>p e. if pi_identity p = None then e
                          else on_tracker (mark_direct_have_sent now (pi_hash p))
                                 (snd (send_lxmf nt now (pi_hash p) have_bytes ''retiboard.have'' CONTROL e)))
                (get_direct_have_peers now board (eg_dest e1) 5 (eg_tracker e1)) e1)"

definition have_round ::
  "(nat \<Rightarrow> peer_info list \<Rightarrow> peer_info list) \<Rightarrow> net \<Rightarrow> time \<Rightarrow> path \<Rightarrow> string list \<Rightarrow> bool \<Rightarrow> string \<Rightarrow>
     engine \<Rightarrow> peer_node \<Rightarrow> engine \<times> peer_node" where
  "have_round sample nt now home owned low board e n =
     (case build_have_packet sample now home board low (Some (eg_tracker e)) n of
        Inl (_, n1) \<Rightarrow> (e, n1)
      | Inr (None, n1) \<Rightarrow> (e, n1)
      | Inr (Some d, n1) \<Rightarrow> (send_have nt now owned board (serialize_have d) e, n1))"

definition announce_wait :: "time \<Rightarrow> rat \<Rightarrow> engine \<Rightarrow> time" where
  "announce_wait now u e =
     (let interval = (if now - eg_started_at e < 900 then 300 else 2700)
      in max (interval + u * (interval / 10)) 120)"

definition announce_lxmf_identity :: "bool \<Rightarrow> time \<Rightarrow> engine \<Rightarrow> engine" where
  "announce_lxmf_identity ok now e =
     (if eg_dest e = None then e
      else if ok then e\<lparr>eg_last_announce := now, eg_announces := Suc (eg_announces e)\<rparr> else e)"

definition request_identity_reannounce :: "bool \<Rightarrow> bool \<Rightarrow> time \<Rightarrow> engine \<Rightarrow> engine" where
  "request_identity_reannounce ok force now e =
     (if eg_dest e = None then e
      else if \<not> force \<and> now - eg_last_announce e < 15 then e
      else announce_lxmf_identity ok now e)"

end
