(* ===== verification/EngineSafe.thy ===== *)
theory EngineSafe
  imports Engine PeersSafe "HOL-Library.Code_Target_Nat"
begin

text \<open>
  Properties of the sync engine: its step relation with every operation that changes it, the
  invariant of the reachable states (peer states, queue bounds, sync slots), the flush as a prefix
  delivery, and what the path and catch-up loops do not do.
\<close>

section \<open>The engine as a step relation\<close>

inductive engine_step :: "engine \<Rightarrow> engine \<Rightarrow> bool" where
  Send: "engine_step e (snd (send_lxmf nt now h payload title pr e))"
| Chunk: "engine_step e (snd (send_chunk_request_immediate nt now h payload e))"
| Resolve: "engine_step e (path_resolution_pass nt now e)"
| Sweep: "engine_step e (queue_sweep now e)"
| Catchup: "engine_step e (sync_board_catchup nt now b e)"
| Schedule: "engine_step e (schedule_catchup now b e)"
| Delta: "engine_step e (enqueue_delta_request now b tid since known target ident e)"
| Process: "delta_processor_step nt now e = Some e' \<Longrightarrow> engine_step e e'"
| Have: "engine_step e (send_have nt now owned b d e)"
| Identity_announce: "engine_step e (request_identity_reannounce ok force now e)"
| Heard: "register_from_message now h b i (eg_tracker e) = Inr (r, t) \<Longrightarrow> engine_step e (e\<lparr>eg_tracker := t\<rparr>)"
| Hinted: "register_from_announce now b h i a (eg_tracker e) = Inr (r, t) \<Longrightarrow> engine_step e (e\<lparr>eg_tracker := t\<rparr>)"
| Identified: "register_peer_identity now h i a (eg_tracker e) = Inr (r, t) \<Longrightarrow> engine_step e (e\<lparr>eg_tracker := t\<rparr>)"
| Seen: "see_peer now b h i (eg_tracker e) = Inr t \<Longrightarrow> engine_step e (e\<lparr>eg_tracker := t\<rparr>)"
| Synced: "engine_step e (e\<lparr>eg_limiter := record_success b h (eg_limiter e)\<rparr>)"
| Lxmf_up: "engine_step e (on_tracker (set_self_hash h) (e\<lparr>eg_dest := Some h\<rparr>))"
| Stop: "engine_step e (e\<lparr>eg_saved := persist now (eg_tracker e)\<rparr>)"
| Restart: "engine_step e ((new_engine low)\<lparr>eg_saved := eg_saved e,
     eg_tracker := snd (load_peers decode (eg_saved e) new_tracker)\<rparr>)"

inductive engine_reachable :: "engine \<Rightarrow> bool" where
  start: "engine_reachable (new_engine low)"
| step: "engine_reachable e \<Longrightarrow> engine_step e e' \<Longrightarrow> engine_reachable e'"

section \<open>Peers of a running engine\<close>

text \<open>A peer that is known has no failures pending, and no peer has failed more than once in a row.\<close>

definition steady :: "peer_info \<Rightarrow> bool" where
  "steady p \<longleftrightarrow> pi_path p \<noteq> Unreachable \<and> pi_retry_count p \<le> 1 \<and> (pi_path p = Known \<longrightarrow> pi_retry_count p = 0)"

definition calm_table :: "tracker \<Rightarrow> bool" where
  "calm_table t \<longleftrightarrow> (\<forall>p \<in> set (dvalues (tr_peers t)). steady p)"

named_theorems calm_intros \<open>operations that keep a calm table\<close>

lemma calm_tableD: "calm_table t \<Longrightarrow> dget (tr_peers t) h = Some p \<Longrightarrow> steady p"
  unfolding calm_table_def by (metis in_set_zipE map_of_SomeD set_map image_eqI snd_conv)

lemma values_dput: "set (dvalues (dput k v d)) \<subseteq> insert v (set (dvalues d))"
  by (induction d) auto

lemma values_dpop: "set (dvalues (dpop k d)) \<subseteq> set (dvalues d)"
  by (induction d) auto

lemma calm_subset:
  "calm_table t \<Longrightarrow> set (dvalues (tr_peers t')) \<subseteq> set (dvalues (tr_peers t)) \<Longrightarrow> calm_table t'"
  unfolding calm_table_def by blast

lemma calm_put: "calm_table t \<Longrightarrow> steady p \<Longrightarrow> calm_table (put_peer h p t)"
  unfolding calm_table_def put_peer_def using values_dput [of h p "tr_peers t"] by (simp del: set_map) blast

lemma calm_dpop:
  "calm_table t \<Longrightarrow> calm_table (t\<lparr>tr_peers := dpop h (tr_peers t), tr_index := ix\<rparr>)"
  unfolding calm_table_def using values_dpop [of h "tr_peers t"] by (simp del: set_map) blast

lemma calm_modify:
  assumes "calm_table t" and "\<And>p. dget (tr_peers t) h = Some p \<Longrightarrow> steady p \<Longrightarrow> steady (f p)"
  shows "calm_table (modify_peer h f t)"
  using assms calm_tableD [OF assms(1), of h] by (auto simp: modify_peer_def intro!: calm_put split: option.splits)

lemma calm_frame: "tr_peers t' = tr_peers t \<Longrightarrow> calm_table t \<Longrightarrow> calm_table t'"
  by (simp add: calm_table_def)

lemma calm_success [calm_intros]: "calm_table t \<Longrightarrow> calm_table (record_delivery_success now h t)"
  unfolding record_delivery_success_def by (rule calm_modify) (simp_all add: steady_def)

lemma calm_mark [calm_intros]: "calm_table t \<Longrightarrow> calm_table (mark_path_known now h t)"
  unfolding mark_path_known_def by (rule calm_modify) (simp_all add: steady_def)

lemma calm_direct [calm_intros]: "calm_table t \<Longrightarrow> calm_table (mark_direct_have_sent now h t)"
  unfolding mark_direct_have_sent_def by (rule calm_modify) (simp_all add: steady_def)

text \<open>A failure of a known peer makes it stale with one failure.\<close>

lemma calm_failure:
  assumes "calm_table t" and "\<And>p. dget (tr_peers t) h = Some p \<Longrightarrow> pi_path p = Known"
  shows "calm_table (record_delivery_failure now u h t)"
  unfolding record_delivery_failure_def
  by (rule calm_modify)
    (use assms in \<open>auto simp: steady_def failed_peer_def Let_def MAX_PATH_RETRIES_def\<close>)

lemma calm_index_add [calm_intros]: "calm_table t \<Longrightarrow> calm_table (index_add b h t)"
  by (simp add: calm_table_def index_add_def)

lemma calm_limit:
  assumes "calm_table t" and "enforce_limit t = Inr t'"
  shows "calm_table t'"
  using assms by (auto simp: enforce_limit_def Let_def intro: calm_dpop split: if_splits)

lemma calm_register:
  assumes "calm_table t" and "register_with h upd new b t = Inr (r, t')"
    and "steady new" and "\<And>p. steady p \<Longrightarrow> steady (upd p)"
  shows "calm_table t'"
proof (cases "is_valid_peer_hash h \<and> \<not> is_self t h")
  case False
  with assms show ?thesis by (auto simp: register_with_def split: if_splits)
next
  case True
  with assms(2) obtain t1 where t1: "enforce_limit t = Inr t1"
    by (cases "enforce_limit t") (auto simp: register_with_def)
  have s1: "calm_table t1" by (rule calm_limit [OF assms(1) t1])
  then have "calm_table (case dget (tr_peers t1) h of Some p \<Rightarrow> put_peer h (upd p) t1 | None \<Rightarrow> put_peer h new t1)"
    using assms(3,4) calm_tableD [OF s1, of h] by (auto intro!: calm_put split: option.splits)
  with True t1 assms(2) show ?thesis
    by (auto simp: register_with_def Let_def intro: calm_index_add split: option.splits)
qed

lemma calm_fresh: "steady (fresh_peer now h)"
  by (simp add: steady_def fresh_peer_def)

lemma calm_message:
  "calm_table t \<Longrightarrow> register_from_message now h b i t = Inr (r, t') \<Longrightarrow> calm_table t'"
  unfolding register_from_message_def
  by (erule calm_register, assumption) (auto simp: steady_def fresh_peer_def)

lemma calm_announce:
  "calm_table t \<Longrightarrow> register_from_announce now b h i a t = Inr (r, t') \<Longrightarrow> calm_table t'"
  unfolding register_from_announce_def
  by (erule calm_register, assumption) (auto simp: steady_def fresh_peer_def)

lemma calm_identity:
  "calm_table t \<Longrightarrow> register_peer_identity now h i a t = Inr (r, t') \<Longrightarrow> calm_table t'"
  unfolding register_peer_identity_def
  by (erule calm_register, assumption) (auto simp: steady_def fresh_peer_def)

lemma calm_see:
  assumes "calm_table t" and "see_peer now b h i t = Inr t'"
  shows "calm_table t'"
proof (cases "dget (tr_peers t) h")
  case None
  with assms obtain r where "register_from_announce now b h i (Some h) t = Inr (r, t')"
    unfolding see_peer_def by (cases "register_from_announce now b h i (Some h) t") (simp_all, metis prod.collapse)
  with assms(1) show ?thesis by (rule calm_announce)
next
  case (Some p)
  with assms calm_tableD [OF assms(1) Some] show ?thesis
    by (auto simp: see_peer_def steady_def intro!: calm_put)
qed

lemma calm_drop: "calm_table t \<Longrightarrow> calm_table (drop_peer h t)"
  by (auto simp: drop_peer_def intro: calm_dpop split: option.splits)

lemma calm_sweep [calm_intros]:
  assumes "calm_table t"
  shows "calm_table (sweep_peers now t)"
proof -
  have "calm_table (fold drop_peer hs t)" if "calm_table t" for hs t
    using that by (induction hs arbitrary: t) (auto intro: calm_drop)
  with assms show ?thesis by (simp add: sweep_peers_def)
qed

text \<open>The table as a whole: calm peers, and the agreement of table and board index.\<close>

definition steady_table :: "tracker \<Rightarrow> bool" where
  "steady_table t \<longleftrightarrow> tracker_inv t \<and> calm_table t"

named_theorems steady_intros \<open>operations that keep a steady engine\<close>

lemma steady_tableD: "steady_table t \<Longrightarrow> dget (tr_peers t) h = Some p \<Longrightarrow> steady p"
  unfolding steady_table_def by (blast intro: calm_tableD)

lemma steady_inv: "steady_table t \<Longrightarrow> tracker_inv t"
  by (simp add: steady_table_def)

lemma steady_step: "steady_table t \<Longrightarrow> tracker_step t t' \<Longrightarrow> calm_table t' \<Longrightarrow> steady_table t'"
  using tracker_step_inv by (simp add: steady_table_def)

lemma steady_calm: "steady_table t \<Longrightarrow> calm_table t"
  by (simp add: steady_table_def)

lemma steady_success [steady_intros]: "steady_table t \<Longrightarrow> steady_table (record_delivery_success now h t)"
  by (blast intro: steady_step tracker_step.intros calm_success steady_calm)

lemma steady_mark [steady_intros]: "steady_table t \<Longrightarrow> steady_table (mark_path_known now h t)"
  by (blast intro: steady_step tracker_step.intros calm_mark steady_calm)

lemma steady_direct [steady_intros]: "steady_table t \<Longrightarrow> steady_table (mark_direct_have_sent now h t)"
  by (blast intro: steady_step tracker_step.intros calm_direct steady_calm)

lemma steady_sweep [steady_intros]: "steady_table t \<Longrightarrow> steady_table (sweep_peers now t)"
  by (blast intro: steady_step tracker_step.intros calm_sweep steady_calm)

lemma steady_failure:
  assumes "steady_table t" and "\<And>p. dget (tr_peers t) h = Some p \<Longrightarrow> pi_path p = Known"
  shows "steady_table (record_delivery_failure now u h t)"
  by (rule steady_step [OF assms(1) tracker_step.Delivery_failure], rule calm_failure) (use assms steady_calm in auto)

lemma steady_message: "steady_table t \<Longrightarrow> register_from_message now h b i t = Inr (r, t') \<Longrightarrow> steady_table t'"
  by (blast intro: steady_step tracker_step.intros calm_message steady_calm)

lemma steady_announce: "steady_table t \<Longrightarrow> register_from_announce now b h i a t = Inr (r, t') \<Longrightarrow> steady_table t'"
  by (blast intro: steady_step tracker_step.intros calm_announce steady_calm)

lemma steady_identity: "steady_table t \<Longrightarrow> register_peer_identity now h i a t = Inr (r, t') \<Longrightarrow> steady_table t'"
  by (blast intro: steady_step tracker_step.intros calm_identity steady_calm)

lemma steady_see: "steady_table t \<Longrightarrow> see_peer now b h i t = Inr t' \<Longrightarrow> steady_table t'"
  by (blast intro: steady_step tracker_step.intros calm_see steady_calm)

lemma steady_self: "steady_table t \<Longrightarrow> steady_table (set_self_hash h t)"
  by (rule steady_step, assumption, rule tracker_step.Self)
    (simp add: steady_table_def calm_table_def set_self_hash_def)

lemma steady_put:
  assumes "steady_table t" and "dget (tr_peers t) h = Some q" and "steady p"
    and "pi_hash p = pi_hash q" and "pi_boards p = pi_boards q"
  shows "steady_table (put_peer h p t)"
proof -
  have inv: "tracker_inv t" by (rule steady_inv [OF assms(1)])
  have "tracker_inv (put_peer h p t)"
    by (rule put_peer_inv [OF inv]) (use assms tracker_inv_hash [OF inv assms(2)] in auto)
  with calm_put [OF steady_calm [OF assms(1)] assms(3)] show ?thesis by (simp add: steady_table_def)
qed

lemma steady_new: "steady_table new_tracker"
  by (simp add: steady_table_def tracker_inv_def calm_table_def new_tracker_def)

definition steady_rows :: "(string, peer_row) dict \<Rightarrow> bool" where
  "steady_rows rows \<longleftrightarrow> list_all (\<lambda>(h, r). row_hash r = h) rows \<and> (\<forall>(h, r) \<in> set rows. row_path r \<noteq> Unreachable)"

lemma steady_persist:
  assumes "steady_table t"
  shows "steady_rows (persist now t)"
proof -
  have each: "pi_hash p = h \<and> steady p" if "(h, p) \<in> set (tr_peers t)" for h p
  proof -
    have "dict_ok (tr_peers t)" using assms by (simp add: steady_table_def tracker_inv_def)
    from dict_memD [OF this] that have "dget (tr_peers t) h = Some p" by blast
    with tracker_inv_hash [OF steady_inv [OF assms]] steady_tableD [OF assms] show ?thesis by blast
  qed
  then show ?thesis
    unfolding steady_rows_def persist_def list_all_iff by (auto simp: peer_to_dict_def steady_def)
qed

lemma calm_load:
  assumes "calm_table t" and "\<forall>(h, r) \<in> set rows. row_path r \<noteq> Unreachable"
  shows "calm_table (snd (load_rows decode rows n t))"
  using assms
proof (induction rows arbitrary: n t)
  case Nil
  then show ?case by simp
next
  case (Cons hr rows)
  obtain h r where hr: "hr = (h, r)" by (cases hr)
  have rest: "\<forall>(h, r) \<in> set rows. row_path r \<noteq> Unreachable" and "row_path r \<noteq> Unreachable"
    using Cons.prems(2) by (simp_all add: hr)
  then have "steady (peer_from_dict decode r)" by (simp add: steady_def peer_from_dict_def)
  then have "calm_table (put_peer h (peer_from_dict decode r) t)"
    by (rule calm_put [OF Cons.prems(1)])
  moreover have "calm_table (fold (\<lambda>b. index_add b h) bs t)" if "calm_table t" for bs t
    using that by (induction bs arbitrary: t) (auto intro: calm_intros)
  ultimately have "calm_table (fold (\<lambda>b. index_add b h) (pi_boards (peer_from_dict decode r))
      (put_peer h (peer_from_dict decode r) t))" by blast
  with Cons.IH rest Cons.prems(1) show ?case by (simp add: hr Let_def)
qed

lemma steady_load:
  assumes "steady_rows rows"
  shows "steady_table (snd (load_peers decode rows new_tracker))"
proof -
  have "tracker_reachable (fst (load_peers decode rows new_tracker)) (snd (load_peers decode rows new_tracker))"
    by (rule tracker_reachable.start [of rows decode]) (use assms in \<open>simp_all add: steady_rows_def\<close>)
  then have "tracker_inv (snd (load_peers decode rows new_tracker))" by (blast dest: tracker_reachable_inv)
  with calm_load [OF steady_calm [OF steady_new]] assms show ?thesis
    by (simp add: steady_table_def steady_rows_def load_peers_def)
qed

section \<open>The queue under the engine\<close>

text \<open>A peer's queue is filed under its own hash, each message in the tier of its priority.\<close>

definition filed :: "string \<Rightarrow> peer_queue \<Rightarrow> bool" where
  "filed h q \<longleftrightarrow> tiers_ok q \<and> (\<forall>m \<in> set (pq_control q) \<union> set (pq_data q). qm_peer m = h)"

definition queue_ok :: "mq_manager \<Rightarrow> bool" where
  "queue_ok s \<longleftrightarrow> mq_bounded s \<and> mq_max_depth s = QUEUE_MAX_DEPTH_PER_PEER \<and>
     mq_max_total_bytes s = QUEUE_MAX_TOTAL_MEMORY_MB * 1024 * 1024 \<and>
     (\<forall>h q. dget (mq_queues s) h = Some q \<longrightarrow> filed h q)"

lemma queue_ok_filed: "queue_ok s \<Longrightarrow> dget (mq_queues s) h = Some q \<Longrightarrow> filed h q"
  unfolding queue_ok_def by blast

lemma queue_ok_new: "queue_ok (new_manager QUEUE_MAX_DEPTH_PER_PEER QUEUE_MAX_TOTAL_MEMORY_MB)"
  using mq_bounded_new by (simp add: queue_ok_def new_manager_def)

lemma filed_new: "filed h (new_peer_queue h d)"
  by (simp add: filed_def tiers_ok_def new_peer_queue_def)

lemma filed_enqueue:
  assumes "filed h q" and "qm_peer m = h"
  shows "filed h (snd (enqueue now m q))"
proof -
  have "set (pq_control (snd (enqueue now m q))) \<subseteq> insert m (set (pq_control q))"
    "set (pq_data (snd (enqueue now m q))) \<subseteq> insert m (set (pq_data q))"
    by (auto simp: enqueue_def append_tier_def pq_simps dest: in_set_dropD)
  with assms show ?thesis unfolding filed_def by (blast intro: tiers_ok_enqueue)
qed

lemma queue_ok_message [steady_intros]:
  assumes "queue_ok s"
  shows "queue_ok (snd (queue_message now h payload title pr ttl s))"
proof -
  have "filed h (get_queue s h)"
    using assms by (auto simp: get_queue_def filed_new intro: queue_ok_filed split: option.splits)
  then have "filed h (snd (enqueue now m (get_queue s h)))" if "qm_peer m = h" for m
    using that by (rule filed_enqueue)
  with assms queue_message_bounded [of s now h payload title pr ttl] show ?thesis
    by (auto simp: queue_ok_def queue_message_def Let_def split_beta dict_laws)
qed

lemma queue_ok_sweep [steady_intros]:
  assumes "queue_ok s"
  shows "queue_ok (snd (sweep_expired now s))"
proof -
  have "filed k q'" if "dget (mq_queues (snd (sweep_expired now s))) k = Some q'" for k q'
  proof -
    from that assms obtain q where q: "dget (mq_queues s) k = Some q" "q' = snd (sweep_pq now q)"
      unfolding sweep_queues_eq queue_ok_def mq_bounded_def by (blast dest: sweep_get)
    from queue_ok_filed [OF assms q(1)] show ?thesis
      by (auto simp: q(2) filed_def tiers_ok_def pq_simps)
  qed
  with assms sweep_expired_bounded [of s now] show ?thesis
    by (simp add: queue_ok_def) (simp add: sweep_expired_def Let_def)
qed

lemma flush_peer_cases:
  "flush_peer now h s = (ms, s') \<Longrightarrow>
     (ms = [] \<and> (s' = s \<or> s' = s\<lparr>mq_queues := dpop h (mq_queues s)\<rparr>)) \<or>
     (\<exists>q. dget (mq_queues s) h = Some q \<and> ms = fst (drain_all now q) \<and>
          s' = s\<lparr>mq_queues := dpop h (mq_queues s)\<rparr>)"
  by (auto simp: flush_peer_def drain_all_def pq_empty_def pq_depth_def split: option.splits if_splits)

lemma queue_ok_pop: "queue_ok s \<Longrightarrow> queue_ok (s\<lparr>mq_queues := dpop h (mq_queues s)\<rparr>)"
  using dsum_dpop_le [of pq_total_bytes h "mq_queues s"]
  by (auto simp: queue_ok_def mq_bounded_def mq_total_bytes_def dict_laws)

lemma queue_ok_flush [steady_intros]: "queue_ok s \<Longrightarrow> queue_ok (snd (flush_peer now h s))"
  using flush_peer_cases [of now h s] queue_ok_pop [of s h] by (cases "flush_peer now h s") auto

lemma drain_facts:
  assumes "filed h q"
  shows "\<forall>m \<in> set (fst (drain_all now q)). \<not> expired now m \<and> qm_peer m = h"
    and "length (fst (drain_all now q)) \<le> pq_depth q"
    and "sum_list (map size_bytes (fst (drain_all now q))) \<le> pq_total_bytes q"
    and "filter (\<lambda>m. qm_priority m = CONTROL) (fst (drain_all now q)) @
         filter (\<lambda>m. qm_priority m = DATA) (fst (drain_all now q)) = fst (drain_all now q)"
proof -
  have sub: "sum_list (map size_bytes (filter P ms)) \<le> sum_list (map size_bytes ms)" for P ms
    by (induction ms) auto
  show "\<forall>m \<in> set (fst (drain_all now q)). \<not> expired now m \<and> qm_peer m = h"
    using assms by (auto simp: filed_def drain_all_def)
  show "length (fst (drain_all now q)) \<le> pq_depth q"
    by (simp add: drain_all_def pq_depth_def add_mono)
  show "sum_list (map size_bytes (fst (drain_all now q))) \<le> pq_total_bytes q"
    by (simp add: drain_all_def pq_total_bytes_def add_mono sub)
  have "filter (\<lambda>m. \<not> expired now m \<and> qm_priority m = CONTROL) (pq_control q) = filter (\<lambda>m. \<not> expired now m) (pq_control q)"
    "filter (\<lambda>m. \<not> expired now m \<and> qm_priority m = DATA) (pq_data q) = filter (\<lambda>m. \<not> expired now m) (pq_data q)"
    "filter (\<lambda>m. \<not> expired now m \<and> qm_priority m = CONTROL) (pq_data q) = []"
    "filter (\<lambda>m. \<not> expired now m \<and> qm_priority m = DATA) (pq_control q) = []"
    using assms by (auto simp: filed_def tiers_ok_def filter_empty_conv intro!: filter_cong)
  then show "filter (\<lambda>m. qm_priority m = CONTROL) (fst (drain_all now q)) @
         filter (\<lambda>m. qm_priority m = DATA) (fst (drain_all now q)) = fst (drain_all now q)"
    by (simp add: drain_all_def conj_commute)
qed

text \<open>Putting back the tail of what a flush took leaves the queue within its bounds.\<close>

lemma requeue_after_flush:
  assumes ok: "queue_ok s" and q: "dget (mq_queues s) h = Some q"
    and ms: "ms = fst (drain_all now q)" and s': "s' = s\<lparr>mq_queues := dpop h (mq_queues s)\<rparr>"
  shows "queue_ok (requeue_failed now h (drop k ms) s')"
proof -
  define q' where "q' = requeue_batch now (drop k ms) (new_peer_queue h (mq_max_depth s))"
  note fd = drain_facts [OF queue_ok_filed [OF ok q], of now, folded ms]
  have live: "\<forall>m \<in> set (drop k ms). \<not> expired now m \<and> qm_peer m = h"
    using fd(1) by (blast dest: in_set_dropD)
  have part: "length (filter (\<lambda>m. \<not> expired now m \<and> qm_priority m = CONTROL) xs) +
      length (filter (\<lambda>m. \<not> expired now m \<and> qm_priority m = DATA) xs) \<le> length xs" for xs
    by (induction xs) auto
  have parts: "sum_list (map size_bytes (filter (\<lambda>m. \<not> expired now m \<and> qm_priority m = CONTROL) xs)) +
      sum_list (map size_bytes (filter (\<lambda>m. \<not> expired now m \<and> qm_priority m = DATA) xs))
        \<le> sum_list (map size_bytes xs)" for xs
    by (induction xs) auto
  have dropsum: "sum_list (map size_bytes (drop k ms)) \<le> sum_list (map size_bytes ms)"
    by (metis append_take_drop_id le_add2 map_append sum_list_append)
  have depth: "pq_depth q' \<le> pq_depth q"
    using part [of "drop k ms"] fd(2) by (simp add: q'_def pq_depth_def requeue_batch_eq new_peer_queue_def)
  have bytes: "pq_total_bytes q' \<le> pq_total_bytes q"
    using parts [of "drop k ms"] dropsum fd(3)
    by (simp add: q'_def pq_total_bytes_def requeue_batch_eq new_peer_queue_def)
  have cap: "pq_max_depth q' = mq_max_depth s"
    by (simp add: q'_def requeue_batch_eq new_peer_queue_def)
  have filed: "filed h q'"
    using live by (auto simp: q'_def filed_def tiers_ok_def requeue_batch_eq new_peer_queue_def)
  have get: "get_queue s' h = new_peer_queue h (mq_max_depth s)"
    by (simp add: s' get_queue_def dict_laws)
  have res: "requeue_failed now h (drop k ms) s' = s\<lparr>mq_queues := dput h q' (dpop h (mq_queues s))\<rparr>"
    unfolding requeue_failed_def get q'_def [symmetric] by (simp add: s')
  have dok: "dict_ok (mq_queues s)" using ok by (simp add: queue_ok_def mq_bounded_def)
  have total: "dsum pq_total_bytes (dput h q' (dpop h (mq_queues s))) \<le> dsum pq_total_bytes (mq_queues s)"
    using dsum_dpop [OF dok q, of pq_total_bytes] bytes
    by (simp add: dsum_dput_absent dict_laws)
  have old: "mq_bounded s" and each: "pq_depth q \<le> max 1 (mq_max_depth s)"
    using ok q by (auto simp: queue_ok_def mq_bounded_def)
  show ?thesis
    unfolding res queue_ok_def mq_bounded_def mq_total_bytes_def
    using ok old total depth each cap filed dok
    by (auto simp: queue_ok_def mq_bounded_def mq_total_bytes_def dict_laws)
qed

section \<open>The flush loop\<close>

lemma try_send_cases:
  assumes "try_send nt p payload title e = (ok, e')"
  shows "e' = e\<lparr>eg_attempts := eg_attempts e', eg_sent := eg_sent e'\<rparr> \<and>
         eg_sent e' = (if ok then eg_sent e @ [the (lxm_for (the (pi_identity p)) payload title)] else eg_sent e) \<and>
         (ok \<longrightarrow> pi_identity p \<noteq> None)"
  using assms
  by (auto simp: try_send_def Let_def bind_eq_Some_conv split: option.splits if_splits Option.bind_splits)

lemma index_of_nth: "distinct xs \<Longrightarrow> i < length xs \<Longrightarrow> index_of (xs ! i) xs = i"
proof (induction xs arbitrary: i)
  case Nil
  then show ?case by simp
next
  case (Cons x xs)
  then show ?case by (cases i) auto
qed

lemma index_of_drop: "m \<in> set xs \<Longrightarrow> m # drop (Suc (index_of m xs)) xs = drop (index_of m xs) xs"
  by (induction xs) auto

text \<open>What a flush puts back is a tail of what it took, whatever the router does.\<close>

lemma flush_loop_tail:
  assumes "flush_loop nt now peer all ms e = (failed, e')"
    and "set ms \<subseteq> set all" and "\<forall>m \<in> set all. \<not> expired now m"
  shows "\<exists>k. failed = drop k all \<and> e' = e\<lparr>eg_attempts := eg_attempts e', eg_sent := eg_sent e'\<rparr>"
  using assms
proof (induction ms arbitrary: e)
  case Nil
  then show ?case by (auto intro: exI [of _ "length all"])
next
  case (Cons m ms)
  have m: "m \<in> set all" "\<not> expired now m" using Cons.prems(2,3) by auto
  obtain ok e1 where t: "(case peer of None \<Rightarrow> (False, e) | Some p \<Rightarrow> try_send nt p (qm_payload m) (qm_title m) e) = (ok, e1)"
    by fastforce
  have e1: "e1 = e\<lparr>eg_attempts := eg_attempts e1, eg_sent := eg_sent e1\<rparr>"
  proof (cases peer)
    case None
    with t show ?thesis by simp
  next
    case (Some p)
    with t have "try_send nt p (qm_payload m) (qm_title m) e = (ok, e1)" by simp
    from try_send_cases [OF this] show ?thesis by blast
  qed
  show ?case
  proof (cases ok)
    case True
    with Cons.prems(1) t m have "flush_loop nt now peer all ms e1 = (failed, e')" by simp
    from Cons.IH [OF this] Cons.prems(2,3) obtain k where
      k: "failed = drop k all" "e' = e1\<lparr>eg_attempts := eg_attempts e', eg_sent := eg_sent e'\<rparr>" by auto
    have "e' = e\<lparr>eg_attempts := eg_attempts e', eg_sent := eg_sent e'\<rparr>"
      by (subst k(2), subst e1) simp
    with k(1) show ?thesis by blast
  next
    case False
    have "filter (\<lambda>x. \<not> expired now x) (drop (Suc (index_of m all)) all) = drop (Suc (index_of m all)) all"
      using Cons.prems(3) by (auto intro!: filter_True dest: in_set_dropD)
    with False Cons.prems(1) t m index_of_drop [OF m(1)] have "failed = drop (index_of m all) all" "e' = e1"
      by auto
    with e1 show ?thesis by blast
  qed
qed

text \<open>Where the messages are distinct, the ones sent are exactly the others, in order.\<close>

lemma flush_loop_exact:
  assumes "flush_loop nt now (Some p) (pre @ ms) ms e = (failed, e')" and "distinct (pre @ ms)"
    and "\<forall>m \<in> set (pre @ ms). \<not> expired now m"
  shows "\<exists>k \<le> length ms. failed = drop k ms \<and>
     eg_sent e' = eg_sent e @ map (\<lambda>m. the (lxm_for (the (pi_identity p)) (qm_payload m) (qm_title m))) (take k ms)"
  using assms
proof (induction ms arbitrary: pre e)
  case Nil
  then show ?case by simp
next
  case (Cons m ms)
  let ?l = "\<lambda>m. the (lxm_for (the (pi_identity p)) (qm_payload m) (qm_title m))"
  have m: "\<not> expired now m" using Cons.prems(3) by auto
  obtain ok e1 where t: "try_send nt p (qm_payload m) (qm_title m) e = (ok, e1)" by fastforce
  show ?case
  proof (cases ok)
    case True
    with t have s: "eg_sent e1 = eg_sent e @ [?l m]" using try_send_cases by fastforce
    from Cons.prems(1) True t m have "flush_loop nt now (Some p) ((pre @ [m]) @ ms) ms e1 = (failed, e')" by simp
    from Cons.IH [OF this] Cons.prems(2,3) obtain k where "k \<le> length ms" "failed = drop k ms"
      "eg_sent e' = eg_sent e1 @ map ?l (take k ms)" by auto
    with s show ?thesis by (intro exI [of _ "Suc k"]) simp
  next
    case False
    have "index_of m (pre @ m # ms) = length pre"
      using index_of_nth [OF Cons.prems(2), of "length pre"] by simp
    moreover have "filter (\<lambda>x. \<not> expired now x) ms = ms" using Cons.prems(3) by (auto intro!: filter_True)
    ultimately have "failed = m # ms" "e' = e1" using Cons.prems(1) t m False by auto
    moreover have "eg_sent e1 = eg_sent e" using try_send_cases [OF t] False by simp
    ultimately show ?thesis by (intro exI [of _ 0]) simp
  qed
qed

section \<open>The invariant\<close>

definition limiter_idle :: "rate_limiter \<Rightarrow> bool" where
  "limiter_idle r \<longleftrightarrow> rl_backoff r = [] \<and> rl_failures r = [] \<and> rl_max_concurrent r > 0 \<and>
     (\<forall>b. slots_free r b = rl_max_concurrent r)"

definition engine_ok :: "engine \<Rightarrow> bool" where
  "engine_ok e \<longleftrightarrow> steady_table (eg_tracker e) \<and> queue_ok (eg_queue e) \<and> steady_rows (eg_saved e)"

lemma engine_okI:
  "steady_table (eg_tracker e) \<Longrightarrow> queue_ok (eg_queue e) \<Longrightarrow> steady_rows (eg_saved e) \<Longrightarrow> engine_ok e"
  by (simp add: engine_ok_def)

lemma engine_ok_tracker [steady_intros]:
  "engine_ok e \<Longrightarrow> steady_table (f (eg_tracker e)) \<Longrightarrow> engine_ok (on_tracker f e)"
  by (simp add: engine_ok_def on_tracker_def)

lemma engine_ok_put [steady_intros]: "engine_ok e \<Longrightarrow> engine_ok (put_in_queue now h payload title pr e)"
  by (simp add: engine_ok_def put_in_queue_def queue_ok_message)

lemma engine_ok_frame:
  "engine_ok e \<Longrightarrow> eg_tracker e' = eg_tracker e \<Longrightarrow> eg_queue e' = eg_queue e \<Longrightarrow> eg_saved e' = eg_saved e \<Longrightarrow> engine_ok e'"
  by (simp add: engine_ok_def)

lemma engine_ok_updates [simp]:
  "engine_ok (e\<lparr>eg_wakeup := a\<rparr>) = engine_ok e" "engine_ok (e\<lparr>eg_limiter := l\<rparr>) = engine_ok e"
  "engine_ok (e\<lparr>eg_deltas := d\<rparr>) = engine_ok e" "engine_ok (e\<lparr>eg_have_announces := n\<rparr>) = engine_ok e"
  "engine_ok (e\<lparr>eg_path_requests := r\<rparr>) = engine_ok e" "engine_ok (e\<lparr>eg_dest := z\<rparr>) = engine_ok e"
  by (simp_all add: engine_ok_def)

lemma mark_direct_ok [steady_intros]: "engine_ok e \<Longrightarrow> engine_ok (on_tracker (mark_direct_have_sent now h) e)"
  by (rule engine_ok_tracker) (simp_all add: engine_ok_def steady_direct)

lemma try_send_frame:
  assumes "try_send nt p payload title e = (ok, e')"
  shows "eg_tracker e' = eg_tracker e \<and> eg_queue e' = eg_queue e \<and> eg_saved e' = eg_saved e \<and>
         eg_limiter e' = eg_limiter e \<and> eg_dest e' = eg_dest e"
  by (subst try_send_cases [OF assms, THEN conjunct1], simp add: )+

lemma success_known:
  "dget (tr_peers (record_delivery_success now h t)) h = Some p \<Longrightarrow> pi_path p = Known"
  by (auto simp: record_delivery_success_def modify_peer_def put_peer_def dict_laws split: option.splits)

lemma on_path_discovered_ok [steady_intros]:
  assumes ok: "engine_ok e"
  shows "engine_ok (on_path_discovered nt now h e)"
proof -
  define e1 where "e1 = (on_tracker (record_delivery_success now h) e)\<lparr>eg_signals := eg_signals e @ [h], eg_wakeup := True\<rparr>"
  have t1: "eg_tracker e1 = record_delivery_success now h (eg_tracker e)" and q1: "eg_queue e1 = eg_queue e"
    and s1: "eg_saved e1 = eg_saved e" by (simp_all add: e1_def on_tracker_def)
  have ok1: "engine_ok e1"
    using ok steady_success by (simp add: engine_ok_def t1 q1 s1)
  obtain ms q where f: "flush_peer now h (eg_queue e1) = (ms, q)" by fastforce
  have ok2: "engine_ok (e1\<lparr>eg_queue := q\<rparr>)"
    using ok1 queue_ok_flush [of "eg_queue e1" now h] f by (simp add: engine_ok_def)
  obtain failed e3 where l: "flush_loop nt now (get_peer (e1\<lparr>eg_queue := q\<rparr>) h) ms ms (e1\<lparr>eg_queue := q\<rparr>) = (failed, e3)"
    by fastforce
  have eq: "on_path_discovered nt now h e =
      (if ms = [] then e1\<lparr>eg_queue := q\<rparr> else if failed = [] then e3
       else on_tracker (record_delivery_failure now (nt_jitter nt) h)
              (e3\<lparr>eg_queue := requeue_failed now h failed (eg_queue e3)\<rparr>))"
    using f l by (simp add: on_path_discovered_def e1_def [symmetric] Let_def)
  show ?thesis
  proof (cases "ms = []")
    case True
    with ok2 show ?thesis by (simp add: eq)
  next
    case False
    with flush_peer_cases [OF f] obtain pq where pq: "dget (mq_queues (eg_queue e1)) h = Some pq"
      "ms = fst (drain_all now pq)" "q = (eg_queue e1)\<lparr>mq_queues := dpop h (mq_queues (eg_queue e1))\<rparr>" by auto
    have qok: "queue_ok (eg_queue e1)" using ok1 by (simp add: engine_ok_def)
    have live: "\<forall>m \<in> set ms. \<not> expired now m"
      using drain_facts(1) [OF queue_ok_filed [OF qok pq(1)]] pq(2) by blast
    from flush_loop_tail [OF l subset_refl live] obtain k where k: "failed = drop k ms"
      and e3: "e3 = e1\<lparr>eg_queue := q, eg_attempts := eg_attempts e3, eg_sent := eg_sent e3\<rparr>" by auto
    have p3: "eg_tracker e3 = eg_tracker e1" "eg_queue e3 = q" "eg_saved e3 = eg_saved e1"
      by (subst e3, simp)+
    have ok3: "engine_ok e3" by (rule engine_ok_frame [OF ok2]) (simp_all add: p3)
    have "queue_ok (requeue_failed now h failed (eg_queue e3))"
      unfolding p3 k by (rule requeue_after_flush [OF qok pq])
    moreover have "steady_table (record_delivery_failure now (nt_jitter nt) h (eg_tracker e3))"
      by (rule steady_failure) (use ok1 in \<open>auto simp: p3 t1 engine_ok_def dest: success_known\<close>)
    ultimately show ?thesis
      using ok3 False by (auto simp: eq engine_ok_def on_tracker_def)
  qed
qed

lemma engine_ok_peer: "engine_ok e \<Longrightarrow> get_peer e h = Some p \<Longrightarrow> steady p"
  unfolding engine_ok_def get_peer_def by (blast intro: steady_tableD)

lemma ask_path_ok [steady_intros]: "engine_ok e \<Longrightarrow> engine_ok (ask_path nt now h e)"
  by (auto simp: ask_path_def intro: steady_intros elim: engine_ok_frame)

lemma request_path_ok [steady_intros]:
  assumes "engine_ok e"
  shows "engine_ok (request_path nt now h e)"
proof (cases "get_peer e h")
  case None
  with assms show ?thesis by (simp add: request_path_def)
next
  case (Some p)
  have "steady p" by (rule engine_ok_peer [OF assms Some])
  then have st: "steady (p\<lparr>pi_path := Path_requested, pi_next_retry_at := x\<rparr>)" for x by (simp add: steady_def)
  have "engine_ok (on_tracker (put_peer h (p\<lparr>pi_path := Path_requested, pi_next_retry_at := x\<rparr>)) e)" for x
    by (rule engine_ok_tracker [OF assms], rule steady_put [OF _ _ st])
      (use assms Some in \<open>auto simp: engine_ok_def get_peer_def\<close>)
  with assms Some show ?thesis by (auto simp: request_path_def intro: ask_path_ok)
qed

lemma failure_ok:
  assumes "engine_ok e" and "\<And>p. get_peer e h = Some p \<Longrightarrow> pi_path p = Known"
  shows "engine_ok (on_tracker (record_delivery_failure now u h) e)"
  by (rule engine_ok_tracker [OF assms(1)], rule steady_failure)
    (use assms in \<open>auto simp: engine_ok_def get_peer_def\<close>)

lemma try_send_ok:
  "try_send nt p payload title e = (ok, e') \<Longrightarrow> engine_ok e \<Longrightarrow> engine_ok e'"
  using try_send_frame by (blast intro: engine_ok_frame)

lemma send_lxmf_ok [steady_intros]:
  assumes ok: "engine_ok e"
  shows "engine_ok (snd (send_lxmf nt now h payload title pr e))"
proof (cases "get_peer e h")
  case None
  with ok show ?thesis by (simp add: send_lxmf_def)
next
  case (Some p)
  show ?thesis
  proof (cases "pi_path p = Known")
    case True
    obtain sent e1 where t: "try_send nt p payload title e = (sent, e1)" by fastforce
    have e1: "engine_ok e1" by (rule try_send_ok [OF t ok])
    have "get_peer e1 h = Some p" using try_send_frame [OF t] Some by (simp add: get_peer_def)
    with e1 True have "engine_ok (on_tracker (record_delivery_failure now (nt_jitter nt) h) e1)"
      by (intro failure_ok) auto
    with ok Some True t e1 show ?thesis
      by (auto simp: send_lxmf_def engine_ok_def [of e1] intro!: steady_intros split: bool.splits)
  next
    case False
    with ok Some show ?thesis by (auto simp: send_lxmf_def intro: steady_intros)
  qed
qed

lemma send_chunk_ok [steady_intros]:
  assumes ok: "engine_ok e"
  shows "engine_ok (snd (send_chunk_request_immediate nt now h payload e))"
proof (cases "get_peer e h")
  case None
  with ok show ?thesis by (simp add: send_chunk_request_immediate_def)
next
  case (Some p)
  have lost: "engine_ok (lost_path nt now h e1)"
    if "engine_ok e1" "get_peer e1 h = Some p" "pi_path p = Known" for e1
    unfolding lost_path_def by (rule request_path_ok, rule failure_ok) (use that in auto)
  obtain sent e1 where t: "try_send nt p payload ''retiboard.chunk_req'' e = (sent, e1)" by fastforce
  have e1: "engine_ok e1" by (rule try_send_ok [OF t ok])
  have "get_peer e1 h = Some p" using try_send_frame [OF t] Some by (simp add: get_peer_def)
  with lost [OF e1] lost [OF ok Some] ok Some t e1 show ?thesis
    by (auto simp: send_chunk_request_immediate_def engine_ok_def [of e1] intro!: steady_intros split: bool.splits)
qed

lemma fold_ok: "(\<And>x e. P e \<Longrightarrow> P (f x e)) \<Longrightarrow> P e \<Longrightarrow> P (fold f xs e)"
  by (induction xs arbitrary: e) auto

lemma resolution_ok [steady_intros]:
  assumes "engine_ok e"
  shows "engine_ok (path_resolution_pass nt now e)"
  unfolding path_resolution_pass_def
proof (rule fold_ok)
  show "engine_ok (resolve_candidate nt now h e)" if "engine_ok e" for h e
    using that by (auto simp: resolve_candidate_def intro: steady_intros split: option.splits)
  show "engine_ok (e\<lparr>eg_wakeup := False\<rparr>)" using assms by simp
qed

lemma queue_sweep_ok [steady_intros]: "engine_ok e \<Longrightarrow> engine_ok (queue_sweep now e)"
  by (auto simp: queue_sweep_def prune_recent_catchup_tracking_def engine_ok_def on_tracker_def Let_def
      intro: steady_intros steady_persist)

lemma catchup_ok [steady_intros]:
  assumes "engine_ok e"
  shows "engine_ok (sync_board_catchup nt now b e)"
proof -
  have "engine_ok (fold (\<lambda>p e. if pi_identity p = None then e
      else snd (send_lxmf nt now (pi_hash p) (have_req_bytes b) ''retiboard.have_req'' CONTROL e)) ps e)" for ps
    using assms by (rule fold_ok [rotated]) (auto intro: steady_intros)
  then show ?thesis
    using assms unfolding sync_board_catchup_def by (auto simp only: engine_ok_updates split: if_split)
qed

lemma send_have_ok [steady_intros]:
  assumes "engine_ok e"
  shows "engine_ok (send_have nt now owned b d e)"
proof -
  define e1 where "e1 = (if b \<in> set owned \<and> length d \<le> MAX_ANNOUNCE_APP_DATA
      then e\<lparr>eg_have_announces := eg_have_announces e @ [(b, d)]\<rparr> else e)"
  have e1: "engine_ok e1" using assms by (simp add: e1_def)
  then have "engine_ok (fold (\<lambda>p e. if pi_identity p = None then e
      else on_tracker (mark_direct_have_sent now (pi_hash p))
             (snd (send_lxmf nt now (pi_hash p) d ''retiboard.have'' CONTROL e))) ps e1)" for ps
    by (rule fold_ok [rotated]) (simp add: mark_direct_ok send_lxmf_ok)
  with e1 show ?thesis unfolding send_have_def e1_def [symmetric] Let_def by (auto simp only: split: if_split)
qed

lemma execute_delta_ok [steady_intros]: "engine_ok e \<Longrightarrow> engine_ok (execute_delta_request nt now r e)"
  by (auto simp: execute_delta_request_def intro: steady_intros split: option.splits)

lemma delta_step_ok:
  assumes "engine_ok e" and "delta_processor_step nt now e = Some e'"
  shows "engine_ok e'"
proof (cases "eg_deltas e")
  case Nil
  with assms show ?thesis by (simp add: delta_processor_step_def)
next
  case (Cons r rs)
  let ?e1 = "e\<lparr>eg_deltas := rs\<rparr>"
  have e1: "engine_ok ?e1" by (rule engine_ok_frame [OF assms(1)]) simp_all
  show ?thesis
  proof (cases "acquire (dr_board r) (eg_limiter ?e1)")
    case None
    with Cons assms(2) e1 show ?thesis by (auto simp: delta_processor_step_def Let_def split: if_splits)
  next
    case (Some l)
    have "engine_ok (?e1\<lparr>eg_limiter := l\<rparr>)" by (rule engine_ok_frame [OF e1]) simp_all
    then have x: "engine_ok (execute_delta_request nt now r (?e1\<lparr>eg_limiter := l\<rparr>))" by (rule execute_delta_ok)
    have "e' = ?e1 \<or> e' = (execute_delta_request nt now r (?e1\<lparr>eg_limiter := l\<rparr>))
        \<lparr>eg_limiter := release (dr_board r) (eg_limiter (execute_delta_request nt now r (?e1\<lparr>eg_limiter := l\<rparr>)))\<rparr>"
      using Cons assms(2) Some by (auto simp: delta_processor_step_def Let_def split: if_splits)
    with e1 show ?thesis by (elim disjE) (auto intro: engine_ok_frame [OF x])
  qed
qed

lemma restart_ok:
  assumes "engine_ok e"
  shows "engine_ok ((new_engine low)\<lparr>eg_saved := eg_saved e,
     eg_tracker := snd (load_peers decode (eg_saved e) new_tracker)\<rparr>)"
proof -
  have "steady_rows (eg_saved e)" using assms by (simp add: engine_ok_def)
  then have "steady_table (snd (load_peers decode (eg_saved e) new_tracker))" by (rule steady_load)
  with assms queue_ok_new show ?thesis by (simp add: engine_ok_def new_engine_def)
qed

lemma self_hash_ok: "engine_ok e \<Longrightarrow> engine_ok (on_tracker (set_self_hash h) (e\<lparr>eg_dest := Some h\<rparr>))"
  by (simp add: engine_ok_def on_tracker_def steady_self)

lemma tracker_ok: "engine_ok e \<Longrightarrow> steady_table t \<Longrightarrow> engine_ok (e\<lparr>eg_tracker := t\<rparr>)"
  by (simp add: engine_ok_def)

lemma engine_okD: "engine_ok e \<Longrightarrow> steady_table (eg_tracker e)"
  by (simp add: engine_ok_def)

lemma bookkeeping_ok:
  "engine_ok e \<Longrightarrow> engine_ok (schedule_catchup now b e)"
  "engine_ok e \<Longrightarrow> engine_ok (enqueue_delta_request now b tid since known target ident e)"
  "engine_ok e \<Longrightarrow> engine_ok (request_identity_reannounce ok force now e)"
  "engine_ok e \<Longrightarrow> engine_ok (e\<lparr>eg_saved := persist now (eg_tracker e)\<rparr>)"
  by (simp_all add: schedule_catchup_def enqueue_delta_request_def request_identity_reannounce_def
      announce_lxmf_identity_def engine_ok_def steady_persist)

lemma engine_step_ok: "engine_step e e' \<Longrightarrow> engine_ok e \<Longrightarrow> engine_ok e'"
  by (induction rule: engine_step.induct)
    (simp_all add: restart_ok self_hash_ok bookkeeping_ok send_lxmf_ok send_chunk_ok resolution_ok queue_sweep_ok
      catchup_ok send_have_ok delta_step_ok tracker_ok steady_message [OF engine_okD] steady_announce [OF engine_okD]
      steady_identity [OF engine_okD] steady_see [OF engine_okD])

lemma engine_reachable_ok: "engine_reachable e \<Longrightarrow> engine_ok e"
proof (induction rule: engine_reachable.induct)
  case (start low)
  then show ?case
    using queue_ok_new by (simp add: engine_ok_def new_engine_def steady_new steady_rows_def)
qed (blast intro: engine_step_ok)

section \<open>Frames\<close>

text \<open>What an operation on one peer leaves alone: sync slots, the delta queue, other peers and their queues.\<close>

definition frame :: "engine \<Rightarrow> rate_limiter \<times> delta_request list \<times> string option \<times> (string \<times> string, time) dict" where
  "frame e = (eg_limiter e, eg_deltas e, eg_dest e, eg_sends e)"

definition others :: "string \<Rightarrow> engine \<Rightarrow> peer_info option \<times> peer_queue option" where
  "others k e = (get_peer e k, dget (mq_queues (eg_queue e)) k)"

lemma modify_peer_other: "k \<noteq> h \<Longrightarrow> dget (tr_peers (modify_peer h f t)) k = dget (tr_peers t) k"
  by (simp add: modify_peer_def put_peer_def dict_laws split: option.split)

lemma try_send_keeps:
  "frame (snd (try_send nt p payload title e)) = frame e \<and> eg_tracker (snd (try_send nt p payload title e)) = eg_tracker e \<and>
   eg_queue (snd (try_send nt p payload title e)) = eg_queue e \<and>
   eg_path_requests (snd (try_send nt p payload title e)) = eg_path_requests e"
  by (simp add: try_send_def frame_def Let_def split: option.split)

lemma small_frames:
  "frame (on_tracker f e) = frame e" "frame (put_in_queue now h payload title pr e) = frame e"
  by (simp_all add: frame_def on_tracker_def put_in_queue_def)

lemma flush_loop_frame:
  "flush_loop nt now peer all ms e = (failed, e') \<Longrightarrow>
     eg_tracker e' = eg_tracker e \<and> eg_queue e' = eg_queue e \<and> eg_path_requests e' = eg_path_requests e \<and> frame e' = frame e"
proof (induction ms arbitrary: e)
  case Nil
  then show ?case by simp
next
  case (Cons m ms)
  obtain ok e1 where t: "(case peer of None \<Rightarrow> (False, e) | Some p \<Rightarrow> try_send nt p (qm_payload m) (qm_title m) e) = (ok, e1)"
    by fastforce
  have "eg_tracker e1 = eg_tracker e \<and> eg_queue e1 = eg_queue e \<and> eg_path_requests e1 = eg_path_requests e \<and> frame e1 = frame e"
  proof (cases peer)
    case None
    with t show ?thesis by simp
  next
    case (Some p)
    with t have "try_send nt p (qm_payload m) (qm_title m) e = (ok, e1)" by simp
    with try_send_keeps [of nt p "qm_payload m" "qm_title m" e] show ?thesis by simp
  qed
  with Cons t show ?case by (cases ok) (auto split: if_splits)
qed

lemma on_path_discovered_frame:
  "frame (on_path_discovered nt now h e) = frame e \<and>
   eg_path_requests (on_path_discovered nt now h e) = eg_path_requests e"
  "k \<noteq> h \<Longrightarrow> others k (on_path_discovered nt now h e) = others k e"
proof -
  define e1 where "e1 = (on_tracker (record_delivery_success now h) e)\<lparr>eg_signals := eg_signals e @ [h], eg_wakeup := True\<rparr>"
  have e1: "frame e1 = frame e" "eg_path_requests e1 = eg_path_requests e" "eg_queue e1 = eg_queue e"
    "k \<noteq> h \<Longrightarrow> others k e1 = others k e"
    by (simp_all add: e1_def on_tracker_def frame_def others_def get_peer_def record_delivery_success_def modify_peer_other)
  obtain ms q where f: "flush_peer now h (eg_queue e1) = (ms, q)" by fastforce
  have q: "k \<noteq> h \<Longrightarrow> dget (mq_queues q) k = dget (mq_queues (eg_queue e1)) k"
    using flush_peer_cases [OF f] by (auto simp: dict_laws)
  obtain failed e3 where l: "flush_loop nt now (get_peer (e1\<lparr>eg_queue := q\<rparr>) h) ms ms (e1\<lparr>eg_queue := q\<rparr>) = (failed, e3)"
    by fastforce
  have eq: "on_path_discovered nt now h e =
      (if ms = [] then e1\<lparr>eg_queue := q\<rparr> else if failed = [] then e3
       else on_tracker (record_delivery_failure now (nt_jitter nt) h)
              (e3\<lparr>eg_queue := requeue_failed now h failed (eg_queue e3)\<rparr>))"
    using f l by (simp add: on_path_discovered_def e1_def [symmetric] Let_def)
  note l3 = flush_loop_frame [OF l]
  show "frame (on_path_discovered nt now h e) = frame e \<and>
      eg_path_requests (on_path_discovered nt now h e) = eg_path_requests e"
    using e1 l3 by (auto simp: eq frame_def on_tracker_def)
  show "others k (on_path_discovered nt now h e) = others k e" if "k \<noteq> h"
    using e1(4) [OF that] q [OF that] l3 that
    by (auto simp: eq others_def get_peer_def on_tracker_def record_delivery_failure_def modify_peer_other
        requeue_failed_def dict_laws)
qed

lemma ask_path_frame: "frame (ask_path nt now h e) = frame e"
  using on_path_discovered_frame(1) by (simp add: ask_path_def) (simp add: frame_def)

lemma request_path_frame: "frame (request_path nt now h e) = frame e"
  by (simp add: request_path_def ask_path_frame small_frames split: option.split)

lemma lost_path_frame: "frame (lost_path nt now h e) = frame e"
  by (simp add: lost_path_def request_path_frame small_frames)

lemma send_lxmf_frame: "frame (snd (send_lxmf nt now h payload title pr e)) = frame e"
proof (cases "get_peer e h")
  case None
  then show ?thesis by (simp add: send_lxmf_def)
next
  case (Some p)
  obtain ok e1 where t: "try_send nt p payload title e = (ok, e1)" by fastforce
  have "frame e1 = frame e" using try_send_keeps [of nt p payload title e] by (simp add: t)
  with Some t show ?thesis
    by (cases ok) (simp_all add: send_lxmf_def request_path_frame small_frames)
qed

lemma send_chunk_frame: "frame (snd (send_chunk_request_immediate nt now h payload e)) = frame e"
proof (cases "get_peer e h")
  case None
  then show ?thesis by (simp add: send_chunk_request_immediate_def)
next
  case (Some p)
  obtain ok e1 where t: "try_send nt p payload ''retiboard.chunk_req'' e = (ok, e1)" by fastforce
  have "frame e1 = frame e" using try_send_keeps [of nt p payload "''retiboard.chunk_req''" e] by (simp add: t)
  with Some t show ?thesis
    by (cases ok) (simp_all add: send_chunk_request_immediate_def request_path_frame lost_path_frame small_frames)
qed

lemma fold_frame: "(\<And>x e. F (f x e) = F e) \<Longrightarrow> F (fold f xs e) = F e"
  by (induction xs arbitrary: e) auto

lemma resolve_frame:
  "frame (resolve_candidate nt now h e) = frame e \<and>
   eg_path_requests (resolve_candidate nt now h e) = eg_path_requests e"
  by (simp add: resolve_candidate_def on_path_discovered_frame(1) split: option.split)

lemma path_resolution_frame: "frame (path_resolution_pass nt now e) = frame e"
  unfolding path_resolution_pass_def using fold_frame [of frame "resolve_candidate nt now"] resolve_frame
  by (simp add: frame_def)

lemma catchup_frame: "frame (sync_board_catchup nt now b e) = frame e"
proof -
  have "frame (fold (\<lambda>p e. if pi_identity p = None then e
      else snd (send_lxmf nt now (pi_hash p) (have_req_bytes b) ''retiboard.have_req'' CONTROL e)) ps e) = frame e" for ps
    by (rule fold_frame) (simp add: send_lxmf_frame)
  moreover have "frame (x\<lparr>eg_wakeup := w\<rparr>) = frame x" for x w by (simp add: frame_def)
  ultimately show ?thesis unfolding sync_board_catchup_def by (auto simp only: split: if_split)
qed

lemma send_have_frame: "frame (send_have nt now owned b d e) = frame e"
proof -
  define e1 where "e1 = (if b \<in> set owned \<and> length d \<le> MAX_ANNOUNCE_APP_DATA
      then e\<lparr>eg_have_announces := eg_have_announces e @ [(b, d)]\<rparr> else e)"
  have e1: "frame e1 = frame e" by (simp add: e1_def frame_def)
  moreover have "frame (fold (\<lambda>p e. if pi_identity p = None then e
      else on_tracker (mark_direct_have_sent now (pi_hash p))
             (snd (send_lxmf nt now (pi_hash p) d ''retiboard.have'' CONTROL e))) ps e1) = frame e1" for ps
    by (rule fold_frame) (simp add: small_frames send_lxmf_frame)
  ultimately show ?thesis unfolding send_have_def e1_def [symmetric] Let_def by (auto simp only: split: if_split)
qed

lemma execute_delta_frame: "frame (execute_delta_request nt now r e) = frame e"
  by (simp add: execute_delta_request_def send_lxmf_frame split: option.split)

section \<open>Sync slots\<close>

lemma slots_after_release:
  assumes "limiter_idle l" and "acquire b l = Some l'"
  shows "limiter_idle (release b l')"
proof -
  obtain v r' where g: "get_semaphore b l = (v, r')" by fastforce
  from assms g show ?thesis
    by (auto simp: limiter_idle_def acquire_def release_def get_semaphore_def slots_free_def dget_or_def dict_laws
        split: option.splits if_splits) metis
qed

lemma acquire_idle: "limiter_idle l \<Longrightarrow> acquire b l \<noteq> None"
  by (auto simp: limiter_idle_def acquire_def get_semaphore_def slots_free_def dget_or_def
      split: option.splits if_splits dest: spec [of _ b])

lemma record_success_idle: "limiter_idle l \<Longrightarrow> limiter_idle (record_success b h l)"
  by (simp add: limiter_idle_def record_success_def slots_free_def)

lemma limiter_idle_new: "limiter_idle (new_rate_limiter low)"
  by (simp add: limiter_idle_def new_rate_limiter_def slots_free_def dget_or_def MAX_CONCURRENT_SYNCS_def
      MAX_CONCURRENT_SYNCS_LORA_def)

lemma delta_step_eq:
  assumes idle: "limiter_idle (eg_limiter e)" and d: "eg_deltas e = r # rs"
  shows "\<exists>e'. delta_processor_step nt now e = Some e' \<and> eg_deltas e' = rs \<and> limiter_idle (eg_limiter e')"
proof -
  let ?e1 = "e\<lparr>eg_deltas := rs\<rparr>"
  from acquire_idle [OF idle] obtain l where l: "acquire (dr_board r) (eg_limiter e) = Some l" by auto
  let ?e2 = "execute_delta_request nt now r (?e1\<lparr>eg_limiter := l\<rparr>)"
  have "frame ?e2 = frame (?e1\<lparr>eg_limiter := l\<rparr>)" by (rule execute_delta_frame)
  then have "eg_limiter ?e2 = l" "eg_deltas ?e2 = rs" by (simp_all add: frame_def)
  with slots_after_release [OF idle l] idle d l show ?thesis
    by (auto simp: delta_processor_step_def Let_def)
qed

lemma frame_limiter: "frame e' = frame e \<Longrightarrow> limiter_idle (eg_limiter e) \<Longrightarrow> limiter_idle (eg_limiter e')"
  by (simp add: frame_def)

lemma engine_step_idle: "engine_step e e' \<Longrightarrow> limiter_idle (eg_limiter e) \<Longrightarrow> limiter_idle (eg_limiter e')"
proof (induction rule: engine_step.induct)
  case (Process nt now e e')
  show ?case
  proof (cases "eg_deltas e")
    case Nil
    with Process show ?thesis by (simp add: delta_processor_step_def)
  next
    case (Cons r rs)
    with delta_step_eq [of e r rs nt now] Process show ?thesis by auto
  qed
qed (simp_all add: frame_limiter [OF send_lxmf_frame] frame_limiter [OF send_chunk_frame]
    frame_limiter [OF path_resolution_frame] frame_limiter [OF catchup_frame] frame_limiter [OF send_have_frame]
    queue_sweep_def prune_recent_catchup_tracking_def on_tracker_def Let_def schedule_catchup_def
    enqueue_delta_request_def request_identity_reannounce_def announce_lxmf_identity_def record_success_idle
    new_engine_def limiter_idle_new)

lemma engine_reachable_idle: "engine_reachable e \<Longrightarrow> limiter_idle (eg_limiter e)"
  by (induction rule: engine_reachable.induct) (auto simp: new_engine_def limiter_idle_new intro: engine_step_idle)

section \<open>Properties\<close>


definition hash_b :: string where "hash_b = ''bbbbbbbbbbbbbbbb''"

definition quiet_net :: net where
  "quiet_net = \<lparr>nt_outbound = (\<lambda>_ _. False), nt_has_path = (\<lambda>_. False), nt_jitter = 0\<rparr>"

definition good_net :: net where
  "good_net = \<lparr>nt_outbound = (\<lambda>n _. n < 3), nt_has_path = (\<lambda>_. True), nt_jitter = 0\<rparr>"

text \<open>An engine that has heard a peer, failed to reach it and queued two messages.\<close>

definition tracker_b :: tracker where
  "tracker_b = snd (projr (register_from_message 0 hash_b (Some ''b1'') (Some ''key'') (set_self_hash hash_a new_tracker)))"

definition engine_heard :: engine where
  "engine_heard = (new_engine False)\<lparr>eg_dest := Some hash_a, eg_tracker := tracker_b\<rparr>"

definition engine_waiting :: engine where
  "engine_waiting = snd (send_lxmf quiet_net 2 hash_b [66] ''t'' CONTROL
                      (snd (send_lxmf quiet_net 1 hash_b [65] ''t'' DATA engine_heard)))"

lemma tracker_b_eq:
  "register_from_message 0 hash_b (Some ''b1'') (Some ''key'') (set_self_hash hash_a new_tracker) = Inr (True, tracker_b)"
  by code_simp

lemma tracker_b_peers:
  "tr_peers tracker_b = [(hash_b, (fresh_peer 0 hash_b)\<lparr>pi_identity := Some ''key'', pi_boards := [''b1''],
     pi_verified := True, pi_path := Known\<rparr>)]"
  by code_simp

lemma engine_heard_reachable: "engine_reachable engine_heard"
proof -
  let ?up = "on_tracker (set_self_hash hash_a) ((new_engine False)\<lparr>eg_dest := Some hash_a\<rparr>)"
  have up: "engine_reachable ?up"
    by (rule engine_reachable.step [OF engine_reachable.start engine_step.Lxmf_up])
  have "eg_tracker ?up = set_self_hash hash_a new_tracker" by (simp add: on_tracker_def new_engine_def)
  then have "engine_reachable (?up\<lparr>eg_tracker := tracker_b\<rparr>)"
    using engine_reachable.step [OF up engine_step.Heard] tracker_b_eq by metis
  then show ?thesis by (simp add: engine_heard_def on_tracker_def)
qed

lemma engine_waiting_reachable: "engine_reachable engine_waiting"
  unfolding engine_waiting_def
  by (intro engine_reachable.step [OF _ engine_step.Send] engine_heard_reachable)

lemma heard_peer:
  "get_peer engine_heard hash_b = Some ((fresh_peer 0 hash_b)\<lparr>pi_identity := Some ''key'', pi_boards := [''b1''],
     pi_verified := True, pi_path := Known\<rparr>)"
  by (simp add: get_peer_def engine_heard_def tracker_b_peers)


lemma hash_b_hex: "fromhex_ok hash_b" by code_simp

text \<open>What the two failed sends left: the peer's path requested, both messages queued.\<close>

lemma engine_waiting_facts:
  "map_option pi_path (get_peer engine_waiting hash_b) = Some Path_requested \<and>
   map_option pi_identity (get_peer engine_waiting hash_b) = Some (Some ''key'') \<and>
   dget (mq_queues (eg_queue engine_waiting)) hash_b =
     Some \<lparr>pq_peer = hash_b, pq_max_depth = 32,
       pq_control = [\<lparr>qm_peer = hash_b, qm_payload = [66], qm_priority = CONTROL, qm_title = ''t'', qm_ttl = 300, qm_enqueued_at = 2\<rparr>],
       pq_data = [\<lparr>qm_peer = hash_b, qm_payload = [65], qm_priority = DATA, qm_title = ''t'', qm_ttl = 3600, qm_enqueued_at = 1\<rparr>]\<rparr>"
  by code_simp

text \<open>Also: in a running engine a send is refused only when LXMF is not up or the peer is not in the
  table; everything else is handed to the router or answered with "queued".\<close>

theorem send_refused_iff:
  assumes "engine_reachable e"
  shows "fst (send_lxmf nt now h payload title pr e) = REJECTED \<longleftrightarrow> eg_dest e = None \<or> get_peer e h = None"
proof (cases "get_peer e h")
  case None
  then show ?thesis by (simp add: send_lxmf_def)
next
  case (Some p)
  with engine_ok_peer [OF engine_reachable_ok [OF assms] Some] show ?thesis
    by (auto simp: send_lxmf_def steady_def split: prod.split bool.split)
qed

theorem send_refused_iff_witness:
  "fst (send_lxmf quiet_net 3 hash_a [65] ''t'' DATA engine_heard) = REJECTED \<longleftrightarrow>
     eg_dest engine_heard = None \<or> get_peer engine_heard hash_a = None"
  by (rule send_refused_iff [OF engine_heard_reachable])



text \<open>The abstract queue of a peer: its live messages in delivery order.\<close>

definition waiting :: "time \<Rightarrow> string \<Rightarrow> engine \<Rightarrow> queued_message list" where
  "waiting now h e = fst (flush_peer now h (eg_queue e))"

definition lxm_of :: "string \<Rightarrow> queued_message \<Rightarrow> lxm" where
  "lxm_of i m = the (lxm_for i (qm_payload m) (qm_title m))"

lemma drain_requeued:
  assumes "filed h q" and "ms = fst (drain_all now q)"
  shows "fst (drain_all now (requeue_batch now (drop k ms) (new_peer_queue h d))) = drop k ms"
proof -
  note fd = drain_facts [OF assms(1), of now, folded assms(2)]
  have live: "filter (\<lambda>m. \<not> expired now m \<and> P m) (drop k ms) = filter P (drop k ms)" for P
    using fd(1) by (auto intro!: filter_cong dest: in_set_dropD)
  have part: "filter P (drop k xs) @ filter (\<lambda>m. \<not> P m) (drop k xs) = drop k xs"
    if "filter P xs @ filter (\<lambda>m. \<not> P m) xs = xs" for P and xs :: "queued_message list"
    using that
  proof (induction xs arbitrary: k)
    case Nil
    then show ?case by simp
  next
    case (Cons x xs)
    show ?case
    proof (cases "P x")
      case True
      with Cons.prems have "filter P xs @ filter (\<lambda>m. \<not> P m) xs = xs" by simp
      with Cons.IH Cons.prems show ?thesis by (cases k) auto
    next
      case False
      with Cons.prems have "filter P xs = []"
      proof (cases "filter P xs")
        case Nil
        then show ?thesis .
      next
        case z: (Cons z zs)
        with Cons.prems False have "z = x" by simp
        moreover have "z \<in> set (filter P xs)" unfolding z by simp
        ultimately show ?thesis using False by simp
      qed
      then have "\<forall>y \<in> set (x # xs). \<not> P y" using False by (auto simp: filter_empty_conv)
      then have "filter P (drop k (x # xs)) = []" "filter (\<lambda>m. \<not> P m) (drop k (x # xs)) = drop k (x # xs)"
        by (auto simp: filter_empty_conv intro!: filter_True dest!: in_set_dropD)
      then show ?thesis by simp
    qed
  qed
  have "(\<lambda>m. qm_priority m = DATA) = (\<lambda>m. \<not> qm_priority m = CONTROL)" by auto
  with part [of "\<lambda>m. qm_priority m = CONTROL" ms] fd(4) show ?thesis
    by (simp add: drain_all_def requeue_batch_eq new_peer_queue_def live conj_ac)
qed



text \<open>Also: the path resolution pass leaves a peer that is already known alone: its queue is not flushed,
  whatever paths exist. A peer becomes known without a flush whenever a message from it arrives, so what was
  queued for it before stays behind until it expires or a later send fails.\<close>

theorem known_peer_not_flushed:
  assumes p: "get_peer e h = Some p" "pi_path p = Known"
  shows "get_peer (path_resolution_pass nt now e) h = Some p \<and>
         dget (mq_queues (eg_queue (path_resolution_pass nt now e))) h = dget (mq_queues (eg_queue e)) h"
proof -
  have step: "others h (resolve_candidate nt now k e') = others h e'" if "others h e' = others h e" for k e'
  proof (cases "k = h")
    case True
    with that p have "get_peer e' k = Some p" by (simp add: others_def)
    with p show ?thesis by (simp add: resolve_candidate_def)
  next
    case False
    then show ?thesis
      using on_path_discovered_frame(2) [of h k] by (simp add: resolve_candidate_def split: option.split)
  qed
  have "others h (fold (resolve_candidate nt now) ks e') = others h e" if "others h e' = others h e" for ks e'
    using that by (induction ks arbitrary: e') (simp_all add: step)
  then have "others h (path_resolution_pass nt now e) = others h e"
    unfolding path_resolution_pass_def by (simp add: others_def get_peer_def)
  with p show ?thesis by (simp add: others_def)
qed

text \<open>The peer answers while two messages wait for it.\<close>

definition engine_answered :: engine where
  "engine_answered = engine_waiting\<lparr>eg_tracker :=
     snd (projr (register_from_message 3 hash_b None (Some ''key'') (eg_tracker engine_waiting)))\<rparr>"

theorem known_peer_not_flushed_witness:
  "has_queued (eg_queue (path_resolution_pass good_net 4 engine_answered)) hash_b"
proof -
  have "map_option pi_path (get_peer engine_answered hash_b) = Some Known" by code_simp
  then obtain p where "get_peer engine_answered hash_b = Some p" "pi_path p = Known" by auto
  from known_peer_not_flushed [OF this, of good_net 4] have
    "has_queued (eg_queue (path_resolution_pass good_net 4 engine_answered)) hash_b = has_queued (eg_queue engine_answered) hash_b"
    by (simp add: has_queued_def)
  moreover have "has_queued (eg_queue engine_answered) hash_b" by code_simp
  ultimately show ?thesis by simp
qed

text \<open>Also: the path resolution pass sends no path request, so a request that got no answer is repeated by
  nothing but a new send to a stale or unknown peer.\<close>

theorem resolution_requests_no_path:
  "eg_path_requests (path_resolution_pass nt now e) = eg_path_requests e"
  unfolding path_resolution_pass_def
  using fold_frame [of eg_path_requests "resolve_candidate nt now"] resolve_frame by simp

text \<open>Also: when the message queue is at its memory ceiling a send to a peer whose path is being requested
  drops the message and still answers "queued".\<close>

theorem dropped_message_reported_queued:
  assumes "eg_dest e \<noteq> None" and "get_peer e h = Some p" and "pi_path p = Path_requested"
    and "mq_total_bytes (eg_queue e) + length payload + 128 > mq_max_total_bytes (eg_queue e)"
  shows "send_lxmf nt now h payload title pr e = (QUEUED, e)"
  using assms by (simp add: send_lxmf_def put_in_queue_def queue_message_def size_bytes_def Let_def)

theorem dropped_message_reported_queued_witness:
  "send_lxmf quiet_net 3 hash_b (replicate (16 * 1024 * 1024) 65) ''t'' DATA engine_waiting = (QUEUED, engine_waiting)"
proof -
  obtain p where p: "get_peer engine_waiting hash_b = Some p" "pi_path p = Path_requested"
    using engine_waiting_facts by auto
  have "eg_dest engine_waiting \<noteq> None" "mq_max_total_bytes (eg_queue engine_waiting) = 16 * 1024 * 1024" by code_simp+
  with dropped_message_reported_queued [OF _ p, of "replicate (16 * 1024 * 1024) 65" quiet_net 3 "''t''" DATA] show ?thesis
    by simp
qed

text \<open>Also: the catch-up never notes its own requests, so its cooldown suppresses nothing: right after a
  catch-up the same peers are due again.\<close>

theorem catchup_records_nothing:
  "eg_sends (sync_board_catchup nt now b e) = eg_sends e"
  using catchup_frame [of nt now b e] by (simp add: frame_def)

text \<open>Property C33: the delta processor never waits and never backs off: each turn takes the oldest request off the
  queue, handles it and gives its sync slot back, so a queue of \<open>n\<close> requests is empty after \<open>n\<close> turns.\<close>

fun delta_turns :: "net \<Rightarrow> time \<Rightarrow> nat \<Rightarrow> engine \<Rightarrow> engine option" where
  "delta_turns nt now 0 e = Some e"
| "delta_turns nt now (Suc n) e = Option.bind (delta_processor_step nt now e) (delta_turns nt now n)"



text \<open>Also: with jitter in its range the announce loop waits 270 to 330 seconds in the first quarter of an hour and
  2430 to 2970 seconds after, so its floor of 120 seconds never applies.\<close>

theorem announce_wait_bounds:
  assumes "\<bar>u\<bar> \<le> 1"
  shows "if now - eg_started_at e < 900 then 270 \<le> announce_wait now u e \<and> announce_wait now u e \<le> 330
         else 2430 \<le> announce_wait now u e \<and> announce_wait now u e \<le> 2970"
  using assms by (auto simp: announce_wait_def abs_le_iff max_def)

theorem announce_wait_bounds_witness:
  "270 \<le> announce_wait 0 (-1) engine_heard \<and> announce_wait 0 (-1) engine_heard \<le> 330"
proof -
  have "0 - eg_started_at engine_heard < 900" by (simp add: engine_heard_def new_engine_def)
  with announce_wait_bounds [of "-1" 0 engine_heard] show ?thesis by simp
qed

end
