(* ===== verification/Broadcast.thy ===== *)
theory Broadcast
  imports EngineSafe "HOL-Library.Code_Target_Nat"
begin

text \<open>
  Pushing the metadata of a post (\<open>retiboard/sync/broadcast.py\<close>, \<open>retiboard/sync/replication.py\<close> and
  \<open>on_local_post_created\<close> of the engine): the broadcast of a local post to every live peer of the board
  and the forwarding of a post to at most three of them. Both are called with the engine, so every
  send is \<open>send_lxmf\<close>; the direct hand-over without an engine has no caller.
\<close>

section \<open>Operations\<close>

definition metadata_bytes :: "post \<Rightarrow> string \<Rightarrow> bytes" where
  "metadata_bytes p board = utf8 (dumps False (JObj (dput ''_board_id'' (JStr board) (post_to_dict p))))"

fun dispatch :: "net \<Rightarrow> time \<Rightarrow> bytes \<Rightarrow> peer_info list \<Rightarrow> engine \<Rightarrow> nat \<times> engine" where
  "dispatch nt now content [] e = (0, e)"
| "dispatch nt now content (p # ps) e =
     (if pi_identity p = None then dispatch nt now content ps e
      else (case send_lxmf nt now (pi_hash p) content ''retiboard.metadata'' DATA e of (r, e1) \<Rightarrow>
              (case dispatch nt now content ps e1 of (n, e2) \<Rightarrow> ((if send_ok r then Suc n else n), e2))))"

definition not_self :: "engine \<Rightarrow> peer_info \<Rightarrow> bool" where
  "not_self e p = (Some (pi_hash p) \<noteq> eg_dest e)"

definition broadcast_metadata :: "net \<Rightarrow> time \<Rightarrow> post \<Rightarrow> string \<Rightarrow> engine \<Rightarrow> nat \<times> engine" where
  "broadcast_metadata nt now p board e =
     (let peers = filter (not_self e) (get_lxmf_peers now board (eg_tracker e))
      in if peers = [] then (0, e) else dispatch nt now (metadata_bytes p board) peers e)"

definition REPLICATION_FANOUT :: nat where "REPLICATION_FANOUT = 3"

definition replication_peers :: "time \<Rightarrow> string \<Rightarrow> string option \<Rightarrow> engine \<Rightarrow> peer_info list" where
  "replication_peers now board src e =
     filter (not_self e) (get_replication_targets now board src REPLICATION_FANOUT (eg_tracker e))"

definition replicate_metadata ::
  "net \<Rightarrow> time \<Rightarrow> path \<Rightarrow> post \<Rightarrow> string \<Rightarrow> string option \<Rightarrow> engine \<Rightarrow> peer_node \<Rightarrow> (nat \<times> engine, peer_node) run" where
  "replicate_metadata nt now home p board src e n =
     bind_run (on_fs (open_board_dirs home board) n) (\<lambda>_ n1.
       if \<not> md_allowed (should_replicate_post p (bs_control (store_of n1 board))) then Inr ((0, e), n1)
       else if replication_peers now board src e = [] then Inr ((0, e), n1)
       else Inr (dispatch nt now (metadata_bytes p board) (replication_peers now board src e) e, n1))"

definition on_local_post_created ::
  "net \<Rightarrow> time \<Rightarrow> path \<Rightarrow> post \<Rightarrow> string \<Rightarrow> engine \<Rightarrow> peer_node \<Rightarrow> (engine, peer_node) run" where
  "on_local_post_created nt now home p board e n =
     (if eg_dest e = None then Inr (e, n)
      else bind_run (replicate_metadata nt now home p board None (snd (broadcast_metadata nt now p board e)) n)
             (\<lambda>(_, e2) n2. Inr (e2, n2)))"

section \<open>What a send keeps\<close>

lemma modify_peer_known: "dget (tr_peers (modify_peer h f t)) k = None \<longleftrightarrow> dget (tr_peers t) k = None"
  by (auto simp: modify_peer_def put_peer_def dict_laws split: option.split)

lemma tracker_known:
  "get_peer (on_tracker (record_delivery_success now h) e) k = None \<longleftrightarrow> get_peer e k = None"
  "get_peer (on_tracker (record_delivery_failure now u h) e) k = None \<longleftrightarrow> get_peer e k = None"
  "get_peer (on_tracker (mark_path_known now h) e) k = None \<longleftrightarrow> get_peer e k = None"
  "get_peer (put_in_queue now h payload title pr e) k = get_peer e k"
  by (simp_all add: get_peer_def on_tracker_def record_delivery_success_def record_delivery_failure_def
      mark_path_known_def put_in_queue_def modify_peer_known)

lemma discovered_known: "get_peer (on_path_discovered nt now h e) k = None \<longleftrightarrow> get_peer e k = None"
proof -
  define e1 where "e1 = (on_tracker (record_delivery_success now h) e)\<lparr>eg_signals := eg_signals e @ [h], eg_wakeup := True\<rparr>"
  have e1: "get_peer e1 k = None \<longleftrightarrow> get_peer e k = None"
    using tracker_known(1) by (simp add: e1_def get_peer_def)
  obtain ms q where f: "flush_peer now h (eg_queue e1) = (ms, q)" by fastforce
  obtain failed e3 where l: "flush_loop nt now (get_peer (e1\<lparr>eg_queue := q\<rparr>) h) ms ms (e1\<lparr>eg_queue := q\<rparr>) = (failed, e3)"
    by fastforce
  have eq: "on_path_discovered nt now h e =
      (if ms = [] then e1\<lparr>eg_queue := q\<rparr> else if failed = [] then e3
       else on_tracker (record_delivery_failure now (nt_jitter nt) h)
              (e3\<lparr>eg_queue := requeue_failed now h failed (eg_queue e3)\<rparr>))"
    using f l by (simp add: on_path_discovered_def e1_def [symmetric] Let_def)
  have "eg_tracker e3 = eg_tracker e1" using flush_loop_frame [OF l] by simp
  with e1 show ?thesis
    by (auto simp: eq get_peer_def on_tracker_def record_delivery_failure_def modify_peer_known)
qed

lemma ask_path_known: "get_peer (ask_path nt now h e) k = None \<longleftrightarrow> get_peer e k = None"
  using discovered_known by (simp add: ask_path_def) (simp add: get_peer_def)

lemma put_peer_known:
  "get_peer e h = Some q \<Longrightarrow> get_peer (on_tracker (put_peer h p) e) k = None \<longleftrightarrow> get_peer e k = None"
  by (simp add: get_peer_def on_tracker_def put_peer_def dict_laws)

lemma request_path_known: "get_peer (request_path nt now h e) k = None \<longleftrightarrow> get_peer e k = None"
  by (cases "get_peer e h") (simp_all add: request_path_def ask_path_known put_peer_known)

lemma send_lxmf_known: "get_peer (snd (send_lxmf nt now h payload title pr e)) k = None \<longleftrightarrow> get_peer e k = None"
proof (cases "get_peer e h")
  case None
  then show ?thesis by (simp add: send_lxmf_def)
next
  case (Some p)
  obtain ok e1 where t: "try_send nt p payload title e = (ok, e1)" by fastforce
  have "get_peer e1 k = get_peer e k" using try_send_frame [OF t] by (simp add: get_peer_def)
  with Some t show ?thesis
    by (cases ok) (simp_all add: send_lxmf_def request_path_known tracker_known)
qed

lemma dispatch_keeps:
  "engine_ok e \<Longrightarrow> engine_ok (snd (dispatch nt now content ps e))"
  "frame (snd (dispatch nt now content ps e)) = frame e"
proof (induction ps arbitrary: e)
  case Nil
  {
    case 1
    then show ?case by simp
  next
    case 2
    show ?case by simp
  }
next
  case (Cons p ps)
  {
    case 1
    with Cons.IH(1) send_lxmf_ok show ?case by (auto simp: split_beta)
  next
    case 2
    from Cons.IH(2) show ?case by (auto simp: split_beta send_lxmf_frame)
  }
qed

text \<open>A send to a peer of the table is never refused, so every peer that has an identity counts.\<close>

lemma dispatch_count:
  assumes "engine_ok e" and "eg_dest e \<noteq> None" and "\<forall>p \<in> set ps. get_peer e (pi_hash p) \<noteq> None"
  shows "fst (dispatch nt now content ps e) = length (filter (\<lambda>p. pi_identity p \<noteq> None) ps)"
  using assms
proof (induction ps arbitrary: e)
  case Nil
  then show ?case by simp
next
  case (Cons p ps)
  let ?e1 = "snd (send_lxmf nt now (pi_hash p) content ''retiboard.metadata'' DATA e)"
  have d: "eg_dest ?e1 = eg_dest e"
    using send_lxmf_frame [of nt now "pi_hash p" content "''retiboard.metadata''" DATA e] by (simp add: frame_def)
  obtain q where q: "get_peer e (pi_hash p) = Some q" using Cons.prems(3) by auto
  with engine_ok_peer [OF Cons.prems(1) q] Cons.prems(2) have
    "fst (send_lxmf nt now (pi_hash p) content ''retiboard.metadata'' DATA e) \<noteq> REJECTED"
    by (auto simp: send_lxmf_def steady_def split: prod.split bool.split)
  then have "send_ok (fst (send_lxmf nt now (pi_hash p) content ''retiboard.metadata'' DATA e))"
    by (simp add: send_ok_def)
  moreover have "fst (dispatch nt now content ps ?e1) = length (filter (\<lambda>p. pi_identity p \<noteq> None) ps)"
    using Cons.prems by (intro Cons.IH send_lxmf_ok) (auto simp: d send_lxmf_known)
  moreover have "fst (dispatch nt now content ps e) = length (filter (\<lambda>p. pi_identity p \<noteq> None) ps)"
    using Cons.prems by (intro Cons.IH) auto
  ultimately show ?case by (simp add: split_beta)
qed

section \<open>Properties\<close>

lemma eligible_known:
  assumes "engine_reachable e" and "p \<in> set (get_lxmf_peers now board (eg_tracker e))"
  shows "get_peer e (pi_hash p) = Some p \<and> pi_identity p \<noteq> None"
proof -
  have "tracker_inv (eg_tracker e)"
    using engine_reachable_ok [OF assms(1)] by (simp add: engine_ok_def steady_inv)
  from lxmf_peer_entry [OF this assms(2)] assms(2) show ?thesis
    by (auto simp: get_peer_def get_lxmf_peers_def)
qed

lemma dispatch_all:
  assumes "engine_reachable e" and "eg_dest e \<noteq> None" and "set ps \<subseteq> set (get_lxmf_peers now board (eg_tracker e))"
  shows "fst (dispatch nt now content ps e) = length ps"
proof -
  have "filter (\<lambda>p. pi_identity p \<noteq> None) ps = ps"
    using assms(3) eligible_known [OF assms(1)] by (intro filter_True) blast
  with dispatch_count [OF engine_reachable_ok [OF assms(1)] assms(2), of ps nt now content] show ?thesis
    using assms(3) eligible_known [OF assms(1)] by (metis option.distinct(1) subsetD)
qed



text \<open>Also: the forwarding that follows the broadcast of a local post goes to peers that were just sent the same
  message.\<close>

theorem local_post_sent_twice:
  "set (replication_peers now board None e) \<subseteq> set (filter (not_self e) (get_lxmf_peers now board (eg_tracker e)))"
  by (auto simp: replication_peers_def get_replication_targets_def exclude_def split: option.splits dest!: in_set_takeD)

end
