(* ===== verification/Boards.thy ===== *)
theory Boards
  imports Broadcast
begin

text \<open>
  The board life cycle (\<open>retiboard/boards/announce.py\<close>, \<open>subscribe.py\<close>, \<open>manager.py\<close> and the announce
  push of the engine): reading announces, subscription, discovery telemetry, key material, and the
  handshake with a new peer. A destination of a board is its id; an \<open>announce.json\<close> file is kept as the
  value \<open>json.loads\<close> reads from it (\<^term>\<open>None\<close>: not JSON). The engine is attached, board names are
  ASCII, and a set that the code turns into a list keeps its scan order.
\<close>

section \<open>State\<close>

definition DISCOVERED_BOARD_STALE_SECONDS :: time where "DISCOVERED_BOARD_STALE_SECONDS = 43200"
definition DISCOVERED_PEER_ACTIVITY_SECONDS :: time where "DISCOVERED_PEER_ACTIVITY_SECONDS = 3600"

record discovered =
  dc_board :: board
  dc_first_seen :: time
  dc_last_seen :: time
  dc_announce_count :: nat
  dc_peers :: "(string, time) dict"

record snapshot =
  sn_board :: board
  sn_name_key :: string
  sn_first_seen :: time
  sn_last_seen :: time
  sn_announce_count :: nat
  sn_advertising :: nat
  sn_verified :: nat

record board_manager =
  bm_keys :: "(string, string) dict"
  bm_discovered :: "(string, discovered) dict"
  bm_received :: "(string, board) dict"
  bm_owned :: "string list"
  bm_files :: "(string, json option) dict"

record app =
  ap_boards :: board_manager
  ap_engine :: engine
  ap_node :: peer_node

definition new_board_manager :: board_manager where
  "new_board_manager = \<lparr>bm_keys = [], bm_discovered = [], bm_received = [], bm_owned = [], bm_files = []\<rparr>"

definition on_boards :: "(board_manager \<Rightarrow> board_manager) \<Rightarrow> app \<Rightarrow> app" where
  "on_boards f a = a\<lparr>ap_boards := f (ap_boards a)\<rparr>"

definition on_engine :: "(engine \<Rightarrow> engine) \<Rightarrow> app \<Rightarrow> app" where
  "on_engine f a = a\<lparr>ap_engine := f (ap_engine a)\<rparr>"

definition with_node :: "(peer_node \<Rightarrow> ('a, peer_node) run) \<Rightarrow> app \<Rightarrow> ('a, app) run" where
  "with_node f a = (case f (ap_node a) of
     Inl (e, n) \<Rightarrow> Inl (e, a\<lparr>ap_node := n\<rparr>) | Inr (x, n) \<Rightarrow> Inr (x, a\<lparr>ap_node := n\<rparr>))"

definition with_tracker :: "(tracker \<Rightarrow> py_error + tracker) \<Rightarrow> app \<Rightarrow> (unit, app) run" where
  "with_tracker f a = (case f (eg_tracker (ap_engine a)) of
     Inl e \<Rightarrow> Inl (e, a) | Inr t \<Rightarrow> Inr ((), on_engine (on_tracker (\<lambda>_. t)) a))"

section \<open>Announces\<close>

definition validate_announce_fields :: "wire \<Rightarrow> bool" where
  "validate_announce_fields data =
     (case dget data ''b'' of
        Some v \<Rightarrow> (case v of JStr s \<Rightarrow> s \<noteq> [] | _ \<Rightarrow> False) \<and> dget data ''km'' \<noteq> None
      | None \<Rightarrow>
          dget data ''display_name'' \<noteq> None \<and> dget data ''key_material'' \<noteq> None \<and>
          (case dget data ''board_id'' of Some (JStr s) \<Rightarrow> s \<noteq> [] | _ \<Rightarrow> False))"

definition get_board_id_from_announce :: "wire \<Rightarrow> json" where
  "get_board_id_from_announce data = dget_or data ''b'' (dget_or data ''board_id'' (JStr []))"

datatype announce_event =
    Not_ours
  | Peer_announced string json
  | Have_announced wire
  | Board_announced board

text \<open>\<open>received_announce\<close> on the destination hash in hexadecimal and the parsed application data.\<close>

definition received_announce :: "time \<Rightarrow> string \<Rightarrow> json option \<Rightarrow> py_error + announce_event" where
  "received_announce now dest v =
     (case v of
        Some (JObj data) \<Rightarrow>
          (if dget data ''app'' = Some (JStr ''retiboard'')
           then Inr (Peer_announced dest (dget_or data ''boards'' (JArr [])))
           else if dget data ''active_threads'' \<noteq> None \<and> dget data ''board_id'' \<noteq> None
           then Inr (Have_announced data)
           else if \<not> validate_announce_fields data then Inr Not_ours
           else if get_board_id_from_announce data \<noteq> JStr dest then Inr Not_ours
           else bindE (from_announce_dict now data) (\<lambda>b. Inr (Board_announced b)))
      | _ \<Rightarrow> Inr Not_ours)"

section \<open>The announce cache\<close>

definition save_announce_cache :: "path \<Rightarrow> string \<Rightarrow> wire \<Rightarrow> app \<Rightarrow> (unit, app) run" where
  "save_announce_cache home board data a =
     bind_run (with_node (on_fs (\<lambda>f. map_sum id (\<lambda>(_, g). ((), g)) (make_dirs f [] (board_dir home board)))) a)
       (\<lambda>_ a1. Inr ((), on_boards (\<lambda>m. m\<lparr>bm_files := dput board (Some (JObj data)) (bm_files m)\<rparr>) a1))"

definition load_announce_cache :: "board_manager \<Rightarrow> string \<Rightarrow> wire option" where
  "load_announce_cache m board =
     (case dget (bm_files m) board of Some (Some (JObj d)) \<Rightarrow> Some d | _ \<Rightarrow> None)"

definition board_for_db_storage :: "board \<Rightarrow> board" where
  "board_for_db_storage b = b\<lparr>b_key_material := []\<rparr>"

text \<open>\<open>if cached\<close>: an empty object counts as no cache.\<close>

definition recover_key_material :: "board_manager \<Rightarrow> string \<Rightarrow> string" where
  "recover_key_material m board =
     (case load_announce_cache m board of
        None \<Rightarrow> []
      | Some d \<Rightarrow> (case dget_or d ''km'' (dget_or d ''key_material'' (JStr [])) of JStr s \<Rightarrow> s | _ \<Rightarrow> []))"

definition get_key_material :: "string \<Rightarrow> board_manager \<Rightarrow> string \<times> board_manager" where
  "get_key_material board m =
     (case truthy (dget (bm_keys m) board) of
        Some k \<Rightarrow> (k, m)
      | None \<Rightarrow>
          (let k = recover_key_material m board in
           if k = [] then ([], m) else (k, m\<lparr>bm_keys := dput board k (bm_keys m)\<rparr>)))"

section \<open>Discovery telemetry\<close>

definition note_seen :: "time \<Rightarrow> bool \<Rightarrow> discovered \<Rightarrow> discovered" where
  "note_seen now cnt r =
     r\<lparr>dc_first_seen := (if dc_first_seen r \<le> 0 then now else dc_first_seen r), dc_last_seen := now,
       dc_announce_count := dc_announce_count r + (if cnt then 1 else 0)\<rparr>"

definition note_peer :: "string \<Rightarrow> time \<Rightarrow> discovered \<Rightarrow> discovered" where
  "note_peer h now r = (if h = [] then r else r\<lparr>dc_peers := dput h now (dc_peers r)\<rparr>)"

definition prune_discovered_records :: "time \<Rightarrow> string list \<Rightarrow> board_manager \<Rightarrow> board_manager" where
  "prune_discovered_records now subs m =
     (let recs = map (\<lambda>(b, r). (b, r\<lparr>dc_peers := filter (\<lambda>(h, t). \<not> now - t > DISCOVERED_PEER_ACTIVITY_SECONDS) (dc_peers r)\<rparr>))
                   (bm_discovered m);
          stale = map fst (filter (\<lambda>(b, r). b \<notin> set subs \<and> now - dc_last_seen r > DISCOVERED_BOARD_STALE_SECONDS) recs)
      in m\<lparr>bm_discovered := filter (\<lambda>(b, r). b \<notin> set stale) recs,
           bm_received := filter (\<lambda>(b, r). b \<notin> set stale) (bm_received m)\<rparr>)"

definition new_record :: "time \<Rightarrow> board \<Rightarrow> discovered" where
  "new_record now b = \<lparr>dc_board = b, dc_first_seen = now, dc_last_seen = now, dc_announce_count = 0, dc_peers = []\<rparr>"

definition record_discovered_board :: "time \<Rightarrow> bool \<Rightarrow> string list \<Rightarrow> board \<Rightarrow> board_manager \<Rightarrow> board_manager" where
  "record_discovered_board now cnt subs b m =
     (let r0 = (case dget (bm_discovered m) (b_board_id b) of
                  None \<Rightarrow> new_record now b | Some r \<Rightarrow> r\<lparr>dc_board := b\<rparr>);
          r = note_peer (b_peer_lxmf_hash b) now (note_seen now cnt r0)
      in prune_discovered_records now subs
           (m\<lparr>bm_discovered := dput (b_board_id b) r (bm_discovered m),
              bm_received := dput (b_board_id b) b (bm_received m)\<rparr>))"

definition record_discovered_peer_advertisement ::
  "time \<Rightarrow> string list \<Rightarrow> string \<Rightarrow> string \<Rightarrow> board_manager \<Rightarrow> board_manager" where
  "record_discovered_peer_advertisement now subs board h m =
     (case (case dget (bm_discovered m) board of
              Some r \<Rightarrow> Some r
            | None \<Rightarrow> map_option (new_record now) (dget (bm_received m) board)) of
        None \<Rightarrow> m
      | Some r0 \<Rightarrow>
          (let r = note_peer h now r0
           in prune_discovered_records now subs
                (m\<lparr>bm_discovered := dput board (r\<lparr>dc_last_seen := max (dc_last_seen r) now\<rparr>) (bm_discovered m)\<rparr>)))"

definition lower_char :: "char \<Rightarrow> char" where
  "lower_char c = (if CHR ''A'' \<le> c \<and> c \<le> CHR ''Z'' then char_of (of_char c + 32 :: nat) else c)"

definition casefold :: "string \<Rightarrow> string" where
  "casefold s = map lower_char s"

definition blank :: "char \<Rightarrow> bool" where
  "blank c = (of_char c \<in> {9, 10, 11, 12, 13, 28, 29, 30, 31, 32 :: nat})"

text \<open>\<open>str.split()\<close>: the maximal runs of non-blank characters.\<close>

fun words :: "string \<Rightarrow> string \<Rightarrow> string list" where
  "words cur [] = (if cur = [] then [] else [rev cur])"
| "words cur (c # cs) =
     (if blank c then (if cur = [] then words [] cs else rev cur # words [] cs) else words (c # cur) cs)"

fun join_space :: "string list \<Rightarrow> string" where
  "join_space [] = []"
| "join_space [w] = w"
| "join_space (w # x # ws) = w @ '' '' @ join_space (x # ws)"

definition normalize_board_name :: "string \<Rightarrow> string" where
  "normalize_board_name s = join_space (words [] (casefold s))"

definition build_discovered_snapshot :: "time \<Rightarrow> tracker \<Rightarrow> discovered \<Rightarrow> snapshot" where
  "build_discovered_snapshot now t r =
     (let active = map fst (filter (\<lambda>(h, ts). now - ts \<le> DISCOVERED_PEER_ACTIVITY_SECONDS) (dc_peers r))
      in \<lparr>sn_board = dc_board r, sn_name_key = normalize_board_name (b_display_name (dc_board r)),
          sn_first_seen = dc_first_seen r, sn_last_seen = dc_last_seen r, sn_announce_count = dc_announce_count r,
          sn_advertising = length active,
          sn_verified = length (filter (\<lambda>h. case dget (tr_peers t) h of
                                             None \<Rightarrow> False | Some p \<Rightarrow> \<not> is_expired now p \<and> pi_verified p) active)\<rparr>)"

definition discovery_key :: "snapshot \<Rightarrow> nat \<times> nat \<times> nat \<times> time \<times> string \<times> string" where
  "discovery_key s = (sn_verified s, sn_advertising s, sn_announce_count s, sn_last_seen s,
     casefold (b_display_name (sn_board s)), b_board_id (sn_board s))"

definition get_discovered_boards :: "time \<Rightarrow> path \<Rightarrow> app \<Rightarrow> snapshot list \<times> app" where
  "get_discovered_boards now home a =
     (let subs = scanned_boards home (nd_fs (ap_node a));
          m = prune_discovered_records now subs (ap_boards a)
      in (sort_desc discovery_key
            (map (\<lambda>(b, r). build_discovered_snapshot now (eg_tracker (ap_engine a)) r)
               (filter (\<lambda>(b, r). b \<notin> set subs) (bm_discovered m))),
          a\<lparr>ap_boards := m\<rparr>))"

section \<open>Subscription\<close>

text \<open>\<open>open_board_db\<close>: the directories, then the database file SQLite creates when it is missing.\<close>

definition open_board_db :: "path \<Rightarrow> string \<Rightarrow> fs \<Rightarrow> unit fs_result" where
  "open_board_db home board f =
     (case open_board_dirs home board f of
        Inl e \<Rightarrow> Inl e
      | Inr (_, f1) \<Rightarrow>
          (if resolved f1 (board_db_path home board) = None then write_bytes (board_db_path home board) [] f1
           else Inr ((), f1)))"

definition save_config :: "string \<Rightarrow> board \<Rightarrow> peer_node \<Rightarrow> (unit, peer_node) run" where
  "save_config bid b n =
     (case save_board_config b (bs_db (store_of n bid)) of
        Inl e \<Rightarrow> Inl (e, n)
      | Inr db \<Rightarrow> Inr ((), put_store bid ((store_of n bid)\<lparr>bs_db := db\<rparr>) n))"

definition subscribe_board :: "time \<Rightarrow> path \<Rightarrow> board \<Rightarrow> app \<Rightarrow> (unit, app) run" where
  "subscribe_board now home b a =
     (let bid = b_board_id b;
          a1 = on_boards (\<lambda>m. record_discovered_board now False (scanned_boards home (nd_fs (ap_node a))) b
                                (m\<lparr>bm_keys := dput bid (b_key_material b) (bm_keys m)\<rparr>)) a
      in bind_run (save_announce_cache home bid (to_announce_dict b) a1) (\<lambda>_ a2.
         bind_run (with_node (on_fs (open_board_db home bid)) a2) (\<lambda>_ a3.
           with_node (save_config bid (board_for_db_storage b)) a3)))"

definition subscribe :: "net \<Rightarrow> bool \<Rightarrow> time \<Rightarrow> path \<Rightarrow> board \<Rightarrow> app \<Rightarrow> (unit, app) run" where
  "subscribe nt ok now home b a =
     bind_run (subscribe_board now home b a) (\<lambda>_ a1.
       Inr ((), on_engine (\<lambda>e. sync_board_catchup nt now (b_board_id b) (request_identity_reannounce ok True now e)) a1))"

text \<open>Creation: \<open>key\<close> and \<open>bid\<close> are the random key and the hash of the new destination, \<open>ok\<close> tells whether
  the network took the identity announce; the board works locally whether or not its announce was taken.\<close>

definition create_board ::
  "string \<Rightarrow> string \<Rightarrow> bool \<Rightarrow> time \<Rightarrow> path \<Rightarrow> string \<Rightarrow> bool \<Rightarrow> int \<Rightarrow> int \<Rightarrow> int \<Rightarrow> int \<Rightarrow> app \<Rightarrow> (board, app) run" where
  "create_board key bid ok now home name textonly ttl decay threads pow a =
     (let b = \<lparr>b_board_id = bid, b_display_name = name, b_text_only = textonly, b_default_ttl_seconds = ttl,
               b_bump_decay_rate = decay, b_max_active_threads_local = threads, b_pow_difficulty = pow,
               b_key_material = key, b_announce_version = 2,
               b_peer_lxmf_hash = (case eg_dest (ap_engine a) of None \<Rightarrow> [] | Some h \<Rightarrow> h), b_subscribed_at = now\<rparr>
      in bind_run (subscribe_board now home b a) (\<lambda>_ a1.
           Inr (b, on_boards (\<lambda>m. m\<lparr>bm_owned := set_add bid (bm_owned m)\<rparr>)
                     (on_engine (request_identity_reannounce ok True now) a1))))"

definition rmtree :: "string list \<Rightarrow> fs \<Rightarrow> unit fs_result" where
  "rmtree names f =
     (case resolved f names of
        None \<Rightarrow> Inl (FileNotFoundError, f)
      | Some (p, File _) \<Rightarrow> Inl (OSError, f)
      | Some (p, Dir) \<Rightarrow> Inr ((), filter (\<lambda>(q, _). \<not> (q = p \<or> below p q)) f))"

text \<open>\<open>unsubscribe\<close>: the cached announce is kept as a discovered board, the directory goes with everything
  in it, the announce file and the database included.\<close>

definition preserve_announce :: "time \<Rightarrow> path \<Rightarrow> string \<Rightarrow> app \<Rightarrow> app" where
  "preserve_announce now home board a =
     (if dget (bm_received (ap_boards a)) board \<noteq> None then a
      else (case load_announce_cache (ap_boards a) board of
              None \<Rightarrow> a
            | Some d \<Rightarrow>
                (if d = [] then a
                 else (case from_announce_dict now d of
                         Inl _ \<Rightarrow> a
                       | Inr b \<Rightarrow> on_boards (record_discovered_board now False (scanned_boards home (nd_fs (ap_node a))) b) a))))"

definition unsubscribe :: "bool \<Rightarrow> time \<Rightarrow> path \<Rightarrow> string \<Rightarrow> app \<Rightarrow> (bool, app) run" where
  "unsubscribe ok now home board a =
     (let existed = resolved (nd_fs (ap_node a)) (board_dir home board) \<noteq> None;
          forget = on_boards (\<lambda>m. m\<lparr>bm_keys := dpop board (bm_keys m), bm_owned := set_discard board (bm_owned m)\<rparr>)
      in if \<not> existed then Inr (False, forget a)
         else bind_run (with_node (on_fs (rmtree (board_dir home board))) (preserve_announce now home board a)) (\<lambda>_ a1.
           (let a2 = a1\<lparr>ap_node := (ap_node a1)\<lparr>nd_boards := dpop board (nd_boards (ap_node a1))\<rparr>,
                        ap_boards := (ap_boards a1)\<lparr>bm_files := dpop board (bm_files (ap_boards a1))\<rparr>\<rparr>
            in Inr (True, on_engine (request_identity_reannounce ok True now) (forget a2)))))"

section \<open>Lookup\<close>

definition cached_key :: "string \<Rightarrow> app \<Rightarrow> string \<times> app" where
  "cached_key board a =
     (case get_key_material board (ap_boards a) of (k, m) \<Rightarrow> (k, a\<lparr>ap_boards := m\<rparr>))"

definition load_config :: "path \<Rightarrow> string \<Rightarrow> app \<Rightarrow> (board option, app) run" where
  "load_config home board a =
     bind_run (with_node (on_fs (open_board_db home board)) a) (\<lambda>_ a1.
       (case load_board_config (bs_db (store_of (ap_node a1) board)) of
          None \<Rightarrow> Inr (None, a1)
        | Some c \<Rightarrow> (case cached_key board a1 of (k, a2) \<Rightarrow> Inr (Some (c\<lparr>b_key_material := k\<rparr>), a2))))"

definition get_board :: "path \<Rightarrow> string \<Rightarrow> app \<Rightarrow> (board option, app) run" where
  "get_board home board a =
     (if \<not> is_board_subscribed home board (nd_fs (ap_node a)) then Inr (None, a) else load_config home board a)"

fun list_from :: "path \<Rightarrow> string list \<Rightarrow> app \<Rightarrow> board list \<times> app" where
  "list_from home [] a = ([], a)"
| "list_from home (bid # bs) a =
     (case load_config home bid a of
        Inl (_, a1) \<Rightarrow> list_from home bs a1
      | Inr (None, a1) \<Rightarrow> list_from home bs a1
      | Inr (Some b, a1) \<Rightarrow> (case list_from home bs a1 of (rest, a2) \<Rightarrow> (b # rest, a2)))"

definition list_boards :: "path \<Rightarrow> app \<Rightarrow> board list \<times> app" where
  "list_boards home a = list_from home (scanned_boards home (nd_fs (ap_node a))) a"

text \<open>\<open>re_announce\<close>: what is announced, or \<^term>\<open>None\<close> where the board is not owned or not stored.\<close>

definition re_announce :: "path \<Rightarrow> string \<Rightarrow> app \<Rightarrow> (wire option, app) run" where
  "re_announce home board a =
     (if board \<notin> set (bm_owned (ap_boards a)) then Inr (None, a)
      else bind_run (get_board home board a) (\<lambda>r a1. Inr (map_option to_announce_dict r, a1)))"

definition recover_boards_on_startup :: "bool \<Rightarrow> time \<Rightarrow> path \<Rightarrow> app \<Rightarrow> nat \<times> app" where
  "recover_boards_on_startup ok now home a =
     (let m = ap_boards a;
          found = filter (\<lambda>(b, k). k \<noteq> []) (map (\<lambda>b. (b, recover_key_material m b)) (subdirs (nd_fs (ap_node a)) home));
          a1 = on_boards (\<lambda>m. m\<lparr>bm_keys := fold (\<lambda>(b, k). dput b k) found (bm_keys m)\<rparr>) a
      in (length found, if found = [] then a1 else on_engine (request_identity_reannounce ok True now) a1))"

section \<open>Announces received\<close>

text \<open>\<open>bytes.fromhex(h).hex()\<close>.\<close>

definition hex_normal :: "string \<Rightarrow> string" where
  "hex_normal h = map lower_char (filter (\<lambda>c. \<not> space_char c) h)"

definition on_announce_received ::
  "net \<Rightarrow> time \<Rightarrow> path \<Rightarrow> string \<Rightarrow> string option \<Rightarrow> board \<Rightarrow> app \<Rightarrow> (unit, app) run" where
  "on_announce_received nt now home bid ident b a =
     (let subs = scanned_boards home (nd_fs (ap_node a));
          a1 = on_boards (\<lambda>m. record_discovered_board now True subs b
                                (m\<lparr>bm_keys := dput bid (b_key_material b) (bm_keys m)\<rparr>)) a;
          a2 = (if is_board_subscribed home bid (nd_fs (ap_node a1))
                then (case subscribe_board now home b a1 of Inl (_, x) \<Rightarrow> x | Inr (_, x) \<Rightarrow> x) else a1)
      in if b_peer_lxmf_hash b \<noteq> []
         then bind_run (with_tracker (\<lambda>t. map_sum id snd (register_from_announce now bid (b_peer_lxmf_hash b) ident (Some bid) t)) a2)
                (\<lambda>_ a3. Inr ((), on_engine (request_path nt now (b_peer_lxmf_hash b)) a3))
         else if \<not> fromhex_ok bid then Inl (ValueError, a2)
         else with_tracker (see_peer now bid (hex_normal bid) ident) a2)"

definition on_identity_announce_received ::
  "net \<Rightarrow> time \<Rightarrow> string \<Rightarrow> string option \<Rightarrow> app \<Rightarrow> (unit, app) run" where
  "on_identity_announce_received nt now h ident a =
     (if h = (case eg_dest (ap_engine a) of None \<Rightarrow> [] | Some s \<Rightarrow> s) then Inr ((), a)
      else with_tracker (\<lambda>t. map_sum id snd (register_peer_identity now h ident None t))
             (on_engine (\<lambda>e. snd (send_lxmf nt now h (utf8 ''{}'') ''retiboard.board_list_req'' CONTROL (request_path nt now h e))) a))"

section \<open>The handshake with a new peer\<close>

definition stamp_lxmf_hash :: "string \<Rightarrow> wire \<Rightarrow> wire" where
  "stamp_lxmf_hash h d =
     (if dget d ''plh'' \<noteq> None then dput ''plh'' (JStr h) d
      else if dget d ''peer_lxmf_hash'' \<noteq> None then dput ''peer_lxmf_hash'' (JStr h) d else d)"

definition announce_bytes :: "wire \<Rightarrow> bytes" where
  "announce_bytes d = utf8 (dumps False (JObj d))"

fun push_owned :: "net \<Rightarrow> time \<Rightarrow> string \<Rightarrow> string \<Rightarrow> string list \<Rightarrow> nat \<Rightarrow> app \<Rightarrow> nat \<times> app" where
  "push_owned nt now self h [] n a = (n, a)"
| "push_owned nt now self h (bid # bs) n a =
     (case cached_key bid a of
        ([], a1) \<Rightarrow> push_owned nt now self h bs n a1
      | (k, a1) \<Rightarrow>
          (case load_announce_cache (ap_boards a1) bid of
             None \<Rightarrow> push_owned nt now self h bs n a1
           | Some d \<Rightarrow>
               (case send_lxmf nt now h (announce_bytes (stamp_lxmf_hash self d)) ''retiboard.board_ann'' CONTROL (ap_engine a1) of
                  (r, e) \<Rightarrow>
                    if send_ok r
                    then push_owned nt now self h bs (Suc n) (a1\<lparr>ap_engine := e\<lparr>eg_sends := dput (bid, h) now (eg_sends e)\<rparr>\<rparr>)
                    else push_owned nt now self h bs n (a1\<lparr>ap_engine := e\<rparr>))))"

definition send_board_announces_to_peer :: "net \<Rightarrow> time \<Rightarrow> string \<Rightarrow> app \<Rightarrow> nat \<times> app" where
  "send_board_announces_to_peer nt now h a =
     (case eg_dest (ap_engine a) of
        None \<Rightarrow> (0, a)
      | Some self \<Rightarrow>
          if h = self then (0, a)
          else push_owned nt now self h (take 10 (bm_owned (ap_boards a))) 0 a)"

fun push_subscribed :: "net \<Rightarrow> time \<Rightarrow> string \<Rightarrow> string list \<Rightarrow> app \<Rightarrow> app" where
  "push_subscribed nt now h [] a = a"
| "push_subscribed nt now h (bid # bs) a =
     (case (case load_announce_cache (ap_boards a) bid of
              Some d \<Rightarrow> Some d | None \<Rightarrow> map_option to_announce_dict (dget (bm_received (ap_boards a)) bid)) of
        None \<Rightarrow> push_subscribed nt now h bs a
      | Some d \<Rightarrow>
          push_subscribed nt now h bs
            (on_engine (\<lambda>e. snd (send_lxmf nt now h (announce_bytes d) ''retiboard.board_ann'' CONTROL e)) a))"

text \<open>One board of a peer's list: the sighting; for a shared board the code then calls
  \<open>get_peer_identity\<close>, a method the peer tracker does not have, so the registration, the path request and
  the catch-up that follow it are never reached.\<close>

definition note_board :: "time \<Rightarrow> string list \<Rightarrow> string \<Rightarrow> string \<Rightarrow> app \<Rightarrow> (unit, app) run" where
  "note_board now subs h bid a =
     (let a1 = on_boards (record_discovered_peer_advertisement now subs bid h) a
      in if bid \<notin> set subs then Inr ((), a1) else Inl (AttributeError, a1))"

fun note_boards :: "time \<Rightarrow> string list \<Rightarrow> string \<Rightarrow> string list \<Rightarrow> app \<Rightarrow> (unit, app) run" where
  "note_boards now subs h [] a = Inr ((), a)"
| "note_boards now subs h (bid # bs) a =
     bind_run (note_board now subs h bid a) (\<lambda>_ a1. note_boards now subs h bs a1)"

definition on_board_list_received :: "net \<Rightarrow> time \<Rightarrow> path \<Rightarrow> string \<Rightarrow> string list \<Rightarrow> app \<Rightarrow> (unit, app) run" where
  "on_board_list_received nt now home h ids a =
     (let subs = scanned_boards home (nd_fs (ap_node a))
      in if h = (case eg_dest (ap_engine a) of None \<Rightarrow> [] | Some s \<Rightarrow> s) then Inr ((), a)
         else bind_run (note_boards now subs h ids a) (\<lambda>_ a1.
           (let owned = bm_owned (ap_boards a1);
                a3 = (if filter (\<lambda>b. b \<notin> set ids) owned = [] then a1 else snd (send_board_announces_to_peer nt now h a1));
                missing = filter (\<lambda>b. b \<notin> set owned \<and> b \<notin> set ids) (scanned_boards home (nd_fs (ap_node a3)))
            in Inr ((), push_subscribed nt now h (take 10 missing) a3))))"

end
