(* ===== verification/BoardsSafe.thy ===== *)
theory BoardsSafe
  imports Boards ReceiverSafe "HOL-Library.Code_Target_Nat"
begin

text \<open>
  Properties of the board life cycle: subscription and its round trip through the database and the
  announce cache, unsubscription, the discovered list, the authenticity of announces and what the
  handshake with a new peer does.
\<close>

section \<open>Directories of a new board\<close>

lemma make_dirs_append:
  "make_dirs f cur (xs @ ys) = (case make_dirs f cur xs of Inl e \<Rightarrow> Inl e | Inr (p, g) \<Rightarrow> make_dirs g p ys)"
  by (induction xs arbitrary: f cur) (auto simp: Let_def split: option.split node.split)

lemma make_dirs_new:
  assumes "fs_ok f" and "clean d" and "node_at f d = Some Dir" and "x \<noteq> ''..''" and "node_at f (d @ [x]) = None"
  shows "make_dirs f [] (d @ [x]) = Inr (d @ [x], dput (d @ [x]) Dir f)"
  using make_dirs_existing [OF assms(1,2), of "[]"] assms by (simp add: make_dirs_append Let_def)

lemma make_dirs_old: "fs_ok f \<Longrightarrow> clean d \<Longrightarrow> node_at f d = Some Dir \<Longrightarrow> make_dirs f [] d = Inr (d, f)"
  using make_dirs_existing [of f d "[]"] by simp

lemma fs_ok_new:
  assumes "fs_ok f" and "clean (d @ [x])" and "node_at f d = Some Dir" and "node_at f (d @ [x]) = None"
  shows "fs_ok (dput (d @ [x]) n f)"
proof (rule fs_ok_dput [OF assms(1)])
  show "entry_ok f (d @ [x])" using assms by (simp add: entry_ok_def)
  have "\<not> has_children f (d @ [x])"
    using fs_ok_prefix [OF assms(1), of "d @ [x]"] assms(4) by (fastforce simp: has_children_iff [OF assms(1)])
  then show "n = Dir \<or> \<not> has_children f (d @ [x])" by simp
qed

lemma board_paths:
  "plain_name b \<Longrightarrow> board_dir home b = home @ [b]"
  "plain_name b \<Longrightarrow> board_db_path home b = home @ [b, ''meta.db'']"
  "plain_name b \<Longrightarrow> board_payloads_dir home b = home @ [b, ''payloads'']"
  "plain_name b \<Longrightarrow> board_chunk_cache_dir home b = home @ [b, ''chunk_cache'']"
  by (simp_all add: board_dir_def board_db_path_def board_payloads_dir_def board_chunk_cache_dir_def path_join_plain
      plain_name_def [of "''meta.db''"] plain_name_def [of "''payloads''"] plain_name_def [of "''chunk_cache''"])

text \<open>The file system after the first subscription to a board.\<close>

definition board_tree :: "path \<Rightarrow> string \<Rightarrow> fs \<Rightarrow> fs" where
  "board_tree home b f =
     dput (home @ [b, ''meta.db'']) (File [])
       (dput (home @ [b, ''chunk_cache'']) Dir (dput (home @ [b, ''payloads'']) Dir (dput (home @ [b]) Dir f)))"

definition fresh_board :: "path \<Rightarrow> string \<Rightarrow> peer_node \<Rightarrow> bool" where
  "fresh_board home b n \<longleftrightarrow> fs_ok (nd_fs n) \<and> clean home \<and> plain_name b \<and> node_at (nd_fs n) home = Some Dir \<and>
     node_at (nd_fs n) (home @ [b]) = None \<and> dget (nd_boards n) b = None"

lemma board_tree_facts:
  assumes "fresh_board home b n"
  defines "f \<equiv> nd_fs n"
  shows "make_dirs f [] (board_dir home b) = Inr (home @ [b], dput (home @ [b]) Dir f)"
    and "open_board_db home b (dput (home @ [b]) Dir f) = Inr ((), board_tree home b f)"
    and "open_board_db home b (board_tree home b f) = Inr ((), board_tree home b f)"
    and "is_board_subscribed home b (board_tree home b f)"
    and "fs_ok (board_tree home b f)"
proof -
  have f: "fs_ok f" "clean home" "plain_name b" "node_at f home = Some Dir" "node_at f (home @ [b]) = None"
    using assms by (simp_all add: fresh_board_def)
  have b: "b \<noteq> ''..''" "clean [b]" using f(3) by (simp_all add: plain_name_def clean_def)
  have none: "node_at f (home @ [b, x]) = None" for x
    using fs_ok_prefix [OF f(1), of "home @ [b]" "[x]"] f(5) by fastforce
  note bp = board_paths [OF f(3), of home]
  define f1 where "f1 = dput (home @ [b]) Dir f"
  define f2 where "f2 = dput (home @ [b, ''payloads'']) Dir f1"
  define f3 where "f3 = dput (home @ [b, ''chunk_cache'']) Dir f2"
  define f4 where "f4 = dput (home @ [b, ''meta.db'']) (File []) f3"
  have tree: "board_tree home b f = f4" by (simp add: board_tree_def f4_def f3_def f2_def f1_def)
  note at = node_at_dput
  have n1: "node_at f1 (home @ [b]) = Some Dir" "node_at f1 (home @ [b, x]) = None" for x
    by (simp_all add: f1_def at none)
  have c: "clean (home @ [b])" "clean ((home @ [b]) @ [''payloads''])" "clean ((home @ [b]) @ [''chunk_cache''])"
    "clean ((home @ [b]) @ [''meta.db''])" using f(2) b by (simp_all add: clean_def)
  have ok1: "fs_ok f1" unfolding f1_def by (rule fs_ok_new [OF f(1) c(1) f(4,5)])
  have ok2: "fs_ok f2"
    unfolding f2_def using fs_ok_new [OF ok1 c(2)] n1 by simp
  have n2: "node_at f2 (home @ [b]) = Some Dir" "node_at f2 (home @ [b, ''payloads'']) = Some Dir"
    "node_at f2 (home @ [b, ''chunk_cache'']) = None" "node_at f2 (home @ [b, ''meta.db'']) = None"
    by (simp_all add: f2_def at n1)
  have ok3: "fs_ok f3" unfolding f3_def using fs_ok_new [OF ok2 c(3)] n2 by simp
  have n3: "node_at f3 (home @ [b]) = Some Dir" "node_at f3 (home @ [b, ''payloads'']) = Some Dir"
    "node_at f3 (home @ [b, ''chunk_cache'']) = Some Dir" "node_at f3 (home @ [b, ''meta.db'']) = None"
    by (simp_all add: f3_def at n2)
  have ok4: "fs_ok f4" unfolding f4_def using fs_ok_new [OF ok3 c(4)] n3 by simp
  have n4: "node_at f4 (home @ [b]) = Some Dir" "node_at f4 (home @ [b, ''payloads'']) = Some Dir"
    "node_at f4 (home @ [b, ''chunk_cache'']) = Some Dir" "node_at f4 (home @ [b, ''meta.db'']) = Some (File [])"
    by (simp_all add: f4_def at n3)
  have c': "clean (home @ [b, ''payloads''])" "clean (home @ [b, ''chunk_cache''])" "clean (home @ [b, ''meta.db''])"
    using c by (simp_all add: clean_def)
  show "make_dirs f [] (board_dir home b) = Inr (home @ [b], dput (home @ [b]) Dir f)"
    unfolding bp by (rule make_dirs_new [OF f(1,2,4) b(1) f(5)])
  have dirs1: "open_board_dirs home b f1 = Inr ((), f3)"
    using make_dirs_old [OF ok1 c(1) n1(1)] make_dirs_new [OF ok1 c(1) n1(1), of "''payloads''"]
      make_dirs_new [OF ok2 c(1) n2(1), of "''chunk_cache''"] n1 n2
    by (simp add: open_board_dirs_def bp f3_def f2_def)
  have "resolved f3 (home @ [b, ''meta.db'']) = None"
    using resolved_clean [OF ok3 c'(3)] n3 by simp
  moreover have "walk f3 [] (home @ [b, ''meta.db'']) = Some (home @ [b, ''meta.db''])"
    using walk_clean [OF ok3 c'(3), of "[]"] n3(1) by (simp add: butlast_append)
  ultimately show "open_board_db home b (dput (home @ [b]) Dir f) = Inr ((), board_tree home b f)"
    using dirs1 n3 by (simp add: open_board_db_def bp tree f1_def [symmetric] write_bytes_def f4_def butlast_append)
  have "open_board_dirs home b f4 = Inr ((), f4)"
    using make_dirs_old [OF ok4 c(1) n4(1)] make_dirs_old [OF ok4 c'(1) n4(2)] make_dirs_old [OF ok4 c'(2) n4(3)]
    by (simp add: open_board_dirs_def bp)
  moreover have res: "resolved f4 (home @ [b, ''meta.db'']) \<noteq> None"
    using resolved_clean [OF ok4 c'(3)] n4 by simp
  ultimately show "open_board_db home b (board_tree home b f) = Inr ((), board_tree home b f)"
    by (auto simp: open_board_db_def bp tree)
  show "is_board_subscribed home b (board_tree home b f)"
    using res by (simp add: is_board_subscribed_def bp tree)
  show "fs_ok (board_tree home b f)" by (simp add: tree ok4)
qed

section \<open>Subscription\<close>

text \<open>What is read back after a restart or from the database: the configuration, not the owner's address, with
  the subscription time in whole seconds.\<close>

definition stored :: "board \<Rightarrow> board" where
  "stored b = b\<lparr>b_peer_lxmf_hash := [], b_subscribed_at := of_int (py_int (b_subscribed_at b))\<rparr>"

lemma prune_keeps:
  "bm_keys (prune_discovered_records now subs m) = bm_keys m" "bm_files (prune_discovered_records now subs m) = bm_files m"
  "bm_owned (prune_discovered_records now subs m) = bm_owned m"
  by (simp_all add: prune_discovered_records_def Let_def)

lemma record_keeps:
  "bm_keys (record_discovered_board now cnt subs b m) = bm_keys m"
  "bm_files (record_discovered_board now cnt subs b m) = bm_files m"
  "bm_owned (record_discovered_board now cnt subs b m) = bm_owned m"
  by (simp_all add: record_discovered_board_def Let_def prune_keeps)

lemma subscribe_run:
  assumes fresh: "fresh_board home (b_board_id b) (ap_node a)" and bind: "config_bindable (config_of b)"
  defines "bid \<equiv> b_board_id b"
  shows "\<exists>a'. subscribe_board now home b a = Inr ((), a') \<and>
     ap_engine a' = ap_engine a \<and>
     nd_fs (ap_node a') = board_tree home bid (nd_fs (ap_node a)) \<and>
     db_config (bs_db (store_of (ap_node a') bid)) = [config_of (board_for_db_storage b)] \<and>
     bm_keys (ap_boards a') = dput bid (b_key_material b) (bm_keys (ap_boards a)) \<and>
     bm_files (ap_boards a') = dput bid (Some (JObj (to_announce_dict b))) (bm_files (ap_boards a)) \<and>
     bm_owned (ap_boards a') = bm_owned (ap_boards a)"
proof -
  have fresh': "fresh_board home bid (ap_node a)" using fresh by (simp add: bid_def)
  note bt = board_tree_facts [OF fresh']
  have "dget (nd_boards (ap_node a)) bid = None" using fresh' by (simp add: fresh_board_def)
  then have store: "store_of (ap_node a) bid = empty_store"
    by (simp add: store_of_def dget_or_def)
  have conf: "config_of (board_for_db_storage b) = config_of b" by (simp add: config_of_def board_for_db_storage_def)
  show ?thesis
    using bt(1,2) bind
    by (simp add: subscribe_board_def save_announce_cache_def with_node_def on_fs_def on_boards_def save_config_def
        save_board_config_def bid_def [symmetric] conf Let_def store record_keeps)
      (simp add: empty_store_def empty_db_def store_of_put)
qed


definition empty_node :: peer_node where
  "empty_node = open_node\<lparr>nd_boards := [], nd_fs := [([''h''], Dir)]\<rparr>"

definition app_a :: app where
  "app_a = \<lparr>ap_boards = new_board_manager, ap_engine = engine_heard, ap_node = empty_node\<rparr>"

lemma app_a_fresh: "fresh_board [''h''] (b_board_id sample_board) (ap_node app_a)" "config_bindable (config_of sample_board)"
  "b_key_material sample_board \<noteq> []"
  by (simp_all add: fresh_board_def app_a_def empty_node_def sample_board_def fs_ok_def entry_ok_def clean_def plain_name_def
      node_at_def config_bindable_def config_of_def int64_def py_int_def)


text \<open>Also: the database row has no owner address, so a board that is announced again goes out without one.\<close>

theorem reannounce_drops_lxmf_hash:
  assumes "re_announce home board a = Inr (Some d, a')"
  shows "dget d ''plh'' = None"
proof -
  from assms obtain x where x: "get_board home board a = Inr (Some x, a')" "d = to_announce_dict x"
    by (auto simp: re_announce_def bind_run_def split: if_splits sum.splits prod.splits)
  then have "b_peer_lxmf_hash x = []"
    by (auto simp: get_board_def load_config_def bind_run_def load_board_config_def
        split: if_splits sum.splits prod.splits option.splits list.splits)
  then show ?thesis by (simp add: x(2) to_announce_dict_def)
qed

definition app_owner :: app where
  "app_owner = on_boards (\<lambda>m. m\<lparr>bm_owned := [''b'']\<rparr>) (snd (projr (subscribe_board 7 [''h''] sample_board app_a)))"

theorem reannounce_drops_lxmf_hash_witness:
  "\<exists>d a'. re_announce [''h''] ''b'' app_owner = Inr (Some d, a') \<and> dget d ''plh'' = None"
proof -
  have "map_sum (\<lambda>_. ()) (\<lambda>r. fst r \<noteq> None) (re_announce [''h''] ''b'' app_owner) = Inr True" by code_simp
  then obtain d a' where r: "re_announce [''h''] ''b'' app_owner = Inr (Some d, a')"
    by (cases "re_announce [''h''] ''b'' app_owner") auto
  with reannounce_drops_lxmf_hash [OF r] show ?thesis by blast
qed

section \<open>Unsubscription\<close>

lemma dget_filter_path_key: "dget (filter (\<lambda>(q, _). P q) f) p = (if P p then dget f p else None)"
  by (induction f) auto

lemma preserve_keeps:
  "ap_node (preserve_announce now home b a) = ap_node a" "ap_engine (preserve_announce now home b a) = ap_engine a"
  by (simp_all add: preserve_announce_def on_boards_def split: option.split sum.split)



section \<open>Announces and discovery\<close>

lemma announced_id:
  assumes "validate_announce_fields data" and "from_announce_dict now data = Inr b"
  shows "get_board_id_from_announce data = JStr (b_board_id b) \<and> b_board_id b \<noteq> []"
proof (cases "dget data ''b''")
  case None
  with assms show ?thesis
    by (auto simp: validate_announce_fields_def get_board_id_from_announce_def dget_or_def from_announce_dict_def
        board_of_keys_def long_format_def require_def bindE_def split: option.splits json.splits sum.splits)
next
  case (Some x)
  with assms show ?thesis
    by (auto simp: validate_announce_fields_def get_board_id_from_announce_def dget_or_def from_announce_dict_def
        board_of_keys_def short_format_def require_def bindE_def split: option.splits json.splits sum.splits)
qed

text \<open>Also: a board announce taken from the network names the board by the hash of the destination that
  signed it, in either format.\<close>

theorem board_announce_authentic:
  assumes "received_announce now dest v = Inr (Board_announced b)"
  shows "b_board_id b = dest \<and> b_board_id b \<noteq> []"
proof -
  from assms obtain data where data: "v = Some (JObj data)" "validate_announce_fields data"
    "get_board_id_from_announce data = JStr dest" "from_announce_dict now data = Inr b"
    by (auto simp: received_announce_def bindE_def split: option.splits json.splits if_splits sum.splits)
  from announced_id [OF data(2,4)] data(3) show ?thesis by simp
qed

theorem board_announce_authentic_witness:
  "\<exists>b. received_announce 1 ''b'' (Some (JObj (to_announce_dict sample_board))) = Inr (Board_announced b) \<and> b_board_id b = ''b''"
proof -
  have "map_sum id (\<lambda>e. case e of Board_announced _ \<Rightarrow> True | _ \<Rightarrow> False)
      (received_announce 1 ''b'' (Some (JObj (to_announce_dict sample_board)))) = Inr True" by code_simp
  then obtain b where r: "received_announce 1 ''b'' (Some (JObj (to_announce_dict sample_board))) = Inr (Board_announced b)"
    by (cases "received_announce 1 ''b'' (Some (JObj (to_announce_dict sample_board)))") (auto split: announce_event.splits)
  with board_announce_authentic [OF r] show ?thesis by blast
qed

text \<open>Also: the discovered list shows every board seen in the last twelve hours that is not subscribed,
  once each, ordered by confirmed peers, advertising peers, announces and recency, and counts only peers
  seen in the last hour.\<close>

theorem discovered_list_exact:
  assumes True: "dict_ok (bm_discovered (ap_boards a))"
  shows "mset (fst (get_discovered_boards now home a)) =
       mset (map (build_discovered_snapshot now (eg_tracker (ap_engine a)) \<circ> snd)
         (filter (\<lambda>(b, r). b \<notin> set (scanned_boards home (nd_fs (ap_node a))) \<and> now - dc_last_seen r \<le> 43200)
           (bm_discovered (ap_boards a)))) \<and>
     sorted (rev (map discovery_key (fst (get_discovered_boards now home a))))"
proof -
  let ?subs = "scanned_boards home (nd_fs (ap_node a))" and ?t = "eg_tracker (ap_engine a)"
  let ?cut = "\<lambda>r. r\<lparr>dc_peers := filter (\<lambda>(h, t). \<not> now - t > DISCOVERED_PEER_ACTIVITY_SECONDS) (dc_peers r)\<rparr>"
  let ?ds = "bm_discovered (ap_boards a)"
  let ?stale = "map fst (filter (\<lambda>(b, r). b \<notin> set ?subs \<and> now - dc_last_seen r > DISCOVERED_BOARD_STALE_SECONDS)
                  (map (\<lambda>(b, r). (b, ?cut r)) ?ds))"
  have snap: "build_discovered_snapshot now ?t (?cut r) = build_discovered_snapshot now ?t r" for r
    by (simp add: build_discovered_snapshot_def Let_def split_def not_less conj_commute)
  have stale: "b \<in> set ?stale \<longleftrightarrow> b \<notin> set ?subs \<and> now - dc_last_seen r > 43200" if "(b, r) \<in> set ?ds" for b r
  proof -
    from dict_memD [OF True] that have "dget ?ds b = Some r" by blast
    moreover have "dget ?ds b = Some r'" if "(b, r') \<in> set ?ds" for r' using dict_memD [OF True] that by blast
    ultimately have only: "(b, r') \<in> set ?ds \<longleftrightarrow> r' = r" for r' using that by (metis option.inject)
    have "?stale = map fst (filter (\<lambda>(b, r). b \<notin> set ?subs \<and> now - dc_last_seen r > 43200) ?ds)"
      by (simp add: filter_map o_def split_def DISCOVERED_BOARD_STALE_SECONDS_def)
    then have "b \<in> set ?stale \<longleftrightarrow> (\<exists>r'. (b, r') \<in> set ?ds \<and> b \<notin> set ?subs \<and> now - dc_last_seen r' > 43200)"
      by (simp only: set_map set_filter) force
    also have "\<dots> \<longleftrightarrow> b \<notin> set ?subs \<and> now - dc_last_seen r > 43200" using only by auto
    finally show ?thesis .
  qed
  have "filter (\<lambda>(b, r). b \<notin> set ?subs) (filter (\<lambda>(b, r). b \<notin> set ?stale) (map (\<lambda>(b, r). (b, ?cut r)) ?ds)) =
      map (\<lambda>(b, r). (b, ?cut r)) (filter (\<lambda>(b, r). b \<notin> set ?subs \<and> b \<notin> set ?stale) ?ds)"
    by (simp add: filter_map o_def split_def conj_commute)
  also have "filter (\<lambda>(b, r). b \<notin> set ?subs \<and> b \<notin> set ?stale) ?ds =
      filter (\<lambda>(b, r). b \<notin> set ?subs \<and> now - dc_last_seen r \<le> 43200) ?ds"
    by (rule filter_cong [OF refl]) (use stale in \<open>auto simp del: set_map\<close>)
  finally have eq: "filter (\<lambda>(b, r). b \<notin> set ?subs) (bm_discovered (prune_discovered_records now ?subs (ap_boards a))) =
      map (\<lambda>(b, r). (b, ?cut r)) (filter (\<lambda>(b, r). b \<notin> set ?subs \<and> now - dc_last_seen r \<le> 43200) ?ds)"
    by (simp add: prune_discovered_records_def Let_def)
  have "fst (get_discovered_boards now home a) = sort_desc discovery_key
      (map (build_discovered_snapshot now ?t \<circ> snd) (filter (\<lambda>(b, r). b \<notin> set ?subs \<and> now - dc_last_seen r \<le> 43200) ?ds))"
    unfolding get_discovered_boards_def Let_def fst_conv eq by (simp add: o_def case_prod_beta snap)
  then show ?thesis using sorted_sort_desc by simp
qed

definition app_seen :: app where
  "app_seen = on_boards (record_discovered_board 5 True [] sample_board) app_a"

theorem discovered_list_exact_witness:
  "map (b_board_id \<circ> sn_board) (fst (get_discovered_boards 6 [''h''] app_seen)) = [''b''] \<and>
   sorted (rev (map discovery_key (fst (get_discovered_boards 6 [''h''] app_seen))))"
proof
  show "map (b_board_id \<circ> sn_board) (fst (get_discovered_boards 6 [''h''] app_seen)) = [''b'']" by code_simp
  have "dict_ok (bm_discovered (ap_boards app_seen))" by code_simp
  from discovered_list_exact [OF this] show "sorted (rev (map discovery_key (fst (get_discovered_boards 6 [''h''] app_seen))))"
    by blast
qed

section \<open>Meeting a new peer\<close>

text \<open>Also: the first identity announce of a peer only puts it into the table. The path request and the
  request for its boards come before the registration and are refused because the peer is not in the table
  yet.\<close>

theorem first_identity_announce_asks_nothing:
  assumes "get_peer (ap_engine a) h = None" and "eg_dest (ap_engine a) = Some s" and "h \<noteq> s"
  shows "on_identity_announce_received nt now h ident a =
     with_tracker (\<lambda>t. map_sum id snd (register_peer_identity now h ident None t)) a"
  using assms by (simp add: on_identity_announce_received_def request_path_def send_lxmf_def on_engine_def)

theorem first_identity_announce_asks_nothing_witness:
  "on_identity_announce_received good_net 3 (replicate 16 CHR ''c'') (Some ''k'') app_a =
     with_tracker (\<lambda>t. map_sum id snd (register_peer_identity 3 (replicate 16 CHR ''c'') (Some ''k'') None t)) app_a"
proof (rule first_identity_announce_asks_nothing)
  have "replicate 16 CHR ''c'' \<noteq> hash_b" by code_simp
  then show "get_peer (ap_engine app_a) (replicate 16 CHR ''c'') = None"
    by (simp add: app_a_def get_peer_def engine_heard_def tracker_b_peers)
  show "eg_dest (ap_engine app_a) = Some hash_a" by (simp add: app_a_def engine_heard_def)
  show "replicate 16 CHR ''c'' \<noteq> hash_a" by code_simp
qed

text \<open>Also: a peer's board list that names a board subscribed here is never processed: the handler calls a
  method that does not exist, so the peer is not registered for the shared board, no path is requested, no
  catch-up scheduled and no announce pushed.\<close>

theorem shared_board_aborts_handshake:
  assumes "eg_dest (ap_engine a) = Some s" and "h \<noteq> s"
    and "b \<in> set ids" and "b \<in> set (scanned_boards home (nd_fs (ap_node a)))"
  shows "\<exists>a'. on_board_list_received nt now home h ids a = Inl (AttributeError, a') \<and>
     ap_engine a' = ap_engine a \<and> ap_node a' = ap_node a"
proof -
  have "\<exists>a'. note_boards now subs h ids a = Inl (AttributeError, a') \<and> ap_engine a' = ap_engine a \<and> ap_node a' = ap_node a"
    if "b \<in> set ids" "b \<in> set subs" for subs ids a
    using that(1)
  proof (induction ids arbitrary: a)
    case Nil
    then show ?case by simp
  next
    case (Cons c cs)
    let ?a1 = "on_boards (record_discovered_peer_advertisement now subs c h) a"
    have same: "ap_engine ?a1 = ap_engine a" "ap_node ?a1 = ap_node a" by (simp_all add: on_boards_def)
    show ?case
    proof (cases "c \<in> set subs")
      case True
      then show ?thesis by (simp add: note_board_def Let_def same)
    next
      case False
      with Cons.prems that(2) have "b \<in> set cs" by auto
      from Cons.IH [OF this, of ?a1] False show ?thesis by (simp add: note_board_def Let_def same)
    qed
  qed
  from this [OF assms(3,4), of a] assms(1,2) show ?thesis
    by (auto simp: on_board_list_received_def Let_def)
qed

theorem shared_board_aborts_handshake_witness:
  "\<exists>a'. on_board_list_received good_net 8 [''h''] hash_b [''x'', ''b''] app_owner = Inl (AttributeError, a')"
proof -
  have "''b'' \<in> set (scanned_boards [''h''] (nd_fs (ap_node app_owner)))" by code_simp
  moreover have "eg_dest (ap_engine app_owner) = Some hash_a" by code_simp
  ultimately show ?thesis
    using shared_board_aborts_handshake [of app_owner hash_a hash_b "''b''" "[''x'', ''b'']" "[''h'']" good_net 8]
    by (auto simp: hash_a_def hash_b_def)
qed

end
