(* ===== verification/Delivery.thy ===== *)
theory Delivery
  imports Boards
begin

text \<open>
  The LXMF delivery callback (\<open>make_delivery_callback\<close> in \<open>retiboard/sync/receiver.py\<close>): every message is
  dispatched by its title to the handlers of the other theories, and the answers go back through the
  engine. The content is what \<open>json.loads\<close> reads from it (\<^term>\<open>None\<close>: not JSON). A task that the
  callback schedules on the engine's loop runs right after it; an exception in it is logged and ends it.
  Titles of the chunk protocol are handled in the transfer theories.
\<close>

section \<open>Messages\<close>

record message =
  ms_title :: string
  ms_content :: "json option"
  ms_source :: "string option"
  ms_identity :: "string option"

text \<open>\<open>env\<close>: what the host supplies during one delivery, the sample drawn by peer exchange, the identity
  constructor and the identity hash of Reticulum, and the transport limits.\<close>

record env =
  en_net :: net
  en_now :: time
  en_home :: path
  en_sample :: "nat \<Rightarrow> peer_info list \<Rightarrow> peer_info list"
  en_decode :: "string \<Rightarrow> py_error + string option"
  en_ident_hash :: "string \<Rightarrow> string"
  en_low_bandwidth :: bool
  en_max_payload :: int

definition resolve_source_identity :: "message \<Rightarrow> app \<Rightarrow> string option" where
  "resolve_source_identity m a =
     (case ms_identity m of
        Some i \<Rightarrow> Some i
      | None \<Rightarrow> (case truthy (ms_source m) of
                   None \<Rightarrow> None | Some h \<Rightarrow> Option.bind (get_peer (ap_engine a) h) pi_identity))"

text \<open>The registration every handler but the one for metadata starts with.\<close>

definition hear :: "env \<Rightarrow> message \<Rightarrow> app \<Rightarrow> (unit, app) run" where
  "hear en m a =
     (case truthy (ms_source m) of
        None \<Rightarrow> Inr ((), a)
      | Some h \<Rightarrow>
          with_tracker (\<lambda>t. map_sum id snd (register_from_message (en_now en) h None (resolve_source_identity m a) t)) a)"

definition settle :: "('a, app) run \<Rightarrow> app" where
  "settle r = (case r of Inl (_, a) \<Rightarrow> a | Inr (_, a) \<Rightarrow> a)"

definition reply :: "env \<Rightarrow> string option \<Rightarrow> json \<Rightarrow> string \<Rightarrow> app \<Rightarrow> app" where
  "reply en src v title a =
     (case truthy src of
        None \<Rightarrow> a
      | Some h \<Rightarrow> on_engine (\<lambda>e. snd (send_lxmf (en_net en) (en_now en) h (utf8 (dumps False v)) title CONTROL e)) a)"

section \<open>Metadata\<close>

definition stored_post :: "wire \<Rightarrow> string \<Rightarrow> peer_node \<Rightarrow> post option" where
  "stored_post md board n =
     (case opt_str md ''post_id'' [] of Inl _ \<Rightarrow> None | Inr pid \<Rightarrow> get_post pid (bs_db (store_of n board)))"

text \<open>\<open>handle_incoming_metadata\<close> with the forwarding of a stored post.\<close>

definition take_metadata :: "env \<Rightarrow> wire \<Rightarrow> string \<Rightarrow> string option \<Rightarrow> string option \<Rightarrow> app \<Rightarrow> (bool, app) run" where
  "take_metadata en md board src ident a =
     (case handle_incoming_metadata (en_now en) (en_home en) (en_max_payload en) md board src ident
             (Some (eg_tracker (ap_engine a))) (ap_node a) of
        Inl (e, n) \<Rightarrow> Inl (e, a\<lparr>ap_node := n\<rparr>)
      | Inr ((ok, tr), n) \<Rightarrow>
          (let a1 = on_engine (on_tracker (\<lambda>t. case tr of None \<Rightarrow> t | Some t' \<Rightarrow> t')) (a\<lparr>ap_node := n\<rparr>)
           in if ok \<and> eg_dest (ap_engine a1) \<noteq> None
              then (case stored_post md board n of
                      None \<Rightarrow> Inr (True, a1)
                    | Some p \<Rightarrow>
                        (case replicate_metadata (en_net en) (en_now en) (en_home en) p board src (ap_engine a1) n of
                           Inl (_, n2) \<Rightarrow> Inr (True, a1\<lparr>ap_node := n2\<rparr>)
                         | Inr ((_, e2), n2) \<Rightarrow> Inr (True, a1\<lparr>ap_engine := e2, ap_node := n2\<rparr>)))
              else Inr (ok, a1)))"

definition on_metadata :: "env \<Rightarrow> message \<Rightarrow> app \<Rightarrow> app" where
  "on_metadata en m a =
     (case ms_content m of
        Some (JObj d) \<Rightarrow>
          (case dget d ''_board_id'' of
             Some (JStr b) \<Rightarrow>
               (if b = [] then a
                else settle (take_metadata en (dpop ''_board_id'' d) b (ms_source m) (resolve_source_identity m a) a))
           | _ \<Rightarrow> a)
      | _ \<Rightarrow> a)"

section \<open>HAVE\<close>

definition perform :: "env \<Rightarrow> gossip_action \<Rightarrow> app \<Rightarrow> app" where
  "perform en act a =
     (case act of
        Request_delta h who board s \<Rightarrow>
          on_engine (enqueue_delta_request (en_now en) board (sl_thread_id s) (sl_since s)
                       (sl_known s) (Some h) who) a
      | Push_announce h board \<Rightarrow> push_subscribed (en_net en) (en_now en) h [board] a)"

definition on_have :: "env \<Rightarrow> bool \<Rightarrow> json \<Rightarrow> string option \<Rightarrow> string option \<Rightarrow> app \<Rightarrow> app" where
  "on_have en from_board v src ident a =
     (case handle_have_announcement (en_decode en) (en_ident_hash en) (en_now en) (en_home en)
             (map fst (bm_received (ap_boards a))) v from_board src ident (eg_tracker (ap_engine a)) (ap_node a) of
        Inl (_, n) \<Rightarrow> a\<lparr>ap_node := n\<rparr>
      | Inr ((_, acts, t), n) \<Rightarrow>
          fold (perform en) acts (on_engine (on_tracker (\<lambda>_. t)) (a\<lparr>ap_node := n\<rparr>)))"

definition on_have_req :: "env \<Rightarrow> message \<Rightarrow> app \<Rightarrow> app" where
  "on_have_req en m a =
     (case ms_content m of
        Some (JObj d) \<Rightarrow>
          (case dget d ''board_id'' of
             Some (JStr b) \<Rightarrow>
               (if b = [] \<or> \<not> is_board_subscribed (en_home en) b (nd_fs (ap_node a)) then a
                else (case with_node (build_have_packet (en_sample en) (en_now en) (en_home en) b (en_low_bandwidth en) None) a of
                        Inr (Some have, a1) \<Rightarrow> reply en (ms_source m) (JObj have) ''retiboard.have'' a1
                      | r \<Rightarrow> settle r))
           | _ \<Rightarrow> a)
      | _ \<Rightarrow> a)"

section \<open>Deltas\<close>

definition delta_response_json :: "delta_response \<Rightarrow> json" where
  "delta_response_json r =
     JObj [(''board_id'', JStr (dr_board_id r)), (''thread_id'', JStr (dr_thread_id r)),
           (''metadata'', JArr (map JObj (dr_metadata r))), (''more'', JBool (dr_more r))]"

definition on_delta_req :: "env \<Rightarrow> message \<Rightarrow> app \<Rightarrow> app" where
  "on_delta_req en m a =
     (case ms_content m of
        Some (JObj d) \<Rightarrow>
          (case (opt_str d ''board_id'' [], opt_str d ''thread_id'' [], opt_int d ''since_timestamp'' 0) of
             (Inr b, Inr tid, Inr since) \<Rightarrow>
               (if b = [] \<or> tid = [] \<or> \<not> is_board_subscribed (en_home en) b (nd_fs (ap_node a)) then a
                else (case with_node (build_delta_response (en_home en) b tid since) a of
                        Inr (r, a1) \<Rightarrow>
                          (if dr_metadata r = [] then a1
                           else reply en (ms_source m) (delta_response_json r) ''retiboard.delta_res'' a1)
                      | r \<Rightarrow> settle r))
           | _ \<Rightarrow> a)
      | _ \<Rightarrow> a)"

fun take_records :: "env \<Rightarrow> string \<Rightarrow> string option \<Rightarrow> json list \<Rightarrow> nat \<Rightarrow> app \<Rightarrow> (nat, app) run" where
  "take_records en board src [] k a = Inr (k, a)"
| "take_records en board src (v # vs) k a =
     (case v of
        JObj md \<Rightarrow>
          bind_run (take_metadata en md board src None a) (\<lambda>ok a1.
            take_records en board src vs (if ok then Suc k else k) a1)
      | _ \<Rightarrow> Inl (AttributeError, a))"

definition on_delta_res :: "env \<Rightarrow> message \<Rightarrow> app \<Rightarrow> app" where
  "on_delta_res en m a =
     (case ms_content m of
        Some (JObj d) \<Rightarrow>
          (case (opt_str d ''board_id'' [], items_of (dget_or d ''metadata'' (JArr []))) of
             (Inr b, Inr vs) \<Rightarrow>
               (if \<not> is_board_subscribed (en_home en) b (nd_fs (ap_node a)) then a
                else (case take_records en b (ms_source m) vs 0 a of
                        Inl (_, a1) \<Rightarrow> a1
                      | Inr (k, a1) \<Rightarrow>
                          (case truthy (ms_source m) of
                             None \<Rightarrow> a1
                           | Some h \<Rightarrow>
                               if k > 0 \<and> b \<noteq> []
                               then on_engine (\<lambda>e. e\<lparr>eg_limiter := record_success b h (eg_limiter e)\<rparr>) a1 else a1)))
           | _ \<Rightarrow> a)
      | _ \<Rightarrow> a)"

section \<open>Boards\<close>

definition on_board_list_req :: "env \<Rightarrow> message \<Rightarrow> app \<Rightarrow> app" where
  "on_board_list_req en m a =
     reply en (ms_source m)
       (JObj [(''boards'', JArr (map JStr (scanned_boards (en_home en) (nd_fs (ap_node a)))))]) ''retiboard.board_list_res'' a"

text \<open>Entries that are not strings are outside the model.\<close>

definition on_board_list_res :: "env \<Rightarrow> message \<Rightarrow> app \<Rightarrow> app" where
  "on_board_list_res en m a =
     (case (ms_content m, truthy (ms_source m)) of
        (Some (JObj d), Some h) \<Rightarrow>
          (case dget_or d ''boards'' (JArr []) of
             JArr vs \<Rightarrow> settle (on_board_list_received (en_net en) (en_now en) (en_home en) h (strings_of vs) a)
           | _ \<Rightarrow> a)
      | _ \<Rightarrow> a)"

text \<open>A board announce pushed over LXMF; nothing ties its board id to the sender.\<close>

definition on_board_announce :: "env \<Rightarrow> message \<Rightarrow> string option \<Rightarrow> app \<Rightarrow> app" where
  "on_board_announce en m ident a =
     (case ms_content m of
        Some (JObj d) \<Rightarrow>
          (if \<not> validate_announce_fields d then a
           else (case (from_announce_dict (en_now en) d, get_board_id_from_announce d) of
                   (Inr b0, JStr bid) \<Rightarrow>
                     (let b = (case truthy (ms_source m) of None \<Rightarrow> b0 | Some h \<Rightarrow> b0\<lparr>b_peer_lxmf_hash := h\<rparr>)
                      in case on_announce_received (en_net en) (en_now en) (en_home en) bid ident b a of
                           Inl (_, a1) \<Rightarrow> a1
                         | Inr (_, a1) \<Rightarrow>
                             on_boards (\<lambda>bm. bm\<lparr>bm_received := dput bid b (bm_received bm)\<rparr>) a1)
                 | _ \<Rightarrow> a))
      | _ \<Rightarrow> a)"

section \<open>The callback\<close>

definition heard :: "env \<Rightarrow> message \<Rightarrow> app \<Rightarrow> (app \<Rightarrow> app) \<Rightarrow> app" where
  "heard en m a k = (case hear en m a of Inl (_, a1) \<Rightarrow> a1 | Inr (_, a1) \<Rightarrow> k a1)"

definition deliver :: "env \<Rightarrow> message \<Rightarrow> app \<Rightarrow> app" where
  "deliver en m a =
     (let ident = resolve_source_identity m a; t = ms_title m
      in if t = ''retiboard.metadata'' then on_metadata en m a
         else if t = ''retiboard.have''
           then heard en m a (\<lambda>a1. case ms_content m of Some v \<Rightarrow> on_have en False v (ms_source m) ident a1 | None \<Rightarrow> a1)
         else if t = ''retiboard.have_req'' then heard en m a (on_have_req en m)
         else if t = ''retiboard.delta_req'' then heard en m a (on_delta_req en m)
         else if t = ''retiboard.delta_res'' then heard en m a (on_delta_res en m)
         else if t = ''retiboard.payload_res'' then heard en m a (\<lambda>a1. a1)
         else if t = ''retiboard.board_list_req''
           then (if truthy (ms_source m) = None then a else heard en m a (on_board_list_req en m))
         else if t = ''retiboard.board_list_res''
           then (if truthy (ms_source m) = None then a else heard en m a (on_board_list_res en m))
         else if t = ''retiboard.board_ann'' then heard en m a (on_board_announce en m ident)
         else a)"

end
