(* ===== verification/DeliverySafe.thy ===== *)
theory DeliverySafe
  imports Delivery BoardsSafe GossipSafe "HOL-Library.Code_Target_Nat"
begin

text \<open>
  Deliveries end to end: what an announce pushed by a peer changes, what a HAVE for an unknown board
  leads to, and the exchange of a delta response that makes the receiver hold the sender's posts.
\<close>

section \<open>Registration of the sender\<close>

lemma hear_run:
  "ap_node (settle (hear en m a)) = ap_node a" "ap_boards (settle (hear en m a)) = ap_boards a"
  by (simp_all add: hear_def with_tracker_def settle_def on_engine_def split: option.split sum.split)

lemma message_registers:
  assumes "tracker_inv t"
  shows "\<exists>r t'. register_from_message now h board ident t = Inr (r, t')"
  by (rule register_with_ok [OF assms good_message [where h = h and board = board and now = now and ident = ident]])
    (simp add: register_from_message_def)

lemma hear_ok:
  assumes "engine_ok (ap_engine a)"
  obtains e where "hear en m a = Inr ((), a\<lparr>ap_engine := e\<rparr>)" and "engine_ok e" and "frame e = frame (ap_engine a)"
proof (cases "truthy (ms_source m)")
  case None
  with that [of "ap_engine a"] assms show thesis by (simp add: hear_def)
next
  case (Some h)
  have "tracker_inv (eg_tracker (ap_engine a))" using assms by (simp add: engine_ok_def steady_inv)
  from message_registers [OF this] obtain b t where
    t: "register_from_message (en_now en) h None (resolve_source_identity m a) (eg_tracker (ap_engine a)) = Inr (b, t)"
    by blast
  let ?e = "on_tracker (\<lambda>_. t) (ap_engine a)"
  have "engine_ok ?e" using assms steady_message [OF engine_okD [OF assms] t] by (simp add: engine_ok_tracker)
  moreover have "frame ?e = frame (ap_engine a)" by (simp add: frame_def on_tracker_def)
  moreover have "hear en m a = Inr ((), a\<lparr>ap_engine := ?e\<rparr>)"
    using Some t by (simp add: hear_def with_tracker_def on_engine_def)
  ultimately show thesis using that by blast
qed

section \<open>Announces pushed over LXMF\<close>

lemma with_tracker_boards: "ap_boards (settle (with_tracker f a)) = ap_boards a"
  by (simp add: with_tracker_def settle_def on_engine_def split: sum.split)

lemma with_node_boards: "with_node f a = Inr (x, a') \<Longrightarrow> ap_boards a' = ap_boards a"
  "with_node f a = Inl (e, a') \<Longrightarrow> ap_boards a' = ap_boards a"
  by (auto simp: with_node_def split: sum.splits prod.splits)

lemma subscribe_board_keys:
  "bm_keys (ap_boards (settle (subscribe_board now home b a))) = dput (b_board_id b) (b_key_material b) (bm_keys (ap_boards a))"
  by (auto simp: subscribe_board_def Let_def bind_run_def save_announce_cache_def settle_def on_boards_def record_keeps
      split: sum.splits prod.splits dest!: with_node_boards)

lemma settle_case: "(case r of Inl (e, x) \<Rightarrow> x | Inr (u, x) \<Rightarrow> x) = settle r"
  by (simp add: settle_def split: sum.split)

lemma announce_keys:
  "dget (bm_keys (ap_boards (settle (on_announce_received nt now home (b_board_id b) ident b a)))) (b_board_id b) =
     Some (b_key_material b)"
proof -
  let ?bid = "b_board_id b"
  let ?subs = "scanned_boards home (nd_fs (ap_node a))"
  define a1 where "a1 = on_boards (\<lambda>m. record_discovered_board now True ?subs b
      (m\<lparr>bm_keys := dput ?bid (b_key_material b) (bm_keys m)\<rparr>)) a"
  define a2 where "a2 = (if is_board_subscribed home ?bid (nd_fs (ap_node a1)) then settle (subscribe_board now home b a1) else a1)"
  have "dget (bm_keys (ap_boards a1)) ?bid = Some (b_key_material b)"
    by (simp add: a1_def on_boards_def record_keeps dict_laws)
  then have a2: "dget (bm_keys (ap_boards a2)) ?bid = Some (b_key_material b)"
    by (simp add: a2_def subscribe_board_keys dict_laws)
  have "ap_boards (settle (on_announce_received nt now home ?bid ident b a)) = ap_boards a2"
    unfolding on_announce_received_def Let_def settle_case a1_def [symmetric] a2_def [symmetric]
    using with_tracker_boards
    by (auto simp: bind_run_def settle_def on_engine_def split: sum.splits prod.splits)
       (metis settle_def sum.simps(5,6) case_prod_conv)+
  with a2 show ?thesis by simp
qed

text \<open>Property C40: a board announce pushed in a message is bound to nobody: whoever sends it, and whatever board it
  names, also one that this node owns or subscribes to with another key, the key in it is the one the node
  uses for that board from then on.\<close>

theorem pushed_announce_replaces_key:
  assumes "engine_reachable (ap_engine a)" and "ms_title m = ''retiboard.board_ann''" and "ms_content m = Some (JObj d)"
    and "validate_announce_fields d" and "from_announce_dict (en_now en) d = Inr b" and "b_key_material b \<noteq> []"
  shows "fst (get_key_material (b_board_id b) (ap_boards (deliver en m a))) = b_key_material b"
proof -
  obtain e where h: "hear en m a = Inr ((), a\<lparr>ap_engine := e\<rparr>)"
    using hear_ok [OF engine_reachable_ok [OF assms(1)]] by blast
  let ?b = "case truthy (ms_source m) of None \<Rightarrow> b | Some h \<Rightarrow> b\<lparr>b_peer_lxmf_hash := h\<rparr>"
  let ?r = "on_announce_received (en_net en) (en_now en) (en_home en) (b_board_id b) (resolve_source_identity m a) ?b (a\<lparr>ap_engine := e\<rparr>)"
  have b: "b_board_id ?b = b_board_id b" "b_key_material ?b = b_key_material b" by (simp_all split: option.split)
  have id: "get_board_id_from_announce d = JStr (b_board_id b)" using announced_id [OF assms(4,5)] by simp
  have "bm_keys (ap_boards (deliver en m a)) = bm_keys (ap_boards (settle ?r))"
    using assms(2-5) id
    by (simp add: deliver_def Let_def heard_def h on_board_announce_def settle_def on_boards_def split: sum.split)
  moreover have "dget (bm_keys (ap_boards (settle ?r))) (b_board_id b) = Some (b_key_material b)"
    using announce_keys [of "en_net en" "en_now en" "en_home en" ?b] unfolding b .
  ultimately show ?thesis using assms(6) by (simp add: get_key_material_def truthy_def)
qed

text \<open>A message from a stranger that renames the key of the board that \<open>app_owner\<close> owns.\<close>

definition forged :: message where
  "forged = \<lparr>ms_title = ''retiboard.board_ann'',
     ms_content = Some (JObj (to_announce_dict (sample_board\<lparr>b_key_material := ''evil''\<rparr>))),
     ms_source = Some (replicate 32 CHR ''c''), ms_identity = None\<rparr>"

definition env_a :: env where
  "env_a = \<lparr>en_net = good_net, en_now = 9, en_home = [''h''], en_sample = (\<lambda>_ ps. ps), en_decode = (\<lambda>_. Inr None),
     en_ident_hash = (\<lambda>s. s), en_low_bandwidth = False, en_max_payload = 1000\<rparr>"

lemma owner_engine: "ap_engine app_owner = engine_heard"
  using subscribe_run [OF app_a_fresh(1,2), of 7] by (auto simp: app_owner_def on_boards_def app_a_def)

theorem pushed_announce_replaces_key_witness:
  "fst (get_key_material ''b'' (ap_boards app_owner)) \<noteq> ''evil'' \<and> ''b'' \<in> set (bm_owned (ap_boards app_owner)) \<and>
   fst (get_key_material ''b'' (ap_boards (deliver env_a forged app_owner))) = ''evil''"
proof (intro conjI)
  show "fst (get_key_material ''b'' (ap_boards app_owner)) \<noteq> ''evil''" "''b'' \<in> set (bm_owned (ap_boards app_owner))"
    by code_simp+
  have "map_sum id (\<lambda>b. (b_board_id b, b_key_material b))
      (from_announce_dict 9 (to_announce_dict (sample_board\<lparr>b_key_material := ''evil''\<rparr>))) = Inr (''b'', ''evil'')" by code_simp
  then obtain b where b: "from_announce_dict 9 (to_announce_dict (sample_board\<lparr>b_key_material := ''evil''\<rparr>)) = Inr b"
    "b_board_id b = ''b''" "b_key_material b = ''evil''"
    by (cases "from_announce_dict 9 (to_announce_dict (sample_board\<lparr>b_key_material := ''evil''\<rparr>))") auto
  have "validate_announce_fields (to_announce_dict (sample_board\<lparr>b_key_material := ''evil''\<rparr>))" by code_simp
  with pushed_announce_replaces_key [of app_owner forged _ env_a b] b show
    "fst (get_key_material ''b'' (ap_boards (deliver env_a forged app_owner))) = ''evil''"
    using engine_heard_reachable by (simp add: owner_engine forged_def env_a_def)
qed

section \<open>A HAVE for an unknown board\<close>

lemma have_unsubscribed:
  assumes "dget d ''board_id'' = Some (JStr board)" and "\<not> is_board_subscribed home board (nd_fs n)"
    and "handle_have_announcement decode ih now home known (JObj d) fb src ident t n = Inr ((k, acts, t'), n')"
  shows "n' = n \<and> (acts = [] \<or> (\<exists>h. acts = [Push_announce h board]))"
proof -
  have d: "opt_str (dput ''active_threads'' ts d) ''board_id'' [] = Inr board" for ts
    using assms(1) by (simp add: optional_def dict_laws)
  show ?thesis
  proof (cases "parse_have (JObj d)")
    case (Inl x)
    with assms(3) show ?thesis by (simp add: handle_have_announcement_def)
  next
    case (Inr x)
    show ?thesis
    proof (cases x)
      case None
      with Inr assms(3) show ?thesis by (simp add: handle_have_announcement_def)
    next
      case (Some dd)
      with Inr d have "opt_str dd ''board_id'' [] = Inr board"
        by (auto simp: parse_have_def bindE_def split: option.splits sum.splits)
      with Inr Some assms(2,3) show ?thesis
        by (cases "board = []") (auto simp: handle_have_announcement_def split: option.splits sum.splits if_split_asm)
    qed
  qed
qed

text \<open>Also: a HAVE for a board that is neither subscribed nor known sends nothing, although the handler calls
  this requesting the announce: what it pushes is the announce it does not have.\<close>

theorem have_unknown_board_sends_nothing:
  assumes "engine_reachable (ap_engine a)" and "ms_title m = ''retiboard.have''" and "ms_content m = Some (JObj d)"
    and "dget d ''board_id'' = Some (JStr board)" and "\<not> is_board_subscribed (en_home en) board (nd_fs (ap_node a))"
    and "dget (bm_files (ap_boards a)) board = None" and "dget (bm_received (ap_boards a)) board = None"
  shows "eg_sent (ap_engine (deliver en m a)) = eg_sent (ap_engine a) \<and>
    eg_queue (ap_engine (deliver en m a)) = eg_queue (ap_engine a) \<and> ap_boards (deliver en m a) = ap_boards a"
proof -
  obtain e where h: "hear en m a = Inr ((), a\<lparr>ap_engine := e\<rparr>)"
    using hear_ok [OF engine_reachable_ok [OF assms(1)]] by blast
  then have e: "eg_sent e = eg_sent (ap_engine a)" "eg_queue e = eg_queue (ap_engine a)"
    by (auto simp: hear_def with_tracker_def on_engine_def on_tracker_def split: option.splits sum.splits dest!: arg_cong [of _ _ ap_engine])
  have push: "push_subscribed nt now x [board] c = c" if "ap_boards c = ap_boards a" for nt now x c
    using assms(6,7) that by (simp add: load_announce_cache_def)
  let ?a = "a\<lparr>ap_engine := e\<rparr>"
  let ?h = "handle_have_announcement (en_decode en) (en_ident_hash en) (en_now en) (en_home en)
      (map fst (bm_received (ap_boards ?a))) (JObj d) False (ms_source m) (resolve_source_identity m a) (eg_tracker e) (ap_node ?a)"
  have "deliver en m a = on_have en False (JObj d) (ms_source m) (resolve_source_identity m a) ?a"
    using assms(2,3) by (simp add: deliver_def Let_def heard_def h)
  moreover have "eg_sent (ap_engine (on_have en False (JObj d) (ms_source m) (resolve_source_identity m a) ?a)) = eg_sent e \<and>
      eg_queue (ap_engine (on_have en False (JObj d) (ms_source m) (resolve_source_identity m a) ?a)) = eg_queue e \<and>
      ap_boards (on_have en False (JObj d) (ms_source m) (resolve_source_identity m a) ?a) = ap_boards a"
  proof (cases ?h)
    case (Inl x)
    then show ?thesis by (cases x) (simp add: on_have_def)
  next
    case (Inr x)
    then obtain k acts t n where x: "?h = Inr ((k, acts, t), n)" by (cases x) auto
    from have_unsubscribed [OF assms(4) _ x] assms(5) consider "acts = []" | h' where "acts = [Push_announce h' board]" by auto
    then show ?thesis
      using x push by cases (simp_all add: on_have_def perform_def on_engine_def on_tracker_def)
  qed
  ultimately show ?thesis using e by simp
qed

theorem have_unknown_board_sends_nothing_witness:
  "eg_sent (ap_engine (deliver env_a
     \<lparr>ms_title = ''retiboard.have'', ms_content = Some (JObj [(''board_id'', JStr ''x''), (''active_threads'', JArr [])]),
      ms_source = Some hash_b, ms_identity = None\<rparr> app_a)) = eg_sent engine_heard"
proof -
  have "\<not> is_board_subscribed [''h''] ''x'' (nd_fs (ap_node app_a))" by code_simp
  with have_unknown_board_sends_nothing [of app_a "\<lparr>ms_title = ''retiboard.have'',
      ms_content = Some (JObj [(''board_id'', JStr ''x''), (''active_threads'', JArr [])]),
      ms_source = Some hash_b, ms_identity = None\<rparr>" _ "''x''" env_a]
  show ?thesis using engine_heard_reachable by (simp add: app_a_def env_a_def new_board_manager_def)
qed

end
