(* ===== verification/SyncSafe.thy ===== *)
theory SyncSafe
  imports DeliverySafe
begin

text \<open>
  Two nodes: a node that receives the answer to a delta request ends up with the sender's posts. The
  answer is built by the sender's model, carried as the message the receiver's callback gets, and
  stored post by post, each one forwarded on the way.
\<close>

section \<open>Inserting a post always has room\<close>

text \<open>A post without the three fields every node computes for itself.\<close>

definition body :: "post \<Rightarrow> post" where
  "body p = p\<lparr>p_expiry_timestamp := 0, p_thread_last_activity := 0, p_is_abandoned := False\<rparr>"

lemma body_keys [simp]:
  "p_post_id (body p) = p_post_id p" "p_timestamp (body p) = p_timestamp p" "body (received c p) = body p"
  by (simp_all add: body_def received_def)

definition bodies :: "board_db \<Rightarrow> post list" where
  "bodies db = map body (db_posts db)"

definition in_time :: "board_db \<Rightarrow> bool" where
  "in_time db \<longleftrightarrow> distinct (map p_post_id (db_posts db)) \<and>
     (\<forall>p \<in> set (db_posts db). - (2 ^ 61) \<le> p_timestamp p \<and> p_timestamp p \<le> 2 ^ 61)"

lemma in_time_bodies: "bodies db' = bodies db \<Longrightarrow> in_time db' \<longleftrightarrow> in_time db"
proof -
  assume b: "bodies db' = bodies db"
  have "map p_post_id (db_posts d) = map p_post_id (bodies d)" "p_timestamp ` set (db_posts d) = p_timestamp ` set (bodies d)" for d
    by (simp_all add: bodies_def comp_def image_image)
  then have "map p_post_id (db_posts db') = map p_post_id (db_posts db)"
    "p_timestamp ` set (db_posts db') = p_timestamp ` set (db_posts db)" using b by metis+
  then show ?thesis unfolding in_time_def by (metis (no_types, lifting) image_iff)
qed

lemma recompute_bodies:
  "recompute_lifecycle tid st bp db = Inr db' \<Longrightarrow> bodies db' = bodies db \<and> db_config db' = db_config db"
  by (auto simp: recompute_lifecycle_def set_expiry_def set_last_activity_def bodies_def body_def
      split: option.splits prod.splits if_splits)

lemma lifecycle_in_range:
  assumes "in_time db" and "0 \<le> st" and "st \<le> 2 ^ 61" and "0 \<le> bp" and "thread_lifecycle tid st bp (db_posts db) = Some (a, e)"
  shows "int64 e"
proof -
  let ?rows = "sort_key (\<lambda>p. (p_timestamp p, p_post_id p)) (thread_rows tid (db_posts db))"
  from assms(5) obtain op_row where "find (\<lambda>p. p_post_id p = tid) ?rows = Some op_row"
    by (auto simp: thread_lifecycle_def Let_def split: option.splits)
  from find_SomeD [OF this] have op: "op_row \<in> set (db_posts db)" "p_thread_id op_row = tid" "p_post_id op_row = tid"
    by (auto simp: thread_rows_def)
  have time: "- (2 ^ 61) \<le> p_timestamp p \<and> p_timestamp p \<le> 2 ^ 61" if "p \<in> set (db_posts db)" for p
    using assms(1) that by (simp add: in_time_def)
  from lifecycle_within_ttl [OF assms(5,4) op] assms(1) have b: "p_timestamp op_row + st \<le> e" "e \<le> a + st"
    "a = p_timestamp op_row \<or> (\<exists>r \<in> set (db_posts db). bumps tid r \<and> a = max (p_timestamp r) (p_timestamp op_row))"
    by (simp_all add: in_time_def)
  then have "a \<le> 2 ^ 61" using time op(1) by force
  with b(1,2) time [OF op(1)] assms(2,3) show ?thesis by (simp add: int64_def)
qed

lemma insert_room:
  assumes "post_bindable p" and "\<not> post_exists (p_post_id p) db" and "in_time (db\<lparr>db_posts := db_posts db @ [p]\<rparr>)"
    and "0 \<le> st" and "st \<le> 2 ^ 61" and "0 \<le> bp"
  obtains q db' where "insert_post (Some st) (Some bp) p db = Inr (q, db')" and "bodies db' = bodies db @ [body p]"
    and "in_time db'" and "db_config db' = db_config db"
proof -
  let ?db = "db\<lparr>db_posts := db_posts db @ [p]\<rparr>"
  obtain db' where r: "recompute_lifecycle (p_thread_id p) st bp ?db = Inr db'"
  proof (cases "thread_lifecycle (p_thread_id p) st bp (db_posts ?db)")
    case None
    with that show thesis by (simp add: recompute_lifecycle_def)
  next
    case (Some x)
    then obtain a e where x: "thread_lifecycle (p_thread_id p) st bp (db_posts ?db) = Some (a, e)" by (cases x) auto
    with lifecycle_in_range [OF assms(3-6) x] that show thesis by (simp add: recompute_lifecycle_def)
  qed
  from recompute_bodies [OF r] have b: "bodies db' = bodies ?db" "db_config db' = db_config db" by simp_all
  from r assms(1,2) obtain q where "insert_post (Some st) (Some bp) p db = Inr (q, db')"
    by (simp add: insert_post_def Let_def)
  moreover have "bodies db' = bodies db @ [body p]" using b(1) by (simp add: bodies_def)
  moreover have "in_time db'" using in_time_bodies [OF b(1)] assms(3) by simp
  ultimately show thesis using that b(2) by blast
qed

section \<open>A node that is ready to take the posts of a board\<close>

definition ready :: "int \<Rightarrow> path \<Rightarrow> string \<Rightarrow> board \<Rightarrow> peer_node \<Rightarrow> bool" where
  "ready now home board config n \<longleftrightarrow>
     serving home board config n \<and> in_time (bs_db (store_of n board)) \<and> 0 \<le> now \<and> now \<le> 2 ^ 60 \<and>
     0 \<le> b_default_ttl_seconds config \<and> b_default_ttl_seconds config \<le> 2 ^ 60 \<and> 0 \<le> b_bump_decay_rate config"

text \<open>A post of the sender: a row of its table that the receiver's rules accept.\<close>

definition offered :: "int \<Rightarrow> int \<Rightarrow> board \<Rightarrow> control_db \<Rightarrow> post \<Rightarrow> bool" where
  "offered now m config c p \<longleftrightarrow> acceptable now m config c p \<and> post_bindable p"

lemma received_bindable:
  assumes "offered now m config c p" and "0 \<le> now" "now \<le> 2 ^ 60" "0 \<le> b_default_ttl_seconds config" "b_default_ttl_seconds config \<le> 2 ^ 60"
  shows "post_bindable (received config p)"
  using assms by (auto simp: offered_def acceptable_def post_bindable_def received_def int64_def)

lemma room_for:
  assumes "in_time db" and "acceptable k m config c p" and "0 \<le> k" "k \<le> 2 ^ 60"
    and "0 \<le> b_default_ttl_seconds config" "b_default_ttl_seconds config \<le> 2 ^ 60"
    and "p_post_id p \<notin> p_post_id ` set (db_posts db)"
  shows "in_time (db\<lparr>db_posts := db_posts db @ [received config p]\<rparr>)"
proof -
  have "p_post_id (received config p) = p_post_id p" "p_timestamp (received config p) = p_timestamp p"
    by (simp_all add: received_def)
  moreover have "- (2 ^ 61) \<le> p_timestamp p" "p_timestamp p \<le> 2 ^ 61" using assms(2-6) by (simp_all add: acceptable_def)
  ultimately show ?thesis using assms(1,7) by (auto simp: in_time_def)
qed

lemma track_source_Some:
  assumes "track_source now board src ident (Some t) = Inr tr"
  shows "\<exists>t'. tr = Some t' \<and> (steady_table t \<longrightarrow> steady_table t')"
proof (cases "truthy src")
  case None
  with assms show ?thesis by (auto simp: track_source_def)
next
  case (Some h)
  with assms obtain b t' where "register_from_message now h (Some board) ident t = Inr (b, t')" "tr = Some t'"
    by (cases "register_from_message now h (Some board) ident t") (auto simp: track_source_def)
  then show ?thesis by (auto intro: steady_message)
qed

lemma step_ready:
  assumes "ready \<lfloor>now\<rfloor> home board config n" and "offered \<lfloor>now\<rfloor> m config (bs_control (store_of n board)) p"
    and "p_post_id p \<notin> p_post_id ` set (bodies (bs_db (store_of n board)))" and "tracker_inv t"
  obtains t' n' where "handle_incoming_metadata now home m (post_to_dict p) board src ident (Some t) n = Inr ((True, Some t'), n')"
    and "track_source now board src ident (Some t) = Inr (Some t')"
    and "ready \<lfloor>now\<rfloor> home board config n'" and "bodies (bs_db (store_of n' board)) = bodies (bs_db (store_of n board)) @ [body p]"
    and "bs_control (store_of n' board) = bs_control (store_of n board)"
proof -
  let ?db = "bs_db (store_of n board)" and ?q = "received config p"
  have srv: "serving home board config n" and db: "in_time ?db" and now: "0 \<le> \<lfloor>now\<rfloor>" "\<lfloor>now\<rfloor> \<le> 2 ^ 60"
    and ttl: "0 \<le> b_default_ttl_seconds config" "b_default_ttl_seconds config \<le> 2 ^ 60" "0 \<le> b_bump_decay_rate config"
    using assms(1) by (simp_all add: ready_def)
  have acc: "acceptable \<lfloor>now\<rfloor> m config (bs_control (store_of n board)) p" using assms(2) by (simp add: offered_def)
  have id: "p_post_id ?q = p_post_id p" by (simp add: received_def)
  have fresh: "p_post_id p \<notin> p_post_id ` set (db_posts ?db)" using assms(3) by (simp add: bodies_def image_image)
  then have new: "\<not> post_exists (p_post_id p) ?db" by (simp add: exists_ids)
  note room = room_for [OF db acc now ttl(1,2) fresh]
  have st: "b_default_ttl_seconds config \<le> 2 ^ 61" using ttl(2) by simp
  obtain q db' where ins: "insert_post (Some (b_default_ttl_seconds config)) (Some (b_bump_decay_rate config)) ?q ?db = Inr (q, db')"
    and b: "bodies db' = bodies ?db @ [body p]" and t: "in_time db'" and c: "db_config db' = db_config ?db"
    using insert_room [OF received_bindable [OF assms(2) now ttl(1,2)] _ room ttl(1) st ttl(3)] new by (auto simp: id)
  have tr: "pred_option tracker_inv (Some t)" using assms(4) by simp
  from honest_run [OF srv acc new ins tr, where src = src and ident = ident] obtain tr' where
    r: "track_source now board src ident (Some t) = Inr tr'"
    "handle_incoming_metadata now home m (post_to_dict p) board src ident (Some t) n =
      Inr ((True, tr'), put_store board ((store_of n board)\<lparr>bs_db := db'\<rparr>) n)" by blast
  from track_source_Some [OF r(1)] obtain t' where t': "tr' = Some t'" by blast
  have "ready \<lfloor>now\<rfloor> home board config (put_store board ((store_of n board)\<lparr>bs_db := db'\<rparr>) n)"
    using assms(1) t c by (simp add: ready_def serving_def store_of_put load_board_config_def)
  with r t' b show thesis
    by (intro that [of t' "put_store board ((store_of n board)\<lparr>bs_db := db'\<rparr>) n"]) (simp_all add: store_of_put)
qed

section \<open>The receiver's callback\<close>

lemma replicate_keeps:
  assumes "serving home board config n" and "engine_ok e"
    and "replicate_metadata nt now home p board src e n = r"
  obtains k e' where "r = Inr ((k, e'), n)" and "engine_ok e'"
proof -
  obtain k e2 where d: "dispatch nt now (metadata_bytes p board) (replication_peers now board src e) e = (k, e2)" by fastforce
  with dispatch_keeps(1) [OF assms(2), of nt now "metadata_bytes p board" "replication_peers now board src e"] have "engine_ok e2" by simp
  with that assms d show thesis
    by (auto simp: replicate_metadata_def serving_open [OF assms(1)] split: if_splits)
qed

lemma take_metadata_ready:
  assumes "ready \<lfloor>en_now en\<rfloor> (en_home en) board config (ap_node a)" and "engine_ok (ap_engine a)"
    and "offered \<lfloor>en_now en\<rfloor> (en_max_payload en) config (bs_control (store_of (ap_node a) board)) p"
    and "p_post_id p \<notin> p_post_id ` set (bodies (bs_db (store_of (ap_node a) board)))"
  obtains a' where "take_metadata en (post_to_dict p) board src ident a = Inr (True, a')"
    and "ready \<lfloor>en_now en\<rfloor> (en_home en) board config (ap_node a')" and "engine_ok (ap_engine a')"
    and "bodies (bs_db (store_of (ap_node a') board)) = bodies (bs_db (store_of (ap_node a) board)) @ [body p]"
    and "bs_control (store_of (ap_node a') board) = bs_control (store_of (ap_node a) board)"
proof -
  have steady: "steady_table (eg_tracker (ap_engine a))" by (rule engine_okD [OF assms(2)])
  obtain t n where h: "handle_incoming_metadata (en_now en) (en_home en) (en_max_payload en) (post_to_dict p) board src ident
      (Some (eg_tracker (ap_engine a))) (ap_node a) = Inr ((True, Some t), n)"
    and tr: "track_source (en_now en) board src ident (Some (eg_tracker (ap_engine a))) = Inr (Some t)"
    and n: "ready \<lfloor>en_now en\<rfloor> (en_home en) board config n"
      "bodies (bs_db (store_of n board)) = bodies (bs_db (store_of (ap_node a) board)) @ [body p]"
      "bs_control (store_of n board) = bs_control (store_of (ap_node a) board)"
    by (rule step_ready [OF assms(1,3,4) steady_inv [OF steady]])
  have "steady_table t" using track_source_Some [OF tr] steady by blast
  then have e1: "engine_ok (on_tracker (\<lambda>_. t) (ap_engine a))" by (intro engine_ok_tracker [OF assms(2)])
  have srv: "serving (en_home en) board config n" using n(1) by (simp add: ready_def)
  let ?e = "on_tracker (\<lambda>_. t) (ap_engine a)"
  show thesis
  proof (cases "eg_dest ?e = None \<or> stored_post (post_to_dict p) board n = None")
    case True
    with h have "take_metadata en (post_to_dict p) board src ident a = Inr (True, a\<lparr>ap_node := n, ap_engine := ?e\<rparr>)"
      by (auto simp: take_metadata_def Let_def on_engine_def)
    with that n e1 show thesis by simp
  next
    case False
    then obtain q where q: "stored_post (post_to_dict p) board n = Some q" by auto
    obtain k e' where r: "replicate_metadata (en_net en) (en_now en) (en_home en) q board src ?e n = Inr ((k, e'), n)"
      and e': "engine_ok e'"
      using replicate_keeps [OF srv e1 refl] by metis
    with h False q have "take_metadata en (post_to_dict p) board src ident a = Inr (True, a\<lparr>ap_node := n, ap_engine := e'\<rparr>)"
      by (simp add: take_metadata_def Let_def on_engine_def)
    with that n e' show thesis by simp
  qed
qed

lemma take_records_ready:
  assumes "ready \<lfloor>en_now en\<rfloor> (en_home en) board config (ap_node a)" and "engine_ok (ap_engine a)"
    and "\<forall>p \<in> set ps. offered \<lfloor>en_now en\<rfloor> (en_max_payload en) config (bs_control (store_of (ap_node a) board)) p \<and>
      p_post_id p \<notin> p_post_id ` set (bodies (bs_db (store_of (ap_node a) board)))"
    and "distinct (map p_post_id ps)"
  shows "\<exists>a'. take_records en board src (map (JObj \<circ> post_to_dict) ps) k a = Inr (k + length ps, a') \<and>
    bodies (bs_db (store_of (ap_node a') board)) = bodies (bs_db (store_of (ap_node a) board)) @ map body ps"
  using assms
proof (induction ps arbitrary: a k)
  case Nil
  then show ?case by simp
next
  case (Cons p ps)
  obtain a1 where t: "take_metadata en (post_to_dict p) board src None a = Inr (True, a1)"
    and r: "ready \<lfloor>en_now en\<rfloor> (en_home en) board config (ap_node a1)" "engine_ok (ap_engine a1)"
    and b: "bodies (bs_db (store_of (ap_node a1) board)) = bodies (bs_db (store_of (ap_node a) board)) @ [body p]"
      "bs_control (store_of (ap_node a1) board) = bs_control (store_of (ap_node a) board)"
    using take_metadata_ready [OF Cons.prems(1,2), of p src None] Cons.prems(3) by (metis list.set_intros(1))
  have "\<forall>q \<in> set ps. offered \<lfloor>en_now en\<rfloor> (en_max_payload en) config (bs_control (store_of (ap_node a1) board)) q \<and>
      p_post_id q \<notin> p_post_id ` set (bodies (bs_db (store_of (ap_node a1) board)))"
    using Cons.prems(3,4) by (auto simp: b image_Un) (metis imageI)
  from Cons.IH [OF r this, of "Suc k"] Cons.prems(4) t b(1) show ?case by auto
qed


definition sent_post :: post where
  "sent_post = sample_post ''n'' ''t'' ''i'' ''c'' []"

definition sender_node :: peer_node where
  "sender_node = put_store ''b'' ((store_of open_node ''b'')\<lparr>bs_db := (bs_db (store_of open_node ''b''))\<lparr>db_posts := [sent_post]\<rparr>\<rparr>) open_node"

definition receiver_app :: app where
  "receiver_app = app_a\<lparr>ap_node := open_node\<rparr>"

definition answer :: "delta_response \<Rightarrow> message" where
  "answer r = \<lparr>ms_title = ''retiboard.delta_res'', ms_content = Some (delta_response_json r),
     ms_source = Some hash_b, ms_identity = None\<rparr>"

lemma sender_facts:
  "map_sum (\<lambda>_. ()) (\<lambda>(r, _). dr_more r) (build_delta_response [''h''] ''b'' ''t'' 0 sender_node) = Inr False"
  "filter (\<lambda>p. md_allowed (should_replicate_post p (bs_control (store_of sender_node ''b''))))
     (delta_rows ''t'' 0 (bs_db (store_of sender_node ''b''))) = [sent_post]"
  "delta_rows ''t'' 0 (bs_db (store_of sender_node ''b'')) = [sent_post]"
  by code_simp+

lemma receiver_facts:
  "load_board_config (bs_db (store_of open_node ''b'')) = Some (sample_board\<lparr>b_key_material := [], b_peer_lxmf_hash := [], b_subscribed_at := 2\<rparr>)"
  "\<not> post_exists ''n'' (bs_db (store_of open_node ''b''))"
  "md_allowed (should_reject_post sent_post (bs_control (store_of open_node ''b'')))"
  "distinct (map p_post_id (db_posts (bs_db (store_of open_node ''b'')))) \<and>
   list_all (\<lambda>p. - (2 ^ 61) \<le> p_timestamp p \<and> p_timestamp p \<le> 2 ^ 61) (db_posts (bs_db (store_of open_node ''b'')))"
  "post_bindable sent_post"
  by code_simp+


end
