(* ===== verification/Fetch.thy ===== *)
theory Fetch
  imports Delivery SwarmSafe
begin

text \<open>
  Fetching and serving payloads (\<open>retiboard/sync/payload_fetch.py\<close>): the messages of the chunk protocol
  with their handlers, the chunks that arrive as Reticulum resources, and the rounds of the loop that
  drives a session's swarm. The fields of \<open>PendingChunkSession\<close> beyond those of the registry are the
  record \<open>live\<close>, kept by blob hash; events, locks and futures carry no state here. A request id is
  the decimal text of the number the swarm drew; \<open>ft_swarms\<close> counts the swarms that were built, and each draws from a
  block of \<open>2 ^ 64\<close> numbers of its own, so that ids are unique on the node as \<open>uuid4\<close> makes them. A pooled connection is opened at every use. What is
  handed to the sender threads is kept in order in \<open>ft_sends\<close>.
\<close>

section \<open>State\<close>

record live =
  lv_manifest :: "manifest option"
  lv_entries :: "manifest_entry list"
  lv_present :: "nat list option"
  lv_stored :: "nat list"
  lv_swarm :: "swarm option"
  lv_candidates :: "string list"
  lv_cancelled :: "string list"
  lv_pending_cancels :: "(string \<times> nat \<times> string) list"
  lv_interested :: "string list"
  lv_unavailable :: string
  lv_unavailable_by_peer :: "(string, string) dict"
  lv_paused :: bool
  lv_cancel_requested :: bool
  lv_finalized :: bool
  lv_failed :: bool
  lv_resumed :: bool
  lv_manual :: bool
  lv_running :: bool

definition new_live :: live where
  "new_live = \<lparr>lv_manifest = None, lv_entries = [], lv_present = None, lv_stored = [], lv_swarm = None,
     lv_candidates = [], lv_cancelled = [], lv_pending_cancels = [], lv_interested = [], lv_unavailable = [],
     lv_unavailable_by_peer = [], lv_paused = False, lv_cancel_requested = False, lv_finalized = False,
     lv_failed = False, lv_resumed = False, lv_manual = False, lv_running = False\<rparr>"

record resource_send =
  rs_identity :: string
  rs_data :: bytes
  rs_meta :: wire

record fetcher =
  ft_app :: app
  ft_live :: "(string, live) dict"
  ft_cancelled_out :: "string list"
  ft_sends :: "resource_send list"
  ft_swarms :: nat

definition on_app :: "(app \<Rightarrow> app) \<Rightarrow> fetcher \<Rightarrow> fetcher" where
  "on_app f x = x\<lparr>ft_app := f (ft_app x)\<rparr>"

definition node_of :: "fetcher \<Rightarrow> peer_node" where
  "node_of x = ap_node (ft_app x)"

definition set_node :: "peer_node \<Rightarrow> fetcher \<Rightarrow> fetcher" where
  "set_node n = on_app (\<lambda>a. a\<lparr>ap_node := n\<rparr>)"

definition on_files :: "(fs \<Rightarrow> 'a fs_result) \<Rightarrow> fetcher \<Rightarrow> ('a, fetcher) run" where
  "on_files f x = (case on_fs f (node_of x) of
     Inl (e, n) \<Rightarrow> Inl (e, set_node n x) | Inr (v, n) \<Rightarrow> Inr (v, set_node n x))"

definition connect :: "path \<Rightarrow> string \<Rightarrow> fetcher \<Rightarrow> (unit, fetcher) run" where
  "connect home board = on_files (open_board_db home board)"

definition chunks_of :: "string \<Rightarrow> fetcher \<Rightarrow> chunk_db" where
  "chunks_of board x = bs_chunks (store_of (node_of x) board)"

definition put_chunks :: "string \<Rightarrow> chunk_db \<Rightarrow> fetcher \<Rightarrow> fetcher" where
  "put_chunks board db x =
     set_node (put_store board ((store_of (node_of x) board)\<lparr>bs_chunks := db\<rparr>) (node_of x)) x"

definition save_rows :: "string \<Rightarrow> (chunk_db \<Rightarrow> py_error + chunk_db) \<Rightarrow> fetcher \<Rightarrow> (unit, fetcher) run" where
  "save_rows board f x = (case f (chunks_of board x) of
     Inl e \<Rightarrow> Inl (e, x) | Inr db \<Rightarrow> Inr ((), put_chunks board db x))"

definition on_scheduler :: "(scheduler \<Rightarrow> scheduler) \<Rightarrow> fetcher \<Rightarrow> fetcher" where
  "on_scheduler f x = set_node ((node_of x)\<lparr>nd_scheduler := f (nd_scheduler (node_of x))\<rparr>) x"

text \<open>A registered session with its live fields.\<close>

definition session_of :: "string \<Rightarrow> fetcher \<Rightarrow> (pending_session \<times> live) option" where
  "session_of h x =
     map_option (\<lambda>s. (s, dget_or (ft_live x) h new_live))
       (get_pending_chunk_session_by_blob h (nd_registry (node_of x)))"

definition put_live :: "string \<Rightarrow> live \<Rightarrow> fetcher \<Rightarrow> fetcher" where
  "put_live h l x = x\<lparr>ft_live := dput h l (ft_live x)\<rparr>"

definition on_live :: "string \<Rightarrow> (live \<Rightarrow> live) \<Rightarrow> fetcher \<Rightarrow> fetcher" where
  "on_live h f x = (case session_of h x of None \<Rightarrow> x | Some (s, l) \<Rightarrow> put_live h (f l) x)"

definition on_session :: "string \<Rightarrow> (pending_session \<Rightarrow> pending_session) \<Rightarrow> fetcher \<Rightarrow> fetcher" where
  "on_session h f x =
     (case (dget (rg_by_blob (nd_registry (node_of x))) h, session_of h x) of
        (Some sid, Some (s, _)) \<Rightarrow>
          set_node ((node_of x)\<lparr>nd_registry := (nd_registry (node_of x))
            \<lparr>rg_sessions := dput sid (f s) (rg_sessions (nd_registry (node_of x)))\<rparr>\<rparr>) x
      | _ \<Rightarrow> x)"

definition fail_pending_chunk_session :: "string \<Rightarrow> fetcher \<Rightarrow> fetcher" where
  "fail_pending_chunk_session h = on_live h (\<lambda>l. l\<lparr>lv_failed := True\<rparr>)"

definition request_text :: "nat \<Rightarrow> string" where
  "request_text n = digits10 n"

section \<open>Values of a message\<close>

text \<open>\<open>str(d.get(k, ""))\<close>; the text of a list or an object, which names nothing, is written as JSON.\<close>

definition str_field :: "wire \<Rightarrow> string \<Rightarrow> string" where
  "str_field d k = (case dget d k of
     None \<Rightarrow> []
   | Some v \<Rightarrow> (case v of
       JStr s \<Rightarrow> s | JNull \<Rightarrow> ''None'' | JBool b \<Rightarrow> if b then ''True'' else ''False'' | _ \<Rightarrow> dumps False v))"

definition py_int :: "json \<Rightarrow> py_error + int" where
  "py_int v = (case v of
     JInt i \<Rightarrow> Inr i | JBool b \<Rightarrow> Inr (if b then 1 else 0) | JStr s \<Rightarrow> int_of_str s | _ \<Rightarrow> Inl TypeError)"

definition int_field :: "wire \<Rightarrow> string \<Rightarrow> int \<Rightarrow> py_error + int" where
  "int_field d k dflt = (case dget d k of None \<Rightarrow> Inr dflt | Some v \<Rightarrow> py_int v)"

definition sender_of :: "message \<Rightarrow> string" where
  "sender_of m = (case ms_source m of None \<Rightarrow> ''None'' | Some h \<Rightarrow> h)"

section \<open>Sizes, timeouts and ranges\<close>

definition choose_chunk_size :: "nat \<Rightarrow> int" where
  "choose_chunk_size n =
     (if n = 0 then 256 * 1024 else if n < 64 * 1024 then 32 * 1024
      else if n < 512 * 1024 then 64 * 1024 else 256 * 1024)"

definition next_chunk_timeout :: "nat \<Rightarrow> bool \<Rightarrow> time" where
  "next_chunk_timeout expected low = min 600 (max (if low then 90 else 15) (of_nat expected / 131072))"

definition estimate_fetch_timeout :: "int option \<Rightarrow> time option \<Rightarrow> time" where
  "estimate_fetch_timeout expected base =
     (let lo = (case base of None \<Rightarrow> 300 | Some b \<Rightarrow> if b \<le> 0 then 300 else max b 120)
      in case expected of
           None \<Rightarrow> min 3600 lo
         | Some n \<Rightarrow> if n \<le> 0 then min 3600 lo else min 3600 (max lo (of_int n / 131072)))"

fun runs_from :: "nat \<Rightarrow> nat \<Rightarrow> nat list \<Rightarrow> (int \<times> int) list" where
  "runs_from start prev [] = [(int start, int prev)]"
| "runs_from start prev (i # is) =
     (if i = Suc prev then runs_from start i is else (int start, int prev) # runs_from i i is)"

definition compress_chunk_indexes :: "nat list \<Rightarrow> (int \<times> int) list" where
  "compress_chunk_indexes xs = (case sort (remdups xs) of [] \<Rightarrow> [] | i # is \<Rightarrow> runs_from i i is)"

definition full_chunk_ranges :: "nat \<Rightarrow> (int \<times> int) list" where
  "full_chunk_ranges n = (if n > 0 then [(0, int n - 1)] else [])"

section \<open>Messages sent\<close>

definition transmit :: "env \<Rightarrow> string \<Rightarrow> json \<Rightarrow> string \<Rightarrow> fetcher \<Rightarrow> fetcher" where
  "transmit en h v title =
     on_app (on_engine (\<lambda>e. snd (send_lxmf (en_net en) (en_now en) h (utf8 (dumps False v)) title CONTROL e)))"

definition range_json :: "int \<times> int \<Rightarrow> json" where
  "range_json r = JArr [JInt (fst r), JInt (snd r)]"

definition send_chunk_offer ::
  "env \<Rightarrow> string \<Rightarrow> string \<Rightarrow> string \<Rightarrow> nat \<Rightarrow> bool \<Rightarrow> (int \<times> int) list \<Rightarrow> fetcher \<Rightarrow> fetcher" where
  "send_chunk_offer en h board blob cnt whole ranges =
     transmit en h (JObj [(''board_id'', JStr board), (''blob_hash'', JStr blob), (''chunk_count'', JInt (int cnt)),
                          (''complete'', JBool whole), (''ranges'', JArr (map range_json ranges))])
       ''retiboard.chunk_offer''"

definition send_manifest_unavailable :: "env \<Rightarrow> string \<Rightarrow> string \<Rightarrow> string \<Rightarrow> string \<Rightarrow> fetcher \<Rightarrow> fetcher" where
  "send_manifest_unavailable en h board blob reason =
     transmit en h (JObj [(''board_id'', JStr board), (''blob_hash'', JStr blob), (''reason'', JStr reason)])
       ''retiboard.chunk_manifest_unav''"

definition request_json :: "string \<Rightarrow> string \<Rightarrow> nat \<Rightarrow> string \<Rightarrow> json" where
  "request_json board blob i rid =
     JObj [(''board_id'', JStr board), (''blob_hash'', JStr blob), (''chunk_index'', JInt (int i)), (''request_id'', JStr rid)]"

fun drain_cancels :: "env \<Rightarrow> string \<Rightarrow> string \<Rightarrow> (string \<times> nat \<times> string) list \<Rightarrow> fetcher \<Rightarrow> fetcher" where
  "drain_cancels en board blob [] x = x"
| "drain_cancels en board blob ((peer, i, rid) # cs) x =
     drain_cancels en board blob cs (transmit en peer (request_json board blob i rid) ''retiboard.chunk_cancel'' x)"

definition drain_pending_chunk_cancels :: "env \<Rightarrow> string \<Rightarrow> fetcher \<Rightarrow> fetcher" where
  "drain_pending_chunk_cancels en h x =
     (case session_of h x of
        None \<Rightarrow> x
      | Some (s, l) \<Rightarrow>
          drain_cancels en (pe_board_id s) h (lv_pending_cancels l) (put_live h (l\<lparr>lv_pending_cancels := []\<rparr>) x))"

text \<open>The update that progress sends to the peers that asked; the debounce only delays it.\<close>

definition send_incremental_chunk_offer :: "env \<Rightarrow> string \<Rightarrow> fetcher \<Rightarrow> fetcher" where
  "send_incremental_chunk_offer en h x =
     (case session_of h x of
        None \<Rightarrow> x
      | Some (s, l) \<Rightarrow>
          (case lv_manifest l of
             None \<Rightarrow> x
           | Some mf \<Rightarrow>
               (if lv_paused l \<or> lv_cancel_requested l then x
                else fold (\<lambda>p. send_chunk_offer en p (pe_board_id s) h (mf_chunk_count mf)
                                 (mf_chunk_count mf > 0 \<and> length (lv_stored l) \<ge> mf_chunk_count mf)
                                 (compress_chunk_indexes (lv_stored l)))
                       (sort (lv_interested l)) x)))"

definition track_interested_peer :: "string \<Rightarrow> string \<Rightarrow> fetcher \<Rightarrow> fetcher" where
  "track_interested_peer h peer x =
     (if peer = [] then x else on_live h (\<lambda>l. l\<lparr>lv_interested := set_add peer (lv_interested l)\<rparr>) x)"

section \<open>Serving\<close>

definition enqueue_send :: "string \<Rightarrow> bytes \<Rightarrow> wire \<Rightarrow> fetcher \<Rightarrow> fetcher" where
  "enqueue_send ident data meta x =
     x\<lparr>ft_sends := ft_sends x @ [\<lparr>rs_identity = ident, rs_data = data, rs_meta = meta\<rparr>]\<rparr>"

definition serve_decision :: "string \<Rightarrow> string \<Rightarrow> fetcher \<Rightarrow> moderation_decision" where
  "serve_decision board h x =
     should_serve_blob h (bs_db (store_of (node_of x) board)) (bs_control (store_of (node_of x) board))"

definition blob_ref :: "string \<Rightarrow> string \<Rightarrow> fetcher \<Rightarrow> blob_reference option" where
  "blob_ref board h x = get_blob_reference h (bs_db (store_of (node_of x) board))"

definition read_blob :: "path \<Rightarrow> string \<Rightarrow> string \<Rightarrow> fetcher \<Rightarrow> (bytes option, fetcher) run" where
  "read_blob home board h x = (case read_payload home board h (nd_fs (node_of x)) of Inl e \<Rightarrow> Inl (e, x) | Inr r \<Rightarrow> Inr (r, x))"

definition has_blob :: "path \<Rightarrow> string \<Rightarrow> string \<Rightarrow> fetcher \<Rightarrow> bool" where
  "has_blob home board h x = payload_exists home board h (nd_fs (node_of x))"

definition store_manifest :: "string \<Rightarrow> manifest \<times> manifest_entry list \<Rightarrow> int \<Rightarrow> fetcher \<Rightarrow> (unit, fetcher) run" where
  "store_manifest board r expires x =
     (case save_chunk_manifest (fst r) (snd r) expires (chunks_of board x) of
        Inl (e, db) \<Rightarrow> Inl (e, put_chunks board db x)
      | Inr db \<Rightarrow> Inr ((), put_chunks board db x))"

text \<open>The manifest of a stored blob, built and saved; the two callers differ in what they take for the
  expiry: the offer asks the reference for a key it does not have.\<close>

definition make_manifest ::
  "time \<Rightarrow> string \<Rightarrow> blob_reference \<Rightarrow> bytes \<Rightarrow> int \<Rightarrow> fetcher \<Rightarrow> (manifest \<times> manifest_entry list, fetcher) run" where
  "make_manifest now board ref blob expires x =
     (case build_chunk_manifest board (br_post_id ref) (br_thread_id ref)
             (if br_attachment ref then Attachments else Text) blob (choose_chunk_size (length blob)) 1 None \<lfloor>now\<rfloor> of
        Inl e \<Rightarrow> Inl (e, x)
      | Inr r \<Rightarrow> bind_run (store_manifest board r expires x) (\<lambda>_ x1. Inr (r, x1)))"

type_synonym local_offer = "(manifest \<times> manifest_entry list) \<times> (int \<times> int) list \<times> bool"

definition whole_offer :: "manifest \<times> manifest_entry list \<Rightarrow> local_offer" where
  "whole_offer r = (r, full_chunk_ranges (mf_chunk_count (fst r)), True)"

definition get_local_chunk_offer :: "env \<Rightarrow> string \<Rightarrow> string \<Rightarrow> fetcher \<Rightarrow> (local_offer option, fetcher) run" where
  "get_local_chunk_offer en board h x =
     (case Option.bind (session_of h x) (\<lambda>(s, l). map_option (\<lambda>mf. (mf, l)) (lv_manifest l)) of
        Some (mf, l) \<Rightarrow>
          Inr (Some ((mf, lv_entries l), compress_chunk_indexes (lv_stored l),
                     mf_chunk_count mf > 0 \<and> length (lv_stored l) \<ge> mf_chunk_count mf), x)
      | None \<Rightarrow>
          bind_run (connect (en_home en) board x) (\<lambda>_ x1.
            if \<not> md_allowed (serve_decision board h x1) then Inr (None, x1)
            else if \<not> has_blob (en_home en) board h x1 then Inr (None, x1)
            else (case load_chunk_manifest h (chunks_of board x1) of
                    Some r \<Rightarrow> Inr (Some (whole_offer r), x1)
                  | None \<Rightarrow>
                      (case blob_ref board h x1 of
                         None \<Rightarrow> Inr (None, x1)
                       | Some ref \<Rightarrow>
                           bind_run (read_blob (en_home en) board h x1) (\<lambda>b x2.
                             (case b of
                                None \<Rightarrow> Inr (None, x2)
                              | Some blob \<Rightarrow>
                                  bind_run (make_manifest (en_now en) board ref blob 0 x2) (\<lambda>r x3.
                                    Inr (Some (whole_offer r), x3))))))))"

definition kind_text :: "blob_kind \<Rightarrow> string" where
  "kind_text k = (case k of Text \<Rightarrow> ''text'' | Attachments \<Rightarrow> ''attachments'')"

definition kind_of_text :: "string \<Rightarrow> blob_kind option" where
  "kind_of_text s = (if s = ''text'' then Some Text else if s = ''attachments'' then Some Attachments else None)"

definition entry_json :: "manifest_entry \<Rightarrow> json" where
  "entry_json e =
     JObj [(''blob_hash'', JStr (me_blob_hash e)), (''chunk_index'', JInt (int (me_chunk_index e))),
           (''offset'', JInt (int (me_offset e))), (''size'', JInt (int (me_size e))), (''chunk_hash'', JStr (me_chunk_hash e))]"

definition manifest_json :: "manifest \<Rightarrow> manifest_entry list \<Rightarrow> wire" where
  "manifest_json mf es =
     [(''board_id'', JStr (mf_board_id mf)), (''blob_hash'', JStr (mf_blob_hash mf)),
      (''blob_size'', JInt (int (mf_blob_size mf))), (''chunk_size'', JInt (mf_chunk_size mf)),
      (''chunk_count'', JInt (int (mf_chunk_count mf))),
      (''merkle_root'', (case mf_merkle_root mf of None \<Rightarrow> JNull | Some r \<Rightarrow> JStr r)),
      (''blob_kind'', JStr (kind_text (mf_blob_kind mf))), (''entries'', JArr (map entry_json es))]"

definition handle_manifest_request :: "env \<Rightarrow> message \<Rightarrow> string option \<Rightarrow> wire \<Rightarrow> fetcher \<Rightarrow> (unit, fetcher) run" where
  "handle_manifest_request en m ident d x =
     (let board = str_field d ''board_id''; h = str_field d ''blob_hash''; peer = sender_of m
      in if board = [] \<or> h = [] \<or> ident = None then Inr ((), x)
         else
           (let x1 = send_incremental_chunk_offer en h (track_interested_peer h peer x)
            in bind_run (connect (en_home en) board x1) (\<lambda>_ x2.
                 if \<not> md_allowed (serve_decision board h x2)
                 then Inr ((), send_manifest_unavailable en peer board h
                        (case md_reason (serve_decision board h x2) of Some r \<Rightarrow> r | None \<Rightarrow> ''withheld_local_policy'') x2)
                 else bind_run (get_local_chunk_offer en board h x2) (\<lambda>r x3.
                        (case r of
                           None \<Rightarrow> Inr ((), send_manifest_unavailable en peer board h
                                     (if blob_ref board h x2 = None then ''not_found'' else ''pruned'') x3)
                         | Some ((mf, es), ranges, whole) \<Rightarrow>
                             Inr ((), send_chunk_offer en peer board h (mf_chunk_count mf) whole ranges
                                    (transmit en peer (JObj (manifest_json mf es)) ''retiboard.chunk_manifest_res'' x3)))))))"

text \<open>A chunk of a session in progress, only after its bytes were checked again.\<close>

definition assembly_of :: "path \<Rightarrow> string \<Rightarrow> string \<Rightarrow> live \<Rightarrow> fs \<Rightarrow> assembly" where
  "assembly_of home board h l f =
     \<lparr>as_temp = (case resolved f (chunk_assembly_path home board h) of Some (_, File b) \<Rightarrow> Some b | _ \<Rightarrow> None),
      as_blob_size = (case lv_manifest l of None \<Rightarrow> 0 | Some mf \<Rightarrow> mf_blob_size mf),
      as_chunk_count = (case lv_manifest l of None \<Rightarrow> 0 | Some mf \<Rightarrow> mf_chunk_count mf),
      as_present = (case lv_present l of None \<Rightarrow> [] | Some p \<Rightarrow> p)\<rparr>"

definition read_live_verified_chunk :: "path \<Rightarrow> string \<Rightarrow> string \<Rightarrow> nat \<Rightarrow> fetcher \<Rightarrow> (manifest \<times> bytes) option" where
  "read_live_verified_chunk home board h i x =
     (case session_of h x of
        None \<Rightarrow> None
      | Some (s, l) \<Rightarrow>
          (if pe_board_id s \<noteq> board \<or> lv_paused l \<or> lv_cancel_requested l \<or> lv_present l = None \<or> i \<notin> set (lv_stored l)
           then None
           else (case (lv_manifest l, dget (entries_by_index (rev (lv_entries l))) i) of
                   (Some mf, Some e) \<Rightarrow>
                     (case read_chunk (me_offset e) (me_size e) (assembly_of home board h l (nd_fs (node_of x))) of
                        None \<Rightarrow> None
                      | Some data \<Rightarrow> if sha256_hex data \<noteq> me_chunk_hash e then None else Some (mf, data))
                 | _ \<Rightarrow> None)))"

definition chunk_meta :: "env \<Rightarrow> string \<Rightarrow> string \<Rightarrow> nat \<Rightarrow> string \<Rightarrow> string \<Rightarrow> fetcher \<Rightarrow> wire" where
  "chunk_meta en board h i rid peer x =
     [(''board_id'', JStr board), (''blob_hash'', JStr h), (''chunk_index'', JInt (int i)), (''request_id'', JStr rid),
      (''peer_lxmf_hash'', JStr (case truthy (eg_dest (ap_engine (ft_app x))) of Some q \<Rightarrow> q | None \<Rightarrow> peer))]"

definition serve_stored_chunk ::
  "env \<Rightarrow> string \<Rightarrow> string \<Rightarrow> string \<Rightarrow> nat \<Rightarrow> string \<Rightarrow> string \<Rightarrow> manifest \<times> manifest_entry list \<Rightarrow> fetcher \<Rightarrow>
     (unit, fetcher) run" where
  "serve_stored_chunk en board h peer i rid ident r x =
     (if i \<ge> length (snd r) then Inr ((), x)
      else bind_run (read_blob (en_home en) board h x) (\<lambda>b x1.
             (case b of
                None \<Rightarrow> Inr ((), x1)
              | Some blob \<Rightarrow>
                  (let e = snd r ! i;
                       x2 = send_chunk_offer en peer board h (mf_chunk_count (fst r)) True
                              (full_chunk_ranges (mf_chunk_count (fst r))) x1
                   in Inr ((), enqueue_send ident (take (me_size e) (drop (me_offset e) blob))
                                 (chunk_meta en board h i rid peer x2) x2)))))"

text \<open>After the connection: a verified chunk of the session, else one of the stored blob.\<close>

definition serve_chunk ::
  "env \<Rightarrow> string \<Rightarrow> string \<Rightarrow> string \<Rightarrow> nat \<Rightarrow> string \<Rightarrow> string \<Rightarrow> fetcher \<Rightarrow> (unit, fetcher) run" where
  "serve_chunk en board h peer i rid who x =
     (case read_live_verified_chunk (en_home en) board h i x of
        Some (mf, data) \<Rightarrow>
          (let stored = (case session_of h x of None \<Rightarrow> [] | Some (s, l) \<Rightarrow> lv_stored l);
               x1 = send_chunk_offer en peer board h (mf_chunk_count mf)
                      (mf_chunk_count mf > 0 \<and> length stored \<ge> mf_chunk_count mf) (compress_chunk_indexes stored) x
           in Inr ((), enqueue_send who data (chunk_meta en board h i rid peer x1) x1))
      | None \<Rightarrow>
          (case load_chunk_manifest h (chunks_of board x) of
             Some r \<Rightarrow> serve_stored_chunk en board h peer i rid who r x
           | None \<Rightarrow>
               bind_run (read_blob (en_home en) board h x) (\<lambda>b x1.
                 (case (blob_ref board h x1, b) of
                    (Some ref, Some blob) \<Rightarrow>
                      bind_run (make_manifest (en_now en) board ref blob (br_expiry_timestamp ref) x1)
                        (\<lambda>r x2. serve_stored_chunk en board h peer i rid who r x2)
                  | _ \<Rightarrow> Inr ((), x1)))))"

definition handle_chunk_request :: "env \<Rightarrow> message \<Rightarrow> string option \<Rightarrow> wire \<Rightarrow> fetcher \<Rightarrow> (unit, fetcher) run" where
  "handle_chunk_request en m ident d x =
     (let board = str_field d ''board_id''; h = str_field d ''blob_hash''; rid = str_field d ''request_id''; peer = sender_of m
      in case (int_field d ''chunk_index'' (- 1), ident) of
           (Inl e, _) \<Rightarrow> Inl (e, x)
         | (_, None) \<Rightarrow> Inr ((), x)
         | (Inr ci, Some who) \<Rightarrow>
             (if board = [] \<or> h = [] \<or> rid = [] \<or> ci < 0 then Inr ((), x)
              else bind_run (connect (en_home en) board (track_interested_peer h peer x)) (\<lambda>_ x1.
                     if \<not> md_allowed (serve_decision board h x1) then Inr ((), x1)
                     else serve_chunk en board h peer (nat ci) rid who x1)))"

definition handle_payload_request :: "env \<Rightarrow> string option \<Rightarrow> wire \<Rightarrow> fetcher \<Rightarrow> (unit, fetcher) run" where
  "handle_payload_request en ident d x =
     (case (opt_str d ''content_hash'' [], opt_str d ''board_id'' []) of
        (Inr h, Inr board) \<Rightarrow>
          (case ident of
             None \<Rightarrow> Inr ((), x)
           | Some who \<Rightarrow>
               (if h = [] \<or> board = [] then Inr ((), x)
                else bind_run (connect (en_home en) board x) (\<lambda>_ x1.
                  if \<not> md_allowed (serve_decision board h x1) then Inr ((), x1)
                  else bind_run (read_blob (en_home en) board h x1) (\<lambda>b x2.
                    (case b of
                       None \<Rightarrow> Inr ((), x2)
                     | Some blob \<Rightarrow>
                         Inr ((), enqueue_send who blob [(''content_hash'', JStr h), (''board_id'', JStr board)] x2))))))
      | (Inl e, _) \<Rightarrow> Inl (e, x)
      | (_, Inl e) \<Rightarrow> Inl (e, x))"

definition handle_chunk_cancel :: "wire \<Rightarrow> fetcher \<Rightarrow> fetcher" where
  "handle_chunk_cancel d x =
     (let rid = str_field d ''request_id''
      in if rid = [] then x else x\<lparr>ft_cancelled_out := set_add rid (ft_cancelled_out x)\<rparr>)"

section \<open>What the serving peers answer\<close>

definition persist_peer_chunk_offer ::
  "env \<Rightarrow> string \<Rightarrow> string \<Rightarrow> string \<Rightarrow> int \<Rightarrow> bool \<Rightarrow> (int \<times> int) list \<Rightarrow> fetcher \<Rightarrow> (unit, fetcher) run" where
  "persist_peer_chunk_offer en board peer h cnt whole ranges x =
     bind_run (connect (en_home en) board x) (\<lambda>_ x1.
       save_rows board (upsert_peer_chunk_availability \<lfloor>en_now en\<rfloor> board peer h cnt whole ranges None) x1)"

definition nat_field :: "wire \<Rightarrow> string \<Rightarrow> json \<Rightarrow> py_error + nat" where
  "nat_field d k dflt = bindE (py_int (dget_or d k dflt)) (\<lambda>i. if i < 0 then Inl ValueError else Inr (nat i))"

definition read_entry :: "json \<Rightarrow> py_error + manifest_entry" where
  "read_entry v =
     bindE (as_obj v) (\<lambda>d.
     if dget d ''blob_hash'' = None \<or> dget d ''chunk_hash'' = None then Inl KeyError
     else bindE (nat_field d ''chunk_index'' JNull) (\<lambda>i.
          bindE (nat_field d ''offset'' JNull) (\<lambda>off.
          bindE (nat_field d ''size'' JNull) (\<lambda>sz.
          Inr \<lparr>me_blob_hash = str_field d ''blob_hash'', me_chunk_index = i, me_offset = off, me_size = sz,
               me_chunk_hash = str_field d ''chunk_hash''\<rparr>))))"

fun read_entries :: "json list \<Rightarrow> py_error + manifest_entry list" where
  "read_entries [] = Inr []"
| "read_entries (v # vs) = bindE (read_entry v) (\<lambda>e. bindE (read_entries vs) (\<lambda>es. Inr (e # es)))"

text \<open>A manifest with a negative number, another kind of blob or a root that is not a string is outside
  the model; here the handler ends on it.\<close>

definition read_manifest :: "time \<Rightarrow> string \<Rightarrow> string \<Rightarrow> string \<Rightarrow> wire \<Rightarrow> py_error + manifest \<times> manifest_entry list" where
  "read_manifest now board h kind d =
     bindE (items_of (dget_or d ''entries'' (JArr []))) (\<lambda>vs.
     bindE (read_entries vs) (\<lambda>es.
     bindE (nat_field d ''blob_size'' (JInt 0)) (\<lambda>bs.
     bindE (int_field d ''chunk_size'' 0) (\<lambda>cs.
     bindE (nat_field d ''chunk_count'' (JInt 0)) (\<lambda>cc.
     (case (kind_of_text (if dget d ''blob_kind'' = None then str_or kind ''text'' else str_field d ''blob_kind''),
            dget_or d ''merkle_root'' JNull) of
        (Some k, JNull) \<Rightarrow>
          Inr (\<lparr>mf_manifest_version = 1, mf_board_id = board, mf_post_id = [], mf_thread_id = [], mf_blob_kind = k,
                mf_blob_hash = h, mf_blob_size = bs, mf_chunk_size = cs, mf_chunk_count = cc, mf_merkle_root = None,
                mf_created_at = \<lfloor>now\<rfloor>\<rparr>, es)
      | (Some k, JStr rt) \<Rightarrow>
          Inr (\<lparr>mf_manifest_version = 1, mf_board_id = board, mf_post_id = [], mf_thread_id = [], mf_blob_kind = k,
                mf_blob_hash = h, mf_blob_size = bs, mf_chunk_size = cs, mf_chunk_count = cc, mf_merkle_root = Some rt,
                mf_created_at = \<lfloor>now\<rfloor>\<rparr>, es)
      | _ \<Rightarrow> Inl IntegrityError))))))"

text \<open>\<open>ReassemblyBuffer.reserve\<close>: the file of zeros, its directory first.\<close>

definition reserve_file :: "path \<Rightarrow> string \<Rightarrow> string \<Rightarrow> nat \<Rightarrow> fs \<Rightarrow> unit fs_result" where
  "reserve_file home board h n f =
     (case make_dirs f [] (chunk_cache_dir home board h) of
        Inl e \<Rightarrow> Inl e
      | Inr (_, f1) \<Rightarrow> write_bytes (chunk_assembly_path home board h) (replicate n 0) f1)"

definition session_row :: "int \<Rightarrow> pending_session \<Rightarrow> blob_kind \<Rightarrow> string \<Rightarrow> chunk_session" where
  "session_row now s k st =
     \<lparr>se_session_id = pe_session_id s, se_board_id = pe_board_id s, se_blob_hash = pe_blob_hash s, se_blob_kind = k,
      se_state = st, se_started_at = now, se_updated_at = now, se_expires_at = 0, se_request_peer = pe_assigned_peer s\<rparr>"

definition handle_manifest_response :: "env \<Rightarrow> message \<Rightarrow> wire \<Rightarrow> fetcher \<Rightarrow> (unit, fetcher) run" where
  "handle_manifest_response en m d x =
     (let h = str_field d ''blob_hash''; board = str_field d ''board_id''; peer = sender_of m; now = \<lfloor>en_now en\<rfloor>
      in case session_of h x of
           None \<Rightarrow> Inr ((), x)
         | Some (s, l) \<Rightarrow>
             (if pe_board_id s \<noteq> board then Inr ((), x)
              else (case read_manifest (en_now en) board h (pe_blob_kind s) d of
                      Inl e \<Rightarrow> Inl (e, x)
                    | Inr (mf, es) \<Rightarrow>
                        (let offer = persist_peer_chunk_offer en board peer h (int (mf_chunk_count mf)) True
                                       (full_chunk_ranges (mf_chunk_count mf))
                         in if int (mf_blob_size mf) > en_max_payload en then Inr ((), fail_pending_chunk_session h x)
                            else if lv_manifest l \<noteq> None then offer x
                            else bind_run (on_files (reserve_file (en_home en) board h (mf_blob_size mf)) x) (\<lambda>_ x1.
                                 bind_run (connect (en_home en) board
                                   (put_live h (l\<lparr>lv_manifest := Some mf, lv_entries := es, lv_present := Some []\<rparr>) x1)) (\<lambda>_ x2.
                                 bind_run (store_manifest board (mf, es)
                                   (case blob_ref board h x2 of None \<Rightarrow> 0 | Some r \<Rightarrow> br_expiry_timestamp r) x2) (\<lambda>_ x3.
                                 bind_run (offer x3) (\<lambda>_ x4.
                                   save_rows board (save_chunk_fetch_session
                                     (case load_chunk_fetch_session (pe_session_id s) (chunks_of board x4) of
                                        None \<Rightarrow> session_row now s (mf_blob_kind mf) ''manifest_received''
                                      | Some r \<Rightarrow> r\<lparr>se_state := ''manifest_received'', se_updated_at := now\<rparr>)) x4))))))))"

definition handle_manifest_unavailable :: "message \<Rightarrow> wire \<Rightarrow> fetcher \<Rightarrow> fetcher" where
  "handle_manifest_unavailable m d x =
     (let h = str_field d ''blob_hash''; peer = sender_of m;
          reason = (if dget d ''reason'' = None then ''not_found'' else str_field d ''reason'')
      in case session_of h x of
           None \<Rightarrow> x
         | Some (s, l) \<Rightarrow>
             (if lv_manifest l \<noteq> None then x
              else (let l1 = (if peer = [] then l
                              else l\<lparr>lv_unavailable_by_peer := dput peer reason (lv_unavailable_by_peer l)\<rparr>)
                    in if reason = ''abandoned'' \<or> reason = ''policy_rejected''
                       then fail_pending_chunk_session h (put_live h (l1\<lparr>lv_unavailable := reason\<rparr>) x)
                       else put_live h l1 x)))"

fun read_ranges :: "json list \<Rightarrow> py_error + (int \<times> int) list" where
  "read_ranges [] = Inr []"
| "read_ranges (v # vs) =
     (case v of
        JArr [a, b] \<Rightarrow> bindE (py_int a) (\<lambda>i. bindE (py_int b) (\<lambda>j. bindE (read_ranges vs) (\<lambda>rs. Inr ((i, j) # rs))))
      | _ \<Rightarrow> read_ranges vs)"

definition handle_chunk_offer :: "env \<Rightarrow> message \<Rightarrow> wire \<Rightarrow> fetcher \<Rightarrow> (unit, fetcher) run" where
  "handle_chunk_offer en m d x =
     (let board = str_field d ''board_id''; h = str_field d ''blob_hash''; peer = sender_of m
      in if board = [] \<or> h = [] \<or> peer = [] then Inr ((), x)
         else (case bindE (items_of (dget_or d ''ranges'' (JArr []))) (\<lambda>vs.
                      bindE (read_ranges vs) (\<lambda>rs. bindE (int_field d ''chunk_count'' 0) (\<lambda>n. Inr (rs, n)))) of
                 Inl e \<Rightarrow> Inl (e, x)
               | Inr (rs, n) \<Rightarrow>
                   bind_run (persist_peer_chunk_offer en board peer h n (truthy_json (dget_or d ''complete'' (JBool False))) rs x)
                     (\<lambda>_ x1.
                       (case session_of h x1 of
                          None \<Rightarrow> Inr ((), x1)
                        | Some (s, l) \<Rightarrow>
                            (if pe_board_id s \<noteq> board then Inr ((), x1)
                             else Inr ((), put_live h (l\<lparr>lv_swarm := map_option (update_peer_availability peer rs) (lv_swarm l)\<rparr>) x1))))))"

section \<open>Resources that arrive\<close>

definition queue_row :: "time \<Rightarrow> string \<Rightarrow> int \<Rightarrow> string \<Rightarrow> string \<Rightarrow> string \<Rightarrow> nat \<Rightarrow> int \<Rightarrow> fetcher \<Rightarrow> fetcher" where
  "queue_row now h i st peer rid attempts deadline =
     on_session h (\<lambda>s. s\<lparr>pe_batcher := map_option (queue_chunk_state
       \<lparr>rq_session_id = pe_session_id s, rq_chunk_index = i, rq_state = st, rq_assigned_peer = peer, rq_request_id = rid,
        rq_attempt_count = int attempts, rq_deadline_at = deadline, rq_updated_at = \<lfloor>now\<rfloor>\<rparr>) (pe_batcher s)\<rparr>)"

definition queue_swarm_peer_state :: "time \<Rightarrow> string \<Rightarrow> string \<Rightarrow> fetcher \<Rightarrow> fetcher" where
  "queue_swarm_peer_state now h peer x =
     (case Option.bind (session_of h x) (\<lambda>(s, l). Option.bind (lv_swarm l) (\<lambda>sw. dget (sw_peers sw) peer)) of
        None \<Rightarrow> x
      | Some p \<Rightarrow>
          (if peer = [] then x
           else on_session h (\<lambda>s. s\<lparr>pe_batcher := map_option (queue_peer_penalty
             \<lparr>pn_board_id = pe_board_id s, pn_peer = peer, pn_timeout_count = int (sp_timeout_count p),
              pn_invalid_chunk_count = int (sp_invalid_chunk_count p), pn_success_count = int (sp_success_count p),
              pn_cooldown_until = \<lfloor>sp_cooldown_until p\<rfloor>, pn_updated_at = \<lfloor>now\<rfloor>\<rparr>) (pe_batcher s)\<rparr>) x))"

definition attempts_of :: "swarm \<Rightarrow> nat \<Rightarrow> nat" where
  "attempts_of sw i = (case dget (sw_chunks sw) i of None \<Rightarrow> 0 | Some c \<Rightarrow> sc_attempt_count c)"

definition lookup_request :: "string \<Rightarrow> swarm \<Rightarrow> active_request option" where
  "lookup_request rid sw = map_option snd (find (\<lambda>(k, r). request_text k = rid) (sw_requests sw))"

text \<open>\<open>write_verified_chunk\<close> and \<open>finalize\<close> of the reassembly buffer on the files.\<close>

definition write_chunk_file :: "path \<Rightarrow> string \<Rightarrow> string \<Rightarrow> nat \<Rightarrow> bytes \<Rightarrow> fs \<Rightarrow> unit fs_result" where
  "write_chunk_file home board h off data f =
     (case resolved f (chunk_assembly_path home board h) of
        Some (p, File old) \<Rightarrow> Inr ((), dput p (File (write_at off data old)) f)
      | Some (p, Dir) \<Rightarrow> Inl (OSError, f)
      | None \<Rightarrow> Inl (FileNotFoundError, f))"

definition finalize_file :: "path \<Rightarrow> string \<Rightarrow> string \<Rightarrow> fs \<Rightarrow> unit fs_result" where
  "finalize_file home board h f =
     (case resolved f (chunk_assembly_path home board h) of
        Some (p, File data) \<Rightarrow>
          (if sha256_hex data \<noteq> h then Inl (ValueError, f)
           else (case make_dirs f [] (butlast (payload_path home board h)) of
                   Inl e \<Rightarrow> Inl e
                 | Inr (_, f1) \<Rightarrow> rename (chunk_assembly_path home board h) (payload_path home board h) f1))
      | Some (p, Dir) \<Rightarrow> Inl (OSError, f)
      | None \<Rightarrow> Inl (FileNotFoundError, f))"

fun retire_siblings :: "time \<Rightarrow> string \<Rightarrow> active_request list \<Rightarrow> fetcher \<Rightarrow> fetcher" where
  "retire_siblings now h [] x = x"
| "retire_siblings now h (r # rs) x =
     (let rid = request_text (ar_id r);
          x1 = on_live h (\<lambda>l. l\<lparr>lv_cancelled := set_add rid (lv_cancelled l),
                                lv_pending_cancels := lv_pending_cancels l @ [(ar_peer r, ar_chunk r, rid)]\<rparr>)
                 (on_scheduler (release_request rid) x);
          n = (case session_of h x1 of Some (s, l) \<Rightarrow> (case lv_swarm l of Some sw \<Rightarrow> attempts_of sw (ar_chunk r) | None \<Rightarrow> 0) | None \<Rightarrow> 0)
      in retire_siblings now h rs (queue_row now h (int (ar_chunk r)) ''cancelled'' (ar_peer r) rid n 0 x1))"

text \<open>The chunk is stored: the swarm, the rows, the siblings, and the commit when it was the last one.\<close>

definition store_chunk ::
  "env \<Rightarrow> string \<Rightarrow> pending_session \<Rightarrow> live \<Rightarrow> swarm \<Rightarrow> active_request \<Rightarrow> manifest_entry \<Rightarrow> bytes \<Rightarrow> fetcher \<Rightarrow> (unit, fetcher) run" where
  "store_chunk en h s l sw r e data x =
     (let i = ar_chunk r; rid = request_text (ar_id r); now = en_now en
      in bind_run (on_files (write_chunk_file (en_home en) (pe_board_id s) h (me_offset e) data) x) (\<lambda>_ x1.
         (let (sibs, sw1) = mark_chunk_stored (ar_id r) sw;
              l1 = l\<lparr>lv_stored := List.insert i (lv_stored l), lv_swarm := Some sw1,
                     lv_present := map_option (List.insert i) (lv_present l)\<rparr>;
              x2 = put_live h l1 (on_scheduler (release_request rid) x1);
              x3 = queue_row now h (int i) ''stored'' (ar_peer r) rid (attempts_of sw1 i) 0
                     (queue_swarm_peer_state now h (ar_peer r) x2);
              x4 = retire_siblings now h sibs x3
          in if asm_complete (assembly_of (en_home en) (pe_board_id s) h l1 (nd_fs (node_of x4))) \<and> \<not> lv_finalized l1
             then bind_run (on_files (finalize_file (en_home en) (pe_board_id s) h) x4) (\<lambda>_ x5.
                    Inr ((), set_node (finish_pending_chunk_session now h (node_of x5))
                               (send_incremental_chunk_offer en h (on_live h (\<lambda>l. l\<lparr>lv_finalized := True\<rparr>) x5))))
             else Inr ((), send_incremental_chunk_offer en h x4))))"

definition reject_chunk ::
  "env \<Rightarrow> string \<Rightarrow> pending_session \<Rightarrow> live \<Rightarrow> swarm \<Rightarrow> active_request \<Rightarrow> int \<Rightarrow> bool \<Rightarrow> fetcher \<Rightarrow> (unit, fetcher) run" where
  "reject_chunk en h s l sw r ci bad x =
     (case mark_invalid (en_now en) (ar_id r) sw of
        Inl e \<Rightarrow> Inl (e, on_scheduler (release_request (request_text (ar_id r))) x)
      | Inr sw1 \<Rightarrow>
          Inr ((), queue_row (en_now en) h ci (if bad then ''rejected_invalid'' else ''missing'')
                     (if bad then ar_peer r else []) (if bad then request_text (ar_id r) else []) (if ci < 0 then 0 else attempts_of sw (nat ci)) 0
                     (queue_swarm_peer_state (en_now en) h (ar_peer r)
                       (put_live h (l\<lparr>lv_swarm := Some sw1\<rparr>) (on_scheduler (release_request (request_text (ar_id r))) x)))))"

definition incoming_chunk :: "env \<Rightarrow> wire \<Rightarrow> bytes \<Rightarrow> fetcher \<Rightarrow> (unit, fetcher) run" where
  "incoming_chunk en meta data x =
     (let h = str_field meta ''blob_hash''; board = str_field meta ''board_id''; rid = str_field meta ''request_id'';
          peer = str_field meta ''peer_lxmf_hash''
      in case int_field meta ''chunk_index'' (- 1) of
           Inl e \<Rightarrow> Inl (e, x)
         | Inr ci \<Rightarrow>
             (case session_of h x of
                None \<Rightarrow> Inr ((), x)
              | Some (s, l) \<Rightarrow>
                  (case (lv_manifest l, lv_swarm l) of
                     (Some mf, Some sw) \<Rightarrow>
                       (if board \<noteq> pe_board_id s \<or> lv_present l = None then Inr ((), x)
                        else (case lookup_request rid sw of
                                None \<Rightarrow> Inr ((), x)
                              | Some r \<Rightarrow>
                                  (if lv_paused l \<or> lv_cancel_requested l \<or> rid \<in> set (lv_cancelled l)
                                   then Inr ((), put_live h (l\<lparr>lv_cancelled := set_add rid (lv_cancelled l),
                                          lv_swarm := Some (mark_send_failed
                                            \<lparr>rp_id = ar_id r, rp_peer = ar_peer r, rp_chunk = ar_chunk r, rp_timeout = 0,
                                             rp_duplicate = False\<rparr> sw)\<rparr>) (on_scheduler (release_request rid) x))
                                   else if int (ar_chunk r) \<noteq> ci then reject_chunk en h s l sw r ci False x
                                   else (case prevalidate mf (entries_by_index (rev (lv_entries l))) ci
                                                (str_or peer (ar_peer r)) (ar_peer r) data of
                                           Inl e \<Rightarrow> reject_chunk en h s l sw r ci True x
                                         | Inr e \<Rightarrow>
                                             (case store_chunk en h s l sw r e data x of
                                                Inl (_, x1) \<Rightarrow> Inr ((), fail_pending_chunk_session h x1)
                                              | Inr ok \<Rightarrow> Inr ok)))))
                   | _ \<Rightarrow> Inr ((), x))))"

text \<open>\<open>_resource_concluded_callback\<close>: \<open>ok\<close> tells whether the transfer completed. An exception is logged.\<close>

definition resource_concluded :: "env \<Rightarrow> bool \<Rightarrow> wire \<Rightarrow> bytes \<Rightarrow> fetcher \<Rightarrow> fetcher" where
  "resource_concluded en ok meta data x =
     (let rid = str_field meta ''request_id'';
          hv = (if truthy_json (dget_or meta ''blob_hash'' JNull) then dget_or meta ''blob_hash'' JNull
                else dget_or meta ''content_hash'' JNull)
      in if \<not> ok
         then (case hv of
                 JStr h \<Rightarrow>
                   (if h = [] then x
                    else if rid \<noteq> [] \<and> (case session_of h x of
                                              None \<Rightarrow> False
                                            | Some (s, l) \<Rightarrow> lv_paused l \<or> lv_cancel_requested l \<or> rid \<in> set (lv_cancelled l))
                    then x else fail_pending_chunk_session h x)
               | _ \<Rightarrow> x)
         else if dget meta ''blob_hash'' \<noteq> None \<and> dget meta ''chunk_index'' \<noteq> None \<and> dget meta ''request_id'' \<noteq> None
         then (case incoming_chunk en meta data x of Inl (_, x1) \<Rightarrow> x1 | Inr (_, x1) \<Rightarrow> x1)
         else (case (dget_or meta ''content_hash'' (JStr []), dget_or meta ''board_id'' (JStr [])) of
                 (JStr h, JStr board) \<Rightarrow>
                   (if h = [] \<or> board = [] \<or> sha256_hex data \<noteq> h then x
                    else (case on_files (write_payload (en_home en) board h data False) x of
                            Inl (_, x1) \<Rightarrow> x1 | Inr (_, x1) \<Rightarrow> x1))
               | _ \<Rightarrow> x))"

end
