(* ===== verification/FetchLoop.thy ===== *)
theory FetchLoop
  imports Fetch
begin

text \<open>
  The fetch loop of \<open>retiboard/sync/payload_fetch.py\<close>: starting, resuming, pausing and cancelling a
  chunked fetch, the rounds that drive its swarm, and the progress it reports. A coroutine is cut at the
  points where it waits: starting a fetch, asking for the manifest, each round of the loop and the clean-up
  are steps of their own, and what happens between two of them is a step of another part. One reading of the
  clock serves a whole step. \<open>is_low_bandwidth()\<close> is \<^const>\<open>en_low_bandwidth\<close>.
\<close>

section \<open>Transport limits\<close>

definition is_low_bandwidth :: "bool option \<Rightarrow> int option \<Rightarrow> bool" where
  "is_low_bandwidth override slowest =
     (case override of
        Some b \<Rightarrow> b
      | None \<Rightarrow> (case slowest of None \<Rightarrow> False | Some r \<Rightarrow> r < 10000))"

definition slowest_bitrate :: "int option list \<Rightarrow> int option" where
  "slowest_bitrate bs =
     (case List.map_filter id bs of [] \<Rightarrow> None | r # rs \<Rightarrow> Some (fold (\<lambda>b m. if b < m then b else m) rs r))"

definition get_max_payload_size :: "bool \<Rightarrow> int \<Rightarrow> int" where
  "get_max_payload_size low board_max =
     (let limit = (if low then 64 * 1024 else 10 * 1024 * 1024)
      in if board_max > 0 then min limit board_max else limit)"

section \<open>The sender thread of one destination\<close>

text \<open>The jobs that wait, in order. What a job comes to is a parameter: \<open>None\<close> when its resource cannot be
  created, else whether the transfer completes; the first that does not ends the thread with the rest still waiting. What is handed to
  Reticulum is returned in order.\<close>

definition job_id :: "resource_send \<Rightarrow> string" where
  "job_id j = str_field (rs_meta j) ''request_id''"

fun sender_loop :: "(resource_send \<Rightarrow> bool option) \<Rightarrow> string list \<Rightarrow> resource_send list \<Rightarrow>
    resource_send list \<times> string list \<times> resource_send list" where
  "sender_loop outcome cancelled [] = ([], cancelled, [])"
| "sender_loop outcome cancelled (j # js) =
     (if job_id j \<noteq> [] \<and> job_id j \<in> set cancelled
      then sender_loop outcome (set_discard (job_id j) cancelled) js
      else (case outcome j of
              None \<Rightarrow> sender_loop outcome cancelled js
            | Some True \<Rightarrow> (case sender_loop outcome cancelled js of (sent, c, left) \<Rightarrow> (j # sent, c, left))
            | Some False \<Rightarrow> ([j], cancelled, js)))"

text \<open>\<open>_resource_started_callback\<close>: whether an arriving resource is stopped at once.\<close>

definition resource_refused :: "wire \<Rightarrow> fetcher \<Rightarrow> bool" where
  "resource_refused meta x =
     (let rid = str_field meta ''request_id''
      in rid \<noteq> [] \<and>
         (case session_of (str_field meta ''blob_hash'') x of
            None \<Rightarrow> False
          | Some (s, l) \<Rightarrow> lv_paused l \<or> lv_cancel_requested l \<or> rid \<in> set (lv_cancelled l)))"

section \<open>Shared steps of a session\<close>

definition flush_batcher :: "time \<Rightarrow> string \<Rightarrow> fetcher \<Rightarrow> (unit, fetcher) run" where
  "flush_batcher now h x =
     (case Option.bind (session_of h x) (\<lambda>(s, l). pe_batcher s) of
        None \<Rightarrow> Inr ((), x)
      | Some b \<Rightarrow>
          (case flush now b (chunks_of (bt_board_id b) x) of
             Inl (e, b1, db) \<Rightarrow> Inl (e, put_chunks (bt_board_id b) db (on_session h (\<lambda>s. s\<lparr>pe_batcher := Some b1\<rparr>) x))
           | Inr (_, b1, db) \<Rightarrow> Inr ((), put_chunks (bt_board_id b) db (on_session h (\<lambda>s. s\<lparr>pe_batcher := Some b1\<rparr>) x))))"

definition release_all :: "pending_session \<Rightarrow> fetcher \<Rightarrow> fetcher" where
  "release_all s = on_scheduler (release_session_requests (pe_session_id s))"

definition kind_or_text :: "string \<Rightarrow> blob_kind" where
  "kind_or_text k = (case kind_of_text k of Some b \<Rightarrow> b | None \<Rightarrow> Text)"

text \<open>The row of a session as it stands, with another state.\<close>

definition save_session_as :: "env \<Rightarrow> pending_session \<Rightarrow> string \<Rightarrow> fetcher \<Rightarrow> (unit, fetcher) run" where
  "save_session_as en s st x =
     bind_run (connect (en_home en) (pe_board_id s) x) (\<lambda>_ x1.
       save_rows (pe_board_id s)
         (save_chunk_fetch_session (session_row \<lfloor>en_now en\<rfloor> s (kind_or_text (pe_blob_kind s)) st)) x1)"

definition latest_session :: "string \<Rightarrow> string \<Rightarrow> fetcher \<Rightarrow> chunk_session option" where
  "latest_session board h x = load_latest_chunk_fetch_session_for_blob board h (chunks_of board x)"

definition update_persisted :: "env \<Rightarrow> string \<Rightarrow> string \<Rightarrow> string \<Rightarrow> fetcher \<Rightarrow> (bool, fetcher) run" where
  "update_persisted en board h st x =
     bind_run (connect (en_home en) board x) (\<lambda>_ x1.
       (case latest_session board h x1 of
          None \<Rightarrow> Inr (False, x1)
        | Some r \<Rightarrow>
            bind_run (save_rows board (save_chunk_fetch_session (r\<lparr>se_state := st, se_updated_at := \<lfloor>en_now en\<rfloor>\<rparr>)) x1)
              (\<lambda>_ x2. Inr (True, x2))))"

section \<open>Pause, resume, cancel\<close>

definition retire_request :: "string \<Rightarrow> active_request \<Rightarrow> fetcher \<Rightarrow> fetcher" where
  "retire_request h r x =
     on_live h (\<lambda>l. l\<lparr>lv_pending_cancels := lv_pending_cancels l @ [(ar_peer r, ar_chunk r, request_text (ar_id r))],
                      lv_cancelled := set_add (request_text (ar_id r)) (lv_cancelled l),
                      lv_swarm := map_option (mark_cancelled (ar_id r)) (lv_swarm l)\<rparr>)
       (on_scheduler (release_request (request_text (ar_id r))) x)"

text \<open>The requests still out when a fetch is paused or cancelled; the attempt counts do not change meanwhile.\<close>

definition retire_active_swarm_requests :: "string \<Rightarrow> fetcher \<Rightarrow> (nat \<times> string \<times> string \<times> nat) list \<times> fetcher" where
  "retire_active_swarm_requests h x =
     (case Option.bind (session_of h x) (\<lambda>(s, l). lv_swarm l) of
        None \<Rightarrow> ([], x)
      | Some sw \<Rightarrow>
          (map (\<lambda>r. (ar_chunk r, ar_peer r, request_text (ar_id r), attempts_of sw (ar_chunk r))) (dvalues (sw_requests sw)),
           fold (retire_request h) (dvalues (sw_requests sw)) x))"

text \<open>Retiring, the rows, the CHUNK_CANCEL messages and the flush, which both operations do.\<close>

definition stop_requests :: "env \<Rightarrow> string \<Rightarrow> fetcher \<Rightarrow> (unit, fetcher) run" where
  "stop_requests en h x =
     (let (retired, x1) = retire_active_swarm_requests h x;
          x2 = fold (\<lambda>(i, peer, rid, n). queue_row (en_now en) h (int i) ''cancelled'' peer rid n 0) retired x1
      in flush_batcher (en_now en) h (drain_pending_chunk_cancels en h x2))"

definition pause_chunk_fetch :: "env \<Rightarrow> string \<Rightarrow> string \<Rightarrow> fetcher \<Rightarrow> (bool, fetcher) run" where
  "pause_chunk_fetch en board h x =
     (case session_of h x of
        Some (s, l) \<Rightarrow>
          (if pe_board_id s = board
           then bind_run (stop_requests en h (on_live h (\<lambda>l. l\<lparr>lv_paused := True\<rparr>) x)) (\<lambda>_ x1.
                bind_run (save_session_as en s ''paused'' x1) (\<lambda>_ x2. Inr (True, x2)))
           else update_persisted en board h ''paused'' x)
      | None \<Rightarrow> update_persisted en board h ''paused'' x)"

definition resume_chunk_fetch :: "env \<Rightarrow> string \<Rightarrow> string \<Rightarrow> fetcher \<Rightarrow> (bool, fetcher) run" where
  "resume_chunk_fetch en board h x =
     (case session_of h x of
        Some (s, l) \<Rightarrow>
          (if pe_board_id s = board
           then bind_run (save_session_as en s ''started''
                  (on_live h (\<lambda>l. l\<lparr>lv_paused := False, lv_cancel_requested := False\<rparr>) x)) (\<lambda>_ x1. Inr (True, x1))
           else update_persisted en board h ''started'' x)
      | None \<Rightarrow> update_persisted en board h ''started'' x)"

definition drop_fetch :: "env \<Rightarrow> string \<Rightarrow> string \<Rightarrow> bool \<Rightarrow> fetcher \<Rightarrow> (bool, fetcher) run" where
  "drop_fetch en board h existed x =
     bind_run (connect (en_home en) board x) (\<lambda>_ x1.
       (if \<not> (existed \<or> latest_session board h x1 \<noteq> None) then Inr (False, x1)
        else bind_run (on_files (delete_chunk_cache (en_home en) board h)
                 (put_chunks board (snd (delete_chunk_manifests_for_blobs [h] (chunks_of board x1))) x1)) (\<lambda>_ x2.
             Inr (True, set_node (cancel_pending_chunk_session (en_now en) h (node_of x2)) x2))))"

definition cancel_chunk_fetch :: "env \<Rightarrow> string \<Rightarrow> string \<Rightarrow> fetcher \<Rightarrow> (bool, fetcher) run" where
  "cancel_chunk_fetch en board h x =
     (case session_of h x of
        Some (s, l) \<Rightarrow>
          (if pe_board_id s = board
           then bind_run (stop_requests en h (on_live h (\<lambda>l. l\<lparr>lv_cancel_requested := True\<rparr>) x)) (\<lambda>_ x1.
                  drop_fetch en board h True (on_live h (\<lambda>l. l\<lparr>lv_failed := True\<rparr>) x1))
           else drop_fetch en board h False x)
      | None \<Rightarrow> drop_fetch en board h False x)"

section \<open>Resuming from what was persisted\<close>

definition assembly_ready :: "path \<Rightarrow> string \<Rightarrow> string \<Rightarrow> nat \<Rightarrow> fs \<Rightarrow> bool" where
  "assembly_ready home board h n f =
     (case resolved f (chunk_assembly_path home board h) of Some (_, File b) \<Rightarrow> length b = n | _ \<Rightarrow> False)"

definition live_entry :: "live \<Rightarrow> int \<Rightarrow> manifest_entry option" where
  "live_entry l i = (if i < 0 then None else dget (entries_by_index (rev (lv_entries l))) (nat i))"

text \<open>A chunk recorded as stored counts only when its bytes on disk still match; otherwise its row is reset.\<close>

fun restore_rows :: "env \<Rightarrow> string \<Rightarrow> string \<Rightarrow> request_row list \<Rightarrow> fetcher \<Rightarrow> (unit, fetcher) run" where
  "restore_rows en board h [] x = Inr ((), x)"
| "restore_rows en board h (r # rs) x =
     (case session_of h x of
        None \<Rightarrow> Inr ((), x)
      | Some (s, l) \<Rightarrow>
          (if rq_state r \<noteq> ''stored'' then restore_rows en board h rs x
           else (case live_entry l (rq_chunk_index r) of
                   None \<Rightarrow> restore_rows en board h rs x
                 | Some e \<Rightarrow>
                     (if verify_chunk_on_disk (me_offset e) (me_size e) (me_chunk_hash e)
                           (assembly_of (en_home en) board h l (nd_fs (node_of x)))
                      then restore_rows en board h rs
                             (put_live h (l\<lparr>lv_stored := List.insert (nat (rq_chunk_index r)) (lv_stored l),
                                            lv_present := map_option (List.insert (nat (rq_chunk_index r))) (lv_present l)\<rparr>) x)
                      else bind_run (save_rows board (save_chunk_request_state
                               (r\<lparr>rq_state := ''missing'', rq_assigned_peer := [], rq_request_id := [], rq_deadline_at := 0,
                                  rq_updated_at := \<lfloor>en_now en\<rfloor>\<rparr>)) x)
                             (\<lambda>_ x1. restore_rows en board h rs x1)))))"

definition restore_chunk_session_state :: "env \<Rightarrow> string \<Rightarrow> string \<Rightarrow> fetcher \<Rightarrow> (bool, fetcher) run" where
  "restore_chunk_session_state en board h x =
     bind_run (connect (en_home en) board x) (\<lambda>_ x1.
       (case latest_session board h x1 of
          None \<Rightarrow> Inr (False, x1)
        | Some r \<Rightarrow>
            (let x2 = on_session h (\<lambda>s. s\<lparr>pe_session_id := se_session_id r\<rparr>) x1
             in case load_chunk_manifest h (chunks_of board x2) of
                  None \<Rightarrow> Inr (False, x2)
                | Some (mf, es) \<Rightarrow>
                    bind_run (if assembly_ready (en_home en) board h (mf_blob_size mf) (nd_fs (node_of x2)) then Inr ((), x2)
                              else on_files (reserve_file (en_home en) board h (mf_blob_size mf)) x2) (\<lambda>_ x3.
                    bind_run (restore_rows en board h (load_chunk_request_states (se_session_id r) (chunks_of board x3))
                                (on_live h (\<lambda>l. l\<lparr>lv_manifest := Some mf, lv_entries := es, lv_present := Some []\<rparr>) x3)) (\<lambda>_ x4.
                      Inr (True, on_live h (\<lambda>l. l\<lparr>lv_resumed := True, lv_paused := (se_state r = ''paused'')\<rparr>) x4))))))"

definition has_live_state :: "live \<Rightarrow> bool" where
  "has_live_state l = (lv_manifest l \<noteq> None \<and> lv_present l \<noteq> None \<and> lv_entries l \<noteq> [])"

definition seed_attempts :: "request_row \<Rightarrow> swarm \<Rightarrow> swarm" where
  "seed_attempts r sw =
     (if rq_chunk_index r < 0 then sw
      else modify_chunk (nat (rq_chunk_index r))
             (\<lambda>c. c\<lparr>sc_attempt_count := max (sc_attempt_count c) (nat (rq_attempt_count r))\<rparr>) sw)"

definition seed_stored :: "nat \<Rightarrow> swarm \<Rightarrow> swarm" where
  "seed_stored i = modify_chunk i (\<lambda>c. c\<lparr>sc_stored := True, sc_state := Stored\<rparr>)"

definition stored_rows :: "request_row list \<Rightarrow> nat list" where
  "stored_rows rows = map (\<lambda>r. nat (rq_chunk_index r)) (filter (\<lambda>r. rq_state r = ''stored'' \<and> rq_chunk_index r \<ge> 0) rows)"

definition seed_swarm :: "request_row list \<Rightarrow> nat list \<Rightarrow> swarm \<Rightarrow> swarm" where
  "seed_swarm rows stored sw = fold seed_stored (stored @ stored_rows rows) (fold seed_attempts rows sw)"

section \<open>The peers and the swarm of a fetch\<close>

definition peer_has_positive :: "availability_row option \<Rightarrow> bool" where
  "peer_has_positive row =
     (case row of None \<Rightarrow> False | Some r \<Rightarrow> av_complete r \<or> list_ex (\<lambda>(a, b). b \<ge> a) (av_ranges r))"

definition select_swarm_peers ::
  "string list \<Rightarrow> (string, availability_row) dict \<Rightarrow> bool \<Rightarrow> string list \<times> (string \<times> (int \<times> int) list) list" where
  "select_swarm_peers cands rows prefer =
     (let ranges = map (\<lambda>(h, r). (h, av_ranges r)) (filter (\<lambda>(h, r). h \<in> set cands) rows);
          eligible = filter (\<lambda>h. peer_has_positive (dget rows h)) cands
      in if \<not> prefer \<or> eligible = [] then (cands, ranges)
         else (eligible, map (\<lambda>h. (h, dget_or ranges h [])) eligible))"

definition chunk_timeout :: "bool \<Rightarrow> live \<Rightarrow> nat \<Rightarrow> time" where
  "chunk_timeout low l i =
     (case live_entry l (int i) of None \<Rightarrow> 90 | Some e \<Rightarrow> next_chunk_timeout (me_size e) low)"

definition apply_penalty :: "string \<times> penalty_row \<Rightarrow> swarm \<Rightarrow> swarm" where
  "apply_penalty r =
     apply_persisted_peer_state (fst r) (nat (pn_timeout_count (snd r))) (nat (pn_invalid_chunk_count (snd r)))
       (nat (pn_success_count (snd r))) (of_int (pn_cooldown_until (snd r)))"

definition build_swarm :: "bool \<Rightarrow> string \<Rightarrow> string \<Rightarrow> bool \<Rightarrow> pending_session \<Rightarrow> live \<Rightarrow> manifest \<Rightarrow> chunk_db \<Rightarrow> swarm" where
  "build_swarm low board h resumed s l mf db =
     (let (peers, ranges) = select_swarm_peers (lv_candidates l) (load_peer_chunk_availability board h db) resumed;
          mode = (if list_ex (\<lambda>(p, rs). rs \<noteq> []) ranges then RarestFirst else Hybrid);
          sw = fold apply_penalty (load_chunk_peer_penalties board (Some peers) db)
                 (new_swarm peers (mf_chunk_count mf) None None 6 mode ranges low)
      in if resumed then seed_swarm (load_chunk_request_states (pe_session_id s) db) (lv_stored l) sw else sw)"

definition draw_from :: "nat \<Rightarrow> swarm \<Rightarrow> swarm" where
  "draw_from k sw = sw\<lparr>sw_next_id := k * 2 ^ 64\<rparr>"

definition start_swarm :: "env \<Rightarrow> string \<Rightarrow> string \<Rightarrow> bool \<Rightarrow> fetcher \<Rightarrow> (bool, fetcher) run" where
  "start_swarm en board h resumed x =
     bind_run (connect (en_home en) board x) (\<lambda>_ x1.
       (case session_of h x1 of
          None \<Rightarrow> Inr (False, x1)
        | Some (s, l) \<Rightarrow>
            (case lv_manifest l of
               None \<Rightarrow> Inr (False, x1)
             | Some mf \<Rightarrow>
                 Inr (True, put_live h (l\<lparr>lv_swarm := Some (draw_from (ft_swarms x1)
                   (build_swarm (en_low_bandwidth en) board h resumed s l mf (chunks_of board x1)))\<rparr>)
                   (x1\<lparr>ft_swarms := Suc (ft_swarms x1)\<rparr>)))))"

section \<open>Starting a fetch\<close>

definition fetch_peers :: "env \<Rightarrow> string \<Rightarrow> string \<Rightarrow> fetcher \<Rightarrow> peer_info list" where
  "fetch_peers en board self x =
     filter (\<lambda>p. self = [] \<or> pi_hash p \<noteq> self) (get_fetch_peers (en_now en) board 3 (eg_tracker (ap_engine (ft_app x))))"

text \<open>\<open>Done b\<close>: the fetch returns \<open>b\<close> at once. \<open>Busy\<close>: another loop runs on the session and this call
  waits for it. \<open>Begun fresh peers\<close>: the session is this call's; \<open>fresh\<close> when nothing was persisted.\<close>

datatype fetch_start = Done bool | Busy | Begun bool "string list"

definition session_kind :: "blob_reference option \<Rightarrow> chunk_session option \<Rightarrow> string" where
  "session_kind ref existing =
     (case ref of
        Some r \<Rightarrow> if br_attachment r then ''attachments'' else ''text''
      | None \<Rightarrow> (case existing of Some e \<Rightarrow> kind_text (se_blob_kind e) | None \<Rightarrow> ''text''))"

text \<open>Registering with the scheduler; a manual call upgrades the session, another one takes it back.\<close>

definition schedule_session :: "env \<Rightarrow> string \<Rightarrow> string \<Rightarrow> int \<Rightarrow> bool \<Rightarrow> fetcher \<Rightarrow> fetcher" where
  "schedule_session en h kind expected manual x =
     (case session_of h x of
        None \<Rightarrow> x
      | Some (s, l) \<Rightarrow>
          on_live h (\<lambda>l. l\<lparr>lv_manual := manual\<rparr>)
            (on_scheduler (\<lambda>sc. snd (register_session (en_low_bandwidth en) (en_now en) (pe_session_id s) h
               (if manual \<and> \<not> lv_manual l then pe_blob_kind s else kind) expected manual sc)) x))"

definition begin_fetch ::
  "env \<Rightarrow> string \<Rightarrow> string \<Rightarrow> string \<Rightarrow> int \<Rightarrow> bool \<Rightarrow> string \<Rightarrow> fetcher \<Rightarrow> (fetch_start, fetcher) run" where
  "begin_fetch en board h self expected manual uuid x =
     (if has_blob (en_home en) board h x then Inr (Done True, x)
      else
        (let peers = map pi_hash (filter (\<lambda>p. pi_identity p \<noteq> None) (fetch_peers en board self x))
         in if peers = [] then Inr (Done False, x)
            else bind_run (connect (en_home en) board x) (\<lambda>_ x1.
              (let existing = latest_session board h x1;
                   kind = session_kind (blob_ref board h x1) existing;
                   (s, rg) = register_pending_chunk_session board h kind (hd peers)
                               (map_option se_session_id existing) uuid (nd_registry (node_of x1));
                   x2 = set_node ((node_of x1)\<lparr>nd_registry := rg\<rparr>) x1;
                   x3 = (if session_of h x1 = None then put_live h new_live x2 else x2);
                   x4 = on_live h (\<lambda>l. l\<lparr>lv_candidates := peers,
                                         lv_paused := (lv_paused l \<and> \<not> manual)\<rparr>) x3;
                   x5 = schedule_session en h kind expected manual x4;
                   x6 = on_session h (\<lambda>s. s\<lparr>pe_batcher := (case pe_batcher s of
                          None \<Rightarrow> Some (new_batcher (en_now en) board) | Some b \<Rightarrow> Some b)\<rparr>) x5
               in case session_of h x6 of
                    None \<Rightarrow> Inr (Done False, x6)
                  | Some (_, l) \<Rightarrow>
                      (if lv_running l then Inr (Busy, x6)
                       else Inr (Begun (existing = None) peers, on_live h (\<lambda>l. l\<lparr>lv_running := True\<rparr>) x6))))))"

text \<open>The result tells whether the manifest round trip can be skipped.\<close>

definition prepare_fetch :: "env \<Rightarrow> string \<Rightarrow> string \<Rightarrow> bool \<Rightarrow> string list \<Rightarrow> fetcher \<Rightarrow> (bool, fetcher) run" where
  "prepare_fetch en board h fresh peers x =
     bind_run (restore_chunk_session_state en board h x) (\<lambda>restored x1.
       (case session_of h x1 of
          None \<Rightarrow> Inr (restored, x1)
        | Some (s, l) \<Rightarrow>
            (let warm = (\<not> restored \<and> has_live_state l);
                 x2 = (if warm then put_live h (l\<lparr>lv_resumed := (lv_stored l \<noteq> [])\<rparr>) x1 else x1)
             in if fresh
                then bind_run (save_session_as en (s\<lparr>pe_assigned_peer := hd peers\<rparr>) ''started'' x2)
                       (\<lambda>_ x3. Inr (restored \<or> warm, x3))
                else Inr (restored \<or> warm, x2))))"

section \<open>Asking for the manifest\<close>

definition request_manifest_from :: "env \<Rightarrow> string \<Rightarrow> string \<Rightarrow> string \<Rightarrow> nat \<times> nat \<times> fetcher \<Rightarrow> nat \<times> nat \<times> fetcher" where
  "request_manifest_from en board h peer r =
     (case r of
        (sent, queued, x) \<Rightarrow>
          (case send_lxmf (en_net en) (en_now en) peer
                  (utf8 (dumps False (JObj [(''board_id'', JStr board), (''blob_hash'', JStr h)])))
                  ''retiboard.chunk_manifest_req'' CONTROL (ap_engine (ft_app x)) of
             (res, e) \<Rightarrow>
               (if res = SENT then Suc sent else sent, if res = QUEUED then Suc queued else queued,
                on_app (on_engine (\<lambda>_. e)) x)))"

text \<open>\<open>None\<close>: nobody could be asked. Otherwise the seconds to wait.\<close>

definition request_chunk_manifest :: "env \<Rightarrow> string \<Rightarrow> string \<Rightarrow> string list \<Rightarrow> fetcher \<Rightarrow> time option \<times> fetcher" where
  "request_chunk_manifest en board h peers x =
     (case fold (request_manifest_from en board h) peers
             (0, 0, on_live h (\<lambda>l. l\<lparr>lv_failed := False, lv_unavailable := [], lv_unavailable_by_peer := []\<rparr>) x) of
        (sent, queued, x1) \<Rightarrow>
          (if sent = 0 \<and> queued = 0 then None else Some (45 + (if queued > 0 then 15 else 0)), x1))"

definition worst_reason :: "string list \<Rightarrow> string" where
  "worst_reason rs =
     (if ''abandoned'' \<in> set rs then ''abandoned''
      else if ''policy_rejected'' \<in> set rs then ''policy_rejected''
      else if ''withheld_local_policy'' \<in> set rs then ''withheld_local_policy''
      else if ''pruned'' \<in> set rs then ''pruned''
      else ''not_found'')"

text \<open>What the wait decides when it wakes up: \<open>None\<close> goes on waiting, at the deadline the manifest decides.\<close>

definition manifest_poll :: "string \<Rightarrow> string list \<Rightarrow> bool \<Rightarrow> fetcher \<Rightarrow> bool option \<times> fetcher" where
  "manifest_poll h peers late x =
     (case session_of h x of
        None \<Rightarrow> (Some False, x)
      | Some (s, l) \<Rightarrow>
          (if lv_manifest l \<noteq> None then (Some True, x)
           else if late then (Some False, x)
           else if lv_failed l \<and> (lv_unavailable l = ''abandoned'' \<or> lv_unavailable l = ''policy_rejected'') then (Some False, x)
           else (let cands = filter (\<lambda>p. p \<noteq> []) peers
                 in if cands \<noteq> [] \<and> set cands \<subseteq> set (map fst (lv_unavailable_by_peer l))
                    then (Some False, put_live h (l\<lparr>lv_unavailable := worst_reason (dvalues (lv_unavailable_by_peer l))\<rparr>) x)
                    else (None, x))))"

section \<open>A round of the swarm loop\<close>

text \<open>\<open>Again n\<close>: the loop waits and goes round again, after \<open>n\<close> idle rounds; an event that ends the wait is
  read from the state by the next round. A session that was taken from the
  registry meanwhile is out of reach, and its round is \<open>Detached\<close>.\<close>

datatype round_result = Finished bool | Suspended | Again nat | Detached

definition timed_out_row :: "env \<Rightarrow> string \<Rightarrow> active_request \<times> nat \<Rightarrow> fetcher \<Rightarrow> fetcher" where
  "timed_out_row en h ra x =
     (let r = fst ra; rid = request_text (ar_id r)
      in queue_swarm_peer_state (en_now en) h (ar_peer r)
           (queue_row (en_now en) h (int (ar_chunk r)) ''timed_out'' (ar_peer r) rid (snd ra) \<lfloor>ar_deadline r\<rfloor>
             (on_scheduler (release_request rid) x)))"

definition swarm_of :: "string \<Rightarrow> fetcher \<Rightarrow> swarm option" where
  "swarm_of h x = Option.bind (session_of h x) (\<lambda>(s, l). lv_swarm l)"

definition attempts_in :: "string \<Rightarrow> nat \<Rightarrow> fetcher \<Rightarrow> nat" where
  "attempts_in h i x = (case swarm_of h x of None \<Rightarrow> 0 | Some sw \<Rightarrow> attempts_of sw i)"

definition deadline_in :: "string \<Rightarrow> nat \<Rightarrow> fetcher \<Rightarrow> int" where
  "deadline_in h rid x =
     (case Option.bind (swarm_of h x) (\<lambda>sw. dget (sw_requests sw) rid) of None \<Rightarrow> 0 | Some r \<Rightarrow> \<lfloor>ar_deadline r\<rfloor>)"

text \<open>The answer of the engine to one planned request. A sent one is confirmed, the others are given back.\<close>

definition note_sent :: "env \<Rightarrow> string \<Rightarrow> request_plan \<Rightarrow> fetcher \<Rightarrow> fetcher" where
  "note_sent en h plan x =
     (let x1 = on_live h (\<lambda>l. l\<lparr>lv_swarm := map_option (mark_request_sent (rp_id plan)) (lv_swarm l)\<rparr>) x
      in queue_row (en_now en) h (int (rp_chunk plan)) ''requested'' (rp_peer plan) (request_text (rp_id plan))
           (attempts_in h (rp_chunk plan) x1) (deadline_in h (rp_id plan) x1) x1)"

definition give_back :: "env \<Rightarrow> string \<Rightarrow> request_plan \<Rightarrow> chunk_state \<Rightarrow> string \<Rightarrow> string \<Rightarrow> fetcher \<Rightarrow> fetcher" where
  "give_back en h plan st name peer x =
     (let x1 = on_live h (\<lambda>l. l\<lparr>lv_swarm := map_option (mark_request_deferred (rp_id plan) st) (lv_swarm l)\<rparr>)
                 (on_scheduler (release_request (request_text (rp_id plan))) x)
      in queue_row (en_now en) h (int (rp_chunk plan)) name peer [] (attempts_in h (rp_chunk plan) x1) 0 x1)"

definition send_plan :: "env \<Rightarrow> string \<Rightarrow> request_plan \<Rightarrow> nat \<times> fetcher \<Rightarrow> nat \<times> fetcher" where
  "send_plan en h plan kx =
     (case (kx, session_of h (snd kx)) of
        ((k, x), None) \<Rightarrow> (k, x)
      | ((k, x), Some (s, l)) \<Rightarrow>
          (let rid = request_text (rp_id plan);
               (ok, sc) = try_acquire_request (en_low_bandwidth en) (en_now en) (pe_session_id s) rid (nd_scheduler (node_of x));
               x1 = on_scheduler (\<lambda>_. sc) x
           in if \<not> ok then (k, x1)
              else (case send_chunk_request_immediate (en_net en) (en_now en) (rp_peer plan)
                           (utf8 (dumps False (request_json (pe_board_id s) h (rp_chunk plan) rid))) (ap_engine (ft_app x1)) of
                      (res, e) \<Rightarrow>
                        (let x2 = on_app (on_engine (\<lambda>_. e)) x1
                         in case res of
                              SENT \<Rightarrow> (Suc k, note_sent en h plan x2)
                            | QUEUED \<Rightarrow> (k, give_back en h plan RequestEnqueued ''request_enqueued'' (rp_peer plan) x2)
                            | _ \<Rightarrow> (k, give_back en h plan Missing ''missing'' [] x2)))))"

text \<open>After the requests: the verdict of the round.\<close>

definition leave_loop :: "env \<Rightarrow> string \<Rightarrow> pending_session \<Rightarrow> bool \<Rightarrow> fetcher \<Rightarrow> (round_result, fetcher) run" where
  "leave_loop en h s ok x =
     bind_run (flush_batcher (en_now en) h x) (\<lambda>_ x1. Inr (Finished ok, release_all s x1))"

definition conclude_round :: "env \<Rightarrow> string \<Rightarrow> nat \<Rightarrow> nat \<Rightarrow> fetcher \<Rightarrow> (round_result, fetcher) run" where
  "conclude_round en h idle sent x =
     (case session_of h x of
        None \<Rightarrow> Inr (Detached, x)
      | Some (s, l) \<Rightarrow>
          (if has_blob (en_home en) (pe_board_id s) h x \<or> lv_finalized l then leave_loop en h s True x
           else (case lv_swarm l of
                   None \<Rightarrow> Inr (Finished False, x)
                 | Some sw \<Rightarrow>
                     (let idle1 = (if sent = 0 \<and> sw_requests sw = [] then Suc idle else 0)
                      in if \<not> can_make_progress sw \<or> idle1 > 40 then leave_loop en h s False x
                         else Inr (Again idle1, x)))))"

definition plan_round :: "env \<Rightarrow> string \<Rightarrow> nat \<Rightarrow> live \<Rightarrow> swarm \<Rightarrow> fetcher \<Rightarrow> (round_result, fetcher) run" where
  "plan_round en h idle l sw x =
     (case process_timeouts (en_now en) sw of
        Inl e \<Rightarrow> Inl (e, x)
      | Inr (_, sw1) \<Rightarrow>
          (let (expired, sw2) = take_recent_timeouts sw1
           in case plan_requests (en_now en) (chunk_timeout (en_low_bandwidth en) l) sw2 of
                Inl e \<Rightarrow> Inl (e, put_live h (l\<lparr>lv_swarm := Some sw2\<rparr>) x)
              | Inr (plans, sw3) \<Rightarrow>
                  (let x1 = fold (timed_out_row en h) (map (\<lambda>r. (r, attempts_of sw2 (ar_chunk r))) expired)
                              (put_live h (l\<lparr>lv_swarm := Some sw3\<rparr>) x);
                       (sent, x2) = fold (send_plan en h) plans (0, x1)
                   in conclude_round en h idle sent x2)))"

definition flush_if_due :: "env \<Rightarrow> string \<Rightarrow> fetcher \<Rightarrow> (unit, fetcher) run" where
  "flush_if_due en h x =
     (case Option.bind (session_of h x) (\<lambda>(s, l). pe_batcher s) of
        None \<Rightarrow> Inr ((), x)
      | Some b \<Rightarrow> if should_flush (en_now en) b then flush_batcher (en_now en) h x else Inr ((), x))"

definition swarm_round :: "env \<Rightarrow> string \<Rightarrow> nat \<Rightarrow> fetcher \<Rightarrow> (round_result, fetcher) run" where
  "swarm_round en h idle x =
     bind_run (flush_if_due en h x) (\<lambda>_ x0.
       (let x1 = drain_pending_chunk_cancels en h x0
        in case session_of h x1 of
             None \<Rightarrow> Inr (Detached, x1)
           | Some (s, l) \<Rightarrow>
               (if has_blob (en_home en) (pe_board_id s) h x1 \<or> lv_finalized l then Inr (Finished True, x1)
                else if lv_cancel_requested l then Inr (Finished False, release_all s x1)
                else if lv_paused l
                then bind_run (flush_batcher (en_now en) h x1) (\<lambda>_ x2. Inr (Suspended, release_all s x2))
                else if lv_failed l then Inr (Finished False, release_all s x1)
                else (case lv_swarm l of
                        None \<Rightarrow> Inr (Finished False, x1)
                      | Some sw \<Rightarrow> plan_round en h idle l sw x1))))"

text \<open>The rounds of a loop that nothing else touches, one reading of the host for each.\<close>

fun swarm_rounds :: "env list \<Rightarrow> string \<Rightarrow> nat \<Rightarrow> fetcher \<Rightarrow> (round_result, fetcher) run" where
  "swarm_rounds [] h idle x = Inr (Again idle, x)"
| "swarm_rounds (en # ens) h idle x =
     bind_run (swarm_round en h idle x) (\<lambda>r x1.
       (case r of Again n \<Rightarrow> swarm_rounds ens h n x1 | _ \<Rightarrow> Inr (r, x1)))"

text \<open>The \<open>finally\<close> block: \<open>ok\<close> and \<open>held\<close> are a success and a pause of the loop. A failing flush is logged.\<close>

definition end_fetch :: "env \<Rightarrow> string \<Rightarrow> string \<Rightarrow> bool \<Rightarrow> bool \<Rightarrow> fetcher \<Rightarrow> fetcher" where
  "end_fetch en board h ok held x =
     (let paused = (case session_of h x of None \<Rightarrow> False | Some (s, l) \<Rightarrow> lv_paused l);
          x1 = on_live h (\<lambda>l. l\<lparr>lv_running := False\<rparr>) x;
          x2 = (case flush_batcher (en_now en) h x1 of Inl (_, y) \<Rightarrow> y | Inr (_, y) \<Rightarrow> y)
      in if \<not> held \<and> \<not> ok \<and> \<not> has_blob (en_home en) board h x2 \<and> \<not> paused
         then set_node (cancel_pending_chunk_session (en_now en) h (node_of x2)) x2
         else x2)"

section \<open>Whole payloads\<close>

text \<open>The requests for a payload that is too small for chunks, or whose chunked fetch failed; the answers are
  resources without a chunk index. The number of requests that were sent or queued.\<close>

definition request_payload_from :: "env \<Rightarrow> string \<Rightarrow> string \<Rightarrow> peer_info \<Rightarrow> nat \<times> fetcher \<Rightarrow> nat \<times> fetcher" where
  "request_payload_from en board h p kx =
     (case kx of
        (k, x) \<Rightarrow>
          (if has_blob (en_home en) board h x \<or> pi_identity p = None then (k, x)
           else (case send_lxmf (en_net en) (en_now en) (pi_hash p)
                        (utf8 (dumps False (JObj [(''board_id'', JStr board), (''content_hash'', JStr h)])))
                        ''retiboard.payload_req'' DATA (ap_engine (ft_app x)) of
                   (res, e) \<Rightarrow> (if send_ok res then Suc k else k, on_app (on_engine (\<lambda>_. e)) x))))"

definition request_whole_payload :: "env \<Rightarrow> string \<Rightarrow> string \<Rightarrow> string \<Rightarrow> fetcher \<Rightarrow> nat \<times> fetcher" where
  "request_whole_payload en board h self x = fold (request_payload_from en board h) (fetch_peers en board self x) (0, x)"

section \<open>Progress\<close>

record fetch_progress =
  fp_session_id :: string
  fp_state :: string
  fp_chunk_count :: nat
  fp_stored :: nat
  fp_requested :: nat
  fp_active :: nat
  fp_peers :: nat
  fp_available :: nat
  fp_cooled_down :: nat
  fp_percent :: nat
  fp_whole :: bool
  fp_resumed :: bool

definition percent_of :: "nat \<Rightarrow> nat \<Rightarrow> nat" where
  "percent_of stored n = (if n > 0 then stored * 100 div n else 0)"

definition live_state :: "bool \<Rightarrow> live \<Rightarrow> string" where
  "live_state there l =
     (if lv_finalized l \<or> there then ''complete''
      else if lv_cancel_requested l then ''cancelled''
      else if lv_failed l then ''failed''
      else if lv_paused l then ''paused''
      else if lv_manifest l = None then ''manifest_pending''
      else ''fetching'')"

definition build_live_progress_snapshot :: "time \<Rightarrow> bool \<Rightarrow> pending_session \<Rightarrow> live \<Rightarrow> fetch_progress" where
  "build_live_progress_snapshot now there s l =
     (let st = live_state there l;
          total = (case lv_manifest l of None \<Rightarrow> 0 | Some mf \<Rightarrow> mf_chunk_count mf);
          stored = (case lv_manifest l of None \<Rightarrow> 0 | Some mf \<Rightarrow> length (lv_stored l))
      in case lv_swarm l of
           Some sw \<Rightarrow>
             (let p = progress_snapshot now sw
              in \<lparr>fp_session_id = pe_session_id s, fp_state = st, fp_chunk_count = pr_chunk_count p,
                  fp_stored = pr_stored_chunks p, fp_requested = pr_requested_chunks p, fp_active = pr_active_requests p,
                  fp_peers = pr_peer_count p, fp_available = pr_available_peers p,
                  fp_cooled_down = pr_cooled_down_peers p, fp_percent = pr_percent_complete p,
                  fp_whole = pr_complete p, fp_resumed = lv_resumed l\<rparr>)
         | None \<Rightarrow>
             \<lparr>fp_session_id = pe_session_id s, fp_state = st, fp_chunk_count = total, fp_stored = stored,
              fp_requested = 0, fp_active = 0, fp_peers = length (lv_candidates l),
              fp_available = length (lv_candidates l), fp_cooled_down = 0,
              fp_percent = (if st = ''complete'' then 100 else percent_of stored total),
              fp_whole = (st = ''complete''), fp_resumed = lv_resumed l\<rparr>)"

definition load_persisted_progress_snapshot :: "bool \<Rightarrow> string \<Rightarrow> string \<Rightarrow> chunk_db \<Rightarrow> fetch_progress option" where
  "load_persisted_progress_snapshot there board h db =
     (case load_latest_chunk_fetch_session_for_blob board h db of
        None \<Rightarrow> None
      | Some r \<Rightarrow>
          (let rows = load_chunk_request_states (se_session_id r) db;
               stored = length (filter (\<lambda>q. rq_state q = ''stored'') rows);
               out = (if se_state r = ''paused'' then 0 else length (filter (\<lambda>q. rq_state q = ''requested'') rows));
               n = (case load_chunk_manifest h db of
                      Some (mf, es) \<Rightarrow> mf_chunk_count mf
                    | None \<Rightarrow> nat (fold (\<lambda>q m. max m (rq_chunk_index q)) rows (- 1) + 1))
           in Some \<lparr>fp_session_id = se_session_id r, fp_state = se_state r, fp_chunk_count = n, fp_stored = stored,
                    fp_requested = out, fp_active = out, fp_peers = 0, fp_available = 0, fp_cooled_down = 0,
                    fp_percent = percent_of stored n, fp_whole = there, fp_resumed = (se_state r \<noteq> ''paused'')\<rparr>))"

definition is_placeholder :: "fetch_progress \<Rightarrow> bool" where
  "is_placeholder p =
     (\<not> fp_whole p \<and> (fp_state p = ''manifest_pending'' \<or> fp_state p = ''fetching'') \<and> fp_chunk_count p = 0)"

definition should_prefer_persisted_progress :: "fetch_progress \<Rightarrow> fetch_progress option \<Rightarrow> bool" where
  "should_prefer_persisted_progress live persisted =
     (is_placeholder live \<and>
      (case persisted of None \<Rightarrow> False | Some p \<Rightarrow> fp_chunk_count p > 0 \<or> fp_stored p > 0 \<or> fp_percent p > 0))"

definition done_progress :: "nat \<Rightarrow> fetch_progress" where
  "done_progress n =
     \<lparr>fp_session_id = [], fp_state = ''complete'', fp_chunk_count = n, fp_stored = n, fp_requested = 0, fp_active = 0,
      fp_peers = 0, fp_available = 0, fp_cooled_down = 0, fp_percent = 100, fp_whole = True, fp_resumed = False\<rparr>"

definition stored_progress :: "env \<Rightarrow> string \<Rightarrow> string \<Rightarrow> bool \<Rightarrow> fetcher \<Rightarrow> (fetch_progress option, fetcher) run" where
  "stored_progress en board h there x =
     bind_run (connect (en_home en) board x) (\<lambda>_ x1.
       Inr (if there
            then Some (done_progress (case load_chunk_manifest h (chunks_of board x1) of
                                        None \<Rightarrow> 0 | Some (mf, es) \<Rightarrow> mf_chunk_count mf))
            else load_persisted_progress_snapshot there board h (chunks_of board x1), x1))"

definition get_chunk_fetch_progress :: "env \<Rightarrow> string \<Rightarrow> string \<Rightarrow> fetcher \<Rightarrow> (fetch_progress option, fetcher) run" where
  "get_chunk_fetch_progress en board h x =
     (let there = has_blob (en_home en) board h x
      in case session_of h x of
           Some (s, l) \<Rightarrow>
             (if pe_board_id s = board
              then (let live = build_live_progress_snapshot (en_now en) there s l
                    in if is_placeholder live
                       then bind_run (connect (en_home en) board x) (\<lambda>_ x1.
                              (let p = load_persisted_progress_snapshot there board h (chunks_of board x1)
                               in Inr (if should_prefer_persisted_progress live p then p else Some live, x1)))
                       else Inr (Some live, x))
              else stored_progress en board h there x)
         | None \<Rightarrow> stored_progress en board h there x)"

section \<open>Messages of the payload protocol\<close>

definition handler_result :: "('a, fetcher) run \<Rightarrow> fetcher" where
  "handler_result r = (case r of Inl (_, x) \<Rightarrow> x | Inr (_, x) \<Rightarrow> x)"

definition chunk_handler :: "env \<Rightarrow> message \<Rightarrow> string option \<Rightarrow> wire \<Rightarrow> fetcher \<Rightarrow> fetcher option" where
  "chunk_handler en m ident d x =
     (let t = ms_title m
      in if t = ''retiboard.payload_req'' then Some (handler_result (handle_payload_request en ident d x))
         else if t = ''retiboard.chunk_manifest_req'' then Some (handler_result (handle_manifest_request en m ident d x))
         else if t = ''retiboard.chunk_manifest_res'' then Some (handler_result (handle_manifest_response en m d x))
         else if t = ''retiboard.chunk_manifest_unav'' then Some (handle_manifest_unavailable m d x)
         else if t = ''retiboard.chunk_req'' then Some (handler_result (handle_chunk_request en m ident d x))
         else if t = ''retiboard.chunk_cancel'' then Some (handle_chunk_cancel d x)
         else if t = ''retiboard.chunk_offer'' then Some (handler_result (handle_chunk_offer en m d x))
         else None)"

definition chunk_titles :: "string list" where
  "chunk_titles = [''retiboard.payload_req'', ''retiboard.chunk_manifest_req'', ''retiboard.chunk_manifest_res'',
     ''retiboard.chunk_manifest_unav'', ''retiboard.chunk_req'', ''retiboard.chunk_cancel'', ''retiboard.chunk_offer'']"

text \<open>The whole callback: these titles register the sender and run their handler, the others are
  \<^const>\<open>deliver\<close>'s. A content that is not an object raises in the handler, which is logged.\<close>

definition deliver_any :: "env \<Rightarrow> message \<Rightarrow> fetcher \<Rightarrow> fetcher" where
  "deliver_any en m x =
     (if ms_title m \<in> set chunk_titles
      then (case hear en m (ft_app x) of
              Inl (_, a) \<Rightarrow> x\<lparr>ft_app := a\<rparr>
            | Inr (_, a) \<Rightarrow>
                (case ms_content m of
                   Some (JObj d) \<Rightarrow>
                     (case chunk_handler en m (resolve_source_identity m (ft_app x)) d (x\<lparr>ft_app := a\<rparr>) of
                        None \<Rightarrow> x\<lparr>ft_app := a\<rparr> | Some x1 \<Rightarrow> x1)
                 | _ \<Rightarrow> x\<lparr>ft_app := a\<rparr>))
      else on_app (deliver en m) x)"

end
