(* ===== verification/FetchSafe.thy ===== *)
theory FetchSafe
  imports FetchLoop DeliverySafe
begin

text \<open>
  Properties of the payload fetch. The first part follows the swarm of every session through all the
  operations of the two fetch theories, whatever the peers send and in whatever order.
\<close>

declare map_of_eq_Some_iff [simp del] Some_eq_map_of_iff [simp del]

section \<open>The limits of a session's swarm\<close>

definition swarm_fine :: "swarm \<Rightarrow> bool" where
  "swarm_fine sw \<longleftrightarrow> swarm_inv sw \<and> sw_max_total sw \<le> 10 \<and> sw_max_per_peer sw \<le> 3 \<and> sw_max_attempts sw = 6"

definition same_limits :: "swarm \<Rightarrow> swarm \<Rightarrow> bool" where
  "same_limits s t \<longleftrightarrow> sw_max_total t = sw_max_total s \<and> sw_max_per_peer t = sw_max_per_peer s \<and>
     sw_max_attempts t = sw_max_attempts s"

lemma same_limits_refl [simp]: "same_limits s s"
  by (simp add: same_limits_def)

lemma same_limits_trans: "same_limits s t \<Longrightarrow> same_limits t u \<Longrightarrow> same_limits s u"
  by (simp add: same_limits_def)

lemma time_out_request_limits: "time_out_request now rid s = Inr t \<Longrightarrow> same_limits s t"
  by (auto simp: time_out_request_def same_limits_def Let_def split: option.splits sum.splits)

lemma time_out_all_limits: "time_out_all now rids s = Inr t \<Longrightarrow> same_limits s t"
proof (induction rids arbitrary: s)
  case (Cons rid rids)
  then show ?case by (auto split: sum.splits dest: time_out_request_limits intro: same_limits_trans)
qed simp

lemma process_timeouts_limits: "process_timeouts now s = Inr (n, t) \<Longrightarrow> same_limits s t"
  unfolding process_timeouts_def
  by (cases "time_out_all now (expired_ids now s) (s\<lparr>sw_recent_timeouts := []\<rparr>)")
    (auto dest!: time_out_all_limits simp: same_limits_def)

lemma plan_for_peers_limits: "same_limits s (snd (plan_for_peers now tmo hs s))"
proof (induction hs arbitrary: s)
  case (Cons h hs)
  have one: "same_limits s (snd (plan_for_peer now tmo h s))" for s
  proof (induction now tmo h s rule: plan_for_peer.induct)
    case (1 now tmo h s)
    have issue: "same_limits s (snd (issue_request now tmo h i dup s))" for i dup
      by (simp add: issue_request_def same_limits_def Let_def split: option.split)
    show ?case
      by (subst plan_for_peer.simps)
        (auto simp: Let_def split: option.split intro: same_limits_trans [OF issue] 1)
  qed
  show ?case using same_limits_trans [OF one Cons]
    by (simp add: split_beta)
qed simp

lemma plan_requests_limits:
  assumes "plan_requests now tmo s = Inr (ps, t)"
  shows "same_limits s t"
proof (cases "process_timeouts now s")
  case (Inr r)
  then obtain n s1 where r: "process_timeouts now s = Inr (n, s1)" by (cases r) simp
  note s1 = process_timeouts_limits [OF r]
  show ?thesis
  proof (cases "is_complete s1")
    case False
    with assms r have "\<exists>hs. plan_for_peers now tmo hs s1 = (ps, t)"
      by (auto simp: plan_requests_def Let_def)
    then obtain hs where "t = snd (plan_for_peers now tmo hs s1)" by (metis snd_conv)
    with same_limits_trans [OF s1 plan_for_peers_limits] show ?thesis by simp
  qed (use assms r s1 in \<open>simp add: plan_requests_def\<close>)
qed (use assms in \<open>simp add: plan_requests_def\<close>)

lemma cancel_siblings_limits: "same_limits s (snd (cancel_siblings xs rid s))"
proof (induction xs rid s rule: cancel_siblings.induct)
  case (2 x xs rid s)
  then show ?case
    by (cases "dget (sw_requests s) x") (auto simp: split_beta same_limits_def)
qed simp

lemma mark_stored_limits: "same_limits s (snd (mark_chunk_stored rid s))"
proof (cases "dget (sw_requests s) rid")
  case (Some r)
  then show ?thesis
    by (auto simp: mark_chunk_stored_def Let_def same_limits_def split: option.split
        intro!: same_limits_trans [OF _ cancel_siblings_limits, unfolded same_limits_def, simplified])
qed (simp add: mark_chunk_stored_def)

lemma swarm_step_limits: "swarm_step s t \<Longrightarrow> same_limits s t"
proof (induction rule: swarm_step.induct)
  case (Invalid now rid s t)
  then show ?case by (auto simp: mark_invalid_def same_limits_def Let_def split: option.splits sum.splits)
qed (auto dest: plan_requests_limits process_timeouts_limits simp: mark_stored_limits,
     auto simp: same_limits_def take_recent_timeouts_def mark_request_sent_def mark_send_failed_def
       mark_request_deferred_def mark_cancelled_def update_peer_availability_def apply_persisted_peer_state_def Let_def
       split: option.split)

lemma swarm_fine_step: "swarm_fine s \<Longrightarrow> swarm_step s t \<Longrightarrow> swarm_fine t"
  by (auto simp: swarm_fine_def same_limits_def dest: swarm_step_limits intro: swarm_step_inv)

text \<open>A swarm that resumes: chunks of a swarm without requests are marked as stored, attempts are carried over.\<close>

definition idle_swarm :: "swarm \<Rightarrow> bool" where
  "idle_swarm sw \<longleftrightarrow> swarm_fine sw \<and> sw_requests sw = [] \<and> (\<forall>i c. dget (sw_chunks sw) i = Some c \<longrightarrow> sc_active c = [])"

lemma idle_modify:
  assumes sw: "idle_swarm sw"
    and g: "\<And>c. sc_index (g c) = sc_index c \<and> sc_active (g c) = sc_active c \<and>
      (sc_attempt_count c \<le> 6 \<longrightarrow> sc_attempt_count (g c) \<le> 6)"
  shows "idle_swarm (modify_chunk i g sw)"
proof (cases "dget (sw_chunks sw) i")
  case (Some c)
  have "chunks_inv (modify_chunk i g sw)"
    using sw Some g unfolding idle_swarm_def swarm_fine_def swarm_inv_def chunks_inv_def
    by (auto simp: modify_chunk_def dict_laws dict_ok_dput chunk_ok_def)
  with sw Some g show ?thesis
    unfolding idle_swarm_def swarm_fine_def swarm_inv_def
    by (auto simp: modify_chunk_def dict_laws peers_inv_def)
qed (use sw in \<open>simp add: modify_chunk_def\<close>)

lemma idle_stored: "idle_swarm sw \<Longrightarrow> idle_swarm (seed_stored i sw)"
  unfolding seed_stored_def by (rule idle_modify) auto

lemma idle_seed:
  assumes "idle_swarm sw" and "\<forall>r \<in> set rows. rq_attempt_count r \<le> 6"
  shows "idle_swarm (seed_swarm rows ixs sw)"
proof -
  have "idle_swarm (fold seed_attempts rows sw)" using assms
  proof (induction rows arbitrary: sw)
    case (Cons r rows)
    then have "idle_swarm (seed_attempts r sw)" unfolding seed_attempts_def by (auto intro!: idle_modify)
    with Cons show ?case by simp
  qed simp
  moreover have "idle_swarm (fold seed_stored js sw)" if "idle_swarm sw" for js sw
    using that by (induction js arbitrary: sw) (simp_all add: idle_stored)
  ultimately show ?thesis by (simp add: seed_swarm_def)
qed

lemma idle_new: "idle_swarm (new_swarm peers n None None 6 mode ranges low)"
proof -
  let ?base = "new_swarm peers n None None 6 mode [] low"
  have fold: "idle_swarm s \<Longrightarrow> idle_swarm (foldl (\<lambda>s (h, rs). update_peer_availability h rs s) s rs)" for s rs
  proof (induction rs arbitrary: s)
    case (Cons r rs)
    then have "idle_swarm (update_peer_availability (fst r) (snd r) s)"
      using swarm_fine_step [OF _ swarm_step.Availability, of s "fst r" "snd r"]
      by (simp add: idle_swarm_def) (simp add: update_peer_availability_def Let_def)
    with Cons show ?case by (simp add: split_beta)
  qed simp
  have "swarm_fine ?base"
    using new_swarm_inv [of peers n None None 6 mode "[]" low]
    by (simp add: swarm_fine_def) (simp add: new_swarm_def)
  moreover have "sc_active c = []" if "dget (sw_chunks ?base) i = Some c" for i c
    using map_of_SomeD [OF that] by (auto simp: new_swarm_def new_chunk_def)
  moreover have "sw_requests ?base = []" by (simp add: new_swarm_def)
  ultimately have "idle_swarm ?base" by (simp add: idle_swarm_def)
  from fold [OF this, of ranges] show ?thesis by (simp add: new_swarm_def Let_def)
qed

lemma idle_penalty: "idle_swarm sw \<Longrightarrow> idle_swarm (apply_penalty r sw)"
  using swarm_fine_step [OF _ swarm_step.Persisted]
  by (auto simp: idle_swarm_def apply_penalty_def)
    (auto simp: apply_persisted_peer_state_def split: option.splits)

lemma build_swarm_idle:
  assumes "\<forall>r \<in> set (load_chunk_request_states (pe_session_id s) db). rq_attempt_count r \<le> 6"
  shows "idle_swarm (build_swarm low board h resumed s l mf db)"
proof -
  have "idle_swarm (fold apply_penalty rs sw)" if "idle_swarm sw" for rs sw
    using that by (induction rs arbitrary: sw) (auto intro: idle_penalty)
  from this [OF idle_new] show ?thesis
    using assms by (auto simp: build_swarm_def Let_def split_beta intro!: idle_seed)
qed

lemma draw_fine: "idle_swarm sw \<Longrightarrow> swarm_fine (draw_from k sw)"
  by (auto simp: idle_swarm_def swarm_fine_def draw_from_def swarm_inv_def peers_inv_def chunks_inv_def)

section \<open>Live sessions\<close>

definition live_ok :: "live \<Rightarrow> bool" where
  "live_ok l \<longleftrightarrow> (\<forall>sw. lv_swarm l = Some sw \<longrightarrow> swarm_fine sw)"

definition lives_ok :: "fetcher \<Rightarrow> bool" where
  "lives_ok x \<longleftrightarrow> (\<forall>h l. dget (ft_live x) h = Some l \<longrightarrow> live_ok l)"

lemma lives_ok_cong: "ft_live y = ft_live x \<Longrightarrow> lives_ok y = lives_ok x"
  by (simp add: lives_ok_def)

lemma live_frame [simp]:
  "ft_live (on_app f x) = ft_live x" "ft_live (set_node n x) = ft_live x" "ft_live (on_scheduler g x) = ft_live x"
  "ft_live (put_chunks b db x) = ft_live x" "ft_live (transmit en h v t x) = ft_live x"
  "ft_live (enqueue_send i d m x) = ft_live x" "ft_live (release_all s x) = ft_live x"
  "ft_live (send_chunk_offer en p b h k w rs x) = ft_live x"
  "ft_live (send_manifest_unavailable en p b h r x) = ft_live x"
  by (simp_all add: on_app_def set_node_def on_scheduler_def put_chunks_def transmit_def enqueue_send_def release_all_def
      send_chunk_offer_def send_manifest_unavailable_def)

lemma live_on_session [simp]: "ft_live (on_session h f x) = ft_live x"
  by (simp add: on_session_def split: option.split)

lemma live_queue_row [simp]: "ft_live (queue_row now h i st p rid n d x) = ft_live x"
  by (simp add: queue_row_def)

lemma live_queue_peer [simp]: "ft_live (queue_swarm_peer_state now h p x) = ft_live x"
  by (simp add: queue_swarm_peer_state_def split: option.split)

lemma live_offers [simp]: "ft_live (fold (\<lambda>p. send_chunk_offer en p b h n w rs) ps x) = ft_live x"
  by (induction ps arbitrary: x) simp_all

lemma live_incremental [simp]: "ft_live (send_incremental_chunk_offer en h x) = ft_live x"
  by (simp add: send_incremental_chunk_offer_def split: option.split)

lemma session_ok: "lives_ok x \<Longrightarrow> session_of h x = Some (s, l) \<Longrightarrow> live_ok l"
  by (auto simp: session_of_def lives_ok_def dget_or_def new_live_def live_ok_def split: option.splits)

lemma session_fine: "lives_ok x \<Longrightarrow> session_of h x = Some (s, l) \<Longrightarrow> lv_swarm l = Some sw \<Longrightarrow> swarm_fine sw"
  using session_ok by (auto simp: live_ok_def)

lemma lives_ok_put: "lives_ok x \<Longrightarrow> live_ok l \<Longrightarrow> lives_ok (put_live h l x)"
  by (auto simp: lives_ok_def put_live_def dict_laws split: if_splits)

lemma lives_ok_on: "lives_ok x \<Longrightarrow> (\<And>l. live_ok l \<Longrightarrow> live_ok (f l)) \<Longrightarrow> lives_ok (on_live h f x)"
  by (auto simp: on_live_def intro: lives_ok_put session_ok split: option.split)

lemma live_ok_step: "live_ok l \<Longrightarrow> (\<And>sw. swarm_step sw (f sw)) \<Longrightarrow> live_ok (l\<lparr>lv_swarm := map_option f (lv_swarm l)\<rparr>)"
  by (auto simp: live_ok_def intro: swarm_fine_step)

text \<open>The same for operations that may raise.\<close>

definition run_ok :: "('a, fetcher) run \<Rightarrow> bool" where
  "run_ok r \<longleftrightarrow> lives_ok (handler_result r)"

lemma run_ok_simps [simp]: "run_ok (Inr (v, x)) = lives_ok x" "run_ok (Inl (e, x)) = lives_ok x"
  by (simp_all add: run_ok_def handler_result_def)

lemma run_ok_bind:
  assumes "run_ok r" and "\<And>v y. r = Inr (v, y) \<Longrightarrow> lives_ok y \<Longrightarrow> run_ok (k v y)"
  shows "run_ok (bind_run r k)"
proof (cases r)
  case (Inl e) then show ?thesis using assms(1) by (cases e) simp
next
  case (Inr v) then show ?thesis using assms by (cases v) auto
qed

lemma run_ok_frame: "ft_live (handler_result r) = ft_live x \<Longrightarrow> lives_ok x \<Longrightarrow> run_ok r"
  by (simp add: run_ok_def lives_ok_def)

lemma run_ok_basic:
  assumes "lives_ok x"
  shows "run_ok (on_files g x)" "run_ok (connect home b x)" "run_ok (save_rows b q x)" "run_ok (store_manifest b r e x)"
    "run_ok (read_blob home b h x)" "run_ok (flush_batcher now h x)"
  by (rule run_ok_frame [OF _ assms],
      simp add: handler_result_def on_files_def connect_def save_rows_def store_manifest_def read_blob_def
        flush_batcher_def split: sum.split option.split prod.split)+

lemma run_ok_make: "lives_ok x \<Longrightarrow> run_ok (make_manifest now b ref blob e x)"
  by (auto simp: make_manifest_def intro!: run_ok_bind run_ok_basic split: sum.split)

lemma run_ok_local_offer: "lives_ok x \<Longrightarrow> run_ok (get_local_chunk_offer en b h x)"
  by (auto simp: get_local_chunk_offer_def intro!: run_ok_bind run_ok_basic run_ok_make split: option.split)

lemma lives_track: "lives_ok x \<Longrightarrow> lives_ok (track_interested_peer h p x)"
  by (auto simp: track_interested_peer_def live_ok_def intro: lives_ok_on)

lemma lives_fail: "lives_ok x \<Longrightarrow> lives_ok (fail_pending_chunk_session h x)"
  by (auto simp: fail_pending_chunk_session_def live_ok_def intro: lives_ok_on)

lemma lives_frames:
  assumes "lives_ok x"
  shows "lives_ok (on_app f x)" "lives_ok (set_node n x)" "lives_ok (on_scheduler g x)" "lives_ok (put_chunks b db x)"
    "lives_ok (transmit en h v t x)" "lives_ok (enqueue_send who data m x)" "lives_ok (release_all s x)"
    "lives_ok (send_chunk_offer en p b h k w rs x)" "lives_ok (send_manifest_unavailable en p b h r x)"
    "lives_ok (on_session h f1 x)" "lives_ok (queue_row now h ci st p rid tries dl x)"
    "lives_ok (queue_swarm_peer_state now h p x)" "lives_ok (send_incremental_chunk_offer en h x)"
  using assms by (simp_all add: lives_ok_def)

lemma lives_drain_cancels: "lives_ok x \<Longrightarrow> lives_ok (drain_cancels en b h cs x)"
  by (induction en b h cs x rule: drain_cancels.induct) (auto intro: lives_frames)

lemma lives_drain: "lives_ok x \<Longrightarrow> lives_ok (drain_pending_chunk_cancels en h x)"
  by (auto simp: drain_pending_chunk_cancels_def live_ok_def split: option.split
      intro!: lives_drain_cancels lives_ok_put dest: session_ok)

lemmas live_rules = run_ok_bind run_ok_basic run_ok_make run_ok_local_offer lives_track lives_fail lives_frames lives_drain

section \<open>The handlers\<close>

lemma run_ok_manifest_request: "lives_ok x \<Longrightarrow> run_ok (handle_manifest_request en m i d x)"
  by (auto simp: handle_manifest_request_def Let_def intro!: live_rules split: option.split)

lemma run_ok_serve_stored: "lives_ok x \<Longrightarrow> run_ok (serve_stored_chunk en b h p i rid who r x)"
  by (auto simp: serve_stored_chunk_def Let_def intro!: live_rules split: option.split)

lemma run_ok_chunk_request: "lives_ok x \<Longrightarrow> run_ok (handle_chunk_request en m i d x)"
  by (auto simp: handle_chunk_request_def serve_chunk_def Let_def intro!: live_rules run_ok_serve_stored
      split: option.split sum.split)

lemma run_ok_payload_request: "lives_ok x \<Longrightarrow> run_ok (handle_payload_request en i d x)"
  by (auto simp: handle_payload_request_def intro!: live_rules split: option.split sum.split)

lemma run_ok_persist_offer: "lives_ok x \<Longrightarrow> run_ok (persist_peer_chunk_offer en b p h n w rs x)"
  by (auto simp: persist_peer_chunk_offer_def intro!: live_rules)

lemma run_ok_manifest_response: "lives_ok x \<Longrightarrow> run_ok (handle_manifest_response en m d x)"
  by (auto simp: handle_manifest_response_def Let_def live_ok_def
      intro!: live_rules run_ok_persist_offer lives_ok_put dest: session_ok split: option.split sum.split)

lemma lives_manifest_unavailable: "lives_ok x \<Longrightarrow> lives_ok (handle_manifest_unavailable m d x)"
  by (auto simp: handle_manifest_unavailable_def Let_def live_ok_def
      intro!: lives_fail lives_ok_put dest: session_ok split: option.split)

lemma run_ok_chunk_offer: "lives_ok x \<Longrightarrow> run_ok (handle_chunk_offer en m d x)"
  by (auto simp: handle_chunk_offer_def Let_def
      intro!: live_rules run_ok_persist_offer lives_ok_put live_ok_step swarm_step.Availability
      dest: session_ok split: option.split sum.split)

lemma lives_cancel_chunk: "lives_ok x \<Longrightarrow> lives_ok (handle_chunk_cancel d x)"
  by (simp add: handle_chunk_cancel_def Let_def lives_ok_def)

lemma lives_handler: "run_ok r \<Longrightarrow> lives_ok (handler_result r)"
  by (simp add: run_ok_def)

lemma lives_deliver: "lives_ok x \<Longrightarrow> lives_ok (deliver_any en m x)"
proof -
  assume ok: "lives_ok x"
  have "lives_ok (x\<lparr>ft_app := a\<rparr>)" for a using ok by (simp add: lives_ok_def)
  then show ?thesis using ok
    by (auto simp: deliver_any_def chunk_handler_def Let_def
        intro!: lives_handler run_ok_manifest_request run_ok_chunk_request run_ok_payload_request
          run_ok_manifest_response lives_manifest_unavailable run_ok_chunk_offer lives_cancel_chunk lives_frames
        split: option.split sum.split json.split)
qed

section \<open>Resources\<close>

lemma lives_retire_siblings: "lives_ok x \<Longrightarrow> lives_ok (retire_siblings now h rs x)"
proof (induction now h rs x rule: retire_siblings.induct)
  case (2 now h r rs x)
  have "lives_ok (on_live h (\<lambda>l. l\<lparr>lv_cancelled := f l, lv_pending_cancels := g l\<rparr>) y)" if "lives_ok y" for f g y
    using that by (auto intro!: lives_ok_on simp: live_ok_def)
  with 2 show ?case by (simp add: Let_def lives_frames)
qed simp

lemma found_request:
  assumes "swarm_fine sw" and "lookup_request rid sw = Some r"
  shows "dget (sw_requests sw) (ar_id r) = Some r \<and> request_text (ar_id r) = rid"
proof -
  from assms(2) obtain k where k: "(k, r) \<in> set (sw_requests sw)" "request_text k = rid"
    by (auto simp: lookup_request_def dest!: find_SomeD)
  have "dict_ok (sw_requests sw)" using assms(1) by (simp add: swarm_fine_def swarm_inv_def peers_inv_def)
  then have g: "dget (sw_requests sw) k = Some r" by (rule iffD1 [OF dict_memD k(1)])
  with assms(1) have "ar_id r = k"
    by (auto simp: swarm_fine_def swarm_inv_def chunks_inv_def request_ok_def)
  with g k(2) show ?thesis by simp
qed

lemma run_ok_store_chunk:
  assumes "lives_ok x" and "swarm_fine sw"
  shows "run_ok (store_chunk en h s l sw r e data x)"
proof -
  obtain sibs sw1 where m: "mark_chunk_stored (ar_id r) sw = (sibs, sw1)" by (cases "mark_chunk_stored (ar_id r) sw")
  have "swarm_fine sw1" using swarm_fine_step [OF assms(2) swarm_step.Chunk_stored [of sw "ar_id r"]] m by simp
  then have "live_ok (l\<lparr>lv_stored := a, lv_swarm := Some sw1, lv_present := b\<rparr>)" for a b
    by (simp add: live_ok_def)
  with assms(1) show ?thesis
    by (auto simp: store_chunk_def Let_def m
        intro!: live_rules lives_ok_put lives_retire_siblings lives_ok_on simp: live_ok_def)
qed

lemma run_ok_reject_chunk:
  assumes "lives_ok x" and "swarm_fine sw"
  shows "run_ok (reject_chunk en h s l sw r ci bad x)"
  using assms swarm_fine_step [OF assms(2) swarm_step.Invalid]
  by (auto simp: reject_chunk_def live_ok_def intro!: live_rules lives_ok_put split: sum.split)

lemma run_ok_incoming_chunk:
  assumes ok: "lives_ok x"
  shows "run_ok (incoming_chunk en meta data x)"
proof -
  have fine: "swarm_fine sw" if "session_of h x = Some (s, l)" "lv_swarm l = Some sw" for h s l sw
    using session_ok [OF ok that(1)] that(2) by (simp add: live_ok_def)
  have failed: "lives_ok y" if "store_chunk en h s l sw r e data x = Inl (er, y)"
    "session_of h x = Some (s, l)" "lv_swarm l = Some sw" for h s l sw r e er y
    using run_ok_store_chunk [OF ok fine [OF that(2,3)], of en h s l r e data] that(1) by simp
  have stored: "lives_ok y" if "store_chunk en h s l sw r e data x = Inr (u, y)"
    "session_of h x = Some (s, l)" "lv_swarm l = Some sw" for h s l sw r e u y
    using run_ok_store_chunk [OF ok fine [OF that(2,3)], of en h s l r e data] that(1) by simp
  have late: "lives_ok (put_live h (l\<lparr>lv_cancelled := c, lv_swarm := Some (mark_send_failed
      \<lparr>rp_id = ar_id r, rp_peer = ar_peer r, rp_chunk = ar_chunk r, rp_timeout = 0, rp_duplicate = False\<rparr> sw)\<rparr>)
      (on_scheduler g x))" if "swarm_fine sw" "lookup_request rid sw = Some r" for h l sw r c g rid
  proof -
    have "swarm_fine (mark_send_failed
        \<lparr>rp_id = ar_id r, rp_peer = ar_peer r, rp_chunk = ar_chunk r, rp_timeout = 0, rp_duplicate = False\<rparr> sw)"
      using found_request [OF that] by (intro swarm_fine_step [OF that(1)] swarm_step.Send_failed [where r = r]) simp_all
    with ok show ?thesis by (auto intro!: lives_ok_put lives_frames simp: live_ok_def)
  qed
  show ?thesis using ok
    by (auto simp: incoming_chunk_def Let_def
        intro!: run_ok_reject_chunk late lives_fail intro: fine failed stored split: option.split sum.split)
qed

lemma lives_settled: "run_ok r \<Longrightarrow> lives_ok (case r of Inl (_, x1) \<Rightarrow> x1 | Inr (_, x1) \<Rightarrow> x1)"
  by (simp add: run_ok_def handler_result_def)

lemma lives_resource:
  assumes "lives_ok x"
  shows "lives_ok (resource_concluded en ok meta data x)"
proof (cases ok)
  case False
  then show ?thesis using assms lives_fail [OF assms]
    by (simp add: resource_concluded_def Let_def split: json.split)
next
  case True
  note chunk = lives_settled [OF run_ok_incoming_chunk [OF assms]]
  note written = lives_settled [OF run_ok_basic(1) [OF assms]]
  show ?thesis
  proof (cases "dget meta ''blob_hash'' \<noteq> None \<and> dget meta ''chunk_index'' \<noteq> None \<and> dget meta ''request_id'' \<noteq> None")
    case chunked: True
    have "resource_concluded en True meta data x =
        (case incoming_chunk en meta data x of Inl (_, x1) \<Rightarrow> x1 | Inr (_, x1) \<Rightarrow> x1)"
      unfolding resource_concluded_def Let_def using chunked by simp
    with chunk True show ?thesis by simp
  next
    case whole: False
    show ?thesis
      unfolding resource_concluded_def Let_def if_not_P [OF whole] using True assms
      by (auto intro: written split: json.split)
  qed
qed

section \<open>The loop\<close>

lemma lives_fold: "lives_ok x \<Longrightarrow> (\<And>a y. lives_ok y \<Longrightarrow> lives_ok (f a y)) \<Longrightarrow> lives_ok (fold f xs x)"
  by (induction xs arbitrary: x) auto

lemma lives_set: "lives_ok x \<Longrightarrow> (\<And>l. lv_swarm (f l) = lv_swarm l) \<Longrightarrow> lives_ok (on_live h f x)"
  by (auto intro: lives_ok_on simp: live_ok_def)

lemma lives_step: "lives_ok x \<Longrightarrow> (\<And>sw. swarm_step sw (f sw)) \<Longrightarrow>
    lives_ok (on_live h (\<lambda>l. l\<lparr>lv_swarm := map_option f (lv_swarm l)\<rparr>) x)"
  by (auto intro: lives_ok_on live_ok_step)

lemma lives_retire: "lives_ok x \<Longrightarrow> lives_ok (snd (retire_active_swarm_requests h x))"
proof -
  have "lives_ok (retire_request h r y)" if "lives_ok y" for r y
    unfolding retire_request_def using that
    by (auto simp: live_ok_def intro!: lives_ok_on lives_frames swarm_fine_step [OF _ swarm_step.Cancel])
  then show "lives_ok x \<Longrightarrow> ?thesis"
    by (auto simp: retire_active_swarm_requests_def intro: lives_fold split: option.split)
qed

lemma run_ok_stop: "lives_ok x \<Longrightarrow> run_ok (stop_requests en h x)"
  using lives_retire [of x h]
  by (auto simp: stop_requests_def split_beta intro!: live_rules lives_fold)

lemma run_ok_save_session: "lives_ok x \<Longrightarrow> run_ok (save_session_as en s st x)"
  by (auto simp: save_session_as_def intro!: live_rules)

lemma run_ok_update_persisted: "lives_ok x \<Longrightarrow> run_ok (update_persisted en b h st x)"
  by (auto simp: update_persisted_def intro!: live_rules split: option.split)

lemma run_ok_drop: "lives_ok x \<Longrightarrow> run_ok (drop_fetch en b h e x)"
  by (auto simp: drop_fetch_def intro!: live_rules)

lemma run_ok_control:
  assumes "lives_ok x"
  shows "run_ok (pause_chunk_fetch en b h x)" "run_ok (resume_chunk_fetch en b h x)" "run_ok (cancel_chunk_fetch en b h x)"
  using assms
  by (auto simp: pause_chunk_fetch_def resume_chunk_fetch_def cancel_chunk_fetch_def
      intro!: run_ok_bind run_ok_stop run_ok_save_session run_ok_update_persisted run_ok_drop lives_set split: option.split)

lemma run_ok_restore_rows: "lives_ok x \<Longrightarrow> run_ok (restore_rows en b h rs x)"
proof (induction en b h rs x rule: restore_rows.induct)
  case (2 en b h r rs x)
  have put: "lives_ok (put_live h (l\<lparr>lv_stored := a, lv_present := c\<rparr>) x)" if "session_of h x = Some (s, l)" for s l a c
    using session_ok [OF 2(5) that] 2(5) by (auto intro!: lives_ok_put simp: live_ok_def)
  show ?case
    using 2(5) by (auto intro!: run_ok_bind run_ok_basic put intro: 2(1-4) split: option.split)
qed simp

lemma run_ok_restore: "lives_ok x \<Longrightarrow> run_ok (restore_chunk_session_state en b h x)"
  by (auto simp: restore_chunk_session_state_def Let_def
      intro!: live_rules run_ok_restore_rows lives_set split: option.split)

lemma lives_put_new: "lives_ok x \<Longrightarrow> lives_ok (put_live h new_live x)"
  by (rule lives_ok_put) (simp_all add: live_ok_def new_live_def)

lemma lives_schedule: "lives_ok x \<Longrightarrow> lives_ok (schedule_session en h k e m x)"
  by (auto simp: schedule_session_def intro!: lives_set lives_frames split: option.split)

lemma run_ok_begin: "lives_ok x \<Longrightarrow> run_ok (begin_fetch en b h self e m u x)"
  by (auto simp: begin_fetch_def Let_def split_beta
      intro!: live_rules lives_set lives_put_new lives_schedule split: option.split)

lemma run_ok_prepare: "lives_ok x \<Longrightarrow> run_ok (prepare_fetch en b h fresh ps x)"
proof -
  have put: "lives_ok (put_live h (l\<lparr>lv_resumed := r\<rparr>) y)" if "lives_ok y" "session_of h y = Some (s, l)" for y s l r
    using session_ok [OF that] that(1) by (auto intro!: lives_ok_put simp: live_ok_def)
  show "lives_ok x \<Longrightarrow> ?thesis"
    by (auto simp: prepare_fetch_def Let_def
        intro!: run_ok_bind run_ok_restore run_ok_save_session intro: put split: option.split)
qed

lemma lives_ask: "lives_ok x \<Longrightarrow> lives_ok (snd (request_chunk_manifest en b h ps x))"
proof -
  have one: "lives_ok (snd (snd (request_manifest_from en b h p r)))" if "lives_ok (snd (snd r))" for p r
    using that by (cases r) (auto simp: request_manifest_from_def lives_frames split: prod.split)
  have many: "lives_ok (snd (snd (fold (request_manifest_from en b h) ps r)))" if "lives_ok (snd (snd r))" for r
    using that by (induction ps arbitrary: r) (simp_all add: one)
  show "lives_ok x \<Longrightarrow> ?thesis"
    by (auto simp: request_chunk_manifest_def split_beta intro!: many lives_set)
qed

lemma lives_poll: "lives_ok x \<Longrightarrow> lives_ok (snd (manifest_poll h ps late x))"
  by (auto simp: manifest_poll_def Let_def live_ok_def intro!: lives_ok_put dest: session_ok split: option.split)

lemma run_ok_start:
  assumes "lives_ok x" and "\<And>sid. \<forall>r \<in> set (load_chunk_request_states sid (chunks_of b (handler_result (connect (en_home en) b x)))). rq_attempt_count r \<le> 6"
  shows "run_ok (start_swarm en b h resumed x)"
proof -
  have built: "live_ok (l\<lparr>lv_swarm := Some (draw_from k (build_swarm lo b h resumed s l mf (chunks_of b y)))\<rparr>)"
    if "connect (en_home en) b x = Inr (v, y)" for v y lo s l mf k
    using build_swarm_idle [OF assms(2) [unfolded that handler_result_def sum.case prod.case]]
    by (auto simp: live_ok_def intro: draw_fine)
  have more: "lives_ok (y\<lparr>ft_swarms := k\<rparr>)" if "lives_ok y" for y k using that by (simp add: lives_ok_def)
  from assms(1) show ?thesis
    by (auto simp: start_swarm_def intro!: live_rules lives_ok_put built more split: option.split)
qed

lemma lives_timed_out: "lives_ok x \<Longrightarrow> lives_ok (timed_out_row en h ra x)"
  by (auto simp: timed_out_row_def Let_def intro!: lives_frames)

lemma lives_send_plan: "lives_ok (snd kx) \<Longrightarrow> lives_ok (snd (send_plan en h plan kx))"
proof -
  have sent: "lives_ok (note_sent en h plan y)" if "lives_ok y" for y
    using that by (auto simp: note_sent_def Let_def intro!: lives_frames lives_step swarm_step.Sent)
  have given: "lives_ok (give_back en h plan st name p y)" if "lives_ok y" for st name p y
    using that by (auto simp: give_back_def Let_def intro!: lives_frames lives_step swarm_step.Deferred)
  show "lives_ok (snd kx) \<Longrightarrow> ?thesis"
    by (cases kx) (auto simp: send_plan_def Let_def split_beta intro!: sent given lives_frames
        split: option.split send_result.split)
qed

lemma run_ok_leave: "lives_ok x \<Longrightarrow> run_ok (leave_loop en h s b x)"
  by (auto simp: leave_loop_def intro!: live_rules)

lemma run_ok_conclude: "lives_ok x \<Longrightarrow> run_ok (conclude_round en h idle sent x)"
  by (auto simp: conclude_round_def Let_def intro!: run_ok_leave split: option.split)

lemma run_ok_plan_round:
  assumes "lives_ok x" and "swarm_fine sw"
  shows "run_ok (plan_round en h idle l sw x)"
proof (cases "process_timeouts (en_now en) sw")
  case (Inr r)
  obtain n sw1 where r: "r = (n, sw1)" by (cases r)
  let ?sw2 = "snd (take_recent_timeouts sw1)"
  have fine2: "swarm_fine ?sw2"
    using assms(2) Inr r by (intro swarm_fine_step [OF swarm_fine_step [OF assms(2) swarm_step.Timeouts] swarm_step.Take_timeouts]) auto
  have sends: "lives_ok (snd (fold (send_plan en h) ps kx))" if "lives_ok (snd kx)" for ps kx
    using that by (induction ps arbitrary: kx) (simp_all add: lives_send_plan)
  have put: "lives_ok (put_live h (l\<lparr>lv_swarm := Some s\<rparr>) x)" if "swarm_fine s" for s
    using assms(1) that by (auto intro: lives_ok_put simp: live_ok_def)
  show ?thesis
  proof (cases "plan_requests (en_now en) (chunk_timeout (en_low_bandwidth en) l) ?sw2")
    case (Inl e)
    then show ?thesis using Inr r put [OF fine2] by (simp add: plan_round_def Let_def split_beta)
  next
    case planned: (Inr p)
    obtain plans sw3 where p: "p = (plans, sw3)" by (cases p)
    have "swarm_fine sw3" using swarm_fine_step [OF fine2 swarm_step.Plan] planned p by auto
    with planned Inr r p show ?thesis
      by (auto simp: plan_round_def Let_def split_beta intro!: run_ok_conclude sends lives_fold put lives_timed_out)
  qed
qed (use assms in \<open>simp add: plan_round_def\<close>)

lemma run_ok_round: "lives_ok x \<Longrightarrow> run_ok (swarm_round en h idle x)"
  by (auto simp: swarm_round_def flush_if_due_def Let_def
      intro!: live_rules run_ok_plan_round intro: session_fine [rotated] lives_drain split: option.split)

lemma lives_end: "lives_ok x \<Longrightarrow> lives_ok (end_fetch en b h ok held x)"
proof -
  assume x: "lives_ok x"
  have "run_ok (flush_batcher (en_now en) h (on_live h (\<lambda>l. l\<lparr>lv_running := False\<rparr>) x))"
    using x by (auto intro!: run_ok_basic lives_set)
  from lives_settled [OF this] show ?thesis
    unfolding end_fetch_def Let_def by (simp add: lives_frames)
qed

lemma lives_whole: "lives_ok x \<Longrightarrow> lives_ok (snd (request_whole_payload en b h self x))"
proof -
  have one: "lives_ok (snd (request_payload_from en b h p kx))" if "lives_ok (snd kx)" for p kx
    using that by (cases kx) (auto simp: request_payload_from_def split_beta intro!: lives_frames)
  have "lives_ok (snd (fold (request_payload_from en b h) ps kx))" if "lives_ok (snd kx)" for ps kx
    using that by (induction ps arbitrary: kx) (simp_all add: one)
  then show "lives_ok x \<Longrightarrow> ?thesis" by (simp add: request_whole_payload_def)
qed

lemma run_ok_progress: "lives_ok x \<Longrightarrow> run_ok (get_chunk_fetch_progress en b h x)"
  by (auto simp: get_chunk_fetch_progress_def stored_progress_def Let_def intro!: live_rules split: option.split)

section \<open>Reachable states\<close>

text \<open>Every operation of the fetch theories is a step, and so is whatever the rest of the program does to the
  node. A swarm is only started over persisted attempt counts of at most six, which is what the program writes.\<close>

inductive fetch_step :: "fetcher \<Rightarrow> fetcher \<Rightarrow> bool" where
  Message: "fetch_step x (deliver_any en m x)"
| Resource: "fetch_step x (resource_concluded en ok meta data x)"
| Begin: "fetch_step x (handler_result (begin_fetch en b h self expected manual uuid x))"
| Prepare: "fetch_step x (handler_result (prepare_fetch en b h fresh ps x))"
| Ask: "fetch_step x (snd (request_chunk_manifest en b h ps x))"
| Poll: "fetch_step x (snd (manifest_poll h ps late x))"
| Start: "(\<And>sid. \<forall>r \<in> set (load_chunk_request_states sid (chunks_of b (handler_result (connect (en_home en) b x)))).
      rq_attempt_count r \<le> 6) \<Longrightarrow> fetch_step x (handler_result (start_swarm en b h resumed x))"
| Round: "fetch_step x (handler_result (swarm_round en h idle x))"
| End: "fetch_step x (end_fetch en b h ok held x)"
| Pause: "fetch_step x (handler_result (pause_chunk_fetch en b h x))"
| Resume: "fetch_step x (handler_result (resume_chunk_fetch en b h x))"
| Cancel: "fetch_step x (handler_result (cancel_chunk_fetch en b h x))"
| Whole: "fetch_step x (snd (request_whole_payload en b h self x))"
| Progress: "fetch_step x (handler_result (get_chunk_fetch_progress en b h x))"
| Elsewhere: "fetch_step x (on_app f x)"

inductive fetch_reachable :: "fetcher \<Rightarrow> bool" where
  start: "ft_live x = [] \<Longrightarrow> fetch_reachable x"
| step: "fetch_reachable x \<Longrightarrow> fetch_step x y \<Longrightarrow> fetch_reachable y"

lemma fetch_step_ok: "fetch_step x y \<Longrightarrow> lives_ok x \<Longrightarrow> lives_ok y"
  by (induction rule: fetch_step.induct)
    (auto intro: lives_handler lives_deliver lives_resource run_ok_begin run_ok_prepare lives_ask lives_poll run_ok_start
       run_ok_round lives_end run_ok_control lives_whole run_ok_progress lives_frames)

lemma fetch_reachable_ok: "fetch_reachable x \<Longrightarrow> lives_ok x"
proof (induction rule: fetch_reachable.induct)
  case (start x) then show ?case by (simp add: lives_ok_def)
qed (rule fetch_step_ok)

section \<open>A session that runs\<close>

text \<open>A node with board \<open>b\<close> open and one peer, which answers the manifest of a blob of two chunks. The
  scheduler knows the session under another id, so it admits none of its requests.\<close>

definition sample_manifest :: manifest where
  "sample_manifest = \<lparr>mf_manifest_version = 1, mf_board_id = ''b'', mf_post_id = [], mf_thread_id = [], mf_blob_kind = Text,
     mf_blob_hash = ''x'', mf_blob_size = 4, mf_chunk_size = 2, mf_chunk_count = 2, mf_merkle_root = None, mf_created_at = 9\<rparr>"

definition sample_entries :: "manifest_entry list" where
  "sample_entries =
     [\<lparr>me_blob_hash = ''x'', me_chunk_index = 0, me_offset = 0, me_size = 2, me_chunk_hash = ''c0''\<rparr>,
      \<lparr>me_blob_hash = ''x'', me_chunk_index = 1, me_offset = 2, me_size = 2, me_chunk_hash = ''c1''\<rparr>]"

definition manifest_message :: message where
  "manifest_message = \<lparr>ms_title = ''retiboard.chunk_manifest_res'',
     ms_content = Some (JObj (manifest_json sample_manifest sample_entries)), ms_source = Some hash_b, ms_identity = None\<rparr>"

definition fetcher_idle :: fetcher where
  "fetcher_idle = \<lparr>ft_app = \<lparr>ap_boards = new_board_manager, ap_engine = (new_engine False)\<lparr>eg_dest := Some hash_a, eg_tracker :=
       index_add ''b'' hash_b tracker_b\<rparr>, ap_node = open_node\<rparr>,
     ft_live = [], ft_cancelled_out = [], ft_sends = [], ft_swarms = 0\<rparr>"

definition fetcher_asked :: fetcher where
  "fetcher_asked = handler_result (begin_fetch env_a ''b'' ''x'' hash_a 0 False ''sid'' fetcher_idle)"

definition fetcher_told :: fetcher where
  "fetcher_told = deliver_any env_a manifest_message fetcher_asked"

definition fetcher_swarm :: fetcher where
  "fetcher_swarm = handler_result (start_swarm env_a ''b'' ''x'' False
     (on_app (\<lambda>a. a\<lparr>ap_node := (ap_node a)\<lparr>nd_scheduler := new_scheduler\<rparr>\<rparr>) fetcher_told))"

definition fetcher_round :: fetcher where
  "fetcher_round = handler_result (swarm_round env_a ''x'' 0 fetcher_swarm)"

text \<open>Property C1: whatever the peers send, in whatever order messages, resources, rounds of the loop and the
  user's pausing, resuming and cancelling follow each other, a session never has more than ten chunk requests
  out, three to one peer, two for one chunk and none for a stored chunk; each names a chunk that knows of it, and
  no chunk is asked for more than six times.\<close>

theorem fetch_within_limits:
  assumes "fetch_reachable x" and "session_of h x = Some (s, l)" and "lv_swarm l = Some sw"
  shows "length (sw_requests sw) \<le> 10 \<and>
    dcount (\<lambda>r. ar_peer r = p) (sw_requests sw) \<le> 3 \<and>
    (\<forall>rid r. dget (sw_requests sw) rid = Some r \<longrightarrow>
       (\<exists>c. dget (sw_chunks sw) (ar_chunk r) = Some c \<and> rid \<in> set (sc_active c))) \<and>
    (\<forall>i c. dget (sw_chunks sw) i = Some c \<longrightarrow>
       sc_attempt_count c \<le> 6 \<and> length (sc_active c) \<le> 2 \<and> (sc_stored c \<longrightarrow> sc_active c = []))"
proof (intro conjI allI impI)
  have fine: "swarm_fine sw" by (rule session_fine [OF fetch_reachable_ok [OF assms(1)] assms(2,3)])
  then have inv: "peers_inv sw" "chunks_inv sw" and lim: "sw_max_total sw \<le> 10" "sw_max_per_peer sw \<le> 3"
    "sw_max_attempts sw = 6" by (simp_all add: swarm_fine_def swarm_inv_def)
  show "length (sw_requests sw) \<le> 10" using inv(1) lim(1) by (simp add: peers_inv_def)
  show "dcount (\<lambda>r. ar_peer r = p) (sw_requests sw) \<le> 3"
  proof (cases "dget (sw_peers sw) p")
    case (Some q)
    with peers_inv_counts [OF inv(1)] lim(2) show ?thesis by fastforce
  next
    case None
    have "ar_peer r \<noteq> p" if "(k, r) \<in> set (sw_requests sw)" for k r
    proof -
      have "dict_ok (sw_requests sw)" using inv(1) by (simp add: peers_inv_def)
      then have "dget (sw_requests sw) k = Some r" by (rule iffD1 [OF dict_memD that])
      then obtain q where "dget (sw_peers sw) (ar_peer r) = Some q" by (rule peers_inv_peer [OF inv(1)])
      with None show ?thesis by auto
    qed
    then have "\<forall>(k, r) \<in> set (sw_requests sw). ar_peer r \<noteq> p" by blast
    then have "dcount (\<lambda>r. ar_peer r = p) (sw_requests sw) = 0" by (fastforce simp: dcount_def filter_empty_conv)
    then show ?thesis by simp
  qed
  fix rid r assume "dget (sw_requests sw) rid = Some r"
  with inv(2) show "\<exists>c. dget (sw_chunks sw) (ar_chunk r) = Some c \<and> rid \<in> set (sc_active c)"
    by (simp add: chunks_inv_def request_ok_def)
next
  fix i c assume c: "dget (sw_chunks sw) i = Some c"
  have fine: "swarm_fine sw" by (rule session_fine [OF fetch_reachable_ok [OF assms(1)] assms(2,3)])
  then have "chunks_inv sw" "sw_max_attempts sw = 6" by (simp_all add: swarm_fine_def swarm_inv_def)
  with c have "chunk_ok (sw_requests sw) 6 i c" unfolding chunks_inv_def by metis
  then show "sc_attempt_count c \<le> 6" "length (sc_active c) \<le> 2" "sc_stored c \<Longrightarrow> sc_active c = []"
    by (simp_all add: chunk_ok_def)
qed

lemma fetcher_round_reachable: "fetch_reachable fetcher_round"
proof -
  let ?q = "on_app (\<lambda>a. a\<lparr>ap_node := (ap_node a)\<lparr>nd_scheduler := new_scheduler\<rparr>\<rparr>) fetcher_told"
  have "ck_requests (chunks_of ''b'' (handler_result (connect (en_home env_a) ''b'' ?q))) = []" by code_simp
  then have rows: "\<forall>r \<in> set (load_chunk_request_states sid
      (chunks_of ''b'' (handler_result (connect (en_home env_a) ''b'' ?q)))). rq_attempt_count r \<le> 6" for sid
    by (simp add: load_chunk_request_states_def)
  have "fetch_reachable fetcher_idle" by (rule fetch_reachable.start) (simp add: fetcher_idle_def)
  then have "fetch_reachable fetcher_asked" unfolding fetcher_asked_def
    by (rule fetch_reachable.step [OF _ fetch_step.Begin])
  then have "fetch_reachable fetcher_told" unfolding fetcher_told_def
    by (rule fetch_reachable.step [OF _ fetch_step.Message])
  then have "fetch_reachable ?q" by (rule fetch_reachable.step [OF _ fetch_step.Elsewhere])
  then have "fetch_reachable fetcher_swarm" unfolding fetcher_swarm_def
    by (rule fetch_reachable.step [OF _ fetch_step.Start [OF rows]])
  then show ?thesis unfolding fetcher_round_def by (rule fetch_reachable.step [OF _ fetch_step.Round])
qed

theorem fetch_within_limits_witness:
  "\<exists>s l sw. session_of ''x'' fetcher_round = Some (s, l) \<and> lv_swarm l = Some sw \<and> length (sw_requests sw) = 2 \<and>
     dcount (\<lambda>r. ar_peer r = hash_b) (sw_requests sw) \<le> 3"
proof -
  have "map_option (\<lambda>(s, l). map_option (\<lambda>sw. length (sw_requests sw)) (lv_swarm l)) (session_of ''x'' fetcher_round) =
    Some (Some 2)" by code_simp
  then obtain s l sw where "session_of ''x'' fetcher_round = Some (s, l)" "lv_swarm l = Some sw" "length (sw_requests sw) = 2"
    by (auto simp: map_option_case split: option.splits)
  with fetch_within_limits [OF fetcher_round_reachable, of "''x''"] show ?thesis by blast
qed

end
