(* ===== verification/FetchProps.thy ===== *)
theory FetchProps
  imports FetchSafe
begin

text \<open>
  Properties of the single parts of the payload fetch: what an offer tells a peer, which chunks are accepted,
  and what a resource or an offer that nobody asked for does.
\<close>

section \<open>Offers\<close>

definition covered :: "(int \<times> int) list \<Rightarrow> int set" where
  "covered rs = (\<Union>(a, b) \<in> set rs. {a..b})"

lemma covered_Cons [simp]: "covered ((a, b) # rs) = {a..b} \<union> covered rs"
  by (simp add: covered_def)

lemma runs_from_covered:
  "start \<le> prev \<Longrightarrow> sorted_wrt (<) (prev # js) \<Longrightarrow> covered (runs_from start prev js) = int ` ({start..prev} \<union> set js)"
proof (induction start prev js rule: runs_from.induct)
  case (1 start prev)
  then show ?case by (simp add: covered_def image_int_atLeastAtMost)
next
  case (2 start prev i js)
  show ?case
  proof (cases "i = Suc prev")
    case True
    with 2 have "covered (runs_from start i js) = int ` ({start..i} \<union> set js)" by simp
    moreover have "{start..i} = {start..prev} \<union> {i}" using True 2 by auto
    ultimately show ?thesis using True by auto
  next
    case False
    with 2 have "covered (runs_from i i js) = int ` ({i..i} \<union> set js)" by simp
    with False show ?thesis by (simp add: image_Un image_int_atLeastAtMost)
  qed
qed

text \<open>Ranges that leave a gap between them.\<close>

definition apart :: "(int \<times> int) list \<Rightarrow> bool" where
  "apart rs \<longleftrightarrow> (\<forall>(a, b) \<in> set rs. a \<le> b) \<and> sorted_wrt (\<lambda>(a, b) (c, d). b + 1 < c) rs"

lemma runs_from_apart:
  "start \<le> prev \<Longrightarrow> sorted_wrt (<) (prev # js) \<Longrightarrow>
     apart (runs_from start prev js) \<and> (\<forall>(a, b) \<in> set (runs_from start prev js). int start \<le> a)"
proof (induction start prev js rule: runs_from.induct)
  case (2 start prev i js)
  show ?case
  proof (cases "i = Suc prev")
    case True with 2 show ?thesis by simp
  next
    case False
    with 2 have "apart (runs_from i i js)" "\<forall>(a, b) \<in> set (runs_from i i js). int i \<le> a" by simp_all
    moreover have "int prev + 1 < int i" "int start \<le> int prev" using False 2 by auto
    ultimately show ?thesis using False by (fastforce simp: apart_def)
  qed
qed (simp add: apart_def)

lemma compress_facts:
  "covered (compress_chunk_indexes xs) = int ` set xs" "apart (compress_chunk_indexes xs)"
proof -
  let ?s = "sort (remdups xs)"
  have s: "sorted_wrt (<) ?s" by (simp add: strict_sorted_iff)
  have "covered (compress_chunk_indexes xs) = int ` set xs \<and> apart (compress_chunk_indexes xs)"
  proof (cases ?s)
    case Nil
    then have "xs = []" by (metis list.set(1) set_empty set_remdups set_sort)
    with Nil show ?thesis by (simp add: compress_chunk_indexes_def covered_def apart_def)
  next
    case (Cons i js)
    with s have "sorted_wrt (<) (i # js)" by simp
    moreover have "set xs = insert i (set js)" by (metis Cons list.simps(15) set_remdups set_sort)
    ultimately show ?thesis using runs_from_covered [of i i js] runs_from_apart [of i i js] Cons
      by (simp add: compress_chunk_indexes_def)
  qed
  then show "covered (compress_chunk_indexes xs) = int ` set xs" "apart (compress_chunk_indexes xs)" by simp_all
qed

lemma normalized_covers:
  assumes "i < n"
  shows "(\<exists>(a, b) \<in> set (filter (\<lambda>(a, b). \<not> b < a) (map (\<lambda>(a, b). (max 0 a, min (int n - 1) b)) rs)). a \<le> int i \<and> int i \<le> b)
    \<longleftrightarrow> int i \<in> covered rs"
  using assms by (force simp: covered_def)

lemma has_chunk_iff:
  "dget (sw_ranges s) p = Some rs \<Longrightarrow> rs \<noteq> [] \<Longrightarrow>
     peer_has_chunk s p i \<longleftrightarrow> (\<exists>(a, b) \<in> set rs. a \<le> int i \<and> int i \<le> b)"
  by (cases rs) (simp_all add: peer_has_chunk_def list_ex_iff)

text \<open>Property C16: the ranges of a chunk offer are the stored indexes in the fewest ranges, in order and apart from
  one another; a peer that takes the offer ascribes to its sender exactly the chunks it stores. An offer of no chunk
  at all is taken for one of every chunk.\<close>

theorem offered_ranges_exact:
  assumes "set xs \<subseteq> {..<length (sw_chunks sw)}" and "i < length (sw_chunks sw)"
  shows "covered (compress_chunk_indexes xs) = int ` set xs \<and> apart (compress_chunk_indexes xs) \<and>
    (peer_has_chunk (update_peer_availability p (compress_chunk_indexes xs) sw) p i \<longleftrightarrow> xs = [] \<or> i \<in> set xs)"
proof (intro conjI compress_facts)
  let ?n = "length (sw_chunks sw)"
  let ?f = "filter (\<lambda>(a, b). \<not> b < a) (map (\<lambda>(a, b). (max 0 a, min (int ?n - 1) b)) (compress_chunk_indexes xs))"
  have got: "dget (sw_ranges (update_peer_availability p (compress_chunk_indexes xs) sw)) p = Some (sort ?f)"
    by (simp add: update_peer_availability_def Let_def dict_laws)
  have iff: "(\<exists>(a, b) \<in> set ?f. a \<le> int j \<and> int j \<le> b) \<longleftrightarrow> j \<in> set xs" if "j < ?n" for j
    using normalized_covers [OF that] compress_facts(1) [of xs] by auto
  show "peer_has_chunk (update_peer_availability p (compress_chunk_indexes xs) sw) p i \<longleftrightarrow> xs = [] \<or> i \<in> set xs"
  proof (cases xs)
    case Nil
    then show ?thesis using got by (simp add: peer_has_chunk_def compress_chunk_indexes_def)
  next
    case (Cons j js)
    have nonempty: "f \<noteq> []" if "\<exists>(a, b) \<in> set f. a \<le> (k::int) \<and> k \<le> b" for f :: "(int \<times> int) list" and k
      using that by auto
    have "\<exists>(a, b) \<in> set ?f. a \<le> int j \<and> int j \<le> b" using iff [of j] assms(1) Cons by simp
    then have "?f \<noteq> []" by (rule nonempty)
    then have "sort ?f \<noteq> []" by (metis set_empty set_sort)
    from has_chunk_iff [OF got this, of i, unfolded set_sort]
    show ?thesis using iff [OF assms(2)] Cons by simp
  qed
qed

definition swarm_of_eight :: swarm where
  "swarm_of_eight = new_swarm [''a''] 8 None None 6 Hybrid [] False"

theorem offered_ranges_exact_witness:
  "compress_chunk_indexes [3, 1, 2, 7] = [(1, 3), (7, 7)] \<and>
   peer_has_chunk (update_peer_availability ''a'' (compress_chunk_indexes [3, 1, 2, 7]) swarm_of_eight) ''a'' 2 \<and>
   \<not> peer_has_chunk (update_peer_availability ''a'' (compress_chunk_indexes [3, 1, 2, 7]) swarm_of_eight) ''a'' 4 \<and>
   peer_has_chunk (update_peer_availability ''a'' (compress_chunk_indexes []) swarm_of_eight) ''a'' 4"
proof -
  have n: "length (sw_chunks swarm_of_eight) = 8" by code_simp
  have "set [3, 1, 2, 7] \<subseteq> {..<length (sw_chunks swarm_of_eight)}" "set [] \<subseteq> {..<length (sw_chunks swarm_of_eight)}"
    unfolding n by auto
  note o = offered_ranges_exact [OF this(1), of _ "''a''"] offered_ranges_exact [OF this(2), of _ "''a''"]
  have "compress_chunk_indexes [3, 1, 2, 7] = [(1, 3), (7, 7)]" by code_simp
  with o(1) [of 2] o(1) [of 4] o(2) [of 4] show ?thesis unfolding n by simp
qed

section \<open>Chunks that arrive\<close>

definition known :: "string \<Rightarrow> fetcher \<Rightarrow> nat list" where
  "known h x = lv_stored (dget_or (ft_live x) h new_live)"

lemma known_cong: "ft_live y = ft_live x \<Longrightarrow> known h y = known h x"
  by (simp add: known_def)

lemma known_put [simp]: "known h (put_live h l x) = lv_stored l"
  by (simp add: known_def put_live_def dict_laws)

lemma known_frame [simp]:
  "known h (on_app f x) = known h x" "known h (set_node n x) = known h x" "known h (on_scheduler g x) = known h x"
  "known h (queue_row now k ci st p rid tries dl x) = known h x" "known h (queue_swarm_peer_state now k p x) = known h x"
  "known h (send_incremental_chunk_offer en k x) = known h x"
  by (simp_all add: known_def)

lemma known_session: "session_of h x = Some (s, l) \<Longrightarrow> known h x = lv_stored l"
  by (auto simp: session_of_def known_def split: option.splits)

lemma known_on_live: "(\<And>l. lv_stored (f l) = lv_stored l) \<Longrightarrow> known h (on_live k f x) = known h x"
  by (auto simp: on_live_def put_live_def known_def dict_laws session_of_def split: option.splits)

lemma known_fail [simp]: "known h (fail_pending_chunk_session k x) = known h x"
  unfolding fail_pending_chunk_session_def by (rule known_on_live) simp

lemma known_siblings: "known h (retire_siblings now k rs x) = known h x"
proof (induction now k rs x rule: retire_siblings.induct)
  case (2 now k r rs x)
  have "known h (on_live k (\<lambda>l. l\<lparr>lv_cancelled := f l, lv_pending_cancels := g l\<rparr>) y) = known h y" for f g y
    by (rule known_on_live) simp
  with 2 show ?case by (simp add: Let_def)
qed simp

lemma on_files_live: "on_files f x = Inr (v, y) \<Longrightarrow> ft_live y = ft_live x" "on_files f x = Inl (e, y) \<Longrightarrow> ft_live y = ft_live x"
  by (auto simp: on_files_def split: sum.splits prod.splits)

lemma known_store:
  "known h (handler_result (store_chunk en h s l sw r e data x)) =
     (case on_files (write_chunk_file (en_home en) (pe_board_id s) h (me_offset e) data) x of
        Inl _ \<Rightarrow> known h x | Inr _ \<Rightarrow> List.insert (ar_chunk r) (lv_stored l))"
proof (cases "on_files (write_chunk_file (en_home en) (pe_board_id s) h (me_offset e) data) x")
  case (Inl v)
  then show ?thesis by (cases v) (auto simp: store_chunk_def handler_result_def intro!: known_cong dest: on_files_live(2))
next
  case (Inr v)
  obtain y where v: "v = ((), y)" by (cases v) simp
  obtain sibs sw1 where m: "mark_chunk_stored (ar_id r) sw = (sibs, sw1)" by (cases "mark_chunk_stored (ar_id r) sw")
  have fin: "known h (on_live h (\<lambda>l. l\<lparr>lv_finalized := True\<rparr>) z) = known h z" for z
    by (rule known_on_live) simp
  show ?thesis using Inr v
    by (auto simp: store_chunk_def m Let_def bind_run_def handler_result_def known_siblings fin
        split: sum.split prod.split dest!: on_files_live known_cong [where h = h])
qed

text \<open>Property C7: a resource adds a chunk to what a session stores only in answer to a request that is out for that
  chunk under its id, on the session's board, while the fetch is neither paused nor cancelled, and only when size and
  SHA-256 of its bytes are those of the manifest and the announced peer is the one that was asked.\<close>

theorem accepted_chunk_verified:
  assumes "session_of h x = Some (s, l)" and "h = str_field meta ''blob_hash''"
    and "i \<in> set (known h (handler_result (incoming_chunk en meta data x)))" and "i \<notin> set (lv_stored l)"
  shows "\<exists>mf sw r e. lv_manifest l = Some mf \<and> lv_swarm l = Some sw \<and>
    lookup_request (str_field meta ''request_id'') sw = Some r \<and> ar_chunk r = i \<and>
    str_field meta ''board_id'' = pe_board_id s \<and> \<not> lv_paused l \<and> \<not> lv_cancel_requested l \<and>
    str_field meta ''request_id'' \<notin> set (lv_cancelled l) \<and>
    dget (entries_by_index (rev (lv_entries l))) i = Some e \<and> length data = me_size e \<and> sha256_hex data = me_chunk_hash e \<and>
    me_offset e + me_size e \<le> mf_blob_size mf \<and>
    (ar_peer r = [] \<or> str_or (str_field meta ''peer_lxmf_hash'') (ar_peer r) = ar_peer r)"
proof -
  note k = known_session [OF assms(1)]
  have rejected: "known h (handler_result (reject_chunk en h s l sw r ci bad x)) = lv_stored l" for sw r ci bad
    using k by (simp add: reject_chunk_def handler_result_def split: sum.split)
  have stored: "known h (handler_result (case store_chunk en h s l sw r e data x of
       Inl (_, x1) \<Rightarrow> Inr ((), fail_pending_chunk_session h x1) | Inr v \<Rightarrow> Inr v)) =
     known h (handler_result (store_chunk en h s l sw r e data x))" for sw r e
    by (simp add: handler_result_def split: sum.split prod.split)
  have pre: "\<exists>mf sw r e. lv_manifest l = Some mf \<and> lv_swarm l = Some sw \<and>
      lookup_request (str_field meta ''request_id'') sw = Some r \<and> str_field meta ''board_id'' = pe_board_id s \<and>
      \<not> lv_paused l \<and> \<not> lv_cancel_requested l \<and> str_field meta ''request_id'' \<notin> set (lv_cancelled l) \<and>
      prevalidate mf (entries_by_index (rev (lv_entries l))) (int (ar_chunk r))
        (str_or (str_field meta ''peer_lxmf_hash'') (ar_peer r)) (ar_peer r) data = Inr e \<and>
      i \<in> set (known h (handler_result (store_chunk en h s l sw r e data x)))"
    using assms(3,4) k
    by (auto simp: incoming_chunk_def Let_def assms(1) stored rejected assms(2) [symmetric]
        handler_result_def [of "Inr v" for v] handler_result_def [of "Inl v" for v]
        split: sum.splits option.splits if_splits)
  then obtain mf sw r e where c: "lv_manifest l = Some mf" "lv_swarm l = Some sw"
    "lookup_request (str_field meta ''request_id'') sw = Some r" "str_field meta ''board_id'' = pe_board_id s"
    "\<not> lv_paused l" "\<not> lv_cancel_requested l" "str_field meta ''request_id'' \<notin> set (lv_cancelled l)"
    "prevalidate mf (entries_by_index (rev (lv_entries l))) (int (ar_chunk r))
        (str_or (str_field meta ''peer_lxmf_hash'') (ar_peer r)) (ar_peer r) data = Inr e"
    "i \<in> set (known h (handler_result (store_chunk en h s l sw r e data x)))" by blast
  have "ar_chunk r = i" using c(9) assms(4) k by (auto simp: known_store split: sum.splits)
  with c(1-8) show ?thesis by (auto simp: prevalidate_def split: if_splits option.splits)
qed

section \<open>A chunk served and received\<close>

lemma read_entry_json: "read_entry (entry_json e) = Inr e"
  by (simp add: read_entry_def entry_json_def nat_field_def dget_or_def py_int_def str_field_def bindE_def)

lemma read_entries_json: "read_entries (map entry_json es) = Inr es"
  by (induction es) (simp_all add: read_entry_json bindE_def)

text \<open>Also: a manifest read back from the message that carries it is the sender's, with its entries; the ids of
  the post are not carried and the time of creation is the receiver's.\<close>

theorem manifest_wire_roundtrip:
  "read_manifest now (mf_board_id mf) (mf_blob_hash mf) kind (manifest_json mf es) =
     Inr (mf\<lparr>mf_manifest_version := 1, mf_post_id := [], mf_thread_id := [], mf_created_at := \<lfloor>now\<rfloor>\<rparr>, es)"
proof -
  have "kind_of_text (kind_text k) = Some k" for k by (cases k) (simp_all add: kind_of_text_def kind_text_def)
  then show ?thesis
    by (cases "mf_merkle_root mf")
      (simp_all add: read_manifest_def manifest_json_def dget_or_def items_of_def read_entries_json nat_field_def py_int_def
        int_field_def str_field_def bindE_def)
qed

lemma incoming_accepts:
  assumes "session_of h x = Some (s, l)" and "h = str_field meta ''blob_hash''" and "str_field meta ''board_id'' = pe_board_id s"
    and "lv_manifest l = Some mf" and "lv_swarm l = Some sw" and "lv_present l \<noteq> None"
    and "lookup_request (str_field meta ''request_id'') sw = Some r"
    and "\<not> lv_paused l" "\<not> lv_cancel_requested l" "str_field meta ''request_id'' \<notin> set (lv_cancelled l)"
    and "int_field meta ''chunk_index'' (- 1) = Inr (int (ar_chunk r))"
    and "prevalidate mf (entries_by_index (rev (lv_entries l))) (int (ar_chunk r))
        (str_or (str_field meta ''peer_lxmf_hash'') (ar_peer r)) (ar_peer r) data = Inr e"
    and "resolved (nd_fs (node_of x)) (chunk_assembly_path (en_home en) (pe_board_id s) h) = Some (p, File old)"
  shows "ar_chunk r \<in> set (known h (handler_result (incoming_chunk en meta data x)))"
proof -
  obtain pr where pr: "lv_present l = Some pr" using assms(6) by auto
  have written: "\<exists>y. on_files (write_chunk_file (en_home en) (pe_board_id s) h (me_offset e) data) x = Inr ((), y)"
    using assms(13) by (simp add: on_files_def on_fs_def write_chunk_file_def)
  then have "ar_chunk r \<in> set (known h (handler_result (store_chunk en h s l sw r e data x)))"
    by (auto simp: known_store)
  moreover have "incoming_chunk en meta data x =
      (case store_chunk en h s l sw r e data x of
         Inl (_, x1) \<Rightarrow> Inr ((), fail_pending_chunk_session h x1) | Inr v \<Rightarrow> Inr v)"
    using assms(1,3-5,7-12) pr by (simp add: incoming_chunk_def Let_def assms(2) [symmetric])
  ultimately show ?thesis by (auto simp: handler_result_def split: sum.splits)
qed

lemma served_chunk:
  assumes "i < length es" and "read_blob (en_home en) b h y = Inr (Some blob, y)"
    and "eg_dest (ap_engine (ft_app y)) = Some q" and "q \<noteq> []"
  obtains y' job where "serve_stored_chunk en b h p i rid who (mf, es) y = Inr ((), y')" and "ft_sends y' = ft_sends y @ [job]"
    and "rs_data job = take (me_size (es ! i)) (drop (me_offset (es ! i)) blob)"
    and "rs_meta job = [(''board_id'', JStr b), (''blob_hash'', JStr h), (''chunk_index'', JInt (int i)),
      (''request_id'', JStr rid), (''peer_lxmf_hash'', JStr q)]"
proof -
  let ?y = "send_chunk_offer en p b h (mf_chunk_count mf) True (full_chunk_ranges (mf_chunk_count mf)) y"
  have "eg_dest (ap_engine (ft_app ?y)) = Some q"
    using send_lxmf_frame assms(3)
    by (simp add: send_chunk_offer_def transmit_def on_app_def on_engine_def frame_def)
  then have meta: "chunk_meta en b h i rid p ?y = [(''board_id'', JStr b), (''blob_hash'', JStr h),
      (''chunk_index'', JInt (int i)), (''request_id'', JStr rid), (''peer_lxmf_hash'', JStr q)]"
    using assms(4) by (simp add: chunk_meta_def truthy_def)
  have "ft_sends ?y = ft_sends y" by (simp add: send_chunk_offer_def transmit_def on_app_def)
  with that assms(1,2) meta show thesis
    by (simp add: serve_stored_chunk_def enqueue_send_def Let_def)
qed

lemma manifest_entry_at:
  assumes "build_chunk_manifest b post thread kind blob sz v mr t = Inr (mf, es)" and "i < mf_chunk_count mf"
  shows "i < length es" and "prevalidate (mf\<lparr>mf_manifest_version := v', mf_post_id := a, mf_thread_id := c, mf_created_at := t'\<rparr>)
    (entries_by_index (rev es)) (int i) q q (take (me_size (es ! i)) (drop (me_offset (es ! i)) blob)) = Inr (es ! i)"
proof -
  note f = build_manifest_facts [OF assms(1)]
  show i: "i < length es" using assms(2) f(4,5) by simp
  have idx: "map me_chunk_index es = [0..<length es]" using f(5,6) by (intro nth_equalityI) simp_all
  have "dget (entries_by_index (rev es)) = dget (entries_by_index es)"
    using idx by (intro iffD2 [OF map_of_inject_set]) (simp_all add: entries_by_index_def comp_def rev_map [symmetric])
  then have "prevalidate (mf\<lparr>mf_manifest_version := v', mf_post_id := a, mf_thread_id := c, mf_created_at := t'\<rparr>)
      (entries_by_index (rev es)) (int i) q q d = prevalidate mf (entries_by_index es) (int i) [] [] d" for d
    by (simp add: prevalidate_def split: option.split)
  moreover have "take (me_size (es ! i)) (drop (me_offset (es ! i)) blob) = take (nat sz) (drop (i * nat sz) blob)"
    using f(6) [of i] assms(2) f(4) by (simp add: min_def)
  ultimately show "prevalidate (mf\<lparr>mf_manifest_version := v', mf_post_id := a, mf_thread_id := c, mf_created_at := t'\<rparr>)
    (entries_by_index (rev es)) (int i) q q (take (me_size (es ! i)) (drop (me_offset (es ! i)) blob)) = Inr (es ! i)"
    using prevalidate_own_chunk [OF assms, of "[]"] by simp
qed

text \<open>Property C3: a chunk that a peer serves from a stored blob is accepted. When a session took the manifest from that
  peer's message and asked it for a chunk, the resource that the peer hands over in answer adds the chunk to what the
  session stores.\<close>

theorem served_chunk_accepted:
  assumes server: "build_chunk_manifest b post thread kind blob sz v mr t = Inr (mf, es)" "i < mf_chunk_count mf"
      "read_blob (en_home en) b h y = Inr (Some blob, y)" "eg_dest (ap_engine (ft_app y)) = Some q" "q \<noteq> []"
    and client: "session_of h x = Some (s, l)" "pe_board_id s = b"
      "map_option (\<lambda>m. (m, lv_entries l)) (lv_manifest l) =
         (case read_manifest now b h (pe_blob_kind s) (manifest_json mf es) of Inl _ \<Rightarrow> None | Inr r \<Rightarrow> Some r)"
      "mf_board_id mf = b" "mf_blob_hash mf = h" "lv_swarm l = Some sw" "lv_present l \<noteq> None"
      "lookup_request rid sw = Some r" "ar_chunk r = i" "ar_peer r = q"
      "\<not> lv_paused l" "\<not> lv_cancel_requested l" "rid \<notin> set (lv_cancelled l)"
      "resolved (nd_fs (node_of x)) (chunk_assembly_path (en_home en') b h) = Some (p, File old)"
  shows "\<exists>y' job. serve_stored_chunk en b h peer i rid who (mf, es) y = Inr ((), y') \<and> ft_sends y' = ft_sends y @ [job] \<and>
    i \<in> set (known h (resource_concluded en' True (rs_meta job) (rs_data job) x))"
proof -
  obtain y' job where job: "serve_stored_chunk en b h peer i rid who (mf, es) y = Inr ((), y')" "ft_sends y' = ft_sends y @ [job]"
    "rs_data job = take (me_size (es ! i)) (drop (me_offset (es ! i)) blob)"
    "rs_meta job = [(''board_id'', JStr b), (''blob_hash'', JStr h), (''chunk_index'', JInt (int i)),
      (''request_id'', JStr rid), (''peer_lxmf_hash'', JStr q)]"
    by (rule served_chunk [OF manifest_entry_at(1) [OF server(1,2)] server(3-5)])
  have "i \<in> set (known h (handler_result (incoming_chunk en' (rs_meta job) (rs_data job) x)))"
    unfolding client(9) [symmetric]
    apply (rule incoming_accepts [OF client(1)])
    using client manifest_wire_roundtrip [of now mf "pe_blob_kind s" es] manifest_entry_at(2) [OF server(1,2)] server(5)
    by (auto simp: job str_field_def int_field_def py_int_def str_or_def)
  then have "i \<in> set (known h (resource_concluded en' True (rs_meta job) (rs_data job) x))"
    by (simp add: resource_concluded_def job handler_result_def split: sum.splits prod.splits)
  with job(1,2) show ?thesis by blast
qed

text \<open>A server with a blob of three bytes, and a client that asked it for the first chunk of two.\<close>

definition hash3 :: string where "hash3 = sha256_hex [1, 2, 3]"

definition man3 :: "manifest \<times> manifest_entry list" where
  "man3 = projr (build_chunk_manifest ''b'' ''p'' ''t'' Text [1, 2, 3] 2 1 None 0)"

definition request0 :: active_request where
  "request0 = \<lparr>ar_id = 0, ar_peer = hash_b, ar_chunk = 0, ar_deadline = 99, ar_duplicate = False\<rparr>"

definition session3 :: pending_session where
  "session3 = \<lparr>pe_session_id = ''sid'', pe_board_id = ''b'', pe_blob_hash = hash3, pe_blob_kind = ''text'',
     pe_assigned_peer = hash_b, pe_batcher = None\<rparr>"

definition live3 :: live where
  "live3 = new_live\<lparr>
     lv_manifest := Some ((fst man3)\<lparr>mf_manifest_version := 1, mf_post_id := [], mf_thread_id := [], mf_created_at := 9\<rparr>),
     lv_entries := snd man3, lv_present := Some [], lv_swarm := Some (swarm_of_eight\<lparr>sw_requests := [(0, request0)]\<rparr>)\<rparr>"

definition client_fs :: fs where
  "client_fs = ([''h'', ''b'', ''chunk_cache'', hash3, ''assembly.tmp''], File [0, 0, 0]) #
     ([''h'', ''b'', ''chunk_cache'', hash3], Dir) # nd_fs open_node"

definition client3 :: fetcher where
  "client3 = (set_node (open_node\<lparr>nd_registry := \<lparr>rg_sessions = [(''sid'', session3)], rg_by_blob = [(hash3, ''sid'')]\<rparr>,
     nd_fs := client_fs\<rparr>) fetcher_idle)\<lparr>ft_live := [(hash3, live3)]\<rparr>"

definition server3 :: fetcher where
  "server3 = on_app (on_engine (\<lambda>e. e\<lparr>eg_dest := Some hash_b\<rparr>))
     (set_node (open_node\<lparr>nd_fs := payload_put [''h''] ''b'' [1, 2, 3] (nd_fs open_node)\<rparr>) fetcher_idle)"

lemma man3_built: "build_chunk_manifest ''b'' ''p'' ''t'' Text [1, 2, 3] 2 1 None 0 = Inr (fst man3, snd man3)"
  by (simp add: man3_def build_chunk_manifest_def split_encrypted_blob_def Let_def)

lemma man3_facts: "mf_board_id (fst man3) = ''b''" "mf_blob_hash (fst man3) = hash3" "mf_chunk_count (fst man3) = 2"
  using build_manifest_facts [OF man3_built]
  by (simp_all add: hash3_def block_count_def man3_def build_chunk_manifest_def split_encrypted_blob_def Let_def)

lemma plain_hash3: "plain_name hash3"
  unfolding hash3_def by (rule plain_digest)

lemma client3_file:
  "resolved (nd_fs (node_of client3)) (chunk_assembly_path [''h''] ''b'' hash3) =
     Some ([''h'', ''b'', ''chunk_cache'', hash3, ''assembly.tmp''], File [0, 0, 0])"
proof -
  have p: "chunk_assembly_path [''h''] ''b'' hash3 = [''h'', ''b'', ''chunk_cache'', hash3, ''assembly.tmp'']"
    using chunk_cache_dir_plain [of "''b''" hash3 "[''h'']"] plain_hash3
    by (simp add: chunk_assembly_path_def path_join_plain plain_name_def)
  have other: "hash3 \<noteq> x" if "length x \<noteq> 64" for x using that length_sha256_hex unfolding hash3_def by metis
  have "fs_ok client_fs" "clean [''h'', ''b'', ''chunk_cache'', hash3, ''assembly.tmp'']"
    using plain_hash3 other
    by (simp_all add: client_fs_def open_node_def fs_ok_def entry_ok_def clean_def plain_name_def node_at_def)
  then show ?thesis unfolding p
    by (simp add: client3_def node_of_def set_node_def on_app_def resolved_clean) (simp add: client_fs_def node_at_def)
qed

lemma server3_blob: "read_blob [''h''] ''b'' hash3 server3 = Inr (Some [1, 2, 3], server3)"
proof -
  let ?f = "payload_put [''h''] ''b'' [1, 2, 3] (nd_fs open_node)"
  note inv = open_node_fs(1)
  have put: "?f = dput (payloads_of [''h''] ''b'' @ [hash3 @ ''.bin'']) (File [1, 2, 3])
      (dpop (payloads_of [''h''] ''b'' @ [hash3 @ ''.tmp'']) (dput (payloads_of [''h''] ''b'' @ [hash3 @ ''.tmp'']) (File [1, 2, 3])
        (nd_fs open_node)))"
    using payload_put_eq [OF inv plain_digest, of "[1, 2, 3]"] by (simp add: hash3_def)
  have inv': "payload_inv [''h''] ''b'' ?f"
    unfolding put using inv plain_suffix [OF plain_hash3]
    by (intro payload_inv_dput payload_inv_dpop) (auto simp: node_at_dput)
  have "payload_lookup [''h''] ''b'' hash3 ?f = Some [1, 2, 3]"
    unfolding payload_lookup_node [OF inv' plain_hash3] by (simp add: put node_at_dput)
  then have "read_payload [''h''] ''b'' hash3 ?f = Inr (Some [1, 2, 3])"
    by (simp add: read_payload_lookup [OF inv' plain_hash3])
  then show ?thesis by (simp add: read_blob_def server3_def node_of_def on_app_def set_node_def on_engine_def)
qed

lemma client3_session: "session_of hash3 client3 = Some (session3, live3)"
  by (simp add: session_of_def client3_def node_of_def set_node_def on_app_def get_pending_chunk_session_by_blob_def dget_or_def)

lemma live3_fields: "lv_swarm live3 = Some (swarm_of_eight\<lparr>sw_requests := [(0, request0)]\<rparr>)" "lv_present live3 = Some []"
  "\<not> lv_paused live3" "\<not> lv_cancel_requested live3" "lv_cancelled live3 = []" "lv_stored live3 = []" "lv_entries live3 = snd man3"
  "lv_manifest live3 = Some ((fst man3)\<lparr>mf_manifest_version := 1, mf_post_id := [], mf_thread_id := [], mf_created_at := 9\<rparr>)"
  by (simp_all add: live3_def new_live_def)

lemma request0_found: "lookup_request (request_text 0) (swarm_of_eight\<lparr>sw_requests := [(0, request0)]\<rparr>) = Some request0"
  by (simp add: lookup_request_def)

theorem served_chunk_accepted_witness:
  "\<exists>y' job. serve_stored_chunk env_a ''b'' hash3 hash_a 0 (request_text 0) ''who'' man3 server3 = Inr ((), y') \<and>
     ft_sends y' = [job] \<and> 0 \<in> set (known hash3 (resource_concluded env_a True (rs_meta job) (rs_data job) client3))"
proof -
  have q: "eg_dest (ap_engine (ft_app server3)) = Some hash_b" "hash_b \<noteq> []" "ft_sends server3 = []"
    by (simp_all add: server3_def on_app_def on_engine_def set_node_def hash_b_def fetcher_idle_def)
  have home: "en_home env_a = [''h'']" by (simp add: env_a_def)
  have m: "map_option (\<lambda>m. (m, lv_entries live3)) (lv_manifest live3) =
      (case read_manifest 9 ''b'' hash3 (pe_blob_kind session3) (manifest_json (fst man3) (snd man3)) of
         Inl _ \<Rightarrow> None | Inr r \<Rightarrow> Some r)"
    using manifest_wire_roundtrip [of 9 "fst man3" "pe_blob_kind session3" "snd man3"]
    by (simp add: man3_facts live3_fields)
  have "0 < mf_chunk_count (fst man3)" by (simp add: man3_facts)
  from served_chunk_accepted [OF man3_built this server3_blob [folded home] q(1,2) client3_session _ m man3_facts(1,2)
      live3_fields(1) _ request0_found _ _ live3_fields(3,4) _ client3_file [folded home], of hash_a "''who''"]
  show ?thesis by (simp add: session3_def live3_fields request0_def q(3))
qed

text \<open>The same delivery, for the check of a chunk that arrives.\<close>

definition meta3 :: wire where
  "meta3 = [(''board_id'', JStr ''b''), (''blob_hash'', JStr hash3), (''chunk_index'', JInt 0),
     (''request_id'', JStr (request_text 0)), (''peer_lxmf_hash'', JStr hash_b)]"

theorem accepted_chunk_verified_witness:
  "\<exists>e. dget (entries_by_index (rev (lv_entries live3))) 0 = Some e \<and> length [1, 2 :: 8 word] = me_size e \<and>
     sha256_hex [1, 2] = me_chunk_hash e"
proof -
  have f: "me_size (snd man3 ! 0) = 2" "me_offset (snd man3 ! 0) = 0"
    using build_manifest_facts(6) [OF man3_built, of 0] by (simp_all add: block_count_def)
  have "0 < mf_chunk_count (fst man3)" by (simp add: man3_facts)
  from manifest_entry_at(2) [OF man3_built this, of 9 "[]" "[]" 1 hash_b]
  have pre: "prevalidate ((fst man3)\<lparr>mf_manifest_version := 1, mf_post_id := [], mf_thread_id := [], mf_created_at := 9\<rparr>)
      (entries_by_index (rev (lv_entries live3))) (int (ar_chunk request0)) (str_or (str_field meta3 ''peer_lxmf_hash'') (ar_peer request0))
      (ar_peer request0) [1, 2] = Inr (snd man3 ! 0)"
    by (simp add: f live3_fields request0_def meta3_def str_field_def str_or_def hash_b_def)
  have h: "hash3 = str_field meta3 ''blob_hash''" by (simp add: meta3_def str_field_def)
  have "ar_chunk request0 \<in> set (known hash3 (handler_result (incoming_chunk env_a meta3 [1, 2] client3)))"
    by (rule incoming_accepts [OF client3_session h _ live3_fields(8,1) _ _ live3_fields(3,4) _ _ pre])
      (use client3_file request0_found in \<open>simp_all add: meta3_def str_field_def session3_def live3_fields int_field_def
         py_int_def request0_def env_a_def\<close>)
  then have "0 \<in> set (known hash3 (handler_result (incoming_chunk env_a meta3 [1, 2] client3)))"
    by (simp add: request0_def)
  from accepted_chunk_verified [OF client3_session h this] show ?thesis by (auto simp: live3_fields)
qed

section \<open>Resources nobody asked for\<close>

text \<open>Property C30: a resource that carries a whole payload is stored under its hash on any board whose payload
  directory the node has, whether or not anything was requested, the board is subscribed to, or the blob was purged
  and is banned there: no session, rule or subscription is asked.\<close>

theorem unasked_payload_stored:
  assumes "payload_inv (en_home en) b (nd_fs (node_of x))"
    and "meta = [(''content_hash'', JStr (sha256_hex data)), (''board_id'', JStr b)]"
  shows "read_payload (en_home en) b (sha256_hex data) (nd_fs (node_of (resource_concluded en True meta data x))) =
    Inr (Some data)"
proof -
  let ?h = "sha256_hex data" and ?d = "payloads_of (en_home en) b"
  let ?f = "payload_put (en_home en) b data (nd_fs (node_of x))"
  have plain: "plain_name ?h" by (rule plain_digest)
  have b: "b \<noteq> []" using assms(1) by (simp add: payload_inv_def plain_name_def)
  have h: "?h \<noteq> []" using length_sha256_hex [of data] by force
  note put = payload_put_eq [OF assms(1) plain]
  have inv: "payload_inv (en_home en) b ?f"
    unfolding put using assms(1) plain_suffix [OF plain]
    by (intro payload_inv_dput payload_inv_dpop) (auto simp: node_at_dput)
  have "payload_lookup (en_home en) b ?h ?f = Some data"
    using payload_lookup_node [OF inv plain] by (simp add: put node_at_dput)
  then have read: "read_payload (en_home en) b ?h ?f = Inr (Some data)"
    using read_payload_lookup [OF inv plain] by simp
  have "nd_fs (node_of (resource_concluded en True meta data x)) = ?f"
    using write_payload_ok [OF assms(1) plain, of False data] b h
    by (simp add: resource_concluded_def assms(2) dget_or_def on_files_def on_fs_def put [unfolded node_of_def]
        node_of_def set_node_def on_app_def)
  with read show ?thesis by (simp only:)
qed

theorem unasked_payload_stored_witness:
  "read_payload [''h''] ''b'' (sha256_hex [9]) (nd_fs (node_of (resource_concluded env_a True
     [(''content_hash'', JStr (sha256_hex [9])), (''board_id'', JStr ''b'')] [9] server3))) = Inr (Some [9])"
proof -
  have "payload_inv [''h''] ''b'' (nd_fs (node_of server3))"
  proof -
    have "payload_inv [''h''] ''b'' (payload_put [''h''] ''b'' [1, 2, 3] (nd_fs open_node))"
      unfolding payload_put_eq [OF open_node_fs(1) plain_digest]
      using open_node_fs(1) plain_suffix [OF plain_digest] by (intro payload_inv_dput payload_inv_dpop) (auto simp: node_at_dput)
    then show ?thesis by (simp add: server3_def node_of_def on_app_def set_node_def on_engine_def)
  qed
  from unasked_payload_stored [of env_a "''b''" server3, OF _ refl] this show ?thesis by (simp add: env_a_def)
qed

lemma open_fresh:
  assumes "fresh_board home b n"
  shows "open_board_db home b (nd_fs n) = Inr ((), board_tree home b (nd_fs n))"
    and "\<not> is_board_subscribed home b (nd_fs n)"
proof -
  let ?f = "nd_fs n" and ?f1 = "dput (home @ [b]) Dir (nd_fs n)"
  have f: "fs_ok ?f" "clean home" "plain_name b" "node_at ?f home = Some Dir" "node_at ?f (home @ [b]) = None"
    using assms by (simp_all add: fresh_board_def)
  have c: "clean (home @ [b])" using f(2,3) by (simp add: clean_def plain_name_def)
  note bt = board_tree_facts [OF assms]
  have "make_dirs ?f1 [] (board_dir home b) = Inr (home @ [b], ?f1)"
    unfolding board_paths(1) [OF f(3)]
    by (rule make_dirs_old [OF fs_ok_new [OF f(1) c f(4,5)] c]) (simp add: node_at_dput)
  with bt(1) have "open_board_dirs home b ?f = open_board_dirs home b ?f1" by (simp add: open_board_dirs_def)
  with bt(2) show "open_board_db home b ?f = Inr ((), board_tree home b ?f)" by (simp add: open_board_db_def)
  have "node_at ?f (home @ [b, ''meta.db'']) = None"
    using fs_ok_prefix [OF f(1), of "home @ [b]" "[''meta.db'']"] f(5) by fastforce
  then show "\<not> is_board_subscribed home b ?f"
    using resolved_clean [OF f(1), of "home @ [b, ''meta.db'']"] c
    by (simp add: is_board_subscribed_def board_paths(2) [OF f(3)] clean_def)
qed

lemma offer_files:
  assumes "fresh_board (en_home en) b (node_of x)" and "dget d ''board_id'' = Some (JStr b)"
    and "dget d ''blob_hash'' = Some (JStr h)" and "dget d ''ranges'' = None" and "dget d ''chunk_count'' = None"
    and "h \<noteq> []" and "sender_of m \<noteq> []"
  shows "nd_fs (node_of (handler_result (handle_chunk_offer en m d x))) = board_tree (en_home en) b (nd_fs (node_of x))"
proof -
  have b: "b \<noteq> []" using assms(1) by (simp add: fresh_board_def plain_name_def)
  have put: "nd_fs (node_of (put_live k l y)) = nd_fs (node_of y)" for k l y by (simp add: put_live_def node_of_def)
  have rows: "nd_fs (node_of (put_chunks b db y)) = nd_fs (node_of y)" for db y
    by (simp add: put_chunks_def set_node_def node_of_def on_app_def put_store_def)
  have con: "connect (en_home en) b x =
      Inr ((), set_node ((node_of x)\<lparr>nd_fs := board_tree (en_home en) b (nd_fs (node_of x))\<rparr>) x)"
    using open_fresh(1) [OF assms(1)] by (simp add: connect_def on_files_def on_fs_def)
  have fields: "str_field d ''board_id'' = b" "str_field d ''blob_hash'' = h" using assms by (simp_all add: str_field_def)
  show ?thesis
    using assms(4-7) b
    by (auto simp: handle_chunk_offer_def fields Let_def dget_or_def items_of_def bindE_def int_field_def con
        persist_peer_chunk_offer_def save_rows_def handler_result_def put rows split: sum.split option.split)
      (simp_all add: node_of_def set_node_def on_app_def)
qed

text \<open>Property C31: one chunk offer from anybody makes a node treat a board it has never heard of as subscribed: the
  offer is recorded in the board's database, which is created for it.\<close>

theorem chunk_offer_opens_board:
  assumes "fresh_board (en_home en) b (node_of x)" and "engine_ok (ap_engine (ft_app x))"
    and "m = \<lparr>ms_title = ''retiboard.chunk_offer'', ms_content = Some (JObj [(''board_id'', JStr b), (''blob_hash'', JStr h)]),
      ms_source = Some p, ms_identity = i\<rparr>" and "h \<noteq> []" and "p \<noteq> []"
  shows "\<not> is_board_subscribed (en_home en) b (nd_fs (node_of x)) \<and>
    is_board_subscribed (en_home en) b (nd_fs (node_of (deliver_any en m x)))"
proof
  show "\<not> is_board_subscribed (en_home en) b (nd_fs (node_of x))" by (rule open_fresh(2) [OF assms(1)])
  obtain e where e: "hear en m (ft_app x) = Inr ((), (ft_app x)\<lparr>ap_engine := e\<rparr>)" by (rule hear_ok [OF assms(2)])
  let ?x = "x\<lparr>ft_app := (ft_app x)\<lparr>ap_engine := e\<rparr>\<rparr>"
  let ?d = "[(''board_id'', JStr b), (''blob_hash'', JStr h)]"
  have node: "node_of ?x = node_of x" by (simp add: node_of_def)
  have "deliver_any en m x = handler_result (handle_chunk_offer en m ?d ?x)"
    using e by (simp add: deliver_any_def chunk_titles_def chunk_handler_def assms(3))
  moreover have "nd_fs (node_of (handler_result (handle_chunk_offer en m ?d ?x))) =
      board_tree (en_home en) b (nd_fs (node_of x))"
    using offer_files [of en b ?x ?d h m] assms(1,3-5) node by (simp add: sender_of_def)
  ultimately show "is_board_subscribed (en_home en) b (nd_fs (node_of (deliver_any en m x)))"
    using board_tree_facts(4) [OF assms(1)] by simp
qed

definition stray_offer :: message where
  "stray_offer = \<lparr>ms_title = ''retiboard.chunk_offer'', ms_content = Some (JObj [(''board_id'', JStr ''new''), (''blob_hash'', JStr ''x'')]),
     ms_source = Some hash_b, ms_identity = None\<rparr>"

theorem chunk_offer_opens_board_witness:
  "is_board_subscribed [''h''] ''new'' (nd_fs (node_of (deliver_any env_a stray_offer (fetcher_idle\<lparr>ft_app := app_a\<rparr>))))"
proof -
  let ?x = "fetcher_idle\<lparr>ft_app := app_a\<rparr>"
  have fresh: "fresh_board (en_home env_a) ''new'' (node_of ?x)"
    by (simp add: fresh_board_def app_a_def empty_node_def env_a_def node_of_def fs_ok_def entry_ok_def clean_def plain_name_def
        node_at_def)
  have "engine_ok (ap_engine (ft_app ?x))"
    by (simp add: app_a_def engine_reachable_ok [OF engine_heard_reachable])
  from chunk_offer_opens_board [OF fresh this stray_offer_def] show ?thesis by (simp add: hash_b_def env_a_def)
qed

end
