(* ===== verification/FetchEnd.thy ===== *)
theory FetchEnd
  imports FetchProps
begin

text \<open>
  How the fetch loop ends: a planned request that the scheduler refuses, and a resumed session whose chunks are all
  there.
\<close>

declare map_of_eq_Some_iff [simp del] Some_eq_map_of_iff [simp del]

section \<open>Refused requests\<close>

text \<open>Property C29: a planned request that the node's scheduler refuses is not sent and not given back: nothing goes
  to the peer, the swarm keeps the request as outstanding, and when its deadline passes it is counted as a timeout of
  that peer.\<close>

theorem refused_request_charged_to_peer:
  assumes "session_of h x = Some (s, l)" and "lv_swarm l = Some sw" and "dget (sw_requests sw) (rp_id plan) = Some r"
    and "\<not> fst (try_acquire_request (en_low_bandwidth en) (en_now en) (pe_session_id s) (request_text (rp_id plan))
               (nd_scheduler (node_of x)))"
  shows "fst (send_plan en h plan (k, x)) = k \<and>
    ap_engine (ft_app (snd (send_plan en h plan (k, x)))) = ap_engine (ft_app x) \<and>
    swarm_of h (snd (send_plan en h plan (k, x))) = Some sw \<and>
    (\<forall>now p t. ar_deadline r \<le> now \<longrightarrow> dget (sw_peers sw) (ar_peer r) = Some p \<longrightarrow>
       time_out_request now (rp_id plan) sw = Inr t \<longrightarrow> rp_id plan \<in> set (expired_ids now sw) \<and>
       map_option sp_timeout_count (dget (sw_peers t) (ar_peer r)) = Some (Suc (sp_timeout_count p)))"
proof -
  obtain sc where t: "try_acquire_request (en_low_bandwidth en) (en_now en) (pe_session_id s) (request_text (rp_id plan))
      (nd_scheduler (node_of x)) = (False, sc)"
    using assms(4) by (cases "try_acquire_request (en_low_bandwidth en) (en_now en) (pe_session_id s) (request_text (rp_id plan))
      (nd_scheduler (node_of x))") simp
  have send: "send_plan en h plan (k, x) = (k, on_scheduler (\<lambda>_. sc) x)"
    using assms(1) t by (simp add: send_plan_def)
  have same: "session_of h (on_scheduler (\<lambda>_. sc) x) = session_of h x"
    by (simp add: session_of_def on_scheduler_def set_node_def node_of_def on_app_def)
  have expired: "rp_id plan \<in> set (expired_ids now sw)" if "ar_deadline r \<le> now" for now
    using map_of_SomeD [OF assms(3)] that by (force simp: expired_ids_def)
  have charged: "map_option sp_timeout_count (dget (sw_peers t) (ar_peer r)) = Some (Suc (sp_timeout_count p))"
    if "dget (sw_peers sw) (ar_peer r) = Some p" "time_out_request now (rp_id plan) sw = Inr t" for now p t
    using that assms(3)
    by (auto simp: time_out_request_def release_peer_def dict_laws Let_def split: sum.splits)
  show ?thesis
    using assms(1,2) expired charged
    by (auto simp: send swarm_of_def same) (simp_all add: on_scheduler_def set_node_def node_of_def on_app_def)
qed

section \<open>A session with every chunk\<close>

definition all_there :: "path \<Rightarrow> string \<Rightarrow> string \<Rightarrow> fetcher \<Rightarrow> bool" where
  "all_there home b h x \<longleftrightarrow>
     \<not> has_blob home b h x \<and>
     (\<exists>s l sw bt. session_of h x = Some (s, l) \<and> pe_board_id s = b \<and> pe_batcher s = Some bt \<and> pending_count bt = 0 \<and>
        0 < bt_max_pending bt \<and> lv_swarm l = Some sw \<and> is_complete sw \<and> sw_requests sw = [] \<and>
        lv_pending_cancels l = [] \<and> \<not> lv_finalized l \<and> \<not> lv_cancel_requested l \<and> \<not> lv_paused l \<and> \<not> lv_failed l)"

lemma session_put: "session_of h (put_live h l x) = map_option (\<lambda>(s, _). (s, l)) (session_of h x)"
  by (auto simp: session_of_def put_live_def node_of_def dget_or_def dict_laws option.map_comp comp_def)

lemma blob_put: "has_blob home b h (put_live k l x) = has_blob home b h x"
  by (simp add: has_blob_def node_of_def put_live_def)

lemma complete_timeouts: "sw_requests sw = [] \<Longrightarrow> process_timeouts now sw = Inr (0, sw\<lparr>sw_recent_timeouts := []\<rparr>)"
  by (simp add: process_timeouts_def expired_ids_def)

lemma complete_plan:
  "is_complete sw \<Longrightarrow> sw_requests sw = [] \<Longrightarrow> plan_requests now tmo sw = Inr ([], sw\<lparr>sw_recent_timeouts := []\<rparr>)"
  by (simp add: plan_requests_def complete_timeouts is_complete_def)

lemma leave_result:
  assumes "session_of h x = Some (s, l)" and "pe_batcher s = Some bt" and "pending_count bt = 0"
  shows "\<exists>y. leave_loop en h s ok x = Inr (Finished ok, y) \<and> nd_fs (node_of y) = nd_fs (node_of x)"
proof -
  obtain bt1 db where f: "flush now bt (chunks_of (bt_board_id bt) x) = Inr (0, bt1, db)" for now
    using assms(3) by (auto simp: flush_def)
  have b: "Option.bind (session_of h x) (\<lambda>(s, l). pe_batcher s) = Some bt"
    by (simp only: assms(1,2) Option.bind.simps prod.case)
  show ?thesis
    by (simp only: leave_loop_def flush_batcher_def b option.case)
     (simp add: f release_all_def on_scheduler_def put_chunks_def put_store_def
        set_node_def node_of_def on_app_def on_session_def split: option.split)
qed

lemma idle_round:
  assumes "all_there (en_home en) b h x"
  shows "\<exists>y. (if idle < 40 then swarm_round en h idle x = Inr (Again (Suc idle), y) \<and> all_there (en_home en) b h y
    else swarm_round en h idle x = Inr (Finished False, y) \<and> \<not> has_blob (en_home en) b h y)"
proof -
  from assms obtain s l sw bt where a: "\<not> has_blob (en_home en) b h x" "session_of h x = Some (s, l)" "pe_board_id s = b"
    "pe_batcher s = Some bt" "pending_count bt = 0" "0 < bt_max_pending bt" "lv_swarm l = Some sw" "is_complete sw"
    "sw_requests sw = []" "lv_pending_cancels l = []" "\<not> lv_finalized l" "\<not> lv_cancel_requested l" "\<not> lv_paused l" "\<not> lv_failed l"
    unfolding all_there_def by blast
  let ?sw = "sw\<lparr>sw_recent_timeouts := []\<rparr>"
  let ?l = "l\<lparr>lv_pending_cancels := []\<rparr>"
  let ?x1 = "put_live h ?l x"
  let ?x2 = "put_live h (?l\<lparr>lv_swarm := Some ?sw\<rparr>) ?x1"
  have sw: "is_complete ?sw" "sw_requests ?sw = []" "can_make_progress ?sw"
    using a(8,9) by (simp_all add: is_complete_def can_make_progress_def)
  have s1: "session_of h ?x1 = Some (s, ?l)" by (simp add: session_put a(2))
  have s2: "session_of h ?x2 = Some (s, ?l\<lparr>lv_swarm := Some ?sw\<rparr>)" by (simp add: session_put a(2))
  have blob: "\<not> has_blob (en_home en) b h ?x1" "\<not> has_blob (en_home en) b h ?x2" using a(1) by (simp_all add: blob_put)
  have plan: "plan_round en h idle ?l sw ?x1 = conclude_round en h idle 0 ?x2"
    using complete_timeouts [OF a(9), of "en_now en"] complete_plan [OF sw(1,2)]
    by (simp add: plan_round_def take_recent_timeouts_def)
  have round: "swarm_round en h idle x = conclude_round en h idle 0 ?x2"
    using a s1 blob plan
    by (simp add: swarm_round_def flush_if_due_def should_flush_def drain_pending_chunk_cancels_def)
  show ?thesis
  proof (cases "idle < 40")
    case True
    then have "conclude_round en h idle 0 ?x2 = Inr (Again (Suc idle), ?x2)"
      using s2 sw a(3,11) blob(2) by (simp add: conclude_round_def)
    moreover have "all_there (en_home en) b h ?x2"
      using s2 sw a blob(2) by (simp add: all_there_def)
    ultimately show ?thesis using True round by auto
  next
    case False
    then have "conclude_round en h idle 0 ?x2 = leave_loop en h s False ?x2"
      using s2 sw a(3,11) blob(2) by (simp add: conclude_round_def)
    with leave_result [OF s2 a(4,5), of en False] blob(2) False round show ?thesis
      by (auto simp: has_blob_def)
  qed
qed

lemma idle_rounds:
  assumes "all_there home b h x" and "\<forall>en \<in> set ens. en_home en = home" and "length ens + idle = 41" and "idle \<le> 40"
  shows "\<exists>y. swarm_rounds ens h idle x = Inr (Finished False, y) \<and> \<not> has_blob home b h y"
  using assms
proof (induction ens arbitrary: idle x)
  case (Cons en ens)
  then have home: "en_home en = home" by simp
  from idle_round [of en b h x idle, unfolded home, OF Cons.prems(1)] obtain y where y:
    "if idle < 40 then swarm_round en h idle x = Inr (Again (Suc idle), y) \<and> all_there home b h y
     else swarm_round en h idle x = Inr (Finished False, y) \<and> \<not> has_blob home b h y" by blast
  show ?case
  proof (cases "idle < 40")
    case True
    with y Cons.IH [of y "Suc idle"] Cons.prems show ?thesis by simp
  next
    case False
    with y show ?thesis by simp
  qed
qed simp

lemma seed_stored_chunks: "dget (sw_chunks (seed_stored i t)) j =
    map_option (\<lambda>c. if j = i then c\<lparr>sc_stored := True, sc_state := Stored\<rparr> else c) (dget (sw_chunks t) j)"
  by (cases "dget (sw_chunks t) j") (auto simp: seed_stored_def modify_chunk_def dict_laws split: option.split)

lemma seeded_stored:
  "dget (sw_chunks (fold seed_stored js t)) j = Some c \<Longrightarrow>
    \<exists>c0. dget (sw_chunks t) j = Some c0 \<and> (sc_stored c \<longleftrightarrow> j \<in> set js \<or> sc_stored c0)"
  by (induction js arbitrary: t) (fastforce simp: seed_stored_chunks split: if_splits)+

lemma modify_keys: "map fst (sw_chunks (modify_chunk i f t)) = map fst (sw_chunks t)"
  by (auto simp: modify_chunk_def update_keys map_of_eq_None_iff [symmetric] split: option.split)

lemma seeded_keys: "map fst (sw_chunks (seed_swarm rows js t)) = map fst (sw_chunks t)"
proof -
  have "map fst (sw_chunks (fold seed_attempts rows t)) = map fst (sw_chunks t)" for t
    by (induction rows arbitrary: t) (simp_all add: seed_attempts_def modify_keys)
  moreover have "map fst (sw_chunks (fold seed_stored js t)) = map fst (sw_chunks t)" for js t
    by (induction js arbitrary: t) (simp_all add: seed_stored_def modify_keys)
  ultimately show ?thesis by (simp only: seed_swarm_def)
qed

lemma availability_chunks: "sw_chunks (foldl (\<lambda>s (h, rs). update_peer_availability h rs s) t ranges) = sw_chunks t"
  by (induction ranges arbitrary: t) (auto simp: update_peer_availability_def Let_def)

lemma penalty_chunks: "sw_chunks (fold apply_penalty rs t) = sw_chunks t"
  by (induction rs arbitrary: t) (auto simp: apply_penalty_def apply_persisted_peer_state_def Let_def split: option.split)

lemma new_chunks: "sw_chunks (new_swarm ps n a b c mode ranges low) = map (\<lambda>i. (i, new_chunk i)) [0..<n]"
  by (simp add: new_swarm_def Let_def availability_chunks)

lemma seed_requests: "sw_requests (modify_chunk i f t) = sw_requests t"
  by (simp add: modify_chunk_def split: option.split)

lemma built_requests: "sw_requests (build_swarm low b h r s l mf db) = []"
proof -
  have a: "sw_requests (foldl (\<lambda>s (h, rs). update_peer_availability h rs s) t ranges) = sw_requests t" for t ranges
    by (induction ranges arbitrary: t) (auto simp: update_peer_availability_def Let_def)
  have p: "sw_requests (fold apply_penalty rs t) = sw_requests t" for rs t
    by (induction rs arbitrary: t) (auto simp: apply_penalty_def apply_persisted_peer_state_def Let_def split: option.split)
  have "sw_requests (fold seed_attempts rows t) = sw_requests t" for rows t
    by (induction rows arbitrary: t) (simp_all add: seed_attempts_def seed_requests)
  moreover have "sw_requests (fold seed_stored js t) = sw_requests t" for js t
    by (induction js arbitrary: t) (simp_all add: seed_stored_def seed_requests)
  ultimately show ?thesis
    by (simp add: build_swarm_def seed_swarm_def split_beta Let_def p) (simp add: new_swarm_def Let_def a)
qed

lemma built_complete:
  assumes "{..<mf_chunk_count mf} \<subseteq> set (lv_stored l)"
  shows "is_complete (build_swarm low b h True s l mf db)"
proof -
  obtain t rows where b: "build_swarm low b h True s l mf db = seed_swarm rows (lv_stored l) t"
    and t: "sw_chunks t = map (\<lambda>i. (i, new_chunk i)) [0..<mf_chunk_count mf]"
    by (simp add: build_swarm_def split_beta Let_def) (metis penalty_chunks new_chunks)
  let ?sw = "seed_swarm rows (lv_stored l) t"
  have keys: "map fst (sw_chunks ?sw) = [0..<mf_chunk_count mf]" by (simp add: seeded_keys t comp_def)
  have "sc_stored c" if c: "(i, c) \<in> set (sw_chunks ?sw)" for i c
  proof -
    have ok: "dict_ok (sw_chunks ?sw)" by (simp add: keys)
    have "i \<in> set (map fst (sw_chunks ?sw))" using c by force
    then have "i \<in> set (lv_stored l)" using assms by (auto simp: keys)
    moreover have "dget (sw_chunks ?sw) i = Some c" by (rule iffD1 [OF dict_memD [OF ok] c])
    ultimately show ?thesis unfolding seed_swarm_def by (auto dest!: seeded_stored)
  qed
  then show ?thesis unfolding b is_complete_def by (auto simp: list_all_iff)
qed


text \<open>Both chunks of the manifest are there when the node starts again.\<close>

definition fetcher_all :: fetcher where
  "fetcher_all = on_live ''x'' (\<lambda>l. l\<lparr>lv_stored := [0, 1]\<rparr>) fetcher_told"

lemma fetcher_all_session:
  obtains s l bt mf where "session_of ''x'' fetcher_all = Some (s, l)" "pe_board_id s = ''b''" "pe_batcher s = Some bt"
    "pending_count bt = 0" "0 < bt_max_pending bt" "lv_manifest l = Some mf" "{..<mf_chunk_count mf} \<subseteq> set (lv_stored l)"
    "lv_pending_cancels l = []" "\<not> lv_finalized l" "\<not> lv_cancel_requested l" "\<not> lv_paused l" "\<not> lv_failed l"
proof -
  have "(case session_of ''x'' fetcher_all of None \<Rightarrow> False | Some (s, l) \<Rightarrow>
     pe_board_id s = ''b'' \<and> (case pe_batcher s of None \<Rightarrow> False | Some bt \<Rightarrow> pending_count bt = 0 \<and> 0 < bt_max_pending bt) \<and>
     (case lv_manifest l of None \<Rightarrow> False | Some mf \<Rightarrow> list_all (\<lambda>i. i \<in> set (lv_stored l)) [0..<mf_chunk_count mf]) \<and>
     lv_pending_cancels l = [] \<and> \<not> lv_finalized l \<and> \<not> lv_cancel_requested l \<and> \<not> lv_paused l \<and> \<not> lv_failed l)"
    by code_simp
  then show ?thesis
    by (auto simp: list_all_iff split: option.splits) (rule that, auto)
qed


text \<open>A request of the round above, offered again to the scheduler, which does not take it.\<close>

definition plan0 :: request_plan where
  "plan0 = \<lparr>rp_id = 0, rp_peer = hash_b, rp_chunk = 0, rp_timeout = 90, rp_duplicate = False\<rparr>"

theorem refused_request_charged_to_peer_witness:
  "\<exists>sw r. swarm_of ''x'' fetcher_round = Some sw \<and> dget (sw_requests sw) 0 = Some r \<and>
     fst (send_plan env_a ''x'' plan0 (0, fetcher_round)) = 0 \<and>
     swarm_of ''x'' (snd (send_plan env_a ''x'' plan0 (0, fetcher_round))) = Some sw \<and>
     (\<forall>p t. dget (sw_peers sw) (ar_peer r) = Some p \<longrightarrow> time_out_request (ar_deadline r) 0 sw = Inr t \<longrightarrow>
        map_option sp_timeout_count (dget (sw_peers t) (ar_peer r)) = Some (Suc (sp_timeout_count p)))"
proof -
  have "(case session_of ''x'' fetcher_round of None \<Rightarrow> False | Some (s, l) \<Rightarrow>
     (case lv_swarm l of None \<Rightarrow> False | Some sw \<Rightarrow>
        dget (sw_requests sw) (rp_id plan0) \<noteq> None \<and>
        \<not> fst (try_acquire_request (en_low_bandwidth env_a) (en_now env_a) (pe_session_id s) (request_text (rp_id plan0))
           (nd_scheduler (node_of fetcher_round)))))" by code_simp
  then obtain s l sw r where h: "session_of ''x'' fetcher_round = Some (s, l)" "lv_swarm l = Some sw"
    "dget (sw_requests sw) (rp_id plan0) = Some r"
    "\<not> fst (try_acquire_request (en_low_bandwidth env_a) (en_now env_a) (pe_session_id s) (request_text (rp_id plan0))
       (nd_scheduler (node_of fetcher_round)))"
    by (auto split: option.splits)
  then have "swarm_of ''x'' fetcher_round = Some sw" by (simp add: swarm_of_def)
  moreover have "rp_id plan0 = 0" by (simp add: plan0_def)
  ultimately show ?thesis
    using refused_request_charged_to_peer [OF h, of 0] h(3) by (intro exI [of _ sw] exI [of _ r]) auto
qed

end
