(* ===== verification/PostApi.thy ===== *)
theory PostApi
  imports FetchProps Broadcast
begin

text \<open>
  The post routes of the HTTP API (\<open>retiboard/api/routes/posts.py\<close>): creating a post and handing it to gossip,
  the catalog and a thread, fetching a payload and controlling its download. A request comes typed, as
  the declared model of its fields describes; reading the form and the JSON into it is the framework's. An
  \<open>HTTPException\<close> is its status, any other exception the framework's status 500. The web socket push to
  clients of the node is left out.
\<close>

type_synonym ('a, 's) http = "(nat \<times> 's) + ('a \<times> 's)"

section \<open>Creating a post\<close>

record create_request =
  cq_post_id :: string
  cq_thread_id :: string
  cq_parent_id :: string
  cq_timestamp :: int
  cq_bump_flag :: bool
  cq_content_hash :: string
  cq_payload_size :: int
  cq_attachment_content_hash :: string
  cq_attachment_payload_size :: int
  cq_has_attachments :: bool
  cq_attachment_count :: int
  cq_text_only :: bool
  cq_identity_hash :: string
  cq_pow_nonce :: string
  cq_public_key :: string
  cq_encrypted_pings :: "string list"
  cq_edit_signature :: string

definition request_valid :: "create_request \<Rightarrow> bool" where
  "request_valid q =
     (1 \<le> length (cq_post_id q) \<and> length (cq_post_id q) \<le> 128 \<and>
      1 \<le> length (cq_thread_id q) \<and> length (cq_thread_id q) \<le> 128 \<and>
      length (cq_parent_id q) \<le> 128 \<and> length (cq_content_hash q) = 64 \<and> 1 \<le> cq_payload_size q \<and>
      length (cq_attachment_content_hash q) \<le> 64 \<and> 0 \<le> cq_attachment_payload_size q \<and> 0 \<le> cq_attachment_count q \<and>
      length (cq_identity_hash q) \<le> 128 \<and> length (cq_pow_nonce q) \<le> 128 \<and> length (cq_public_key q) \<le> 512 \<and>
      length (cq_edit_signature q) \<le> 2048)"

definition stamp_request :: "string option \<Rightarrow> create_request \<Rightarrow> create_request" where
  "stamp_request node q = (case node of None \<Rightarrow> q | Some h \<Rightarrow> q\<lparr>cq_identity_hash := h\<rparr>)"

definition attachments_declared :: "create_request \<Rightarrow> bool" where
  "attachments_declared q =
     (cq_has_attachments q \<or> cq_attachment_content_hash q \<noteq> [] \<or> cq_attachment_payload_size q \<noteq> 0)"

text \<open>The checks in their order; \<^term>\<open>None\<close> lets the request through.\<close>

definition flag_status :: "int \<Rightarrow> board \<Rightarrow> create_request \<Rightarrow> bool \<Rightarrow> nat option" where
  "flag_status max_size config q uploaded =
     (if b_text_only config \<and> cq_has_attachments q then Some 400
      else if attachments_declared q \<and> \<not> uploaded then Some 400
      else if uploaded \<and> \<not> attachments_declared q then Some 400
      else if attachments_declared q \<and> cq_attachment_content_hash q = [] then Some 400
      else if attachments_declared q \<and> cq_attachment_payload_size q \<le> 0 then Some 400
      else if attachments_declared q \<and> cq_attachment_count q \<le> 0 then Some 400
      else if \<not> attachments_declared q \<and> cq_attachment_count q \<noteq> 0 then Some 400
      else if cq_payload_size q > max_size then Some 413
      else if cq_attachment_payload_size q > max_size then Some 413
      else None)"

definition pow_request :: "create_request \<Rightarrow> wire" where
  "pow_request q =
     [(''post_id'', JStr (cq_post_id q)), (''thread_id'', JStr (cq_thread_id q)), (''parent_id'', JStr (cq_parent_id q)),
      (''timestamp'', JInt (cq_timestamp q)), (''bump_flag'', JBool (cq_bump_flag q)),
      (''content_hash'', JStr (cq_content_hash q)), (''payload_size'', JInt (cq_payload_size q)),
      (''attachment_content_hash'', JStr (cq_attachment_content_hash q)),
      (''attachment_payload_size'', JInt (cq_attachment_payload_size q)),
      (''has_attachments'', JBool (cq_has_attachments q)), (''attachment_count'', JInt (cq_attachment_count q)),
      (''text_only'', JBool (cq_text_only q)), (''identity_hash'', JStr (cq_identity_hash q)),
      (''public_key'', JStr (cq_public_key q)), (''encrypted_pings'', JArr (map JStr (cq_encrypted_pings q))),
      (''edit_signature'', JStr (cq_edit_signature q))]"

definition blob_status :: "int \<Rightarrow> int \<Rightarrow> string \<Rightarrow> bytes \<Rightarrow> nat option" where
  "blob_status max_size declared h data =
     (if int (length data) > max_size then Some 413
      else if int (length data) \<noteq> declared then Some 400
      else if \<not> verify_content_hash data h then Some 400
      else None)"

text \<open>The attachment that is read and stored.\<close>

definition attachment_data :: "create_request \<Rightarrow> bytes option \<Rightarrow> bytes option" where
  "attachment_data q attachment = (if cq_attachment_content_hash q = [] then None else attachment)"

definition creation_status :: "int \<Rightarrow> board \<Rightarrow> create_request \<Rightarrow> bytes \<Rightarrow> bytes option \<Rightarrow> nat option" where
  "creation_status max_size config q data attachment =
     (case flag_status max_size config q (attachment \<noteq> None) of
        Some st \<Rightarrow> Some st
      | None \<Rightarrow>
          (if \<not> verify_pow (pow_request q) (cq_pow_nonce q) (b_pow_difficulty config) then Some 400
           else (case blob_status max_size (cq_payload_size q) (cq_content_hash q) data of
                   Some st \<Rightarrow> Some st
                 | None \<Rightarrow>
                     (case attachment_data q attachment of
                        None \<Rightarrow> None
                      | Some d \<Rightarrow> blob_status max_size (cq_attachment_payload_size q) (cq_attachment_content_hash q) d))))"

definition post_of_request :: "board \<Rightarrow> create_request \<Rightarrow> post" where
  "post_of_request config q =
     \<lparr>p_post_id = cq_post_id q, p_thread_id = cq_thread_id q, p_parent_id = cq_parent_id q,
      p_timestamp = cq_timestamp q, p_expiry_timestamp = cq_timestamp q + b_default_ttl_seconds config,
      p_bump_flag = cq_bump_flag q, p_content_hash = cq_content_hash q, p_payload_size = cq_payload_size q,
      p_attachment_content_hash = cq_attachment_content_hash q,
      p_attachment_payload_size = cq_attachment_payload_size q, p_has_attachments = cq_has_attachments q,
      p_attachment_count = cq_attachment_count q, p_text_only = cq_text_only q,
      p_identity_hash = cq_identity_hash q, p_pow_nonce = cq_pow_nonce q, p_public_key = cq_public_key q,
      p_encrypted_pings = cq_encrypted_pings q, p_edit_signature = cq_edit_signature q,
      p_thread_last_activity = (if cq_post_id q = cq_thread_id q then cq_timestamp q else 0), p_is_abandoned = False\<rparr>"

text \<open>The transaction: the rows are committed after the blobs are written; when a blob cannot be, the rows are
  rolled back and the blobs written so far deleted.\<close>

definition store_created :: "path \<Rightarrow> string \<Rightarrow> board \<Rightarrow> create_request \<Rightarrow> bytes \<Rightarrow> bytes option \<Rightarrow> peer_node \<Rightarrow>
    (post, peer_node) http" where
  "store_created home board config q data attachment n =
     (let st = store_of n board
      in case insert_post (Some (b_default_ttl_seconds config)) (Some (b_bump_decay_rate config)) (post_of_request config q) (bs_db st) of
           Inl _ \<Rightarrow> Inl (500, n)
         | Inr (p, db) \<Rightarrow>
             (case on_fs (write_payload home board (cq_content_hash q) data False) n of
                Inl (_, n1) \<Rightarrow> Inl (500, n1)
              | Inr (_, n1) \<Rightarrow>
                  (case attachment_data q attachment of
                     None \<Rightarrow> Inr (p, put_store board (st\<lparr>bs_db := db\<rparr>) n1)
                   | Some d \<Rightarrow>
                       (case on_fs (write_payload home board (cq_attachment_content_hash q) d False) n1 of
                          Inr (_, n2) \<Rightarrow> Inr (p, put_store board (st\<lparr>bs_db := db\<rparr>) n2)
                        | Inl (_, n2) \<Rightarrow>
                            (case on_fs (delete_payload home board (cq_content_hash q)) n2 of
                               Inl (_, n3) \<Rightarrow> Inl (500, n3) | Inr (_, n3) \<Rightarrow> Inl (500, n3))))))"

text \<open>Broadcast at once; the replication is a task of its own, whose failure is not the request's.\<close>

definition announce_created :: "net \<Rightarrow> time \<Rightarrow> path \<Rightarrow> string \<Rightarrow> post \<Rightarrow> app \<Rightarrow> app" where
  "announce_created nt now home board p a =
     (if eg_dest (ap_engine a) = None then a
      else (let e = snd (broadcast_metadata nt now p board (ap_engine a))
            in case replicate_metadata nt now home p board None e (ap_node a) of
                 Inl (_, n) \<Rightarrow> a\<lparr>ap_engine := e, ap_node := n\<rparr>
               | Inr ((_, e1), n) \<Rightarrow> a\<lparr>ap_engine := e1, ap_node := n\<rparr>))"

definition create_post ::
  "net \<Rightarrow> time \<Rightarrow> path \<Rightarrow> int \<Rightarrow> string option \<Rightarrow> bool \<Rightarrow> string \<Rightarrow> create_request \<Rightarrow> bytes \<Rightarrow> bytes option \<Rightarrow> app \<Rightarrow>
   (post, app) http" where
  "create_post nt now home max_size node engine board req data attachment a =
     (let q = stamp_request node req
      in if \<not> request_valid q then Inl (400, a)
         else (case with_node (on_fs (open_board_db home board)) a of
                 Inl (_, a1) \<Rightarrow> Inl (500, a1)
               | Inr (_, a1) \<Rightarrow>
                   (case load_board_config (bs_db (store_of (ap_node a1) board)) of
                      None \<Rightarrow> Inl (404, a1)
                    | Some config \<Rightarrow>
                        (case creation_status max_size config q data attachment of
                           Some st \<Rightarrow> Inl (st, a1)
                         | None \<Rightarrow>
                             (if post_exists (cq_post_id q) (bs_db (store_of (ap_node a1) board)) then Inl (409, a1)
                              else (case store_created home board config q data attachment (ap_node a1) of
                                      Inl (st, n) \<Rightarrow> Inl (st, a1\<lparr>ap_node := n\<rparr>)
                                    | Inr (p, n) \<Rightarrow>
                                        (let a2 = a1\<lparr>ap_node := n\<rparr>
                                         in Inr (p, if engine then announce_created nt now home board p a2 else a2))))))))"

section \<open>Reading\<close>

definition open_subscribed :: "path \<Rightarrow> string \<Rightarrow> peer_node \<Rightarrow> (unit, peer_node) http" where
  "open_subscribed home board n =
     (if \<not> is_board_subscribed home board (nd_fs n) then Inl (404, n)
      else (case on_fs (open_board_db home board) n of Inl (_, n1) \<Rightarrow> Inl (500, n1) | Inr (_, n1) \<Rightarrow> Inr ((), n1)))"

definition get_thread :: "path \<Rightarrow> string \<Rightarrow> string \<Rightarrow> peer_node \<Rightarrow> (post list, peer_node) http" where
  "get_thread home board tid n =
     (case open_subscribed home board n of
        Inl e \<Rightarrow> Inl e
      | Inr (_, n1) \<Rightarrow>
          (case get_thread_posts tid (bs_db (store_of n1 board)) of [] \<Rightarrow> Inl (404, n1) | ps \<Rightarrow> Inr (ps, n1)))"

definition list_threads :: "path \<Rightarrow> string \<Rightarrow> int \<Rightarrow> peer_node \<Rightarrow> (thread_summary list, peer_node) http" where
  "list_threads home board limit n =
     (case open_subscribed home board n of
        Inl e \<Rightarrow> Inl e | Inr (_, n1) \<Rightarrow> Inr (get_catalog limit (bs_db (store_of n1 board)), n1))"

text \<open>\<open>fetch\<close> is the engine's \<open>fetch_payload\<close>, given the declared size.\<close>

definition read_stored :: "path \<Rightarrow> string \<Rightarrow> string \<Rightarrow> peer_node \<Rightarrow> (bytes option, peer_node) http" where
  "read_stored home board h n = (case read_payload home board h (nd_fs n) of Inl _ \<Rightarrow> Inl (500, n) | Inr r \<Rightarrow> Inr (r, n))"

definition get_payload ::
  "path \<Rightarrow> string \<Rightarrow> string \<Rightarrow> (int option \<Rightarrow> peer_node \<Rightarrow> bool \<times> peer_node) option \<Rightarrow> peer_node \<Rightarrow> (bytes, peer_node) http" where
  "get_payload home board h fetch n =
     (case open_subscribed home board n of
        Inl e \<Rightarrow> Inl e
      | Inr (_, n1) \<Rightarrow>
          (let st = store_of n1 board; dec = should_serve_blob h (bs_db st) (bs_control st)
           in if \<not> md_allowed dec then Inl (if md_reason dec = Some ''not_found'' then 404 else 403, n1)
              else (case read_stored home board h n1 of
                      Inl e \<Rightarrow> Inl e
                    | Inr (Some d, n2) \<Rightarrow> Inr (d, n2)
                    | Inr (None, n2) \<Rightarrow>
                        (case fetch of
                           None \<Rightarrow> Inl (404, n2)
                         | Some f \<Rightarrow>
                             (case f (get_declared_payload_size h (bs_db st)) n2 of
                                (ok, n3) \<Rightarrow>
                                  (if \<not> ok then Inl (404, n3)
                                   else (case read_stored home board h n3 of
                                           Inl e \<Rightarrow> Inl e
                                         | Inr (Some d, n4) \<Rightarrow> Inr (d, n4)
                                         | Inr (None, n4) \<Rightarrow> Inl (404, n4))))))))"

section \<open>Controlling a download\<close>

definition control_route :: "(bool, fetcher) run \<Rightarrow> (unit, fetcher) http" where
  "control_route r = (case r of Inl (_, x) \<Rightarrow> Inl (500, x) | Inr (ok, x) \<Rightarrow> if ok then Inr ((), x) else Inl (404, x))"

definition pause_payload_fetch_route :: "env \<Rightarrow> string \<Rightarrow> string \<Rightarrow> fetcher \<Rightarrow> (unit, fetcher) http" where
  "pause_payload_fetch_route en board h x = control_route (pause_chunk_fetch en board h x)"

definition resume_payload_fetch_route :: "env \<Rightarrow> string \<Rightarrow> string \<Rightarrow> fetcher \<Rightarrow> (unit, fetcher) http" where
  "resume_payload_fetch_route en board h x = control_route (resume_chunk_fetch en board h x)"

definition cancel_payload_fetch_route :: "env \<Rightarrow> string \<Rightarrow> string \<Rightarrow> fetcher \<Rightarrow> (unit, fetcher) http" where
  "cancel_payload_fetch_route en board h x = control_route (cancel_chunk_fetch en board h x)"

definition get_payload_progress :: "env \<Rightarrow> string \<Rightarrow> string \<Rightarrow> fetcher \<Rightarrow> (fetch_progress, fetcher) http" where
  "get_payload_progress en board h x =
     (case get_chunk_fetch_progress en board h x of
        Inl (_, y) \<Rightarrow> Inl (500, y) | Inr (None, y) \<Rightarrow> Inl (404, y) | Inr (Some p, y) \<Rightarrow> Inr (p, y))"

section \<open>What a created post went through\<close>

lemma creation_passed:
  assumes "creation_status m config q data att = None"
  shows "verify_pow (pow_request q) (cq_pow_nonce q) (b_pow_difficulty config)"
    and "\<not> (b_text_only config \<and> cq_has_attachments q)"
    and "cq_payload_size q \<le> m" "cq_attachment_payload_size q \<le> m" "int (length data) = cq_payload_size q"
    and "sha256_hex data = cq_content_hash q"
    and "if attachments_declared q then 0 < cq_attachment_count q \<and> 0 < cq_attachment_payload_size q \<and>
        (\<exists>d. attachment_data q att = Some d \<and> sha256_hex d = cq_attachment_content_hash q)
      else cq_attachment_count q = 0 \<and> attachment_data q att = None"
  using assms
  by (auto simp: creation_status_def flag_status_def blob_status_def verify_content_hash_def attachment_data_def
      attachments_declared_def split: option.splits if_splits)

lemma create_Inr:
  assumes "create_post nt now home m node engine board req data att a = Inr (p, a')"
  obtains a1 config n where "with_node (on_fs (open_board_db home board)) a = Inr ((), a1)"
    "request_valid (stamp_request node req)"
    "load_board_config (bs_db (store_of (ap_node a1) board)) = Some config"
    "creation_status m config (stamp_request node req) data att = None"
    "\<not> post_exists (cq_post_id (stamp_request node req)) (bs_db (store_of (ap_node a1) board))"
    "store_created home board config (stamp_request node req) data att (ap_node a1) = Inr (p, n)"
    "a' = (if engine then announce_created nt now home board p (a1\<lparr>ap_node := n\<rparr>) else a1\<lparr>ap_node := n\<rparr>)"
  using assms
  by (auto simp: create_post_def Let_def split: if_splits sum.splits option.splits)

lemma opened_stores:
  assumes "with_node (on_fs g) a = Inr (u, a1)"
  shows "store_of (ap_node a1) b = store_of (ap_node a) b" "ap_engine a1 = ap_engine a"
  using assms by (auto simp: with_node_def on_fs_def store_of_def split: sum.splits)

lemma inserted_fields:
  assumes "insert_post s b p db = Inr (q, db')"
  obtains e l x where "q = p\<lparr>p_expiry_timestamp := e, p_thread_last_activity := l, p_is_abandoned := x\<rparr>"
proof -
  have "q = p\<lparr>p_expiry_timestamp := p_expiry_timestamp q, p_thread_last_activity := p_thread_last_activity q,
      p_is_abandoned := p_is_abandoned q\<rparr>"
    using assms by (auto simp: insert_post_def Let_def split: if_splits sum.splits option.splits)
  then show ?thesis by (rule that)
qed

lemma stored_Inr:
  assumes "store_created home board config q data att n = Inr (p, n')"
  obtains db where "insert_post (Some (b_default_ttl_seconds config)) (Some (b_bump_decay_rate config)) (post_of_request config q)
      (bs_db (store_of n board)) = Inr (p, db)"
  using assms by (auto simp: store_created_def Let_def split: sum.splits option.splits)

section \<open>From the author to the other nodes\<close>

text \<open>Property C6: a post that the node creates is accepted by the others: the metadata it sends is stored by every
  subscribed node of the same board that does not have the post, with a payload limit no smaller, whose rules
  let it in and whose clock is at most an hour behind it and at most the board's lifetime ahead.\<close>

theorem created_post_accepted:
  assumes "create_post nt now home m node engine board req data att a = Inr (p, a')"
    and "load_board_config (bs_db (store_of (ap_node a) board)) = Some config"
    and "serving home' board config' n" and "b_pow_difficulty config' = b_pow_difficulty config"
      "b_text_only config' = b_text_only config"
    and "p_identity_hash p \<noteq> []" and "m \<le> m'"
    and "\<lfloor>now'\<rfloor> - b_default_ttl_seconds config' \<le> p_timestamp p" "p_timestamp p \<le> \<lfloor>now'\<rfloor> + 3600"
    and "md_allowed (should_reject_post p (bs_control (store_of n board)))"
    and "\<not> post_exists (p_post_id p) (bs_db (store_of n board))"
    and "insert_post (Some (b_default_ttl_seconds config')) (Some (b_bump_decay_rate config')) (received config' p)
      (bs_db (store_of n board)) = Inr (q, db)"
    and "pred_option tracker_inv tr"
  shows "\<exists>tr' n'. handle_incoming_metadata now' home' m' (post_to_dict p) board src ident tr n = Inr ((True, tr'), n') \<and>
    bs_db (store_of n' board) = db"
proof -
  let ?r = "stamp_request node req"
  obtain a1 c n1 where c: "with_node (on_fs (open_board_db home board)) a = Inr ((), a1)" "request_valid ?r"
    "load_board_config (bs_db (store_of (ap_node a1) board)) = Some c" "creation_status m c ?r data att = None"
    "store_created home board c ?r data att (ap_node a1) = Inr (p, n1)"
    by (rule create_Inr [OF assms(1)])
  have config: "c = config" using c(3) assms(2) opened_stores(1) [OF c(1)] by simp
  obtain rows where "insert_post (Some (b_default_ttl_seconds c)) (Some (b_bump_decay_rate c)) (post_of_request c ?r)
      (bs_db (store_of (ap_node a1) board)) = Inr (p, rows)" by (rule stored_Inr [OF c(5)])
  then obtain e l x where p: "p = (post_of_request c ?r)\<lparr>p_expiry_timestamp := e, p_thread_last_activity := l, p_is_abandoned := x\<rparr>"
    by (rule inserted_fields)
  note passed = creation_passed [OF c(4)]
  have "verify_pow (post_to_dict p) (p_pow_nonce p) d = verify_pow (pow_request ?r) (cq_pow_nonce ?r) d" for d
    unfolding p post_of_request_def
    by (simp, rule verify_pow_cong) (auto simp: POW_FIELDS_def post_to_dict_def pow_request_def)
  moreover have "p_post_id p \<noteq> []" using c(2) by (auto simp: p post_of_request_def request_valid_def)
  moreover have "declares_attachment p = attachments_declared ?r"
    by (simp add: p post_of_request_def declares_attachment_def attachments_declared_def)
  ultimately have "acceptable \<lfloor>now'\<rfloor> m' config' (bs_control (store_of n board)) p"
    using assms(4-10) passed c(2) by (auto simp: acceptable_def config p post_of_request_def request_valid_def split: if_splits)
  then show ?thesis
    by (rule honest_run [OF assms(3) _ assms(11-13), where src = src and ident = ident]) (auto simp: store_of_put)
qed

section \<open>What creating a post does to the node\<close>

lemma serving_open_db: "serving home board config (ap_node a) \<Longrightarrow> with_node (on_fs (open_board_db home board)) a = Inr ((), a)"
  using open_existing [of home board "nd_fs (ap_node a)"]
  by (auto simp: serving_def with_node_def on_fs_def open_board_db_def is_board_subscribed_def)

lemma written:
  assumes "payload_inv home board f" and "sha256_hex d = h"
  shows "write_payload home board h d False f = Inr (payloads_of home board @ [h @ ''.bin''], payload_put home board d f)"
  using write_payload_ok [OF assms(1) plain_digest [of d], of False d] payload_put_eq [OF assms(1) plain_digest [of d]] assms(2)
  by simp

lemma put_kept:
  assumes "payload_inv home board f"
  shows "payload_inv home board (payload_put home board d f)"
    and "node_at (payload_put home board d f) (home @ [board, ''chunk_cache'']) = node_at f (home @ [board, ''chunk_cache''])"
  using payloads.inv_store [OF assms plain_digest]
  by (simp_all add: payload_put_eq [OF assms plain_digest] node_at_dput node_at_dpop)

lemma announce_node:
  assumes "payload_inv home board (nd_fs (ap_node a))"
    and "node_at (nd_fs (ap_node a)) (home @ [board, ''chunk_cache'']) = Some Dir"
  shows "ap_node (announce_created nt now home board p a) = ap_node a"
proof -
  have "on_fs (open_board_dirs home board) (ap_node a) = Inr ((), ap_node a)"
    using open_existing [OF assms] by (simp add: on_fs_def)
  then show ?thesis
    by (auto simp: announce_created_def replicate_metadata_def Let_def split: sum.split prod.split)
qed

definition blobs_put :: "path \<Rightarrow> string \<Rightarrow> bytes \<Rightarrow> bytes option \<Rightarrow> fs \<Rightarrow> fs" where
  "blobs_put home board data att f =
     (let f1 = payload_put home board data f in case att of None \<Rightarrow> f1 | Some d \<Rightarrow> payload_put home board d f1)"

lemma created_state:
  assumes "serving home board config (ap_node a)"
    and "create_post nt now home m node engine board req data att a = Inr (p, a')"
  obtains db where
    "insert_post (Some (b_default_ttl_seconds config)) (Some (b_bump_decay_rate config))
       (post_of_request config (stamp_request node req)) (bs_db (store_of (ap_node a) board)) = Inr (p, db)"
    "ap_node a' = put_store board ((store_of (ap_node a) board)\<lparr>bs_db := db\<rparr>)
       ((ap_node a)\<lparr>nd_fs := blobs_put home board data (attachment_data (stamp_request node req) att) (nd_fs (ap_node a))\<rparr>)"
    "creation_status m config (stamp_request node req) data att = None"
proof -
  let ?q = "stamp_request node req" and ?n = "ap_node a"
  let ?st = "store_of ?n board" and ?att = "attachment_data ?q att"
  obtain a1 c n where c: "with_node (on_fs (open_board_db home board)) a = Inr ((), a1)"
    "load_board_config (bs_db (store_of (ap_node a1) board)) = Some c" "creation_status m c ?q data att = None"
    "store_created home board c ?q data att (ap_node a1) = Inr (p, n)"
    "a' = (if engine then announce_created nt now home board p (a1\<lparr>ap_node := n\<rparr>) else a1\<lparr>ap_node := n\<rparr>)"
    by (rule create_Inr [OF assms(2)])
  have a1: "a1 = a" using c(1) serving_open_db [OF assms(1)] by simp
  have config: "c = config" using c(2) assms(1) a1 by (simp add: serving_def)
  have inv: "payload_inv home board (nd_fs ?n)" "node_at (nd_fs ?n) (home @ [board, ''chunk_cache'']) = Some Dir"
    using assms(1) by (simp_all add: serving_def)
  obtain db where db: "insert_post (Some (b_default_ttl_seconds config)) (Some (b_bump_decay_rate config))
      (post_of_request config ?q) (bs_db ?st) = Inr (p, db)" using stored_Inr [OF c(4)] config a1 by metis
  note passed = creation_passed [OF c(3)]
  have att: "sha256_hex d = cq_attachment_content_hash ?q" if "?att = Some d" for d
    using passed(7) that by (auto split: if_splits)
  let ?f1 = "payload_put home board data (nd_fs ?n)"
  have n: "n = put_store board (?st\<lparr>bs_db := db\<rparr>) (?n\<lparr>nd_fs := blobs_put home board data ?att (nd_fs ?n)\<rparr>)"
    using c(4) db written [OF inv(1) passed(6)] written [OF put_kept(1) [OF inv(1)] att]
    by (auto simp: store_created_def a1 config on_fs_def blobs_put_def Let_def split: option.splits)
  have "payload_inv home board (nd_fs n)" "node_at (nd_fs n) (home @ [board, ''chunk_cache'']) = Some Dir"
    using inv put_kept by (auto simp: n blobs_put_def put_store_def Let_def split: option.split)
  then have "ap_node a' = n"
    using announce_node [of home board "a\<lparr>ap_node := n\<rparr>"] c(5) a1 by simp
  with db n c(3) config show thesis using that by simp
qed

text \<open>Property C21: when the creation of a post succeeds, the post is added to the board and nothing else is, and its blobs are
  on the node under the hashes it declares; no other board is touched.\<close>

theorem created_post_stored:
  assumes "serving home board config (ap_node a)"
    and "create_post nt now home m node engine board req data att a = Inr (p, a')"
  shows "(\<exists>db. insert_post (Some (b_default_ttl_seconds config)) (Some (b_bump_decay_rate config))
       (post_of_request config (stamp_request node req)) (bs_db (store_of (ap_node a) board)) = Inr (p, db) \<and>
       store_of (ap_node a') board = (store_of (ap_node a) board)\<lparr>bs_db := db\<rparr>) \<and>
    (\<forall>b. b \<noteq> board \<longrightarrow> store_of (ap_node a') b = store_of (ap_node a) b) \<and>
    (\<forall>h. h = p_content_hash p \<or> declares_attachment p \<and> h = p_attachment_content_hash p \<longrightarrow>
       (\<exists>d. read_payload home board h (nd_fs (ap_node a')) = Inr (Some d) \<and> sha256_hex d = h \<and> (d = data \<or> Some d = att)))"
proof -
  let ?q = "stamp_request node req"
  obtain db where s: "insert_post (Some (b_default_ttl_seconds config)) (Some (b_bump_decay_rate config))
       (post_of_request config ?q) (bs_db (store_of (ap_node a) board)) = Inr (p, db)"
    "ap_node a' = put_store board ((store_of (ap_node a) board)\<lparr>bs_db := db\<rparr>)
       ((ap_node a)\<lparr>nd_fs := blobs_put home board data (attachment_data ?q att) (nd_fs (ap_node a))\<rparr>)"
    "creation_status m config ?q data att = None" by (rule created_state [OF assms])
  note passed = creation_passed [OF s(3)]
  obtain e l x where p: "p = (post_of_request config ?q)\<lparr>p_expiry_timestamp := e, p_thread_last_activity := l, p_is_abandoned := x\<rparr>"
    by (rule inserted_fields [OF s(1)])
  have inv: "payload_inv home board (nd_fs (ap_node a))" using assms(1) by (simp add: serving_def)
  let ?f1 = "payload_put home board data (nd_fs (ap_node a))"
  note inv1 = put_kept(1) [OF inv, of data]
  have look: "payload_lookup home board (sha256_hex k) (payload_put home board d f) =
      (if sha256_hex k = sha256_hex d then Some d else payload_lookup home board (sha256_hex k) f)"
    if "payload_inv home board f" for k d f
    by (rule payloads.lookup_store [OF that plain_digest plain_digest])
  have invF: "payload_inv home board (nd_fs (ap_node a'))"
    using inv1 put_kept(1) [OF inv1] by (auto simp: s(2) put_store_def blobs_put_def Let_def split: option.split)
  have read: "\<exists>d. read_payload home board h (nd_fs (ap_node a')) = Inr (Some d) \<and> sha256_hex d = h \<and> (d = data \<or> Some d = att)"
    if h: "h = p_content_hash p \<or> declares_attachment p \<and> h = p_attachment_content_hash p" for h
  proof -
    have fields: "p_content_hash p = sha256_hex data" "p_attachment_content_hash p = cq_attachment_content_hash ?q"
      "declares_attachment p = attachments_declared ?q"
      using passed(6) by (simp_all add: p post_of_request_def declares_attachment_def attachments_declared_def)
    have "\<exists>k. h = sha256_hex k \<and> (k = data \<or> attachment_data ?q att = Some k)"
      using h fields passed(7) by (auto split: if_splits) metis
    then obtain k where k: "h = sha256_hex k" "k = data \<or> attachment_data ?q att = Some k" by blast
    have att: "attachment_data ?q att = Some d \<Longrightarrow> att = Some d" for d
      by (simp add: attachment_data_def split: if_splits)
    have "\<exists>d. payload_lookup home board h (nd_fs (ap_node a')) = Some d \<and> sha256_hex d = h \<and> (d = data \<or> Some d = att)"
      using k att by (auto simp: s(2) put_store_def blobs_put_def Let_def look [OF inv1] look [OF inv] split: option.split)
    then show ?thesis using read_payload_lookup [OF invF, of h] plain_digest [of k] k(1) by simp
  qed
  show ?thesis
    using s(1,2) read by (auto simp: store_of_put)
qed

text \<open>Property C32: a request that is refused leaves a subscribed node exactly as it was: no row, no blob, nothing sent. It is
  refused with 400, 409 or 413, and with 500 only when a number of the post does not fit the database.\<close>

theorem refused_post_changes_nothing:
  assumes "serving home board config (ap_node a)"
    and "create_post nt now home m node engine board req data att a = Inl (st, a')"
  shows "a' = a \<and> (st = 400 \<or> st = 409 \<or> st = 413 \<or> st = 500 \<and>
    isl (insert_post (Some (b_default_ttl_seconds config)) (Some (b_bump_decay_rate config))
      (post_of_request config (stamp_request node req)) (bs_db (store_of (ap_node a) board))))"
proof -
  let ?q = "stamp_request node req" and ?n = "ap_node a"
  let ?ins = "insert_post (Some (b_default_ttl_seconds config)) (Some (b_bump_decay_rate config))
      (post_of_request config ?q) (bs_db (store_of ?n board))"
  have inv: "payload_inv home board (nd_fs ?n)" and config: "load_board_config (bs_db (store_of ?n board)) = Some config"
    using assms(1) by (simp_all add: serving_def)
  have blob: "st \<in> {400, 413}" if "blob_status m k h d = Some st" for k h d st
    using that by (simp add: blob_status_def split: if_splits)
  have checks: "st \<in> {400, 413}" if "creation_status m config ?q data att = Some st" for st
    using that blob by (fastforce simp: creation_status_def flag_status_def split: option.splits if_splits)
  have stored: "n = ?n \<and> st = 500 \<and> isl ?ins" if "store_created home board config ?q data att ?n = Inl (st, n)"
    "creation_status m config ?q data att = None" for st n
  proof -
    note passed = creation_passed [OF that(2)]
    have att: "sha256_hex d = cq_attachment_content_hash ?q" if "attachment_data ?q att = Some d" for d
      using passed(7) that by (auto split: if_splits)
    show ?thesis
      using that(1) written [OF inv passed(6)] written [OF put_kept(1) [OF inv] att]
      by (auto simp: store_created_def on_fs_def Let_def split: sum.splits option.splits)
  qed
  show ?thesis
    using assms(2) checks stored
    by (auto simp: create_post_def serving_open_db [OF assms(1)] config Let_def split: if_splits option.splits sum.splits)
qed

text \<open>Also: creating a post on a board that the node does not have is answered with 404, and makes it count as
  subscribed from then on: the database is created before it is looked into.\<close>

theorem unknown_board_subscribed_by_post:
  assumes "fresh_board home board (ap_node a)" and "request_valid (stamp_request node req)"
  shows "\<exists>a'. create_post nt now home m node engine board req data att a = Inl (404, a') \<and>
    \<not> is_board_subscribed home board (nd_fs (ap_node a)) \<and> is_board_subscribed home board (nd_fs (ap_node a'))"
proof -
  have "store_of (ap_node a) board = empty_store"
    using assms(1) by (simp add: fresh_board_def store_of_def dget_or_def)
  then have config: "load_board_config (bs_db (store_of (ap_node a) board)) = None"
    by (simp add: empty_store_def empty_db_def load_board_config_def)
  have open_db: "with_node (on_fs (open_board_db home board)) a =
      Inr ((), a\<lparr>ap_node := (ap_node a)\<lparr>nd_fs := board_tree home board (nd_fs (ap_node a))\<rparr>\<rparr>)"
    using open_fresh(1) [OF assms(1)] by (simp add: with_node_def on_fs_def)
  show ?thesis
    using assms(2) open_fresh(2) [OF assms(1)] board_tree_facts(4) [OF assms(1)] config
    by (simp add: create_post_def open_db Let_def)
qed

section \<open>Serving a payload\<close>

lemma read_stored_Inr: "read_stored home board h n = Inr (r, n') \<Longrightarrow> n' = n \<and> read_payload home board h (nd_fs n) = Inr r"
  by (auto simp: read_stored_def split: sum.splits)

text \<open>Also: a payload is handed out only while the rules of the board let the node serve it, and it is what is stored under
  its name.\<close>

theorem handed_out_allowed:
  assumes "get_payload home board h fetch n = Inr (d, n')"
  shows "md_allowed (should_serve_blob h (bs_db (store_of n board)) (bs_control (store_of n board))) \<and>
    is_board_subscribed home board (nd_fs n) \<and> read_payload home board h (nd_fs n') = Inr (Some d)"
proof -
  obtain n1 where n1: "open_subscribed home board n = Inr ((), n1)"
    and allowed: "md_allowed (should_serve_blob h (bs_db (store_of n1 board)) (bs_control (store_of n1 board)))"
    using assms by (auto simp: get_payload_def Let_def split: sum.splits if_splits)
  have "store_of n1 board = store_of n board" and sub: "is_board_subscribed home board (nd_fs n)"
    using n1 by (auto simp: open_subscribed_def on_fs_def store_of_def split: if_splits sum.splits)
  moreover have "read_payload home board h (nd_fs n') = Inr (Some d)"
    using assms n1 allowed
    by (auto simp: get_payload_def Let_def dest!: read_stored_Inr split: sum.splits option.splits if_splits prod.splits)
  ultimately show ?thesis using allowed by simp
qed

section \<open>Sample requests\<close>

definition new_post_request :: "string \<Rightarrow> create_request" where
  "new_post_request h = \<lparr>cq_post_id = ''n'', cq_thread_id = ''t'', cq_parent_id = [], cq_timestamp = 100, cq_bump_flag = True,
     cq_content_hash = h, cq_payload_size = 3, cq_attachment_content_hash = [], cq_attachment_payload_size = 0,
     cq_has_attachments = False, cq_attachment_count = 0, cq_text_only = False, cq_identity_hash = [], cq_pow_nonce = [],
     cq_public_key = [], cq_encrypted_pings = [], cq_edit_signature = []\<rparr>"

definition app_open :: app where
  "app_open = app_a\<lparr>ap_node := open_node\<rparr>"

definition open_config :: board where
  "open_config = sample_board\<lparr>b_key_material := [], b_peer_lxmf_hash := [], b_subscribed_at := 2\<rparr>"

lemma open_rows:
  "load_board_config (bs_db (store_of open_node ''b'')) = Some open_config"
  "\<not> post_exists ''n'' (bs_db (store_of open_node ''b''))"
  "\<not> isl (insert_post (Some 43200) (Some 3600) (post_of_request open_config ((new_post_request h)\<lparr>cq_identity_hash := ''i''\<rparr>))
     (bs_db (store_of open_node ''b'')))"
  by code_simp+

lemma open_serving: "serving [''h''] ''b'' open_config open_node"
  using open_node_fs open_rows(1) by (simp add: serving_def)

lemma new_post_passes: "creation_status 1000 open_config ((new_post_request (sha256_hex [1, 2, 3]))\<lparr>cq_identity_hash := ''i''\<rparr>) [1, 2, 3] None = None"
  by (simp add: creation_status_def flag_status_def attachments_declared_def new_post_request_def blob_status_def
      verify_content_hash_def attachment_data_def open_config_def sample_board_def verify_pow_def)

lemma new_post_valid: "request_valid ((new_post_request (sha256_hex [1, 2, 3]))\<lparr>cq_identity_hash := ''i''\<rparr>)"
  by (simp add: request_valid_def new_post_request_def length_sha256_hex)

definition created :: "string \<Rightarrow> post" where
  "created h = fst (projr (insert_post (Some 43200) (Some 3600) (post_of_request open_config ((new_post_request h)\<lparr>cq_identity_hash := ''i''\<rparr>))
     (bs_db (store_of open_node ''b''))))"

lemma open_created:
  obtains a' where "create_post good_net 200 [''h''] 1000 (Some ''i'') True ''b'' (new_post_request (sha256_hex [1, 2, 3])) [1, 2, 3] None app_open =
    Inr (created (sha256_hex [1, 2, 3]), a')"
proof -
  let ?q = "(new_post_request (sha256_hex [1, 2, 3]))\<lparr>cq_identity_hash := ''i''\<rparr>"
  have node: "ap_node app_open = open_node" by (simp add: app_open_def)
  have serve: "serving [''h''] ''b'' open_config (ap_node app_open)" using open_serving by (simp add: node)
  have ttl: "b_default_ttl_seconds open_config = 43200" "b_bump_decay_rate open_config = 3600"
    by (simp_all add: open_config_def sample_board_def)
  have fields: "cq_content_hash ?q = sha256_hex [1, 2, 3]" "cq_post_id ?q = ''n''" "attachment_data ?q None = None"
    by (simp_all add: new_post_request_def attachment_data_def)
  have inv: "payload_inv [''h''] ''b'' (nd_fs open_node)" by (rule open_node_fs(1))
  obtain p db where ins: "insert_post (Some 43200) (Some 3600) (post_of_request open_config ?q) (bs_db (store_of open_node ''b'')) = Inr (p, db)"
    using open_rows(3) [of "sha256_hex [1, 2, 3]"] by (auto simp: isl_def) (metis obj_sumE surj_pair)
  then have p: "created (sha256_hex [1, 2, 3]) = p" by (simp add: created_def)
  show thesis
    by (rule that) (simp add: create_post_def stamp_request_def new_post_valid serving_open_db [OF serve] node open_rows new_post_passes Let_def
        fields p store_created_def ttl ins on_fs_def written [OF inv])
qed

theorem created_post_stored_witness:
  "\<exists>p a' d. create_post good_net 200 [''h''] 1000 (Some ''i'') True ''b'' (new_post_request (sha256_hex [1, 2, 3])) [1, 2, 3] None app_open =
     Inr (p, a') \<and> read_payload [''h''] ''b'' (p_content_hash p) (nd_fs (ap_node a')) = Inr (Some d) \<and> sha256_hex d = p_content_hash p"
proof -
  have "serving [''h''] ''b'' open_config (ap_node app_open)" using open_serving by (simp add: app_open_def)
  note st = created_post_stored [OF this]
  obtain a' where "create_post good_net 200 [''h''] 1000 (Some ''i'') True ''b'' (new_post_request (sha256_hex [1, 2, 3])) [1, 2, 3] None app_open =
    Inr (created (sha256_hex [1, 2, 3]), a')" by (rule open_created)
  with st [OF this] show ?thesis by blast
qed

lemma created_facts:
  "p_identity_hash (created h) = ''i''" "p_timestamp (created h) = 100" "p_post_id (created h) = ''n''"
  "md_allowed (should_reject_post (created h) (bs_control (store_of open_node ''b'')))"
  "\<not> isl (insert_post (Some 43200) (Some 3600) (received open_config (created h)) (bs_db (store_of open_node ''b'')))"
  by code_simp+

theorem created_post_accepted_witness:
  "\<exists>p a' tr' n'. create_post good_net 200 [''h''] 1000 (Some ''i'') True ''b'' (new_post_request (sha256_hex [1, 2, 3])) [1, 2, 3] None app_open =
     Inr (p, a') \<and> handle_incoming_metadata 300 [''h''] 1000 (post_to_dict p) ''b'' None None None open_node = Inr ((True, tr'), n')"
proof -
  let ?p = "created (sha256_hex [1, 2, 3])"
  obtain a' where c: "create_post good_net 200 [''h''] 1000 (Some ''i'') True ''b'' (new_post_request (sha256_hex [1, 2, 3])) [1, 2, 3] None app_open =
    Inr (?p, a')" by (rule open_created)
  have ttl: "b_default_ttl_seconds open_config = 43200" "b_bump_decay_rate open_config = 3600"
    by (simp_all add: open_config_def sample_board_def)
  obtain q db where ins: "insert_post (Some (b_default_ttl_seconds open_config)) (Some (b_bump_decay_rate open_config)) (received open_config ?p)
      (bs_db (store_of open_node ''b'')) = Inr (q, db)"
    using created_facts(5) [of "sha256_hex [1, 2, 3]"] unfolding ttl by (auto simp: isl_def) (metis obj_sumE surj_pair)
  have "load_board_config (bs_db (store_of (ap_node app_open) ''b'')) = Some open_config"
    using open_rows(1) by (simp add: app_open_def)
  from created_post_accepted [OF c this open_serving refl refl _ order_refl _ _ _ _ ins, of 300 None None None]
  have "\<exists>tr' n'. handle_incoming_metadata 300 [''h''] 1000 (post_to_dict ?p) ''b'' None None None open_node = Inr ((True, tr'), n')"
    using created_facts open_rows(2) by (auto simp: ttl)
  with c show ?thesis by blast
qed

theorem refused_post_changes_nothing_witness:
  "create_post good_net 200 [''h''] 1000 (Some ''i'') True ''b'' (new_post_request (replicate 64 CHR ''0'')) [1] None app_open = Inl (400, app_open)"
proof -
  have node: "ap_node app_open = open_node" by (simp add: app_open_def)
  have serve: "serving [''h''] ''b'' open_config (ap_node app_open)" using open_serving by (simp add: node)
  have "creation_status 1000 open_config (stamp_request (Some ''i'') (new_post_request (replicate 64 CHR ''0''))) [1] None = Some 400"
    "request_valid (stamp_request (Some ''i'') (new_post_request (replicate 64 CHR ''0'')))" by code_simp+
  then have "create_post good_net 200 [''h''] 1000 (Some ''i'') True ''b'' (new_post_request (replicate 64 CHR ''0'')) [1] None app_open =
      Inl (400, app_open)"
    by (simp add: create_post_def serving_open_db [OF serve] node open_rows(1) Let_def)
  then obtain a' where c: "create_post good_net 200 [''h''] 1000 (Some ''i'') True ''b'' (new_post_request (replicate 64 CHR ''0'')) [1] None app_open =
      Inl (400, a')" by blast
  from refused_post_changes_nothing [OF serve c] c show ?thesis by simp
qed

theorem unknown_board_subscribed_by_post_witness:
  "\<exists>a'. create_post good_net 200 [''h''] 1000 (Some ''i'') True ''new'' (new_post_request (replicate 64 CHR ''0'')) [] None app_a = Inl (404, a') \<and>
     is_board_subscribed [''h''] ''new'' (nd_fs (ap_node a'))"
proof -
  have "fresh_board [''h''] ''new'' (ap_node app_a)"
    by (simp add: fresh_board_def app_a_def empty_node_def fs_ok_def entry_ok_def clean_def plain_name_def node_at_def)
  moreover have "request_valid (stamp_request (Some ''i'') (new_post_request (replicate 64 CHR ''0'')))" by code_simp
  ultimately show ?thesis using unknown_board_subscribed_by_post by blast
qed

end
