(* ===== verification/ModApi.thy ===== *)
theory ModApi
  imports PostApi
begin

text \<open>
  The moderation routes of the HTTP API (\<open>retiboard/api/routes/moderation.py\<close>) over the rules, the purge cascades and
  the engine. Bodies are checked against their declared fields (422); what a route returns beside its effect is the
  result of the operation it calls.
\<close>

section \<open>Rules\<close>

definition body_valid :: "string \<Rightarrow> string \<Rightarrow> bool" where
  "body_valid target reason = (1 \<le> length target \<and> length target \<le> 128 \<and> length reason \<le> 512)"

definition posted :: "string \<Rightarrow> string \<Rightarrow> ('a, peer_node) http \<Rightarrow> peer_node \<Rightarrow> ('a, peer_node) http" where
  "posted target reason r n = (if body_valid target reason then r else Inl (422, n))"

definition rule_route :: "path \<Rightarrow> string \<Rightarrow> (control_db \<Rightarrow> control_db) \<Rightarrow> peer_node \<Rightarrow> (unit, peer_node) http" where
  "rule_route home board f n =
     (case open_subscribed home board n of
        Inl e \<Rightarrow> Inl e
      | Inr (_, n1) \<Rightarrow> Inr (on_store board (\<lambda>st. ((), st\<lparr>bs_control := f (bs_control st)\<rparr>)) n1))"

definition hide_thread_route :: "time \<Rightarrow> path \<Rightarrow> string \<Rightarrow> string \<Rightarrow> string \<Rightarrow> peer_node \<Rightarrow> (unit, peer_node) http" where
  "hide_thread_route now home board t reason n = posted t reason (rule_route home board (hide_thread \<lfloor>now\<rfloor> t reason) n) n"
definition unhide_thread_route :: "path \<Rightarrow> string \<Rightarrow> string \<Rightarrow> peer_node \<Rightarrow> (unit, peer_node) http" where
  "unhide_thread_route home board t = rule_route home board (unhide_thread t)"
definition hide_post_route :: "time \<Rightarrow> path \<Rightarrow> string \<Rightarrow> string \<Rightarrow> string \<Rightarrow> peer_node \<Rightarrow> (unit, peer_node) http" where
  "hide_post_route now home board p reason n = posted p reason (rule_route home board (hide_post \<lfloor>now\<rfloor> p reason) n) n"
definition unhide_post_route :: "path \<Rightarrow> string \<Rightarrow> string \<Rightarrow> peer_node \<Rightarrow> (unit, peer_node) http" where
  "unhide_post_route home board p = rule_route home board (unhide_post p)"
definition unpurge_post_route :: "path \<Rightarrow> string \<Rightarrow> string \<Rightarrow> peer_node \<Rightarrow> (unit, peer_node) http" where
  "unpurge_post_route home board p = rule_route home board (unpurge_post p)"
definition unpurge_thread_route :: "path \<Rightarrow> string \<Rightarrow> string \<Rightarrow> peer_node \<Rightarrow> (unit, peer_node) http" where
  "unpurge_thread_route home board t = rule_route home board (unpurge_thread t)"
definition hide_identity_route :: "time \<Rightarrow> path \<Rightarrow> string \<Rightarrow> string \<Rightarrow> string \<Rightarrow> peer_node \<Rightarrow> (unit, peer_node) http" where
  "hide_identity_route now home board i reason n = posted i reason (rule_route home board (hide_identity \<lfloor>now\<rfloor> i reason) n) n"
definition unhide_identity_route :: "path \<Rightarrow> string \<Rightarrow> string \<Rightarrow> peer_node \<Rightarrow> (unit, peer_node) http" where
  "unhide_identity_route home board i = rule_route home board (unhide_identity i)"
definition unban_attachment_route :: "path \<Rightarrow> string \<Rightarrow> string \<Rightarrow> peer_node \<Rightarrow> (unit, peer_node) http" where
  "unban_attachment_route home board h = rule_route home board (unban_attachment h)"

definition get_board_control_state :: "path \<Rightarrow> string \<Rightarrow> peer_node \<Rightarrow> (control_state, peer_node) http" where
  "get_board_control_state home board n =
     (case open_subscribed home board n of
        Inl e \<Rightarrow> Inl e | Inr (_, n1) \<Rightarrow> Inr (get_control_state (bs_control (store_of n1 board)), n1))"

definition get_banned_list_route ::
  "path \<Rightarrow> string \<Rightarrow> peer_node \<Rightarrow> ((string \<times> int \<times> string) list \<times> (string \<times> int \<times> string) list, peer_node) http" where
  "get_banned_list_route home board n =
     (case open_subscribed home board n of
        Inl e \<Rightarrow> Inl e | Inr (_, n1) \<Rightarrow> Inr (get_banned_list (bs_control (store_of n1 board)), n1))"

section \<open>Purges and bans\<close>

definition answered :: "('a, peer_node) run \<Rightarrow> ('a, peer_node) http" where
  "answered r = (case r of Inl (_, n) \<Rightarrow> Inl (500, n) | Inr x \<Rightarrow> Inr x)"

definition purge_post_route :: "time \<Rightarrow> path \<Rightarrow> string \<Rightarrow> string \<Rightarrow> string \<Rightarrow> peer_node \<Rightarrow> (purge_result, peer_node) http" where
  "purge_post_route now home board p reason n =
     posted p reason (case open_subscribed home board n of
        Inl e \<Rightarrow> Inl e | Inr (_, n1) \<Rightarrow> answered (purge_post now home board p reason n1)) n"

definition purge_thread_route :: "time \<Rightarrow> path \<Rightarrow> string \<Rightarrow> string \<Rightarrow> string \<Rightarrow> peer_node \<Rightarrow> (purge_result, peer_node) http" where
  "purge_thread_route now home board t reason n =
     posted t reason (case open_subscribed home board n of
        Inl e \<Rightarrow> Inl e | Inr (_, n1) \<Rightarrow> answered (purge_thread now home board t reason n1)) n"

definition ban_identity_route ::
  "(string list \<Rightarrow> string list) \<Rightarrow> time \<Rightarrow> path \<Rightarrow> string \<Rightarrow> string \<Rightarrow> string \<Rightarrow> peer_node \<Rightarrow> (nat \<times> purge_result, peer_node) http" where
  "ban_identity_route order now home board i reason n =
     posted i reason (case open_subscribed home board n of
        Inl e \<Rightarrow> Inl e
      | Inr (_, n1) \<Rightarrow>
          answered (purge_identity order now home board i reason
            (snd (on_store board (\<lambda>st. ((), st\<lparr>bs_control := unhide_identity i (block_identity \<lfloor>now\<rfloor> i reason (bs_control st))\<rparr>)) n1)))) n"

definition lift_ban :: "time \<Rightarrow> string \<Rightarrow> control_db \<Rightarrow> control_db" where
  "lift_ban now i c =
     (let c1 = unblock_identity i c
      in case get_active_moderation_action Identity_ban i c1 of
           None \<Rightarrow> c1 | Some aid \<Rightarrow> snd (reverse_moderation_action \<lfloor>now\<rfloor> aid c1))"

definition unban_identity_route :: "time \<Rightarrow> path \<Rightarrow> bool \<Rightarrow> string \<Rightarrow> string \<Rightarrow> app \<Rightarrow> (unit, app) http" where
  "unban_identity_route now home engine board i a =
     (case rule_route home board (lift_ban now i) (ap_node a) of
        Inl (st, n) \<Rightarrow> Inl (st, a\<lparr>ap_node := n\<rparr>)
      | Inr (_, n) \<Rightarrow>
          Inr ((), a\<lparr>ap_node := n, ap_engine := (if engine then schedule_catchup now board (ap_engine a) else ap_engine a)\<rparr>))"

text \<open>An error of the deletions leaves the rule that was set before them.\<close>

definition ban_attachment_route :: "time \<Rightarrow> path \<Rightarrow> string \<Rightarrow> string \<Rightarrow> string \<Rightarrow> peer_node \<Rightarrow> (unit, peer_node) http" where
  "ban_attachment_route now home board h reason n =
     posted h reason (case open_subscribed home board n of
        Inl e \<Rightarrow> Inl e
      | Inr (_, n1) \<Rightarrow>
          answered (bind_run (purge_blobs now home board [h]
            (snd (on_store board (\<lambda>st. ((), st\<lparr>bs_control := ban_attachment \<lfloor>now\<rfloor> h reason (bs_control st)\<rparr>)) n1)))
            (\<lambda>_ n2. Inr ((), n2)))) n"

definition request_catchup_route :: "time \<Rightarrow> bool \<Rightarrow> string \<Rightarrow> app \<Rightarrow> app" where
  "request_catchup_route now engine board a =
     (if engine then a\<lparr>ap_engine := schedule_catchup now board (ap_engine a)\<rparr> else a)"

section \<open>Rows that remain\<close>

definition row_keys :: "string \<Rightarrow> peer_node \<Rightarrow> (string \<times> string \<times> string) list" where
  "row_keys board n = map (\<lambda>p. (p_post_id p, p_thread_id p, p_identity_hash p)) (db_posts (bs_db (store_of n board)))"

lemma purge_blobs_frame:
  assumes "purge_blobs now home board hs n = Inr (r, n')"
  shows "bs_db (store_of n' c) = bs_db (store_of n c) \<and> bs_control (store_of n' c) = bs_control (store_of n c)"
proof -
  obtain n3 where n': "n' = fold (cancel_pending_chunk_session now) hs n3"
    and n3: "bs_db (store_of n3 c) = bs_db (store_of n c)" "bs_control (store_of n3 c) = bs_control (store_of n c)"
    using assms
    by (auto simp: purge_blobs_def bind_run_def on_fs_def on_store_def store_of_put Let_def split: sum.splits)
  have "same_but_queued n' n3" unfolding n' by (rule cancel_all_frame)
  with n3 show ?thesis by (simp add: same_but_queued_def)
qed

lemma purge_thread_rows:
  assumes "purge_thread now home board tid reason n = Inr (r, n')"
  shows "row_keys board n' = filter (\<lambda>(i, t, h). t \<noteq> tid) (row_keys board n)"
    and "bs_control (store_of n' board) = mark_thread_purged \<lfloor>now\<rfloor> tid reason (bs_control (store_of n board))"
  using assms
  by (auto simp: purge_thread_def on_store_def store_of_put row_keys_def delete_thread_metadata_def filter_map comp_def
      Let_def bind_run_def dest!: purge_blobs_frame [where c = board] split: sum.splits)

lemma expiry_keys: "map (\<lambda>p. (p_post_id p, p_thread_id p, p_identity_hash p)) (set_expiry t e ps) =
    map (\<lambda>p. (p_post_id p, p_thread_id p, p_identity_hash p)) ps"
  by (induction ps) (auto simp: set_expiry_def)

lemma activity_keys: "map (\<lambda>p. (p_post_id p, p_thread_id p, p_identity_hash p)) (set_last_activity t e ps) =
    map (\<lambda>p. (p_post_id p, p_thread_id p, p_identity_hash p)) ps"
  by (induction ps) (auto simp: set_last_activity_def)

lemma recompute_keys:
  assumes "recompute_on board tid n = Inr (u, n')"
  shows "row_keys board n' = row_keys board n" "bs_control (store_of n' board) = bs_control (store_of n board)"
  using assms
  by (auto simp: recompute_on_def row_keys_def store_of_put Let_def recompute_thread_lifecycle_def recompute_lifecycle_def
      expiry_keys activity_keys split: sum.splits option.splits prod.splits if_splits)

lemma purge_post_rows:
  assumes "purge_post now home board pid reason n = Inr (r, n')" and "distinct (map fst (row_keys board n))"
  shows "distinct (map fst (row_keys board n'))" "set (row_keys board n') \<subseteq> {k \<in> set (row_keys board n). fst k \<noteq> pid}"
    "has_control k (bs_control (store_of n board)) \<Longrightarrow> has_control k (bs_control (store_of n' board))"
proof -
  let ?row = "get_post pid (bs_db (store_of n board))"
  have "distinct (map fst (row_keys board n')) \<and> set (row_keys board n') \<subseteq> {k \<in> set (row_keys board n). fst k \<noteq> pid} \<and>
    (has_control k (bs_control (store_of n board)) \<longrightarrow> has_control k (bs_control (store_of n' board)))"
  proof (cases "case ?row of Some p \<Rightarrow> p_post_id p = p_thread_id p | None \<Rightarrow> False")
    case True
    then obtain p where p: "?row = Some p" "p_post_id p = p_thread_id p" by (auto split: option.splits)
    then have t: "purge_thread now home board (p_thread_id p) reason n = Inr (r, n')"
      using assms(1) by (simp add: purge_post_def)
    have "p_post_id p = pid" "p \<in> set (db_posts (bs_db (store_of n board)))"
      using p(1) by (auto simp: get_post_def dest: find_SomeD)
    then have mem: "(pid, pid, p_identity_hash p) \<in> set (row_keys board n)" and tid: "p_thread_id p = pid"
      using p(2) by (force simp: row_keys_def)+
    have "t = pid" if "(pid, t, h) \<in> set (row_keys board n)" for t h
      using eq_key_imp_eq_value [OF assms(2) that mem] by simp
    then show ?thesis
      using purge_thread_rows [OF t] assms(2) tid
      by (auto simp: distinct_map_filter mark_thread_purged_def has_control_set)
  next
    case False
    let ?n1 = "put_store board ((store_of n board)\<lparr>bs_db := snd (delete_post_metadata pid (bs_db (store_of n board)))\<rparr>) n"
    obtain n2 n3 x where b: "purge_blobs now home board (get_post_blob_references pid (bs_db (store_of n board))) ?n1 = Inr (x, n2)"
      and rec: "(case ?row of Some p \<Rightarrow> recompute_on board (p_thread_id p) n2 | None \<Rightarrow> Inr ((), n2)) = Inr ((), n3)"
      and n': "n' = put_store board ((store_of n3 board)\<lparr>bs_control := mark_post_purged \<lfloor>now\<rfloor> pid reason (bs_control (store_of n3 board))\<rparr>) n3"
      using assms(1) False
      by (auto simp: purge_post_def on_store_def Let_def bind_run_def split: sum.splits prod.splits)
    have n3: "row_keys board n3 = row_keys board n2" "bs_control (store_of n3 board) = bs_control (store_of n2 board)"
      using rec by (cases ?row; simp add: recompute_keys)+
    have "row_keys board n' = filter (\<lambda>(i, t, h). i \<noteq> pid) (row_keys board n)"
      using purge_blobs_frame [OF b, of board] n3(1)
      by (simp add: n' row_keys_def store_of_put delete_post_metadata_def filter_map comp_def)
    moreover have "bs_control (store_of n' board) = mark_post_purged \<lfloor>now\<rfloor> pid reason (bs_control (store_of n board))"
      using purge_blobs_frame [OF b, of board] n3(2) by (simp add: n' store_of_put)
    ultimately show ?thesis
      using assms(2) by (auto simp: distinct_map_filter mark_post_purged_def has_control_set)
  qed
  then show "distinct (map fst (row_keys board n'))" "set (row_keys board n') \<subseteq> {k \<in> set (row_keys board n). fst k \<noteq> pid}"
    "has_control k (bs_control (store_of n board)) \<Longrightarrow> has_control k (bs_control (store_of n' board))" by simp_all
qed

lemma record_keys: "row_keys board (record_target board aid thr x n) = row_keys board n"
  "has_control k (bs_control (store_of (record_target board aid thr x n) board)) = has_control k (bs_control (store_of n board))"
  by (simp_all add: record_target_def on_store_def row_keys_def store_of_put record_moderation_target_def has_control_def Let_def)

text \<open>A pass of purges that each take the rows they are meant for.\<close>

lemma purge_all_rows:
  assumes "purge_all purge (record_target board aid thr) xs acc n = Inr (acc', n')" and "distinct (map fst (row_keys board n))"
    and "\<And>x n r n1. purge x n = Inr (r, n1) \<Longrightarrow> distinct (map fst (row_keys board n)) \<Longrightarrow>
      distinct (map fst (row_keys board n1)) \<and> set (row_keys board n1) \<subseteq> {key \<in> set (row_keys board n). \<not> hit x key} \<and>
      (has_control k (bs_control (store_of n board)) \<longrightarrow> has_control k (bs_control (store_of n1 board)))"
  shows "distinct (map fst (row_keys board n')) \<and>
    set (row_keys board n') \<subseteq> {key \<in> set (row_keys board n). \<forall>x \<in> set xs. \<not> hit x key} \<and>
    (has_control k (bs_control (store_of n board)) \<longrightarrow> has_control k (bs_control (store_of n' board)))"
  using assms(1,2)
proof (induction xs arbitrary: acc n)
  case (Cons x xs)
  then obtain r n1 where n1: "purge x n = Inr (r, n1)"
    and rest: "purge_all purge (record_target board aid thr) xs (add_results acc r) (record_target board aid thr x n1) = Inr (acc', n')"
    by (auto simp: bind_run_def split: sum.splits)
  note step = assms(3) [OF n1 Cons.prems(2)]
  with Cons.IH [OF rest] show ?case by (auto simp: record_keys)
qed simp

lemma purged_identity:
  assumes "purge_identity order now home board i reason n = Inr (r, n')" and "distinct (map fst (row_keys board n))"
    and "\<And>ts. set (order ts) = set ts"
  shows "(\<forall>key \<in> set (row_keys board n'). snd (snd key) \<noteq> i) \<and>
    (has_control k (bs_control (store_of n board)) \<longrightarrow> has_control k (bs_control (store_of n' board)))"
proof -
  let ?posts = "get_posts_by_identity i (bs_db (store_of n board))"
  let ?ops = "order (remdups (map p_thread_id (filter (\<lambda>p. p_post_id p = p_thread_id p) ?posts)))"
  let ?replies = "remdups (map p_post_id (filter (\<lambda>p. p_thread_id p \<notin> set ?ops) ?posts))"
  let ?log = "\<lambda>st. (fst (create_moderation_action \<lfloor>now\<rfloor> Identity_ban i reason (bs_control st)),
    st\<lparr>bs_control := snd (create_moderation_action \<lfloor>now\<rfloor> Identity_ban i reason (bs_control st))\<rparr>)"
  obtain aid n3 where log: "on_store board ?log n = (aid, n3)" by fastforce
  then have n3: "row_keys board n3 = row_keys board n" "has_control k (bs_control (store_of n3 board)) = has_control k (bs_control (store_of n board))"
    by (auto simp: on_store_def create_moderation_action_def row_keys_def store_of_put has_control_def Let_def)
  obtain acc4 n4 acc where n4: "purge_all (\<lambda>t. purge_thread now home board t reason) (record_target board aid True) ?ops
      (empty_result ''identity'' i) n3 = Inr (acc4, n4)"
    and n5: "purge_all (\<lambda>p. purge_post now home board p reason) (record_target board aid False) ?replies acc4 n4 = Inr (acc, n')"
    using assms(1) by (auto simp: purge_identity_def log bind_run_def Let_def split: sum.splits prod.splits)
  have threads: "distinct (map fst (row_keys board n4)) \<and>
      set (row_keys board n4) \<subseteq> {key \<in> set (row_keys board n3). \<forall>x \<in> set ?ops. \<not> fst (snd key) = x} \<and>
      (has_control k (bs_control (store_of n3 board)) \<longrightarrow> has_control k (bs_control (store_of n4 board)))"
    by (rule purge_all_rows [OF n4]) (use assms(2) n3 in \<open>auto dest: purge_thread_rows simp: distinct_map_filter
      mark_thread_purged_def has_control_set\<close>)
  have posts: "distinct (map fst (row_keys board n')) \<and>
      set (row_keys board n') \<subseteq> {key \<in> set (row_keys board n4). \<forall>x \<in> set ?replies. \<not> fst key = x} \<and>
      (has_control k (bs_control (store_of n4 board)) \<longrightarrow> has_control k (bs_control (store_of n' board)))"
  proof (rule purge_all_rows [OF n5])
    show "distinct (map fst (row_keys board n4))" using threads by simp
    fix x n r n1
    assume p: "purge_post now home board x reason n = Inr (r, n1)" "distinct (map fst (row_keys board n))"
    show "distinct (map fst (row_keys board n1)) \<and> set (row_keys board n1) \<subseteq> {key \<in> set (row_keys board n). fst key \<noteq> x} \<and>
      (has_control k (bs_control (store_of n board)) \<longrightarrow> has_control k (bs_control (store_of n1 board)))"
      using purge_post_rows [OF p] by simp
  qed
  have gone: "h \<noteq> i" if key: "(pid, t, h) \<in> set (row_keys board n')" for pid t h
  proof
    assume h: "h = i"
    note k4 = subsetD [OF conjunct1 [OF conjunct2 [OF posts]] key]
    then have in4: "(pid, t, h) \<in> set (row_keys board n4)" and pid: "pid \<notin> set ?replies"
      unfolding mem_Collect_eq fst_conv by blast+
    note k3 = subsetD [OF conjunct1 [OF conjunct2 [OF threads]] in4]
    then have "(pid, t, h) \<in> set (row_keys board n)" and t: "t \<notin> set ?ops"
      unfolding mem_Collect_eq fst_conv snd_conv n3(1) by blast+
    then obtain p where "p \<in> set ?posts" "p_post_id p = pid" "p_thread_id p = t"
      using h by (auto simp: row_keys_def get_posts_by_identity_def)
    then have "p \<in> set (filter (\<lambda>p. p_thread_id p \<notin> set ?ops) ?posts)" "p_post_id p = pid" using t by simp_all
    with pid show False by force
  qed
  have "\<forall>key \<in> set (row_keys board n'). snd (snd key) \<noteq> i" using gone by (metis prod.collapse)
  moreover have "has_control k (bs_control (store_of n board)) \<longrightarrow> has_control k (bs_control (store_of n' board))"
    using conjunct2 [OF conjunct2 [OF posts]] conjunct2 [OF conjunct2 [OF threads]] n3(2) by blast
  ultimately show ?thesis by blast
qed

text \<open>Property C10: after an identity is banned none of its posts is left on the board and none is admitted again.\<close>

theorem banned_identity_gone:
  assumes "ban_identity_route order now home board i reason n = Inr (r, n')"
    and "distinct (map p_post_id (db_posts (bs_db (store_of n board))))" and "\<And>ts. set (order ts) = set ts"
  shows "(\<forall>p \<in> set (db_posts (bs_db (store_of n' board))). p_identity_hash p \<noteq> i) \<and>
    (\<forall>p. p_identity_hash p = i \<longrightarrow> \<not> md_allowed (should_reject_post p (bs_control (store_of n' board))))"
proof -
  have "body_valid i reason" using assms(1) by (simp add: ban_identity_route_def posted_def split: if_splits)
  then have i: "i \<noteq> []" by (auto simp: body_valid_def)
  let ?block = "\<lambda>st. ((), st\<lparr>bs_control := unhide_identity i (block_identity \<lfloor>now\<rfloor> i reason (bs_control st))\<rparr>)"
  obtain n1 n2 where n1: "open_subscribed home board n = Inr ((), n1)" and n2: "n2 = snd (on_store board ?block n1)"
    and purge: "purge_identity order now home board i reason n2 = Inr (r, n')"
    using assms(1) by (auto simp: ban_identity_route_def posted_def answered_def split: if_splits sum.splits)
  let ?k = "(Scope_identity, i, Action_block)"
  have "store_of n1 board = store_of n board"
    using n1 by (auto simp: open_subscribed_def on_fs_def store_of_def split: if_splits sum.splits)
  then have "has_control ?k (bs_control (store_of n2 board))" and "row_keys board n2 = row_keys board n"
    by (simp_all add: n2 on_store_def store_of_put row_keys_def has_control_clear has_control_set unhide_identity_def block_identity_def)
  moreover have "map fst (row_keys board n) = map p_post_id (db_posts (bs_db (store_of n board)))"
    by (simp add: row_keys_def)
  ultimately have "(\<forall>key \<in> set (row_keys board n'). snd (snd key) \<noteq> i) \<and> has_control ?k (bs_control (store_of n' board))"
    using purged_identity [OF purge, of ?k] assms(2,3) by simp
  then show ?thesis using i by (auto simp: row_keys_def rejected_iff is_identity_blocked_def)
qed

theorem banned_identity_gone_witness:
  "\<exists>r n'. ban_identity_route (\<lambda>ts. ts) 200 [''h''] ''b'' ''i'' [] open_node = Inr (r, n') \<and>
     (\<forall>p \<in> set (db_posts (bs_db (store_of n' ''b''))). p_identity_hash p \<noteq> ''i'') \<and>
     \<not> md_allowed (should_reject_post (sample_post ''n'' ''t'' ''i'' ''c'' []) (bs_control (store_of n' ''b'')))"
proof -
  have "distinct (map p_post_id (db_posts (bs_db (store_of open_node ''b''))))" by code_simp
  note gone = banned_identity_gone [OF _ this]
  have "(case ban_identity_route (\<lambda>ts. ts) 200 [''h''] ''b'' ''i'' [] open_node of Inl _ \<Rightarrow> False | Inr (r, _) \<Rightarrow> 0 < pr_deleted_posts (snd r))"
    by code_simp
  then obtain r n' where b: "ban_identity_route (\<lambda>ts. ts) 200 [''h''] ''b'' ''i'' [] open_node = Inr (r, n')"
    by (auto split: sum.splits)
  from gone [OF b] b show ?thesis by simp
qed

end
