(* ===== verification/Spec2Isabelle.thy ===== *)
theory Spec2Isabelle
  imports MessageQueue Pow Chunks SwarmOutcomes Scheduler RateLimiter PeersSafe PostDbSafe Control ChunkDb
    PayloadsSafe PurgeSafe PrunerSafe ReceiverSafe GossipSafe EngineSafe Broadcast BoardsSafe SyncSafe FetchEnd ModApi
begin

text \<open>
  Verification of RetiBoard, a peer-to-peer image board over the Reticulum network. The program is the
  Python package \<open>src/retiboard\<close>; paths below are relative to it (\<open>src/retiboard/retiboard\<close> is an identical copy).

  \<^bold>\<open>The program.\<close> A node keeps a directory per board with an SQLite database of post metadata, a directory of
  encrypted payloads named by their SHA-256, and a cache for payloads that are being fetched. Metadata spreads by gossip:
  a new post is broadcast, HAVE packets summarise what a node has, and delta requests and responses
  fill in what is missing. Payloads are fetched on demand, large ones in chunks from several peers at once. Everything that
  goes to a peer passes the sync engine, which queues what has no path yet. Old threads expire and are pruned; local rules
  hide, purge and ban. A small HTTP API serves the front end.

  \<^bold>\<open>The theories\<close>, each with the files it models. A theory \<open>XSafe\<close> holds the properties of the theory \<open>X\<close>.

  \<^item> \<open>Prelude\<close>, \<open>Json\<close>, \<open>Sha256\<close>, \<open>Stores\<close>, \<open>Pools\<close>: Python's exceptions, ordered dictionaries and state-passing runs that may raise;
    \<open>json.dumps\<close>; SHA-256; the contracts of keyed stores and of slot pools as locales, which the tables of a database, the
    payload files and the scheduler interpret.
  \<^item> \<open>Models\<close>: \<open>db/models.py\<close>. \<open>Pow\<close>: \<open>crypto/pow.py\<close>.
  \<^item> \<open>PostDb\<close>, \<open>Control\<close>, \<open>ChunkDb\<close>: \<open>db/database.py\<close>, its tables as lists of rows in insertion order: posts and configuration, rules
    and moderation log, transfer state.
  \<^item> \<open>Payloads\<close>: \<open>storage/payloads.py\<close> over an explicit file system of paths, directories and files.
  \<^item> \<open>MessageQueue\<close>, \<open>RateLimiter\<close>, \<open>Scheduler\<close>, \<open>Peers\<close>: \<open>sync/message_queue.py\<close>, \<open>sync/rate_limiter.py\<close>, \<open>sync/payload_scheduler.py\<close>,
    \<open>sync/peers.py\<close>.
  \<^item> \<open>Chunks\<close>, \<open>Swarm\<close> (with \<open>SwarmInv\<close>, \<open>SwarmSafe\<close>, \<open>SwarmOutcomes\<close>): \<open>chunks/\<close>.
  \<^item> \<open>Sessions\<close>: \<open>db/batcher.py\<close>, the registry of fetch sessions in \<open>sync/payload_fetch.py\<close>, and the state of a node, \<^typ>\<open>peer_node\<close>: the boards'
    databases, the files, the registry and the scheduler.
  \<^item> \<open>Policy\<close>, \<open>Purge\<close>: \<open>moderation/\<close>. \<open>Settings\<close>: \<open>settings.py\<close>. \<open>Pruner\<close>: \<open>pruning/pruner.py\<close>.
  \<^item> \<open>Receiver\<close>: \<open>handle_incoming_metadata\<close> of \<open>sync/receiver.py\<close>. \<open>Gossip\<close>: \<open>sync/have.py\<close>, \<open>sync/have_handler.py\<close>, \<open>sync/delta.py\<close>.
  \<^item> \<open>Engine\<close>: \<open>sync/engine.py\<close>, the record \<^typ>\<open>engine\<close>. \<open>Broadcast\<close>: \<open>sync/broadcast.py\<close>, \<open>sync/replication.py\<close>.
  \<^item> \<open>Boards\<close>: \<open>boards/\<close>, and \<^typ>\<open>app\<close>, a node with its engine and its boards.
  \<^item> \<open>Delivery\<close>: the delivery callback of \<open>sync/receiver.py\<close>. \<open>Fetch\<close>, \<open>FetchLoop\<close> (with \<open>FetchSafe\<close>, \<open>FetchProps\<close>, \<open>FetchEnd\<close>):
    \<open>sync/payload_fetch.py\<close>, on \<^typ>\<open>fetcher\<close>, an \<^typ>\<open>app\<close> with its live fetch sessions and the resources it sends, and the rest of the
    callback; \<open>transport/__init__.py\<close>.
  \<^item> \<open>SyncSafe\<close>: two nodes. \<open>PostApi\<close>, \<open>ModApi\<close>: \<open>api/routes/posts.py\<close> and \<open>api/routes/moderation.py\<close>.

  \<^bold>\<open>How code is modelled.\<close> A class is a record, an operation a function that returns the new state, with the exception
  as a value where the code can raise. An exception keeps the state that was reached. Python's integers are \<^typ>\<open>int\<close>, times are rationals,
  floats that overflow are checked where the code computes powers; bytes are \<^typ>\<open>8 word\<close>. A database transaction that is rolled back or
  closed without a commit leaves the tables as they were; SQLite's range of integers is checked where a row is bound. A coroutine is cut at the points where it waits: each part is
  a step, and a step relation (\<open>swarm_step\<close>, \<open>engine_step\<close>, \<open>fetch_step\<close>, \<open>limiter_step\<close>) puts them in any order; its reachable
  states carry the invariants. What the code asks of Reticulum, LXMF, the clock, the random generator and the operating system is an
  argument: \<^typ>\<open>net\<close> and \<^typ>\<open>env\<close> collect the answers.

  \<^bold>\<open>What is shown.\<close>
  \<^item> Transfers: the swarm keeps its limits through every interleaving (\<open>swarm_within_limits\<close>, \<open>fetch_within_limits\<close>), plans only what is
    allowed and all that is possible; a served chunk is accepted and an accepted chunk is a requested, verified one; chunks in any order give back
    the blob; offers say what they mean; the scheduler's tables agree.
  \<^item> Posts: what a stored post satisfies, that a created post is stored by the others, that a refused one changes nothing, that the order of
    arrival does not matter, what expiry, the thread cap, the quota and pruning remove.
  \<^item> Moderation: a purge or ban leaves nothing and lets nothing back in by gossip.
  \<^item> Gossip: the exact content of a delta response, what processing it does, agreement of two nodes, and the exchange that makes a node hold what the
    other had.
  \<^item> Engine: bounded queues and well-formed state, flushing as a prefix delivery, the delta processor's termination, the reach of a broadcast.
  \<^item> Boards: subscription and its round trip, removal, what a pushed announce can change.
  \<^item> Defects: several properties state what the code does where it does not do what it means to, among them a complete download that never
    finishes when it is resumed, requests charged to peers that never got them, payloads stored unasked, boards opened by a message, and
    path failures that are never counted.

  \<^bold>\<open>Bounds and fuel.\<close> Nothing of the program runs on fuel. The loops over a queue or a list are structural. The swarm's planning loop for
    one peer ends because the peer's free slots decrease. The proof-of-work search walks a given list of draws up to its bound. The rounds of the fetch loop
    are given by the list of readings of the clock and the network, one for each round; 41 readings are enough to see an idle loop end.

  \<^bold>\<open>Not modelled.\<close> The text of the schema and its migrations (\<open>db/database.py\<close>, run by SQLite), the connection pool and the timer of the pruner, configuration and start-up, logging, the
  web sockets and the routes that only pass on a call to a modelled operation (\<open>api/routes/boards.py\<close>, \<open>settings.py\<close>, \<open>status.py\<close>, \<open>sync.py\<close>), and the reading of
  forms. Of \<open>sync/payload_fetch.py\<close>: links and their set-up, the events that wake a waiting coroutine (what it reads when it wakes is
  modelled), and the summary list of active fetches. Two threads are not interleaved within a step.
\<close>

end
